(* ===== verification/Prelude.thy ===== *)
theory Prelude
  imports Main "HOL-Library.Word"
begin

text \<open>
  Shared vocabulary of the development: the machine types of the firmware, the
  little-endian byte layouts every wire format uses, C strings as byte lists without a
  NUL, and the generic facts about lists and words that the component theories share.

  Conventions used throughout:
  \<^item> \<open>uint8_t .. uint64_t\<close> are words of that width, so \<open>+\<close>, \<open>*\<close> wrap as in C;
  \<^item> a buffer with its length is a byte list; a C string is the byte list before its NUL;
  \<^item> \<open>millis()\<close> is an argument \<open>now :: u32\<close> of every operation that reads it, and elapsed
    time is the wrapping difference of two readings, as in the source;
  \<^item> mutexes protect one call at a time, so one call of an operation is one atomic step;
  \<^item> console output has no effect on the state and is left out.
\<close>

unbundle bit_operations_syntax

type_synonym u8 = "8 word"
type_synonym u16 = "16 word"
type_synonym u32 = "32 word"
type_synonym u64 = "64 word"
type_synonym bytes = "u8 list"

named_theorems len_simps \<open>lengths of encoded byte sequences\<close>
named_theorems wire_simps \<open>what is read back from an encoded byte sequence\<close>

section \<open>Little-endian layouts\<close>

definition le16 :: "u16 \<Rightarrow> bytes" where
  "le16 w = [ucast w, ucast (drop_bit 8 w)]"

definition le32 :: "u32 \<Rightarrow> bytes" where
  "le32 w = [ucast w, ucast (drop_bit 8 w), ucast (drop_bit 16 w), ucast (drop_bit 24 w)]"

definition get16 :: "bytes \<Rightarrow> nat \<Rightarrow> u16" where
  "get16 bs i = ucast (bs ! i) OR push_bit 8 (ucast (bs ! (i + 1)))"

definition get32 :: "bytes \<Rightarrow> nat \<Rightarrow> u32" where
  "get32 bs i = ucast (bs ! i) OR push_bit 8 (ucast (bs ! (i + 1)))
      OR push_bit 16 (ucast (bs ! (i + 2))) OR push_bit 24 (ucast (bs ! (i + 3)))"

definition get64 :: "bytes \<Rightarrow> nat \<Rightarrow> u64" where
  "get64 bs i = foldr (\<lambda>k acc. acc OR push_bit (8 * k) (ucast (bs ! (i + k)))) [0..<8] 0"

lemma length_le16 [simp, len_simps]: "length (le16 w) = 2"
  by (simp add: le16_def)

lemma length_le32 [simp, len_simps]: "length (le32 w) = 4"
  by (simp add: le32_def)

lemma join16: "ucast (ucast w :: u8) OR push_bit 8 (ucast (ucast (drop_bit 8 w) :: u8)) = (w :: u16)"
  by (rule bit_word_eqI) (auto simp: bit_simps)

lemma join32:
  "ucast (ucast w :: u8) OR push_bit 8 (ucast (ucast (drop_bit 8 w) :: u8))
    OR push_bit 16 (ucast (ucast (drop_bit 16 w) :: u8))
    OR push_bit 24 (ucast (ucast (drop_bit 24 w) :: u8)) = (w :: u32)" (is "?l = w")
proof (rule bit_word_eqI)
  fix n :: nat
  assume "n < LENGTH(32)"
  then consider "n < 8" | "8 \<le> n" "n < 16" | "16 \<le> n" "n < 24" | "24 \<le> n" "n < 32"
    by fastforce
  then show "bit ?l n = bit w n"
    by cases (auto simp: bit_simps)
qed

lemma nth_append_offset: "i \<ge> length xs \<Longrightarrow> (xs @ ys) ! i = ys ! (i - length xs)"
  by (simp add: nth_append)

lemma get16_le16 [wire_simps]: "get16 (pre @ le16 w @ post) (length pre) = w"
  by (simp add: get16_def le16_def nth_append join16)

lemma get32_le32 [wire_simps]: "get32 (pre @ le32 w @ post) (length pre) = w"
  by (simp add: get32_def le32_def nth_append join32)

lemma get32_le32_at [wire_simps]:
  "i = length pre \<Longrightarrow> get32 (pre @ le32 w @ post) i = w"
  by (simp add: get32_le32)

lemma get16_le16_at [wire_simps]:
  "i = length pre \<Longrightarrow> get16 (pre @ le16 w @ post) i = w"
  by (simp add: get16_le16)

section \<open>Byte-wise exclusive or\<close>

lemma xor_right_cancel: "(a :: 'a :: len word) XOR c = b XOR c \<longleftrightarrow> a = b"
proof
  assume "a XOR c = b XOR c"
  then have "(a XOR c) XOR c = (b XOR c) XOR c" by simp
  then show "a = b" by (simp add: xor.assoc)
qed simp

lemma xor_left_cancel: "(c :: 'a :: len word) XOR a = c XOR b \<longleftrightarrow> a = b"
  using xor_right_cancel [of a c b] by (simp add: xor.commute)

definition xors :: "bytes \<Rightarrow> bytes \<Rightarrow> bytes" where
  "xors as bs = map2 (XOR) as bs"

lemma length_xors [simp, len_simps]: "length (xors as bs) = min (length as) (length bs)"
  by (simp add: xors_def)

lemma xors_Nil [simp]: "xors [] ys = []" "xors xs [] = []"
  by (simp_all add: xors_def)

lemma xors_Cons [simp]: "xors (x # xs) (y # ys) = (x XOR y) # xors xs ys"
  by (simp add: xors_def)

lemma xors_involutive: "length xs \<le> length ks \<Longrightarrow> xors (xors xs ks) ks = xs"
proof (induction xs arbitrary: ks)
  case (Cons x xs)
  then obtain k ks' where "ks = k # ks'" by (cases ks) auto
  with Cons show ?case by (simp add: xor.assoc)
qed simp

section \<open>The top bit of a byte\<close>

lemma and_0x80: "b AND 0x80 \<noteq> 0 \<longleftrightarrow> bit (b :: u8) 7"
proof -
  have "(0x80 :: u8) = push_bit 7 1" by simp
  then show ?thesis by (metis and.commute and_exp_eq_0_iff_not_bit push_bit_of_1)
qed

lemma odd_div_128: "0 \<le> n \<Longrightarrow> n < 256 \<Longrightarrow> odd (n div 128) \<longleftrightarrow> 128 \<le> (n :: int)"
proof (cases "128 \<le> n")
  case True
  assume "n < 256"
  with True have "n div 128 = 1" by (intro int_div_pos_eq [where r = "n - 128"]) auto
  with True show ?thesis by simp
next
  case False
  assume "0 \<le> n"
  with False show ?thesis by (simp add: div_pos_pos_trivial)
qed

lemma top_bit_8: "bit (b :: u8) 7 \<longleftrightarrow> 128 \<le> uint b"
proof -
  have "uint b < 256" using uint_lt2p [of b] by simp
  moreover have "bit b 7 \<longleftrightarrow> odd (uint b div 128)"
  proof -
    have "bit b 7 = bit (uint b) 7" by (simp add: bit_uint_iff)
    then show ?thesis by (simp add: bit_iff_odd)
  qed
  ultimately show ?thesis by (simp add: odd_div_128)
qed

lemma small_byte:
  assumes "b < (0x80 :: u8)"
  shows "b AND 0x80 = 0" and "b AND 0x7F = b"
proof -
  have "uint b < 128" using assms by (simp add: word_less_def)
  then have "\<not> bit b 7" by (simp add: top_bit_8)
  then show "b AND 0x80 = 0" using and_0x80 [of b] by blast
  show "b AND 0x7F = b" using less_mask_eq [of b 7] assms by (simp add: mask_eq_exp_minus_1)
qed

section \<open>C strings\<close>

definition str :: "string \<Rightarrow> bytes" where
  "str s = map of_char s"

definition cstr_ok :: "bytes \<Rightarrow> bool" where
  "cstr_ok s \<longleftrightarrow> (0 :: u8) \<notin> set s"

text \<open>The string held in a character buffer: its bytes before the first NUL.\<close>

definition cstr_of :: "bytes \<Rightarrow> bytes" where
  "cstr_of buf = takeWhile (\<lambda>b. b \<noteq> 0) buf"

text \<open>\<open>strncpy(dst, src, cap - 1); dst[cap - 1] = 0\<close>: the string \<open>dst\<close> then holds.\<close>

definition bounded_copy :: "nat \<Rightarrow> bytes \<Rightarrow> bytes" where
  "bounded_copy cap s = take (cap - 1) s"

lemma length_bounded_copy: "0 < cap \<Longrightarrow> length (bounded_copy cap s) < cap"
  by (simp add: bounded_copy_def)

lemma bounded_copy_id: "length s < cap \<Longrightarrow> bounded_copy cap s = s"
  by (simp add: bounded_copy_def)

lemma cstr_ok_simps [simp]:
  "cstr_ok []" "cstr_ok (b # s) \<longleftrightarrow> b \<noteq> 0 \<and> cstr_ok s"
  "cstr_ok (s @ t) \<longleftrightarrow> cstr_ok s \<and> cstr_ok t"
  by (auto simp: cstr_ok_def)

lemma cstr_ok_take: "cstr_ok s \<Longrightarrow> cstr_ok (take n s)"
  by (auto simp: cstr_ok_def dest: in_set_takeD)

lemma cstr_ok_drop: "cstr_ok s \<Longrightarrow> cstr_ok (drop n s)"
  by (auto simp: cstr_ok_def dest: in_set_dropD)

lemma cstr_ok_bounded_copy: "cstr_ok s \<Longrightarrow> cstr_ok (bounded_copy cap s)"
  by (simp add: bounded_copy_def cstr_ok_take)

lemma cstr_of_ok: "cstr_ok (cstr_of buf)"
  by (auto simp: cstr_ok_def cstr_of_def dest: set_takeWhileD)

lemma cstr_of_terminated: "cstr_ok s \<Longrightarrow> cstr_of (s @ 0 # rest) = s"
  by (induction s) (auto simp: cstr_of_def)

lemma cstr_of_id: "cstr_ok s \<Longrightarrow> cstr_of s = s"
  by (induction s) (auto simp: cstr_of_def)

section \<open>Generic list facts\<close>

lemma foldl_inv:
  assumes "P s" and "\<And>s x. P s \<Longrightarrow> P (f s x)"
  shows "P (foldl f s xs)"
  using assms(1)
proof (induction xs arbitrary: s)
  case (Cons x xs)
  then show ?case using assms(2) by simp
qed simp

lemma list_update_at_append:
  "i = length xs \<Longrightarrow> (xs @ y # ys)[i := z] = xs @ z # ys"
  by simp

lemma take_update_beyond: "n \<le> i \<Longrightarrow> take n (xs[i := x]) = take n xs"
  by (simp add: take_update_cancel)

lemma take_Suc_update: "i < length xs \<Longrightarrow> take (Suc i) (xs[i := x]) = take i xs @ [x]"
  by (simp add: take_Suc_conv_app_nth)

section \<open>Elapsed time on a wrapping clock\<close>

definition elapsed :: "u32 \<Rightarrow> u32 \<Rightarrow> u32" where
  "elapsed now since = now - since"

lemma elapsed_self [simp]: "elapsed t t = 0"
  by (simp add: elapsed_def)

lemma elapsed_later: "elapsed (t + d) t = d"
  by (simp add: elapsed_def)

text \<open>The packet buffer of a radio (\<open>src/src/LoraRadio.h\<close>).\<close>

definition LORA_MAX_PACKET :: nat where "LORA_MAX_PACKET = 256"

end
