(* ===== verification/LinkProtocol.thy ===== *)
theory LinkProtocol
  imports Prelude
begin

text \<open>
  The wire protocol of the host / co-processor UART link (\<open>src/src/LinkProtocol.h\<close>): the
  CRC-16/CCITT, the frame builder, the packed payload structs, and the interface
  \<open>frame_link\<close> that both receivers of the protocol meet. A \<open>float\<close> field that is only
  copied is carried as its 32-bit pattern.
\<close>

section \<open>Constants and payload structs\<close>

definition PRE0 :: u8 where "PRE0 = 0xAA"
definition PRE1 :: u8 where "PRE1 = 0x55"
definition HEADER_LEN :: nat where "HEADER_LEN = 6"
definition CRC_LEN :: nat where "CRC_LEN = 2"
definition MAX_PAYLOAD :: nat where "MAX_PAYLOAD = 300"
definition MAX_FRAME :: nat where "MAX_FRAME = HEADER_LEN + MAX_PAYLOAD + CRC_LEN"
definition RADIO_NONE :: u8 where "RADIO_NONE = 0xFF"

datatype link_type =
    MSG_CFG_RADIO | MSG_TX | MSG_START_RX | MSG_PING | MSG_RESET
  | MSG_RX | MSG_TX_DONE | MSG_READY | MSG_LOG | MSG_PONG

fun link_code :: "link_type \<Rightarrow> u8" where
  "link_code MSG_CFG_RADIO = 0x01"
| "link_code MSG_TX = 0x02"
| "link_code MSG_START_RX = 0x03"
| "link_code MSG_PING = 0x04"
| "link_code MSG_RESET = 0x05"
| "link_code MSG_RX = 0x81"
| "link_code MSG_TX_DONE = 0x82"
| "link_code MSG_READY = 0x83"
| "link_code MSG_LOG = 0x84"
| "link_code MSG_PONG = 0x85"

record cfg_radio =
  cfg_enable :: u8
  cfg_frequency :: u32
  cfg_bandwidth :: u32
  cfg_sf :: u8
  cfg_cr :: u8
  cfg_syncWord :: u8
  cfg_txPower :: u8
  cfg_preambleLen :: u16

definition sizeof_CfgRadio :: nat where "sizeof_CfgRadio = 15"

definition pack_CfgRadio :: "cfg_radio \<Rightarrow> bytes" where
  "pack_CfgRadio c = [cfg_enable c] @ le32 (cfg_frequency c) @ le32 (cfg_bandwidth c)
     @ [cfg_sf c, cfg_cr c, cfg_syncWord c, cfg_txPower c] @ le16 (cfg_preambleLen c)"

definition unpack_CfgRadio :: "bytes \<Rightarrow> cfg_radio" where
  "unpack_CfgRadio b = \<lparr>cfg_enable = b ! 0, cfg_frequency = get32 b 1, cfg_bandwidth = get32 b 5,
     cfg_sf = b ! 9, cfg_cr = b ! 10, cfg_syncWord = b ! 11, cfg_txPower = b ! 12,
     cfg_preambleLen = get16 b 13\<rparr>"

definition sizeof_RxHeader :: nat where "sizeof_RxHeader = 8"

definition pack_RxHeader :: "u32 \<Rightarrow> u32 \<Rightarrow> bytes" where
  "pack_RxHeader rssi snr = le32 rssi @ le32 snr"

lemma unpack_pack_CfgRadio [wire_simps]: "unpack_CfgRadio (pack_CfgRadio c @ rest) = c"
  by (simp add: unpack_CfgRadio_def pack_CfgRadio_def le32_def le16_def get32_def get16_def
      join16 join32)

lemma length_pack_CfgRadio [len_simps]: "length (pack_CfgRadio c) = sizeof_CfgRadio"
  by (simp add: pack_CfgRadio_def sizeof_CfgRadio_def)

section \<open>CRC-16/CCITT\<close>

definition crc_bit :: "u16 \<Rightarrow> u16" where
  "crc_bit c = (if c AND 0x8000 \<noteq> 0 then push_bit 1 c XOR 0x1021 else push_bit 1 c)"

definition crc_byte :: "u16 \<Rightarrow> u8 \<Rightarrow> u16" where
  "crc_byte c d = (crc_bit ^^ 8) (c XOR push_bit 8 (ucast d))"

definition crc16 :: "bytes \<Rightarrow> u16" where
  "crc16 d = foldl crc_byte 0xFFFF d"

lemma and_0x8000: "c AND 0x8000 \<noteq> 0 \<longleftrightarrow> bit (c :: u16) 15"
proof -
  have "(0x8000 :: u16) = push_bit 15 1" by simp
  then show ?thesis by (metis and.commute and_exp_eq_0_iff_not_bit push_bit_of_1)
qed

lemma bit_crc_bit_0: "bit (crc_bit c) 0 = bit c 15"
proof -
  have "\<not> bit (push_bit 1 c) 0" by (simp only: bit_simps) simp
  then show ?thesis by (auto simp: crc_bit_def and_0x8000 bit_xor_iff simp del: push_bit_Suc)
qed

lemma push_bit_1_inj:
  assumes "push_bit 1 x = push_bit 1 (y :: u16)" and "n < 15"
  shows "bit x n = bit y n"
proof -
  have "bit (push_bit 1 x) (Suc n) = bit (push_bit 1 y) (Suc n)" using assms(1) by simp
  with assms(2) show ?thesis by (simp only: bit_simps) simp
qed

lemma inj_crc_bit: "inj crc_bit"
proof (rule injI)
  fix x y assume eq: "crc_bit x = crc_bit y"
  then have top: "bit x 15 = bit y 15" by (metis bit_crc_bit_0)
  with eq have "push_bit 1 x = push_bit 1 y"
    unfolding crc_bit_def and_0x8000 by (metis xor_right_cancel)
  then have low: "bit x n = bit y n" if "n < 15" for n
    using that by (rule push_bit_1_inj)
  show "x = y"
  proof (rule bit_word_eqI)
    fix n assume "n < LENGTH(16)"
    then have "n < 15 \<or> n = 15" by auto
    then show "bit x n = bit y n" using low top by auto
  qed
qed

lemma inj_crc_bits: "(crc_bit ^^ n) x = (crc_bit ^^ n) y \<Longrightarrow> x = y"
  by (induction n) (auto dest: injD [OF inj_crc_bit])

lemma crc_byte_inj_state: "crc_byte c d = crc_byte c' d \<Longrightarrow> c = c'"
  unfolding crc_byte_def by (drule inj_crc_bits) (simp only: xor_right_cancel)

lemma push_bit_8_inj:
  assumes "push_bit 8 (ucast d) = (push_bit 8 (ucast d') :: u16)"
  shows "d = (d' :: u8)"
proof (rule bit_word_eqI)
  fix n assume n: "n < LENGTH(8)"
  from assms have "bit (push_bit 8 (ucast d) :: u16) (n + 8) = bit (push_bit 8 (ucast d') :: u16) (n + 8)"
    by simp
  with n show "bit d n = bit d' n" by (simp add: bit_simps)
qed

lemma crc_byte_inj_data: "crc_byte c d = crc_byte c d' \<Longrightarrow> d = d'"
  unfolding crc_byte_def
  by (drule inj_crc_bits) (simp only: xor_left_cancel push_bit_8_inj)

lemma foldl_crc_inj: "foldl crc_byte c xs = foldl crc_byte c' xs \<Longrightarrow> c = c'"
  by (induction xs arbitrary: c c') (auto dest: crc_byte_inj_state)

text \<open>A corruption confined to one byte of the covered bytes changes the CRC.\<close>

lemma crc16_single_byte: "x \<noteq> y \<Longrightarrow> crc16 (pre @ x # post) \<noteq> crc16 (pre @ y # post)"
  by (auto simp: crc16_def dest!: foldl_crc_inj dest: crc_byte_inj_data)

section \<open>Building a frame\<close>

lemma mask_255: "(0xFF :: nat) = mask 8"
  by (simp add: mask_eq_exp_minus_1)

definition frame_header :: "u8 \<Rightarrow> u8 \<Rightarrow> nat \<Rightarrow> bytes" where
  "frame_header ty radio len =
     [ty, radio, word_of_nat (len AND 0xFF), word_of_nat (drop_bit 8 len AND 0xFF)]"

definition buildFrame :: "nat \<Rightarrow> u8 \<Rightarrow> u8 \<Rightarrow> bytes \<Rightarrow> bytes option" where
  "buildFrame outCap ty radio payload =
     (let len = length payload in
      if len > MAX_PAYLOAD then None
      else if HEADER_LEN + len + CRC_LEN > outCap then None
      else let body = frame_header ty radio len @ payload
           in Some ([PRE0, PRE1] @ body @ le16 (crc16 body)))"

lemma length_frame_header [simp]: "length (frame_header ty radio n) = 4"
  by (simp add: frame_header_def)

lemma length_buildFrame [len_simps]:
  "buildFrame cap ty radio pl = Some f \<Longrightarrow> length f = HEADER_LEN + length pl + CRC_LEN"
  by (auto simp: buildFrame_def Let_def HEADER_LEN_def CRC_LEN_def split: if_splits)

lemma buildFrame_Some_iff:
  "(\<exists>f. buildFrame cap ty radio pl = Some f) \<longleftrightarrow>
     length pl \<le> MAX_PAYLOAD \<and> HEADER_LEN + length pl + CRC_LEN \<le> cap"
  by (auto simp: buildFrame_def Let_def)

lemma get16_frame_header:
  "get16 (frame_header ty radio n) 2 = word_of_nat n"
proof -
  have lo: "(word_of_nat (n AND 0xFF) :: u8) = ucast (word_of_nat n :: u16)"
    by (rule bit_word_eqI) (simp add: bit_simps mask_255)
  have hi: "(word_of_nat (drop_bit 8 n AND 0xFF) :: u8) = ucast (drop_bit 8 (word_of_nat n :: u16))"
    by (rule bit_word_eqI) (simp add: bit_simps mask_255)
  show ?thesis
    by (simp add: get16_def frame_header_def lo hi join16)
qed

section \<open>What a receiver of the protocol promises\<close>

type_synonym msg = "u8 \<times> u8 \<times> bytes"

fun feed_all :: "('s \<Rightarrow> u8 \<Rightarrow> 's \<times> msg option) \<Rightarrow> 's \<Rightarrow> bytes \<Rightarrow> 's \<times> msg list" where
  "feed_all feed s [] = (s, [])"
| "feed_all feed s (b # bs) =
     (let (s1, m) = feed s b; (s2, ms) = feed_all feed s1 bs
      in (s2, (case m of None \<Rightarrow> ms | Some x \<Rightarrow> x # ms)))"

lemma feed_all_append:
  "feed_all feed s (xs @ ys) =
     (let (s1, ms) = feed_all feed s xs; (s2, ms') = feed_all feed s1 ys in (s2, ms @ ms'))"
  by (induction xs arbitrary: s) (auto simp: Let_def split: prod.splits option.splits)

lemma feed_all_split:
  "feed_all feed s xs = (s1, ms) \<Longrightarrow> feed_all feed s1 ys = (s2, ms')
     \<Longrightarrow> feed_all feed s (xs @ ys) = (s2, ms @ ms')"
  by (simp add: feed_all_append)

definition frames_msg :: "bytes \<Rightarrow> msg \<Rightarrow> bool" where
  "frames_msg f m \<longleftrightarrow> (case m of (ty, r, pl) \<Rightarrow> buildFrame MAX_FRAME ty r pl = Some f)"

locale frame_link =
  fixes feed :: "'s \<Rightarrow> u8 \<Rightarrow> 's \<times> msg option"
    and idle :: "'s \<Rightarrow> bool"
  assumes frame_delivered:
      "idle s \<Longrightarrow> buildFrame MAX_FRAME ty r pl = Some f
        \<Longrightarrow> \<exists>s'. feed_all feed s f = (s', [(ty, r, pl)]) \<and> idle s'"
    and noise_ignored: "idle s \<Longrightarrow> b \<noteq> PRE0 \<Longrightarrow> feed s b = (s, None)"
begin

lemma noise_run: "idle s \<Longrightarrow> PRE0 \<notin> set bs \<Longrightarrow> feed_all feed s bs = (s, [])"
  by (induction bs) (auto simp: noise_ignored)

lemma stream_delivered:
  assumes "idle s" and "list_all2 frames_msg fs ms"
  shows "\<exists>s'. feed_all feed s (concat fs) = (s', ms) \<and> idle s'"
  using assms(2,1)
proof (induction arbitrary: s rule: list_all2_induct)
  case (Cons f fs m ms)
  obtain ty r pl where m: "m = (ty, r, pl)" by (cases m)
  from Cons.hyps(1) m have "buildFrame MAX_FRAME ty r pl = Some f" by (simp add: frames_msg_def)
  from frame_delivered [OF Cons.prems this] obtain s1 where
    s1: "feed_all feed s f = (s1, [m])" "idle s1" by (auto simp: m)
  with Cons.IH obtain s2 where "feed_all feed s1 (concat fs) = (s2, ms)" "idle s2" by blast
  with s1(1) show ?case by (auto dest: feed_all_split)
qed simp

end

end
