(* ===== verification/UartLink.thy ===== *)
theory UartLink
  imports LinkProtocol
begin

text \<open>
  The host's end of the UART link (\<open>src/src/UartLink.cpp\<close>): the byte-at-a-time framing
  state machine, the dispatch of a received frame, and the per-radio TX gate. The FreeRTOS
  queue of a remote radio is a bounded FIFO, its documented behaviour.
\<close>

section \<open>The framing state machine\<close>

datatype rx_state = RX_PRE0 | RX_PRE1 | RX_HDR | RX_PAYLOAD

record rx_parser =
  rx_st :: rx_state
  rx_hdr :: bytes
  rx_hdrCount :: nat
  rx_payLen :: nat
  rx_payCount :: nat
  rx_buf :: bytes

definition rx_init :: rx_parser where
  "rx_init = \<lparr>rx_st = RX_PRE0, rx_hdr = replicate 4 0, rx_hdrCount = 0, rx_payLen = 0,
     rx_payCount = 0, rx_buf = replicate (MAX_PAYLOAD + CRC_LEN) 0\<rparr>"

definition feedByte :: "rx_parser \<Rightarrow> u8 \<Rightarrow> rx_parser \<times> msg option" where
  "feedByte p b = (case rx_st p of
     RX_PRE0 \<Rightarrow> (if b = PRE0 then p\<lparr>rx_st := RX_PRE1\<rparr> else p, None)
   | RX_PRE1 \<Rightarrow>
       (if b = PRE1 then p\<lparr>rx_st := RX_HDR, rx_hdrCount := 0\<rparr>
        else if b = PRE0 then p
        else p\<lparr>rx_st := RX_PRE0\<rparr>, None)
   | RX_HDR \<Rightarrow>
       (let h = (rx_hdr p)[rx_hdrCount p := b]; c = rx_hdrCount p + 1;
            p1 = p\<lparr>rx_hdr := h, rx_hdrCount := c\<rparr>
        in if c = 4 then
             (let n = unat (get16 h 2); p2 = p1\<lparr>rx_payLen := n\<rparr>
              in (if n > MAX_PAYLOAD then p2\<lparr>rx_st := RX_PRE0\<rparr>
                  else p2\<lparr>rx_payCount := 0, rx_st := RX_PAYLOAD\<rparr>, None))
           else (p1, None))
   | RX_PAYLOAD \<Rightarrow>
       (let bf = (rx_buf p)[rx_payCount p := b]; c = rx_payCount p + 1;
            p1 = p\<lparr>rx_buf := bf, rx_payCount := c\<rparr>; n = rx_payLen p
        in if c = n + CRC_LEN then
             (let rxCrc = get16 bf n; calc = crc16 (rx_hdr p @ take n bf)
              in (p1\<lparr>rx_st := RX_PRE0\<rparr>,
                  if calc = rxCrc then Some (rx_hdr p ! 0, rx_hdr p ! 1, take n bf) else None))
           else (p1, None)))"

text \<open>
  Memory safety: the parser only ever writes inside its 4-byte header array and its
  302-byte buffer, whatever bytes arrive.
\<close>

definition rx_inv :: "rx_parser \<Rightarrow> bool" where
  "rx_inv p \<longleftrightarrow> length (rx_hdr p) = 4 \<and> length (rx_buf p) = MAX_PAYLOAD + CRC_LEN
     \<and> (rx_st p = RX_HDR \<longrightarrow> rx_hdrCount p < 4)
     \<and> (rx_st p = RX_PAYLOAD \<longrightarrow>
          rx_payLen p \<le> MAX_PAYLOAD \<and> rx_payCount p < rx_payLen p + CRC_LEN)"

definition rx_idle :: "rx_parser \<Rightarrow> bool" where
  "rx_idle p \<longleftrightarrow> rx_inv p \<and> rx_st p = RX_PRE0"

lemma rx_inv_init: "rx_inv rx_init" and rx_idle_init: "rx_idle rx_init"
  by (simp_all add: rx_inv_def rx_idle_def rx_init_def)

lemma feedByte_inv: "rx_inv p \<Longrightarrow> rx_inv (fst (feedByte p b))"
  by (cases "rx_st p") (auto simp: feedByte_def rx_inv_def Let_def CRC_LEN_def)

lemma feed_all_inv: "rx_inv p \<Longrightarrow> rx_inv (fst (feed_all feedByte p bs))"
proof (induction bs arbitrary: p)
  case (Cons b bs)
  from Cons.prems have "rx_inv (fst (feedByte p b))" by (rule feedByte_inv)
  from Cons.IH [OF this] show ?case by (simp add: Let_def case_prod_unfold)
qed simp

text \<open>A write index of a step: the slot \<open>_hdr[_hdrCount]\<close> or \<open>_buf[_payCount]\<close> it stores to.\<close>

fun rx_write_ok :: "rx_parser \<Rightarrow> bool" where
  "rx_write_ok p = (case rx_st p of
     RX_HDR \<Rightarrow> rx_hdrCount p < length (rx_hdr p)
   | RX_PAYLOAD \<Rightarrow> rx_payCount p < length (rx_buf p)
   | _ \<Rightarrow> True)"

lemma rx_inv_write_ok: "rx_inv p \<Longrightarrow> rx_write_ok p"
  by (cases "rx_st p") (auto simp: rx_inv_def)

section \<open>A built frame is delivered\<close>

lemma feed_payload:
  assumes "rx_inv p" and "rx_st p = RX_PAYLOAD" and "rx_payCount p + length xs < rx_payLen p + CRC_LEN"
  shows "feed_all feedByte p xs =
    (p\<lparr>rx_buf := take (rx_payCount p) (rx_buf p) @ xs @ drop (rx_payCount p + length xs) (rx_buf p),
       rx_payCount := rx_payCount p + length xs\<rparr>, [])"
  using assms
proof (induction xs arbitrary: p)
  case (Cons x xs)
  let ?p = "p\<lparr>rx_buf := (rx_buf p)[rx_payCount p := x], rx_payCount := rx_payCount p + 1\<rparr>"
  have len: "rx_payCount p < length (rx_buf p)" using Cons.prems by (simp add: rx_inv_def)
  have step: "feedByte p x = (?p, None)"
    using Cons.prems by (simp add: feedByte_def Let_def)
  have "rx_inv ?p" using feedByte_inv [OF Cons.prems(1), of x] step by simp
  from Cons.IH [OF this] Cons.prems(2,3) len show ?case
    by (simp add: step upd_conv_take_nth_drop take_Suc_update drop_update_cancel
        add.commute [of "length xs"])
qed simp

lemma feed_header:
  assumes "rx_idle p" and "n \<le> MAX_PAYLOAD"
  shows "feed_all feedByte p ([PRE0, PRE1] @ frame_header ty r n) =
    (p\<lparr>rx_hdr := frame_header ty r n, rx_hdrCount := 4, rx_payLen := n, rx_payCount := 0,
       rx_st := RX_PAYLOAD\<rparr>, [])"
proof -
  obtain h0 h1 h2 h3 where h: "rx_hdr p = [h0, h1, h2, h3]"
    using assms(1) by (auto simp: rx_idle_def rx_inv_def length_Suc_conv numeral_eq_Suc)
  have n: "unat (get16 (frame_header ty r n) 2) = n"
    using assms(2) by (simp add: get16_frame_header unat_of_nat MAX_PAYLOAD_def)
  obtain a b where fh: "frame_header ty r n = [ty, r, a, b]" by (simp add: frame_header_def)
  have "PRE1 \<noteq> PRE0" by (simp add: PRE0_def PRE1_def)
  with assms n h show ?thesis
    unfolding fh by (simp add: feedByte_def rx_idle_def Let_def)
qed

lemma feed_frame:
  assumes idle: "rx_idle p" and f: "buildFrame MAX_FRAME ty r pl = Some f"
  shows "\<exists>p'. feed_all feedByte p f = (p', [(ty, r, pl)]) \<and> rx_idle p'"
proof -
  let ?n = "length pl" and ?hd = "frame_header ty r (length pl)"
  let ?crc = "crc16 (?hd @ pl)"
  have n: "?n \<le> MAX_PAYLOAD" and f': "f = ([PRE0, PRE1] @ ?hd) @ pl @ le16 ?crc"
    using f by (auto simp: buildFrame_def Let_def split: if_splits)
  obtain c0 c1 where c: "le16 ?crc = [c0, c1]" by (simp add: le16_def)
  define p1 where "p1 = p\<lparr>rx_hdr := ?hd, rx_hdrCount := 4, rx_payLen := ?n, rx_payCount := 0,
    rx_st := RX_PAYLOAD\<rparr>"
  have inv1: "rx_inv p1" using idle n by (simp add: rx_idle_def rx_inv_def p1_def CRC_LEN_def)
  define rest where "rest = drop (?n + 1) (rx_buf p)"
  have len: "length (rx_buf p) = MAX_PAYLOAD + 2"
    using idle by (simp add: rx_idle_def rx_inv_def CRC_LEN_def)
  obtain y where rest: "rest = y # drop (?n + 2) (rx_buf p)"
    using len n Cons_nth_drop_Suc [of "?n + 1" "rx_buf p", symmetric] by (simp add: rest_def)
  define p2 where "p2 = p1\<lparr>rx_buf := pl @ c0 # rest, rx_payCount := ?n + 1\<rparr>"
  have s2: "feed_all feedByte p1 (pl @ [c0]) = (p2, [])"
    using feed_payload [OF inv1, of "pl @ [c0]"]
    by (simp add: p1_def p2_def rest_def CRC_LEN_def)
  have buf3: "(pl @ c0 # rest)[?n + 1 := c1] = pl @ le16 ?crc @ drop (?n + 2) (rx_buf p)"
    by (simp add: rest c list_update_append)
  have s3: "feed_all feedByte p2 [c1] =
      (p2\<lparr>rx_buf := pl @ le16 ?crc @ drop (?n + 2) (rx_buf p), rx_payCount := ?n + 2,
          rx_st := RX_PRE0\<rparr>, [(ty, r, pl)])"
    using buf3 by (simp add: feedByte_def p2_def p1_def Let_def CRC_LEN_def get16_le16)
      (simp add: frame_header_def)
  have s1: "feed_all feedByte p ([PRE0, PRE1] @ ?hd) = (p1, [])"
    using feed_header [OF idle n] by (simp only: p1_def)
  have "f = ([PRE0, PRE1] @ ?hd) @ (pl @ [c0]) @ [c1]" by (simp add: f' c)
  then have "feed_all feedByte p f = (fst (feed_all feedByte p2 [c1]), [(ty, r, pl)])"
    using feed_all_split [OF s1 feed_all_split [OF s2 s3]] s3 by simp
  moreover have "rx_idle (fst (feed_all feedByte p2 [c1]))"
    using s3 idle n len by (simp add: rx_idle_def rx_inv_def p2_def p1_def CRC_LEN_def)
  ultimately show ?thesis by blast
qed

interpretation host_rx: frame_link feedByte rx_idle
proof unfold_locales
  fix s :: rx_parser and ty r pl f
  assume "rx_idle s" "buildFrame MAX_FRAME ty r pl = Some f"
  then show "\<exists>s'. feed_all feedByte s f = (s', [(ty, r, pl)]) \<and> rx_idle s'" by (rule feed_frame)
next
  fix s :: rx_parser and b :: u8
  assume "rx_idle s" "b \<noteq> PRE0"
  then show "feedByte s b = (s, None)" by (simp add: feedByte_def rx_idle_def)
qed

section \<open>Link state and dispatch\<close>

definition MAX_REMOTE_RADIOS :: nat where "MAX_REMOTE_RADIOS = 2"
definition RX_QUEUE_DEPTH :: nat where "RX_QUEUE_DEPTH = 8"

record rx_packet =
  pkt_data :: bytes
  pkt_rssi :: u32
  pkt_snr :: u32

text \<open>\<open>xQueueSend(q, item, 0)\<close>: append, or drop the item when the queue is full.\<close>

definition xQueueSend0 :: "nat \<Rightarrow> 'a list \<Rightarrow> 'a \<Rightarrow> 'a list" where
  "xQueueSend0 depth q x = (if length q < depth then q @ [x] else q)"

record uart_link =
  ul_rx :: rx_parser
  ul_queue :: "rx_packet list option list"
  ul_ready :: bool
  ul_readyGen :: u32
  ul_lastPongMs :: u32
  ul_txDone :: "bool list"
  ul_txStatus :: "u16 list"

definition ul_init :: uart_link where
  "ul_init = \<lparr>ul_rx = rx_init, ul_queue = [None, None], ul_ready = False, ul_readyGen = 0,
     ul_lastPongMs = 0, ul_txDone = [True, True], ul_txStatus = [0, 0]\<rparr>"

definition remote_ok :: "int \<Rightarrow> bool" where
  "remote_ok i \<longleftrightarrow> 0 \<le> i \<and> i < int MAX_REMOTE_RADIOS"

definition registerRxQueue :: "uart_link \<Rightarrow> int \<Rightarrow> uart_link" where
  "registerRxQueue l i = (if remote_ok i then l\<lparr>ul_queue := (ul_queue l)[nat i := Some []]\<rparr> else l)"

definition armTx :: "uart_link \<Rightarrow> int \<Rightarrow> uart_link" where
  "armTx l i = (if remote_ok i then l\<lparr>ul_txDone := (ul_txDone l)[nat i := False]\<rparr> else l)"

definition link_txDone :: "uart_link \<Rightarrow> int \<Rightarrow> bool" where
  "link_txDone l i = (if remote_ok i then ul_txDone l ! nat i else True)"

definition link_txStatus :: "uart_link \<Rightarrow> int \<Rightarrow> u16" where
  "link_txStatus l i = (if remote_ok i then ul_txStatus l ! nat i else 0)"

text \<open>
  \<open>sendFrame\<close>: the frame, and how many of its bytes the serial driver took (\<open>uart_write\<close>,
  a parameter: at most the bytes it was given).
\<close>

definition sendFrame :: "(bytes \<Rightarrow> nat) \<Rightarrow> u8 \<Rightarrow> u8 \<Rightarrow> bytes \<Rightarrow> bool \<times> bytes" where
  "sendFrame uart_write ty radio payload =
     (case buildFrame MAX_FRAME ty radio payload of
        None \<Rightarrow> (False, [])
      | Some f \<Rightarrow> (let wrote = uart_write f in (wrote = length f, take wrote f)))"

definition rx_packet_of :: "bytes \<Rightarrow> rx_packet" where
  "rx_packet_of payload =
     \<lparr>pkt_data = take (min (length payload - sizeof_RxHeader) LORA_MAX_PACKET) (drop sizeof_RxHeader payload),
      pkt_rssi = get32 payload 0, pkt_snr = get32 payload 4\<rparr>"

definition handleFrame :: "u32 \<Rightarrow> uart_link \<Rightarrow> msg \<Rightarrow> uart_link" where
  "handleFrame now l m = (case m of (ty, radio, payload) \<Rightarrow>
     let r = unat radio in
     if ty = link_code MSG_RX then
       (if r < MAX_REMOTE_RADIOS \<and> sizeof_RxHeader \<le> length payload then
          (case ul_queue l ! r of None \<Rightarrow> l
           | Some q \<Rightarrow> l\<lparr>ul_queue := (ul_queue l)[r := Some (xQueueSend0 RX_QUEUE_DEPTH q (rx_packet_of payload))]\<rparr>)
        else l)
     else if ty = link_code MSG_LOG then l
     else if ty = link_code MSG_READY then l\<lparr>ul_ready := True, ul_readyGen := ul_readyGen l + 1\<rparr>
     else if ty = link_code MSG_PONG then l\<lparr>ul_lastPongMs := now\<rparr>
     else if ty = link_code MSG_TX_DONE then
       (if r < MAX_REMOTE_RADIOS then
          l\<lparr>ul_txStatus := (if 2 \<le> length payload then (ul_txStatus l)[r := get16 payload 0] else ul_txStatus l),
            ul_txDone := (ul_txDone l)[r := True]\<rparr>
        else l)
     else l)"

definition link_feed :: "u32 \<Rightarrow> uart_link \<Rightarrow> u8 \<Rightarrow> uart_link" where
  "link_feed now l b =
     (let (p, m) = feedByte (ul_rx l) b; l1 = l\<lparr>ul_rx := p\<rparr>
      in (case m of None \<Rightarrow> l1 | Some x \<Rightarrow> handleFrame now l1 x))"

definition rxTask_drain :: "u32 \<Rightarrow> uart_link \<Rightarrow> bytes \<Rightarrow> uart_link" where
  "rxTask_drain now l bs = foldl (link_feed now) l bs"

definition ul_inv :: "uart_link \<Rightarrow> bool" where
  "ul_inv l \<longleftrightarrow> rx_inv (ul_rx l) \<and> length (ul_queue l) = 2 \<and> length (ul_txDone l) = 2
     \<and> length (ul_txStatus l) = 2
     \<and> (\<forall>i < 2. \<forall>q. ul_queue l ! i = Some q \<longrightarrow>
          length q \<le> RX_QUEUE_DEPTH \<and> (\<forall>p \<in> set q. length (pkt_data p) \<le> LORA_MAX_PACKET))"

lemma link_code_inj: "link_code x = link_code y \<longleftrightarrow> x = y"
  by (cases x; cases y) simp_all

lemma handleFrame_rx [simp]: "ul_rx (handleFrame now l m) = ul_rx l"
  by (auto simp: handleFrame_def Let_def split: prod.splits option.splits)

lemma handleFrame_ul_rx_update:
  "handleFrame now (l\<lparr>ul_rx := p\<rparr>) m = (handleFrame now l m)\<lparr>ul_rx := p\<rparr>"
  by (cases m) (auto simp: handleFrame_def Let_def split: option.splits)

lemma length_rx_packet_of: "length (pkt_data (rx_packet_of pl)) \<le> LORA_MAX_PACKET"
  by (simp add: rx_packet_of_def)

lemma handleFrame_inv: "ul_inv l \<Longrightarrow> ul_inv (handleFrame now l m)"
proof (cases m)
  case (fields ty radio payload)
  assume inv: "ul_inv l"
  show ?thesis
  proof (cases "ty = link_code MSG_RX \<and> unat radio < 2 \<and> sizeof_RxHeader \<le> length payload
      \<and> ul_queue l ! unat radio \<noteq> None")
    case True
    with inv fields show ?thesis
      by (auto simp: ul_inv_def handleFrame_def MAX_REMOTE_RADIOS_def nth_list_update xQueueSend0_def
          length_rx_packet_of less_Suc_eq_le split: if_splits)
  next
    case False
    with inv fields show ?thesis
      by (auto simp: ul_inv_def handleFrame_def MAX_REMOTE_RADIOS_def Let_def link_code_inj
          split: option.splits)
  qed
qed

lemma link_feed_inv: "ul_inv l \<Longrightarrow> ul_inv (link_feed now l b)"
proof -
  assume inv: "ul_inv l"
  then have "rx_inv (fst (feedByte (ul_rx l) b))" by (simp add: feedByte_inv ul_inv_def)
  with inv have "ul_inv (l\<lparr>ul_rx := fst (feedByte (ul_rx l) b)\<rparr>)" by (simp add: ul_inv_def)
  then show ?thesis
    by (auto simp: link_feed_def case_prod_unfold Let_def handleFrame_inv split: option.splits)
qed

lemma rxTask_drain_inv: "ul_inv l \<Longrightarrow> ul_inv (rxTask_drain now l bs)"
  unfolding rxTask_drain_def by (rule foldl_inv [where P = ul_inv]) (auto intro: link_feed_inv)

text \<open>Draining a byte stream is handling, in order, the frames the parser recognises in it.\<close>

lemma rxTask_drain_msgs:
  "feed_all feedByte (ul_rx l) bs = (p, ms)
     \<Longrightarrow> rxTask_drain now l bs = (foldl (handleFrame now) l ms)\<lparr>ul_rx := p\<rparr>"
proof (induction bs arbitrary: l p ms)
  case (Cons b bs)
  obtain p1 m where f: "feedByte (ul_rx l) b = (p1, m)" by fastforce
  obtain p2 ms2 where g: "feed_all feedByte p1 bs = (p2, ms2)" by fastforce
  define l1 where "l1 = link_feed now l b"
  have rx: "ul_rx l1 = p1" by (auto simp: l1_def link_feed_def f Let_def split: option.splits)
  from Cons.IH [of l1] g rx
  have "rxTask_drain now l1 bs = (foldl (handleFrame now) l1 ms2)\<lparr>ul_rx := p2\<rparr>" by simp
  moreover have "foldl (handleFrame now) (k\<lparr>ul_rx := p'\<rparr>) xs = (foldl (handleFrame now) k xs)\<lparr>ul_rx := p'\<rparr>"
    for k p' xs by (induction xs arbitrary: k) (auto simp: handleFrame_ul_rx_update)
  ultimately show ?case using Cons.prems f g
    by (auto simp: rxTask_drain_def l1_def link_feed_def handleFrame_ul_rx_update Let_def split: option.splits)
qed (simp add: rxTask_drain_def)

section \<open>Properties of the host end\<close>

text \<open>
  The TX gate of remote radio \<open>i\<close>: closed by \<open>armTx\<close>, and reopened by a \<open>MSG_TX_DONE\<close> frame
  for that radio and by no other frame.
\<close>

lemma handleFrame_gate:
  assumes "ul_inv l" and "remote_ok i"
  shows "link_txDone (handleFrame now l (ty, radio, pl)) i \<longleftrightarrow>
    link_txDone l i \<or> (ty = link_code MSG_TX_DONE \<and> unat radio = nat i)"
  using assms
  by (auto simp: link_txDone_def handleFrame_def Let_def remote_ok_def MAX_REMOTE_RADIOS_def ul_inv_def
      nth_list_update link_code_inj split: option.splits)

lemma gate_messages:
  assumes "ul_inv l" and "remote_ok i"
  shows "link_txDone (foldl (handleFrame now) l ms) i \<longleftrightarrow>
    link_txDone l i \<or> (\<exists>radio pl. (link_code MSG_TX_DONE, radio, pl) \<in> set ms \<and> unat radio = nat i)"
  using assms(1)
proof (induction ms arbitrary: l)
  case (Cons m ms)
  obtain ty radio pl where m: "m = (ty, radio, pl)" by (cases m)
  from Cons.IH [OF handleFrame_inv [OF Cons.prems]] show ?case
    by (auto simp: m handleFrame_gate [OF Cons.prems assms(2)])
qed simp

lemma armTx_inv: "ul_inv l \<Longrightarrow> ul_inv (armTx l i)"
  by (simp add: armTx_def ul_inv_def)

lemma armTx_closes: "ul_inv l \<Longrightarrow> remote_ok i \<Longrightarrow> \<not> link_txDone (armTx l i) i"
  by (auto simp: armTx_def link_txDone_def ul_inv_def remote_ok_def MAX_REMOTE_RADIOS_def nth_list_update)

lemma ul_rx_armTx [simp]: "ul_rx (armTx l i) = ul_rx l"
  by (simp add: armTx_def)

lemma readyGen_messages:
  "ul_readyGen (foldl (handleFrame now) l ms) =
     ul_readyGen l + of_nat (length (filter (\<lambda>m. fst m = link_code MSG_READY) ms))"
proof (induction ms arbitrary: l)
  case (Cons m ms)
  obtain ty radio pl where m: "m = (ty, radio, pl)" by (cases m)
  have "ul_readyGen (handleFrame now l m) =
      ul_readyGen l + (if ty = link_code MSG_READY then 1 else 0)"
    by (auto simp: m handleFrame_def Let_def link_code_inj split: option.splits)
  with Cons show ?case by (simp add: m)
qed simp

lemma drain_msgs_fst:
  "rxTask_drain now l bs =
     (foldl (handleFrame now) l (snd (feed_all feedByte (ul_rx l) bs)))
       \<lparr>ul_rx := fst (feed_all feedByte (ul_rx l) bs)\<rparr>"
  by (rule rxTask_drain_msgs) simp

lemma ul_inv_init: "ul_inv ul_init"
  by (auto simp: ul_inv_def ul_init_def rx_inv_init nth_Cons')

text \<open>
  Whatever frames the co-processor builds, sent back to back into an idle receiver, the
  host dispatches exactly those messages, in that order, and is left idle: a whole burst is
  processed as if each message had been handed to \<open>handleFrame\<close> directly.
\<close>

theorem host_burst_dispatched:
  assumes "rx_idle (ul_rx l)" and "list_all2 frames_msg fs ms"
  shows "\<exists>p. rx_idle p \<and>
    rxTask_drain now l (concat fs) = (foldl (handleFrame now) l ms)\<lparr>ul_rx := p\<rparr>"
  using host_rx.stream_delivered [OF assms] by (auto dest: rxTask_drain_msgs)

definition sample_frames :: "bytes list" where
  "sample_frames = [the (buildFrame MAX_FRAME (link_code MSG_READY) RADIO_NONE []),
     the (buildFrame MAX_FRAME (link_code MSG_TX_DONE) 1 [0, 0])]"

definition sample_msgs :: "msg list" where
  "sample_msgs = [(link_code MSG_READY, RADIO_NONE, []), (link_code MSG_TX_DONE, 1, [0, 0])]"

lemma sample_frames_msgs: "list_all2 frames_msg sample_frames sample_msgs"
  by (simp add: sample_frames_def sample_msgs_def frames_msg_def buildFrame_def Let_def
      MAX_PAYLOAD_def MAX_FRAME_def HEADER_LEN_def CRC_LEN_def)

lemma host_burst_witness:
  "\<exists>p. rx_idle p \<and> rxTask_drain 7 ul_init (concat sample_frames)
     = (foldl (handleFrame 7) ul_init sample_msgs)\<lparr>ul_rx := p\<rparr>"
  by (rule host_burst_dispatched) (simp_all add: sample_frames_msgs ul_init_def rx_idle_init)

text \<open>
  The parser never writes outside its arrays: after any prefix of any byte stream the slot
  the next byte goes to lies inside the header or payload array, and every queued packet
  fits the packet buffer and every queue its depth.
\<close>

theorem host_link_memory_safe:
  "rx_write_ok (ul_rx (rxTask_drain now ul_init bs)) \<and> ul_inv (rxTask_drain now ul_init bs)"
  using rxTask_drain_inv [OF ul_inv_init, of now bs] rx_inv_write_ok
  unfolding ul_inv_def by blast

text \<open>
  The TX gate. After \<open>armTx\<close> for a remote radio, and any bytes received since, the gate is
  open exactly when one of the frames recognised in those bytes was a \<open>MSG_TX_DONE\<close> naming
  that radio: no other traffic and no corrupted frame can release the transmit slot.
\<close>

theorem tx_gate_opened_only_by_done:
  assumes "ul_inv l" and "remote_ok i"
  shows "link_txDone (rxTask_drain now (armTx l i) bs) i \<longleftrightarrow>
    (\<exists>radio pl. (link_code MSG_TX_DONE, radio, pl) \<in> set (snd (feed_all feedByte (ul_rx l) bs))
       \<and> unat radio = nat i)"
proof -
  have "link_txDone (m\<lparr>ul_rx := p\<rparr>) i = link_txDone m i" for m :: uart_link and p
    by (simp add: link_txDone_def)
  with gate_messages [OF armTx_inv [OF assms(1)] assms(2)] armTx_closes [OF assms] show ?thesis
    by (simp add: drain_msgs_fst)
qed

lemma tx_gate_witness:
  "link_txDone (rxTask_drain 0 (armTx ul_init 1) []) 1 = False"
  using tx_gate_opened_only_by_done [of ul_init 1 0 "[]"] ul_inv_init
  by (simp add: remote_ok_def MAX_REMOTE_RADIOS_def)

text \<open>
  Every recognised \<open>MSG_READY\<close> bumps the (wrapping) generation counter by one and nothing
  else does, so the main loop can detect each co-processor reboot by comparing generations.
\<close>

theorem ready_generation_counts_boots:
  "ul_readyGen (rxTask_drain now l bs) = ul_readyGen l +
     of_nat (length (filter (\<lambda>m. fst m = link_code MSG_READY) (snd (feed_all feedByte (ul_rx l) bs))))"
  by (simp add: drain_msgs_fst readyGen_messages)

end
