(* ===== verification/DedupCache.thy ===== *)
theory DedupCache
  imports Prelude
begin

text \<open>
  The content-hash cache that suppresses loops and duplicates (\<open>src/src/DedupCache.cpp\<close>):
  a fixed table of hashes with the time each was last recorded, scanned linearly. The
  specification it is proved against is a trace: a hash is seen exactly when it was recorded
  before and less than the TTL ago.
\<close>

section \<open>The cache as coded\<close>

definition BRIDGE_DEDUP_TABLE_SIZE :: nat where "BRIDGE_DEDUP_TABLE_SIZE = 512"
definition BRIDGE_DEDUP_TTL_MS :: u32 where "BRIDGE_DEDUP_TTL_MS = 60000"

record dedup_entry =
  de_hash :: u32
  de_stamp :: u32
  de_used :: bool

type_synonym dedup_table = "dedup_entry list"

definition dedup_begin :: "dedup_table \<Rightarrow> dedup_table" where
  "dedup_begin tab = map (\<lambda>e. e\<lparr>de_used := False\<rparr>) tab"

definition fnv_step :: "u32 \<Rightarrow> u8 \<Rightarrow> u32" where
  "fnv_step h b = (h XOR ucast b) * 16777619"

definition dedup_hash :: "bytes \<Rightarrow> u32 \<Rightarrow> u32 \<Rightarrow> u32" where
  "dedup_hash body srcId pid =
     (let h1 = foldl fnv_step 2166136261 body;
          h2 = foldl (\<lambda>h b. fnv_step h (ucast (drop_bit (8 * b) srcId))) h1 [0..<4]
      in foldl (\<lambda>h b. fnv_step h (ucast (drop_bit (8 * b) pid))) h2 [0..<4])"

definition de_live :: "u32 \<Rightarrow> dedup_entry \<Rightarrow> bool" where
  "de_live now e \<longleftrightarrow> de_used e \<and> now - de_stamp e < BRIDGE_DEDUP_TTL_MS"

definition dedup_isSeen :: "dedup_table \<Rightarrow> u32 \<Rightarrow> u32 \<Rightarrow> bool" where
  "dedup_isSeen tab h now \<longleftrightarrow>
     list_ex (\<lambda>e. de_used e \<and> de_hash e = h \<and> now - de_stamp e < BRIDGE_DEDUP_TTL_MS) tab"

text \<open>
  The scan of \<open>insert\<close>: from slot \<open>i\<close> on, with the first free or expired slot found so far,
  the oldest live slot and its age. The result is \<open>Inl j\<close> when slot \<open>j\<close> already holds the hash
  and \<open>Inr j\<close> when \<open>j\<close> is the slot to overwrite.
\<close>

fun insert_scan :: "u32 \<Rightarrow> u32 \<Rightarrow> nat \<Rightarrow> dedup_table \<Rightarrow> nat option \<Rightarrow> nat \<Rightarrow> u32 \<Rightarrow> nat + nat" where
  "insert_scan h now i [] freeSlot oldest oldestAge =
     Inr (case freeSlot of Some f \<Rightarrow> f | None \<Rightarrow> oldest)"
| "insert_scan h now i (e # es) freeSlot oldest oldestAge =
     (if de_used e \<and> de_hash e = h then Inl i
      else if \<not> de_used e \<or> now - de_stamp e \<ge> BRIDGE_DEDUP_TTL_MS then
        insert_scan h now (i + 1) es (case freeSlot of None \<Rightarrow> Some i | Some f \<Rightarrow> Some f) oldest oldestAge
      else (let age = now - de_stamp e in
        if age \<ge> oldestAge then insert_scan h now (i + 1) es freeSlot i age
        else insert_scan h now (i + 1) es freeSlot oldest oldestAge))"

definition dedup_insert :: "dedup_table \<Rightarrow> u32 \<Rightarrow> u32 \<Rightarrow> dedup_table" where
  "dedup_insert tab h now = (case insert_scan h now 0 tab None 0 0 of
     Inl j \<Rightarrow> tab[j := (tab ! j)\<lparr>de_stamp := now\<rparr>]
   | Inr j \<Rightarrow> tab[j := \<lparr>de_hash = h, de_stamp = now, de_used = True\<rparr>])"

definition seenAndRecord :: "dedup_table \<Rightarrow> u32 \<Rightarrow> u32 \<Rightarrow> dedup_table \<times> bool" where
  "seenAndRecord tab h now = (dedup_insert tab h now, dedup_isSeen tab h now)"

definition dedup_record :: "dedup_table \<Rightarrow> u32 \<Rightarrow> u32 \<Rightarrow> dedup_table" where
  "dedup_record tab h now = dedup_insert tab h now"

section \<open>What the scan finds\<close>

definition matches :: "u32 \<Rightarrow> dedup_entry \<Rightarrow> bool" where
  "matches h e \<longleftrightarrow> de_used e \<and> de_hash e = h"

lemma scan_Inl:
  "insert_scan h now i es fr old age = Inl j \<Longrightarrow>
     \<exists>k < length es. j = i + k \<and> matches h (es ! k)"
proof (induction es arbitrary: i fr old age)
  case (Cons e es)
  show ?case
  proof (cases "matches h e")
    case False
    then have "\<exists>fr' old' age'. insert_scan h now (i + 1) es fr' old' age' = Inl j"
      using Cons.prems by (auto simp: matches_def Let_def split: if_splits)
    then obtain k where "k < length es" "j = i + 1 + k" "matches h (es ! k)"
      using Cons.IH by blast
    then show ?thesis by (intro exI [of _ "Suc k"]) simp
  qed (use Cons.prems in \<open>auto simp: matches_def\<close>)
qed simp

lemma scan_Inr_nomatch:
  "insert_scan h now i es fr old age = Inr j \<Longrightarrow> \<forall>e \<in> set es. \<not> matches h e"
  by (induction es arbitrary: i fr old age)
    (auto simp: matches_def Let_def split: if_splits)

lemma scan_Inr_free: "insert_scan h now i es (Some f) old age = Inr j \<Longrightarrow> j = f"
  by (induction es arbitrary: i old age) (auto simp: Let_def split: if_splits)


definition oldest_at :: "u32 \<Rightarrow> dedup_table \<Rightarrow> u32 \<Rightarrow> nat \<Rightarrow> bool" where
  "oldest_at now es age k \<longleftrightarrow> k < length es \<and> age \<le> now - de_stamp (es ! k) \<and>
     (\<forall>e \<in> set es. now - de_stamp e \<le> now - de_stamp (es ! k))"

lemma oldest_at_head:
  "age \<le> now - de_stamp e \<Longrightarrow> \<forall>x \<in> set es. now - de_stamp x < now - de_stamp e
     \<Longrightarrow> oldest_at now (e # es) age 0"
  by (auto simp: oldest_at_def)

lemma oldest_at_tail:
  "oldest_at now es age' k \<Longrightarrow> age \<le> age' \<Longrightarrow> now - de_stamp e \<le> age'
     \<Longrightarrow> oldest_at now (e # es) age (Suc k)"
  by (auto simp: oldest_at_def)

definition scan_result :: "u32 \<Rightarrow> nat \<Rightarrow> dedup_table \<Rightarrow> nat \<Rightarrow> u32 \<Rightarrow> nat \<Rightarrow> bool" where
  "scan_result now i es old age j \<longleftrightarrow>
     (\<exists>k < length es. j = i + k \<and> \<not> de_live now (es ! k)) \<or>
     ((\<forall>e \<in> set es. de_live now e) \<and>
      (j = old \<and> (\<forall>e \<in> set es. now - de_stamp e < age) \<or> (\<exists>k. j = i + k \<and> oldest_at now es age k)))"

lemma scan_result_dead: "\<not> de_live now e \<Longrightarrow> scan_result now i (e # es) old age i"
  unfolding scan_result_def by (intro disjI1 exI [of _ 0]) simp

lemma scan_result_live:
  assumes live: "de_live now e"
    and tail: "scan_result now (i + 1) es old' age' j"
    and acc: "(old' = i \<and> age' = now - de_stamp e \<and> age \<le> age') \<or>
              (old' = old \<and> age' = age \<and> now - de_stamp e < age)"
  shows "scan_result now i (e # es) old age j"
proof -
  have le: "age \<le> age'" "now - de_stamp e \<le> age'" using acc by auto
  from tail consider
      (dead) k where "k < length es" "j = i + 1 + k" "\<not> de_live now (es ! k)"
    | (old) "\<forall>e \<in> set es. de_live now e" "j = old'" "\<forall>x \<in> set es. now - de_stamp x < age'"
    | (new) k where "\<forall>e \<in> set es. de_live now e" "j = i + 1 + k" "oldest_at now es age' k"
    unfolding scan_result_def by blast
  then show ?thesis
  proof cases
    case dead
    then show ?thesis unfolding scan_result_def by (intro disjI1 exI [of _ "Suc k"]) simp
  next
    case old
    have all: "\<forall>x \<in> set (e # es). de_live now x" using live old(1) by simp
    from acc show ?thesis
    proof
      assume a: "old' = i \<and> age' = now - de_stamp e \<and> age \<le> age'"
      then have "oldest_at now (e # es) age 0" using old(3) by (intro oldest_at_head) auto
      then show ?thesis using all old(2) a unfolding scan_result_def
        by (intro disjI2 conjI disjI2 exI [of _ 0]) auto
    next
      assume a: "old' = old \<and> age' = age \<and> now - de_stamp e < age"
      then show ?thesis using all old(2,3) unfolding scan_result_def
        by (intro disjI2 conjI disjI1) auto
    qed
  next
    case new
    then show ?thesis using live oldest_at_tail [OF new(3) le] unfolding scan_result_def
      by (intro disjI2 conjI disjI2 exI [of _ "Suc k"]) auto
  qed
qed

lemma scan_Inr_slot:
  "insert_scan h now i es None old age = Inr j \<Longrightarrow> scan_result now i es old age j"
proof (induction es arbitrary: i old age)
  case Nil
  then show ?case by (simp add: scan_result_def)
next
  case (Cons e es)
  let ?a = "now - de_stamp e"
  have nomatch: "\<not> (de_used e \<and> de_hash e = h)"
    using scan_Inr_nomatch [OF Cons.prems] by (simp add: matches_def)
  show ?case
  proof (cases "de_live now e")
    case False
    then have "insert_scan h now (i + 1) es (Some i) old age = Inr j"
      using Cons.prems nomatch by (auto simp: de_live_def split: if_splits)
    then have "j = i" by (rule scan_Inr_free)
    with False show ?thesis by (simp add: scan_result_dead)
  next
    case True
    show ?thesis
    proof (cases "age \<le> ?a")
      case le: True
      then have *: "insert_scan h now (i + 1) es None i ?a = Inr j"
        using Cons.prems nomatch True by (auto simp: de_live_def Let_def split: if_splits)
      show ?thesis by (rule scan_result_live [OF True Cons.IH [OF *]]) (use le in auto)
    next
      case lt: False
      then have *: "insert_scan h now (i + 1) es None old age = Inr j"
        using Cons.prems nomatch True by (auto simp: de_live_def Let_def split: if_splits)
      show ?thesis by (rule scan_result_live [OF True Cons.IH [OF *]]) (use lt in auto)
    qed
  qed
qed

lemma scan_range: "insert_scan h now 0 tab None 0 0 = Inr j \<Longrightarrow> tab \<noteq> [] \<Longrightarrow> j < length tab"
  by (drule scan_Inr_slot) (auto simp: scan_result_def oldest_at_def)

section \<open>The cache against the recorded trace\<close>

lemma sub_antimono:
  assumes "t0 \<le> t" and "t \<le> (now :: u32)"
  shows "now - t \<le> now - t0"
proof -
  have "unat (now - t) = unat now - unat t" "unat (now - t0) = unat now - unat t0"
    using assms by (auto intro: unat_sub order_trans)
  with assms show ?thesis by (simp add: word_le_nat_alt)
qed

text \<open>
  \<open>past\<close> lists the recordings so far, the newest first, and \<open>m\<close> is the time of the newest. The
  table holds, under distinct hashes, last-recording times only, and every recording still
  inside the window.
\<close>

definition dedup_distinct :: "dedup_table \<Rightarrow> bool" where
  "dedup_distinct tab \<longleftrightarrow> (\<forall>i < length tab. \<forall>j < length tab.
     de_used (tab ! i) \<longrightarrow> de_used (tab ! j) \<longrightarrow> de_hash (tab ! i) = de_hash (tab ! j) \<longrightarrow> i = j)"

definition dedup_agrees :: "(u32 \<times> u32) list \<Rightarrow> u32 \<Rightarrow> dedup_table \<Rightarrow> bool" where
  "dedup_agrees past m tab \<longleftrightarrow> dedup_distinct tab
     \<and> (\<forall>e \<in> set tab. de_used e \<longrightarrow> map_of past (de_hash e) = Some (de_stamp e))
     \<and> (\<forall>h t. map_of past h = Some t \<longrightarrow>
          (\<exists>e \<in> set tab. matches h e) \<or> BRIDGE_DEDUP_TTL_MS \<le> m - t)
     \<and> (\<forall>(h, t) \<in> set past. t \<le> m)"

lemma dedup_distinct_insert:
  assumes "dedup_distinct tab" and "tab \<noteq> []"
  shows "dedup_distinct (dedup_insert tab h now)"
proof (cases "insert_scan h now 0 tab None 0 0")
  case (Inl j)
  then show ?thesis using assms(1) scan_Inl [OF Inl]
    by (auto simp: dedup_insert_def dedup_distinct_def nth_list_update)
next
  case (Inr j)
  have no: "\<not> matches h (tab ! i)" if "i < length tab" for i
    using scan_Inr_nomatch [OF Inr] that by simp
  show ?thesis using assms(1) no scan_range [OF Inr assms(2)]
    by (auto simp: Inr dedup_insert_def dedup_distinct_def nth_list_update matches_def split: if_splits)
qed

text \<open>Which entries survive an insert, and what the table holds afterwards.\<close>

lemma set_insert_Inl:
  assumes "insert_scan h now 0 tab None 0 0 = Inl j" and "dedup_distinct tab"
  shows "set (dedup_insert tab h now) =
    insert \<lparr>de_hash = h, de_stamp = now, de_used = True\<rparr> {e \<in> set tab. \<not> matches h e}"
proof -
  obtain j: "j < length tab" and m: "matches h (tab ! j)" using scan_Inl [OF assms(1)] by auto
  have new: "(tab ! j)\<lparr>de_stamp := now\<rparr> = \<lparr>de_hash = h, de_stamp = now, de_used = True\<rparr>"
    using m by (cases "tab ! j") (simp add: matches_def)
  have other: "matches h (tab ! i) \<longleftrightarrow> i = j" if "i < length tab" for i
    using assms(2) j m that unfolding dedup_distinct_def matches_def by blast
  have "set (tab[j := x]) = insert x {e \<in> set tab. \<not> matches h e}" for x
  proof (intro set_eqI iffI)
    fix e assume "e \<in> set (tab[j := x])"
    then obtain i where "i < length tab" "tab[j := x] ! i = e" by (auto simp: in_set_conv_nth)
    then show "e \<in> insert x {e \<in> set tab. \<not> matches h e}"
      using other j by (cases "i = j") auto
  next
    fix e assume "e \<in> insert x {e \<in> set tab. \<not> matches h e}"
    then consider "e = x" | i where "i < length tab" "i \<noteq> j" "e = tab ! i"
      using other by (auto simp: in_set_conv_nth)
    then show "e \<in> set (tab[j := x])"
      using j by cases (auto simp: set_update_memI in_set_conv_nth intro: exI [of _ i for i])
  qed
  then show ?thesis by (simp add: dedup_insert_def assms(1) new)
qed

lemma set_insert_Inr:
  assumes "insert_scan h now 0 tab None 0 0 = Inr j" and "tab \<noteq> []"
  shows "set (dedup_insert tab h now) = insert \<lparr>de_hash = h, de_stamp = now, de_used = True\<rparr>
    (set (take j tab) \<union> set (drop (Suc j) tab))"
  using scan_range [OF assms] by (auto simp: dedup_insert_def assms(1) upd_conv_take_nth_drop)

lemma set_split_nth: "j < length tab \<Longrightarrow> set tab = insert (tab ! j) (set (take j tab) \<union> set (drop (Suc j) tab))"
  using id_take_nth_drop [of j tab] by (metis Un_insert_right list.simps(15) set_append)

lemma card_used:
  assumes "dedup_distinct tab" and "\<forall>e \<in> set tab. de_used e"
  shows "card (de_hash ` set tab) = length tab"
proof -
  have "distinct (map de_hash tab)"
    using assms unfolding dedup_distinct_def distinct_conv_nth by auto
  then show ?thesis by (metis distinct_card length_map list.set_map)
qed

lemma dedup_agrees_insert:
  assumes ag: "dedup_agrees past m tab" and tab: "tab \<noteq> []" and le: "m \<le> now"
    and room: "card (insert h (fst ` set past)) \<le> length tab"
  shows "dedup_agrees ((h, now) # past) now (dedup_insert tab h now)"
proof -
  let ?new = "\<lparr>de_hash = h, de_stamp = now, de_used = True\<rparr>"
  let ?tab' = "dedup_insert tab h now"
  have dist: "dedup_distinct tab" and sound: "\<And>e. e \<in> set tab \<Longrightarrow> de_used e \<Longrightarrow> map_of past (de_hash e) = Some (de_stamp e)"
    and compl: "\<And>g t. map_of past g = Some t \<Longrightarrow> (\<exists>e \<in> set tab. matches g e) \<or> BRIDGE_DEDUP_TTL_MS \<le> m - t"
    and past: "\<And>g t. (g, t) \<in> set past \<Longrightarrow> t \<le> m"
    using ag unfolding dedup_agrees_def by auto
  have old: "BRIDGE_DEDUP_TTL_MS \<le> now - t" if "map_of past g = Some t" "BRIDGE_DEDUP_TTL_MS \<le> m - t" for g t
  proof -
    have "t \<le> m" using past that(1) by (blast dest: map_of_SomeD)
    with le have "unat (m - t) \<le> unat (now - t)"
      by (simp add: unat_sub word_le_nat_alt order.trans [of "unat t" "unat m"])
    with that(2) show ?thesis by (meson order.trans word_le_nat_alt)
  qed
  have key: "set ?tab' \<subseteq> insert ?new {e \<in> set tab. \<not> matches h e} \<and> ?new \<in> set ?tab' \<and>
      (\<forall>e \<in> set tab. e \<in> set ?tab' \<or> matches h e \<or> \<not> de_live now e)"
  proof (cases "insert_scan h now 0 tab None 0 0")
    case (Inl j)
    from set_insert_Inl [OF this dist] show ?thesis by auto
  next
    case (Inr j)
    note nomatch = scan_Inr_nomatch [OF Inr]
    have j: "j < length tab" by (rule scan_range [OF Inr tab])
    note set_tab = set_split_nth [OF j]
    have dead: "\<not> de_live now (tab ! j)"
    proof (rule ccontr)
      assume "\<not> \<not> de_live now (tab ! j)"
      then have all: "\<forall>e \<in> set tab. de_used e"
        using scan_Inr_slot [OF Inr] by (auto simp: scan_result_def de_live_def)
      have sub: "de_hash ` set tab \<subseteq> fst ` set past"
        using sound all by (force dest: map_of_SomeD)
      have "h \<notin> de_hash ` set tab" using nomatch all by (auto simp: matches_def)
      then have "card (insert h (de_hash ` set tab)) = Suc (length tab)"
        using card_used [OF dist all] by simp
      moreover have "card (insert h (de_hash ` set tab)) \<le> card (insert h (fst ` set past))"
        using sub by (intro card_mono) auto
      ultimately show False using room by simp
    qed
    show ?thesis using set_insert_Inr [OF Inr tab] nomatch dead set_tab by auto
  qed
  have "map_of ((h, now) # past) (de_hash e) = Some (de_stamp e)" if "e \<in> set ?tab'" "de_used e" for e
  proof -
    have "e = ?new \<or> (e \<in> set tab \<and> de_hash e \<noteq> h)"
      using that key by (auto simp: matches_def)
    then show ?thesis using sound that(2) by auto
  qed
  moreover have "(\<exists>e \<in> set ?tab'. matches g e) \<or> BRIDGE_DEDUP_TTL_MS \<le> now - t"
    if g: "map_of ((h, now) # past) g = Some t" for g t
  proof (cases "g = h")
    case True
    then show ?thesis using key by (intro disjI1 bexI [of _ ?new]) (auto simp: matches_def)
  next
    case False
    with g have gp: "map_of past g = Some t" by simp
    from compl [OF gp] show ?thesis
    proof
      assume "\<exists>e \<in> set tab. matches g e"
      then obtain e where e: "e \<in> set tab" "matches g e" by blast
      then have "de_stamp e = t" using sound [OF e(1)] gp by (simp add: matches_def)
      then show ?thesis using key e False by (force simp: matches_def de_live_def)
    qed (use old gp in blast)
  qed
  moreover have "t \<le> now" if "(g, t) \<in> set ((h, now) # past)" for g t
    using that past [of g t] le by (auto intro: order_trans)
  ultimately show ?thesis
    using dedup_distinct_insert [OF dist tab] unfolding dedup_agrees_def by blast
qed

lemma dedup_agrees_seen:
  assumes "dedup_agrees past m tab" and le: "m \<le> now"
  shows "dedup_isSeen tab h now \<longleftrightarrow> (\<exists>t. map_of past h = Some t \<and> now - t < BRIDGE_DEDUP_TTL_MS)"
proof
  assume "dedup_isSeen tab h now"
  then show "\<exists>t. map_of past h = Some t \<and> now - t < BRIDGE_DEDUP_TTL_MS"
    using assms(1) by (auto simp: dedup_isSeen_def list_ex_iff dedup_agrees_def)
next
  assume "\<exists>t. map_of past h = Some t \<and> now - t < BRIDGE_DEDUP_TTL_MS"
  then obtain t where t: "map_of past h = Some t" "now - t < BRIDGE_DEDUP_TTL_MS" by blast
  have "t \<le> m" using assms(1) t(1) by (auto simp: dedup_agrees_def dest: map_of_SomeD)
  with le have "unat (m - t) \<le> unat (now - t)"
    by (simp add: unat_sub word_le_nat_alt order.trans [of "unat t" "unat m"])
  with t(2) have "\<not> BRIDGE_DEDUP_TTL_MS \<le> m - t" by (simp add: word_le_nat_alt word_less_nat_alt)
  moreover have "(\<exists>e \<in> set tab. matches h e) \<or> BRIDGE_DEDUP_TTL_MS \<le> m - t"
    using assms(1) t(1) by (simp add: dedup_agrees_def)
  ultimately obtain e where "e \<in> set tab" "matches h e" by blast
  moreover from this have "de_stamp e = t" using assms(1) t(1) by (auto simp: dedup_agrees_def matches_def)
  ultimately show "dedup_isSeen tab h now"
    using t(2) by (auto simp: dedup_isSeen_def list_ex_iff matches_def)
qed

section \<open>The specification of a trace of receptions\<close>

fun dedup_run :: "dedup_table \<Rightarrow> (u32 \<times> u32) list \<Rightarrow> bool list" where
  "dedup_run tab [] = []"
| "dedup_run tab ((h, t) # ops) = (let (tab', seen) = seenAndRecord tab h t in seen # dedup_run tab' ops)"

fun dedup_spec :: "(u32 \<times> u32) list \<Rightarrow> (u32 \<times> u32) list \<Rightarrow> bool list" where
  "dedup_spec past [] = []"
| "dedup_spec past ((h, t) # ops) =
     list_ex (\<lambda>(g, t0). g = h \<and> t - t0 < BRIDGE_DEDUP_TTL_MS) past # dedup_spec ((h, t) # past) ops"

lemma newest_first:
  assumes "sorted_wrt (\<ge>) (map snd past)" and "(h, t0) \<in> set past" and "map_of past h = Some t"
  shows "t0 \<le> (t :: u32)"
  using assms
proof (induction past)
  case (Cons p past)
  obtain g t1 where p: "p = (g, t1)" by fastforce
  show ?case
  proof (cases "(h, t0) = p")
    case True
    with Cons.prems(3) p show ?thesis by simp
  next
    case False
    with Cons.prems(2) have mem: "(h, t0) \<in> set past" by simp
    with Cons.prems(1) p have "t0 \<le> t1" by (force simp: image_iff)
    with Cons mem p show ?thesis by (cases "g = h") auto
  qed
qed simp

lemma spec_newest:
  assumes "sorted_wrt (\<ge>) (map snd past)" and "\<forall>(g, t0) \<in> set past. t0 \<le> now"
  shows "list_ex (\<lambda>(g, t0). g = h \<and> now - t0 < BRIDGE_DEDUP_TTL_MS) past \<longleftrightarrow>
    (\<exists>t. map_of past h = Some t \<and> now - t < BRIDGE_DEDUP_TTL_MS)"
proof
  assume "list_ex (\<lambda>(g, t0). g = h \<and> now - t0 < BRIDGE_DEDUP_TTL_MS) past"
  then obtain t0 where t0: "(h, t0) \<in> set past" "now - t0 < BRIDGE_DEDUP_TTL_MS"
    by (auto simp: list_ex_iff)
  then obtain t where t: "map_of past h = Some t" by (metis weak_map_of_SomeI)
  then have "t0 \<le> t" "t \<le> now" using newest_first [OF assms(1) t0(1)] assms(2) by (auto dest: map_of_SomeD)
  then have "now - t \<le> now - t0" by (rule sub_antimono)
  with t t0(2) show "\<exists>t. map_of past h = Some t \<and> now - t < BRIDGE_DEDUP_TTL_MS" by auto
qed (auto simp: list_ex_iff dest: map_of_SomeD)

lemma dedup_run_spec:
  assumes "dedup_agrees past m tab" and "tab \<noteq> []" and "sorted_wrt (\<ge>) (map snd past)"
    and "sorted (m # map snd ops)" and "card (fst ` (set past \<union> set ops)) \<le> length tab"
  shows "dedup_run tab ops = dedup_spec past ops"
  using assms
proof (induction ops arbitrary: past m tab)
  case (Cons op ops)
  obtain h t where op: "op = (h, t)" by fastforce
  have le: "m \<le> t" using Cons.prems(4) op by simp
  have before: "\<forall>(g, t0) \<in> set past. t0 \<le> t"
    using Cons.prems(1) le by (auto simp: dedup_agrees_def)
  have seen: "dedup_isSeen tab h t \<longleftrightarrow> list_ex (\<lambda>(g, t0). g = h \<and> t - t0 < BRIDGE_DEDUP_TTL_MS) past"
    using dedup_agrees_seen [OF Cons.prems(1) le] spec_newest [OF Cons.prems(3) before] by simp
  have "card (insert h (fst ` set past)) \<le> length tab"
    by (rule order_trans [OF card_mono Cons.prems(5)]) (auto simp: op)
  from dedup_agrees_insert [OF Cons.prems(1,2) le this]
  have ag: "dedup_agrees ((h, t) # past) t (dedup_insert tab h t)" .
  have len: "length (dedup_insert tab h t) = length tab"
    by (auto simp: dedup_insert_def split: sum.splits)
  have "dedup_run (dedup_insert tab h t) ops = dedup_spec ((h, t) # past) ops"
  proof (rule Cons.IH [OF ag])
    show "dedup_insert tab h t \<noteq> []" using len Cons.prems(2) by (metis length_0_conv)
    show "sorted_wrt (\<ge>) (map snd ((h, t) # past))" using Cons.prems(3) before by auto
    show "sorted (t # map snd ops)" using Cons.prems(4) op by simp
    have "set ((h, t) # past) \<union> set ops = set past \<union> set (op # ops)" by (auto simp: op)
    then show "card (fst ` (set ((h, t) # past) \<union> set ops)) \<le> length (dedup_insert tab h t)"
      using Cons.prems(5) len by metis
  qed
  then show ?case by (simp add: op seenAndRecord_def seen)
qed simp

lemma dedup_agrees_begin: "dedup_agrees [] 0 (dedup_begin tab)"
  by (auto simp: dedup_agrees_def dedup_begin_def dedup_distinct_def)

text \<open>
  C28: Duplicate suppression is exact. Over any sequence of receptions with non-decreasing
  clock readings that carries at most as many distinct contents as the table has slots (512
  in the build), \<open>seenAndRecord\<close> reports a content as a duplicate exactly when the same
  hash was received before and less than 60 s ago: expiry, refresh in place, slot reuse and
  eviction never lose a live entry and never resurrect an expired one.
\<close>

theorem dedup_suppression_exact:
  assumes "length tab = BRIDGE_DEDUP_TABLE_SIZE" and "sorted (map snd ops)"
    and "card (fst ` set ops) \<le> BRIDGE_DEDUP_TABLE_SIZE"
  shows "dedup_run (dedup_begin tab) ops = dedup_spec [] ops"
proof (rule dedup_run_spec [OF dedup_agrees_begin])
  show "dedup_begin tab \<noteq> []" using assms(1) by (auto simp: dedup_begin_def BRIDGE_DEDUP_TABLE_SIZE_def)
  show "sorted (0 # map snd ops)" using assms(2) by simp
  show "card (fst ` (set [] \<union> set ops)) \<le> length (dedup_begin tab)"
    using assms(1,3) by (simp add: dedup_begin_def)
qed simp

definition dedup_boot :: dedup_table where
  "dedup_boot = replicate BRIDGE_DEDUP_TABLE_SIZE \<lparr>de_hash = 0, de_stamp = 0, de_used = False\<rparr>"

lemma dedup_suppression_witness:
  "dedup_run (dedup_begin dedup_boot) [(5, 100), (9, 200), (5, 60099), (9, 60200), (5, 60300)]
     = [False, False, True, False, True]"
proof -
  have "dedup_run (dedup_begin dedup_boot) [(5, 100), (9, 200), (5, 60099), (9, 60200), (5, 60300)]
      = dedup_spec [] [(5, 100), (9, 200), (5, 60099), (9, 60200), (5, 60300)]"
    by (rule dedup_suppression_exact)
      (simp_all add: dedup_boot_def BRIDGE_DEDUP_TABLE_SIZE_def insert_commute)
  then show ?thesis by (simp add: BRIDGE_DEDUP_TTL_MS_def)
qed

text \<open>
  The clock wraps after 2^32 ms (49.7 days) and a used slot is never cleared, so an entry
  last recorded exactly one wrap ago looks live again.
\<close>

lemma dedup_stale_after_wrap:
  assumes "dedup_distinct tab" and "tab \<noteq> []"
  shows "dedup_isSeen (dedup_record tab h (of_nat up)) h (of_nat (up + 2 ^ 32))"
proof -
  have "(of_nat (up + 2 ^ 32) :: u32) = of_nat up" by (simp add: of_nat_add)
  moreover have "\<exists>e \<in> set (dedup_insert tab h now). e = \<lparr>de_hash = h, de_stamp = now, de_used = True\<rparr>" for now
    using set_insert_Inl [OF _ assms(1)] set_insert_Inr [OF _ assms(2)]
    by (cases "insert_scan h now 0 tab None 0 0") auto
  ultimately show ?thesis
    by (force simp: dedup_record_def dedup_isSeen_def list_ex_iff BRIDGE_DEDUP_TTL_MS_def)
qed

end
