(* ===== verification/RouteQueue.thy ===== *)
theory RouteQueue
  imports Prelude
begin

text \<open>
  The per-destination outbound queue (\<open>src/src/RouteQueue.cpp\<close>): a ring buffer with
  drop-oldest overflow and expiry on \<open>pop\<close>, refined to a bounded list. The interface
  \<open>bounded_fifo\<close> says what its clients (the transmit scheduler and the co-processor's queue)
  rely on.
\<close>

section \<open>The interface of a bounded first-in first-out queue\<close>

text \<open>
  \<open>contents\<close> is the abstract list, oldest first; \<open>full\<close> decides what an insertion does
  there: \<open>over\<close> is the list the insertion starts from when the queue is at its capacity.
\<close>

locale bounded_fifo =
  fixes inv :: "'q \<Rightarrow> bool"
    and contents :: "'q \<Rightarrow> 'a list"
    and cap :: "'q \<Rightarrow> nat"
    and ok :: "'a \<Rightarrow> bool"
    and put :: "'a \<Rightarrow> 'q \<Rightarrow> 'q"
    and remove_front :: "'q \<Rightarrow> 'q"
  assumes inv_put: "inv q \<Longrightarrow> ok x \<Longrightarrow> inv (put x q)"
    and inv_remove: "inv q \<Longrightarrow> contents q \<noteq> [] \<Longrightarrow> inv (remove_front q)"
    and cap_pos: "inv q \<Longrightarrow> 0 < cap q"
    and cap_put: "inv q \<Longrightarrow> ok x \<Longrightarrow> cap (put x q) = cap q"
    and cap_remove: "inv q \<Longrightarrow> cap (remove_front q) = cap q"
    and contents_bound: "inv q \<Longrightarrow> length (contents q) \<le> cap q"
    and contents_put: "inv q \<Longrightarrow> ok x \<Longrightarrow> contents (put x q) =
      (if length (contents q) = cap q then tl (contents q) else contents q) @ [x]"
    and contents_remove: "inv q \<Longrightarrow> contents q \<noteq> [] \<Longrightarrow> contents (remove_front q) = tl (contents q)"
begin

definition put_all :: "'a list \<Rightarrow> 'q \<Rightarrow> 'q" where
  "put_all xs q = fold put xs q"

lemma contents_put_drop:
  "inv q \<Longrightarrow> ok x \<Longrightarrow> contents (put x q) = drop (Suc (length (contents q)) - cap q) (contents q @ [x])"
  using cap_pos [of q] contents_bound [of q]
  by (cases "length (contents q) = cap q") (auto simp: contents_put drop_Suc tl_append split: list.splits)

lemma put_all_contents:
  assumes "inv q" and "list_all ok xs"
  shows "inv (put_all xs q) \<and> cap (put_all xs q) = cap q \<and>
    contents (put_all xs q) = drop (length (contents q) + length xs - cap q) (contents q @ xs)"
  using assms
proof (induction xs arbitrary: q)
  case Nil
  then show ?case using contents_bound by (simp add: put_all_def)
next
  case (Cons x xs)
  have okx: "ok x" and okxs: "list_all ok xs" and iv: "inv q" using Cons.prems by auto
  note iq = inv_put [OF iv okx] and cap_put = cap_put [OF iv okx] and IH = Cons.IH [OF inv_put [OF iv okx] okxs]
  have c: "contents (put x q) = drop (Suc (length (contents q)) - cap q) (contents q @ [x])"
    by (rule contents_put_drop [OF iv okx])
  have b: "length (contents q) \<le> cap q" "0 < cap q"
    using contents_bound cap_pos iv by auto
  have "contents (put_all xs (put x q)) = drop (length (contents q) + length (x # xs) - cap q) (contents q @ x # xs)"
  proof (cases "length (contents q) = cap q")
    case True
    then obtain a ys where q: "contents q = a # ys" using b by (cases "contents q") auto
    with True have cap: "cap q = Suc (length ys)" by simp
    have "contents (put x q) = ys @ [x]" using c by (simp add: q cap)
    then show ?thesis using IH by (simp add: q cap cap_put)
  next
    case False
    then show ?thesis using IH c b by (simp add: cap_put)
  qed
  then show ?case using IH by (simp add: put_all_def cap_put)
qed

text \<open>The queue always holds the newest items, in order, as many as fit.\<close>

lemma keeps_newest:
  assumes "inv q" and "contents q = []" and "list_all ok xs"
  shows "contents (put_all xs q) = drop (length xs - cap q) xs"
  using put_all_contents [OF assms(1,3)] assms(2) by simp

end

section \<open>The ring buffer\<close>

definition RQ_MAX_PACKET :: nat where "RQ_MAX_PACKET = 256"

record rq_entry =
  rqe_data :: bytes
  rqe_len :: nat
  rqe_enqueueMs :: u32

record route_queue =
  rq_ring :: "rq_entry list"
  rq_head :: nat
  rq_tail :: nat
  rq_count :: nat
  rq_maxAgeMs :: u32
  rq_dropped :: u32

definition rq_cap :: "route_queue \<Rightarrow> nat" where
  "rq_cap q = length (rq_ring q)"

text \<open>
  \<open>begin\<close>: \<open>ring\<close> is the freshly allocated (uninitialised) array, \<open>None\<close> when both
  allocators failed.
\<close>

definition rq_begin :: "rq_entry list option \<Rightarrow> nat \<Rightarrow> u32 \<Rightarrow> route_queue option" where
  "rq_begin ring depth maxAgeMs =
     (if depth = 0 then None
      else case ring of None \<Rightarrow> None
      | Some r \<Rightarrow> Some \<lparr>rq_ring = r, rq_head = 0, rq_tail = 0, rq_count = 0,
           rq_maxAgeMs = maxAgeMs, rq_dropped = 0\<rparr>)"

text \<open>\<open>memcpy(dst, src, n)\<close> into a fixed-size array.\<close>

definition memcpy_into :: "bytes \<Rightarrow> bytes \<Rightarrow> bytes" where
  "memcpy_into dst src = src @ drop (length src) dst"

definition rq_put :: "u32 \<Rightarrow> bytes \<Rightarrow> route_queue \<Rightarrow> route_queue" where
  "rq_put now data q =
     (let q1 = (if rq_count q = rq_cap q
                then q\<lparr>rq_head := (rq_head q + 1) mod rq_cap q, rq_count := rq_count q - 1,
                       rq_dropped := rq_dropped q + 1\<rparr> else q);
          e = rq_ring q1 ! rq_tail q1
      in q1\<lparr>rq_ring := (rq_ring q1)[rq_tail q1 := e\<lparr>rqe_data := memcpy_into (rqe_data e) data,
              rqe_len := length data, rqe_enqueueMs := now\<rparr>],
            rq_tail := (rq_tail q1 + 1) mod rq_cap q1, rq_count := rq_count q1 + 1\<rparr>)"

definition rq_push :: "u32 \<Rightarrow> bytes \<Rightarrow> route_queue \<Rightarrow> route_queue \<times> bool" where
  "rq_push now data q =
     (if length data = 0 \<or> length data > RQ_MAX_PACKET then (q, False)
      else (rq_put now data q, True))"

definition rq_advance :: "route_queue \<Rightarrow> route_queue" where
  "rq_advance q = q\<lparr>rq_head := (rq_head q + 1) mod rq_cap q, rq_count := rq_count q - 1\<rparr>"

definition rq_stale :: "u32 \<Rightarrow> route_queue \<Rightarrow> rq_entry \<Rightarrow> bool" where
  "rq_stale now q e \<longleftrightarrow> rq_maxAgeMs q \<noteq> 0 \<and> now - rqe_enqueueMs e > rq_maxAgeMs q"

function rq_pop :: "u32 \<Rightarrow> route_queue \<Rightarrow> route_queue \<times> (bytes \<times> u32) option" where
  "rq_pop now q =
     (if rq_count q = 0 then (q, None)
      else (let e = rq_ring q ! rq_head q; q1 = rq_advance q
        in if rq_stale now q e then rq_pop now (q1\<lparr>rq_dropped := rq_dropped q1 + 1\<rparr>)
           else (q1, Some (take (rqe_len e) (rqe_data e), rqe_enqueueMs e))))"
  by pat_completeness auto
termination
  by (relation "measure (\<lambda>(now, q). rq_count q)") (auto simp: rq_advance_def)

declare rq_pop.simps [simp del]

section \<open>Refinement to a list\<close>

text \<open>A queued item: the packet bytes and the time they were queued.\<close>

type_synonym rq_item = "bytes \<times> u32"

definition item_of :: "rq_entry \<Rightarrow> rq_item" where
  "item_of e = (take (rqe_len e) (rqe_data e), rqe_enqueueMs e)"

definition rq_list :: "route_queue \<Rightarrow> rq_item list" where
  "rq_list q = map (\<lambda>i. item_of (rq_ring q ! ((rq_head q + i) mod rq_cap q))) [0..<rq_count q]"

definition rq_inv :: "route_queue \<Rightarrow> bool" where
  "rq_inv q \<longleftrightarrow> 0 < rq_cap q \<and> rq_head q < rq_cap q \<and> rq_count q \<le> rq_cap q
     \<and> rq_tail q = (rq_head q + rq_count q) mod rq_cap q
     \<and> (\<forall>e \<in> set (rq_ring q). length (rqe_data e) = RQ_MAX_PACKET)"

lemma rq_cap_simps [simp]:
  "rq_cap (q\<lparr>rq_head := a\<rparr>) = rq_cap q" "rq_cap (q\<lparr>rq_tail := a\<rparr>) = rq_cap q"
  "rq_cap (q\<lparr>rq_count := a\<rparr>) = rq_cap q" "rq_cap (q\<lparr>rq_dropped := d\<rparr>) = rq_cap q"
  "rq_cap (q\<lparr>rq_ring := (rq_ring q)[i := e]\<rparr>) = rq_cap q"
  by (simp_all add: rq_cap_def)

lemma length_rq_list [len_simps]: "length (rq_list q) = rq_count q"
  by (simp add: rq_list_def)

lemma rq_list_Cons:
  assumes "rq_inv q" and "rq_count q \<noteq> 0"
  shows "rq_list q = item_of (rq_ring q ! rq_head q) # rq_list (rq_advance q)"
proof -
  let ?f = "\<lambda>i. item_of (rq_ring q ! ((rq_head q + i) mod rq_cap q))"
  obtain n where n: "rq_count q = Suc n" using assms(2) by (cases "rq_count q") auto
  have shift: "(rq_head q + Suc i) mod rq_cap q = ((rq_head q + 1) mod rq_cap q + i) mod rq_cap q" for i
    by (simp add: mod_simps)
  have "rq_list q = ?f 0 # map (\<lambda>i. ?f (Suc i)) [0..<n]"
    unfolding rq_list_def n by (rule map_upt_Suc)
  moreover have "?f 0 = item_of (rq_ring q ! rq_head q)" using assms(1) by (simp add: rq_inv_def)
  moreover have "map (\<lambda>i. ?f (Suc i)) [0..<n] = rq_list (rq_advance q)"
    unfolding rq_list_def by (simp only: shift) (simp add: rq_advance_def n)
  ultimately show ?thesis by simp
qed

lemma rq_inv_advance: "rq_inv q \<Longrightarrow> rq_count q \<noteq> 0 \<Longrightarrow> rq_inv (rq_advance q)"
  unfolding rq_inv_def rq_advance_def rq_cap_def
  by (cases "rq_count q") (simp_all add: mod_simps)

lemma rq_nth_update:
  assumes "rq_inv q" and "rq_count q < rq_cap q" and "i < rq_count q"
  shows "(rq_head q + i) mod rq_cap q \<noteq> (rq_head q + rq_count q) mod rq_cap q"
proof
  assume eq: "(rq_head q + i) mod rq_cap q = (rq_head q + rq_count q) mod rq_cap q"
  have "(rq_head q + rq_count q - (rq_head q + i)) mod rq_cap q = 0"
    using eq assms(3) by (metis add_left_mono less_imp_le_nat mod_eq_dvd_iff_nat dvd_imp_mod_0)
  with assms show False by simp
qed

text \<open>Writing the slot at the tail appends to the list.\<close>

definition rq_append :: "u32 \<Rightarrow> bytes \<Rightarrow> route_queue \<Rightarrow> route_queue" where
  "rq_append now data q = q\<lparr>rq_ring := (rq_ring q)[rq_tail q := (rq_ring q ! rq_tail q)\<lparr>
       rqe_data := memcpy_into (rqe_data (rq_ring q ! rq_tail q)) data,
       rqe_len := length data, rqe_enqueueMs := now\<rparr>],
     rq_tail := (rq_tail q + 1) mod rq_cap q, rq_count := rq_count q + 1\<rparr>"

lemma rq_list_append:
  assumes "rq_inv q" and "rq_count q < rq_cap q"
  shows "rq_list (rq_append now data q) = rq_list q @ [(data, now)]"
proof -
  let ?q = "rq_append now data q"
  have tl: "rq_tail q = (rq_head q + rq_count q) mod rq_cap q" "rq_tail q < length (rq_ring q)"
    using assms(1) by (auto simp: rq_inv_def rq_cap_def)
  have cap: "rq_cap ?q = rq_cap q" by (simp add: rq_append_def rq_cap_def)
  have new: "item_of (rq_ring ?q ! rq_tail q) = (data, now)"
    using tl(2) by (simp add: rq_append_def item_of_def memcpy_into_def)
  have keep: "rq_ring ?q ! ((rq_head q + i) mod rq_cap q) = rq_ring q ! ((rq_head q + i) mod rq_cap q)"
    if "i < rq_count q" for i
    using rq_nth_update [OF assms that] tl by (simp add: rq_append_def)
  have "rq_head ?q = rq_head q" "rq_count ?q = Suc (rq_count q)" by (simp_all add: rq_append_def)
  then show ?thesis using new keep tl(1) by (simp add: rq_list_def cap)
qed

lemma rq_inv_append:
  assumes "rq_inv q" and "rq_count q < rq_cap q" and "length data \<le> RQ_MAX_PACKET"
  shows "rq_inv (rq_append now data q)"
proof -
  have "rq_tail q < length (rq_ring q)" using assms(1) by (auto simp: rq_inv_def rq_cap_def)
  then have "length (rqe_data (rq_ring q ! rq_tail q)) = RQ_MAX_PACKET"
    using assms(1) by (simp add: rq_inv_def)
  then show ?thesis using assms
    by (auto simp: rq_inv_def rq_append_def memcpy_into_def mod_simps rq_cap_def dest!: subsetD [OF set_update_subset_insert])
qed

lemma rq_put_append:
  "rq_put now data q = rq_append now data
     (if rq_count q = rq_cap q then (rq_advance q)\<lparr>rq_dropped := rq_dropped q + 1\<rparr> else q)"
  by (simp add: rq_put_def rq_append_def rq_advance_def Let_def rq_cap_def)

lemma rq_list_dropped [simp]: "rq_list (q\<lparr>rq_dropped := d\<rparr>) = rq_list q"
  by (simp add: rq_list_def)

lemma rq_inv_dropped [simp]: "rq_inv (q\<lparr>rq_dropped := d\<rparr>) = rq_inv q"
  by (simp add: rq_inv_def)

lemma rq_list_advance: "rq_inv q \<Longrightarrow> rq_count q \<noteq> 0 \<Longrightarrow> rq_list (rq_advance q) = tl (rq_list q)"
  by (simp add: rq_list_Cons)

lemma rq_put_ok:
  assumes "rq_inv q" and "length data \<le> RQ_MAX_PACKET"
  shows "rq_inv (rq_put now data q) \<and> rq_cap (rq_put now data q) = rq_cap q \<and>
    rq_list (rq_put now data q) =
      (if rq_count q = rq_cap q then tl (rq_list q) else rq_list q) @ [(data, now)]"
proof (cases "rq_count q = rq_cap q")
  case True
  let ?q = "(rq_advance q)\<lparr>rq_dropped := rq_dropped q + 1\<rparr>"
  have ne: "rq_count q \<noteq> 0" using True assms(1) by (simp add: rq_inv_def)
  have inv: "rq_inv ?q" using rq_inv_advance [OF assms(1) ne] by simp
  have lt: "rq_count ?q < rq_cap ?q" using True ne by (simp add: rq_advance_def)
  have put: "rq_put now data q = rq_append now data ?q" by (simp add: rq_put_append True)
  have "rq_cap (rq_append now data ?q) = rq_cap q"
    by (simp add: rq_append_def rq_advance_def rq_cap_def)
  with rq_list_append [OF inv lt] rq_inv_append [OF inv lt assms(2)] rq_list_advance [OF assms(1) ne]
  show ?thesis by (simp add: put True)
next
  case False
  then have lt: "rq_count q < rq_cap q" using assms(1) by (simp add: rq_inv_def)
  have "rq_cap (rq_append now data q) = rq_cap q" by (simp add: rq_append_def rq_cap_def)
  with rq_list_append [OF assms(1) lt] rq_inv_append [OF assms(1) lt assms(2)] False
  show ?thesis by (simp add: rq_put_append)
qed

definition rq_ok :: "rq_item \<Rightarrow> bool" where
  "rq_ok it \<longleftrightarrow> length (fst it) \<le> RQ_MAX_PACKET"

definition rq_put_item :: "rq_item \<Rightarrow> route_queue \<Rightarrow> route_queue" where
  "rq_put_item it q = rq_put (snd it) (fst it) q"

interpretation rq: bounded_fifo rq_inv rq_list rq_cap rq_ok rq_put_item rq_advance
proof unfold_locales
  fix q x assume a: "rq_inv q" "rq_ok x"
  from rq_put_ok [OF a(1), of "fst x" "snd x"] a(2)
  show "rq_inv (rq_put_item x q)" "rq_cap (rq_put_item x q) = rq_cap q"
    "rq_list (rq_put_item x q) =
       (if length (rq_list q) = rq_cap q then tl (rq_list q) else rq_list q) @ [x]"
    by (simp_all add: rq_put_item_def rq_ok_def len_simps)
next
  fix q assume a: "rq_inv q" "rq_list q \<noteq> []"
  then have "rq_count q \<noteq> 0" by (metis length_rq_list length_0_conv)
  with a(1) show "rq_inv (rq_advance q)" "rq_list (rq_advance q) = tl (rq_list q)"
    by (auto intro: rq_inv_advance rq_list_advance)
next
  fix q assume "rq_inv q"
  then show "0 < rq_cap q" "length (rq_list q) \<le> rq_cap q" "rq_cap (rq_advance q) = rq_cap q"
    by (auto simp: rq_inv_def len_simps rq_advance_def)
qed

definition item_stale :: "u32 \<Rightarrow> u32 \<Rightarrow> rq_item \<Rightarrow> bool" where
  "item_stale now maxAge it \<longleftrightarrow> maxAge \<noteq> 0 \<and> now - snd it > maxAge"

lemma rq_stale_item: "rq_stale now q e = item_stale now (rq_maxAgeMs q) (item_of e)"
  by (simp add: rq_stale_def item_stale_def item_of_def)

lemma rq_pop_ok:
  "rq_inv q \<Longrightarrow> rq_inv (fst (rq_pop now q)) \<and>
     (case dropWhile (item_stale now (rq_maxAgeMs q)) (rq_list q) of
        [] \<Rightarrow> snd (rq_pop now q) = None \<and> rq_list (fst (rq_pop now q)) = []
      | x # xs \<Rightarrow> snd (rq_pop now q) = Some x \<and> rq_list (fst (rq_pop now q)) = xs)"
proof (induction now q rule: rq_pop.induct)
  case (1 now q)
  show ?case
  proof (cases "rq_count q = 0")
    case True
    then show ?thesis using "1.prems" by (simp add: rq_pop.simps [of now q] rq_list_def)
  next
    case False
    let ?e = "rq_ring q ! rq_head q"
    let ?q1 = "(rq_advance q)\<lparr>rq_dropped := rq_dropped (rq_advance q) + 1\<rparr>"
    note ne = rq_list_Cons [OF "1.prems" False] and inv = rq_inv_advance [OF "1.prems" False]
    have age: "rq_maxAgeMs ?q1 = rq_maxAgeMs q" by (simp add: rq_advance_def)
    show ?thesis
    proof (cases "rq_stale now q ?e")
      case True
      have step: "rq_pop now q = rq_pop now ?q1"
        using False True by (subst rq_pop.simps) (simp add: Let_def)
      have inv1: "rq_inv ?q1" using inv by simp
      have dw: "dropWhile (item_stale now (rq_maxAgeMs q)) (rq_list q) =
          dropWhile (item_stale now (rq_maxAgeMs ?q1)) (rq_list ?q1)"
        using True by (simp add: ne rq_stale_item age)
      show ?thesis
        unfolding step dw by (rule "1.IH" [OF False refl refl True inv1])
    next
      case live: False
      have "rq_pop now q = (rq_advance q, Some (item_of ?e))"
        using False live by (subst rq_pop.simps) (simp add: Let_def item_of_def)
      with live inv show ?thesis by (simp add: ne rq_stale_item)
    qed
  qed
qed


definition sample_slot :: rq_entry where
  "sample_slot = \<lparr>rqe_data = replicate RQ_MAX_PACKET 0, rqe_len = 0, rqe_enqueueMs = 0\<rparr>"


text \<open>
  \<open>pop\<close> always returns, and delivers the oldest packet that is not older than the maximum
  age: every expired packet ahead of it is discarded, none behind it is touched, and it
  reports an empty queue exactly when nothing deliverable was queued.
\<close>

theorem route_queue_pop_oldest_fresh:
  assumes "rq_inv q"
  shows "case dropWhile (item_stale now (rq_maxAgeMs q)) (rq_list q) of
      [] \<Rightarrow> snd (rq_pop now q) = None \<and> rq_list (fst (rq_pop now q)) = []
    | x # xs \<Rightarrow> snd (rq_pop now q) = Some x \<and> rq_list (fst (rq_pop now q)) = xs"
  using rq_pop_ok [OF assms] by blast

lemma route_queue_pop_witness:
  "snd (rq_pop 70000 \<lparr>rq_ring = [sample_slot\<lparr>rqe_len := 1, rqe_enqueueMs := 10\<rparr>,
       sample_slot\<lparr>rqe_len := 2, rqe_enqueueMs := 65000\<rparr>],
     rq_head = 0, rq_tail = 0, rq_count = 2, rq_maxAgeMs = 60000, rq_dropped = 0\<rparr>) = Some ([0, 0], 65000)"
  (is "snd (rq_pop _ ?q) = _")
proof -
  have inv: "rq_inv ?q"
    by (simp add: rq_inv_def rq_cap_def sample_slot_def RQ_MAX_PACKET_def)
  have r: "rq_list ?q = [([0], 10), ([0, 0], 65000)]"
    by (simp add: rq_list_def item_of_def sample_slot_def rq_cap_def RQ_MAX_PACKET_def upt_rec
        take_replicate) (simp add: numeral_2_eq_2)
  have l: "dropWhile (item_stale 70000 (rq_maxAgeMs ?q)) (rq_list ?q) = [([0, 0], 65000)]"
    unfolding r by (simp add: item_stale_def)
  from route_queue_pop_oldest_fresh [OF inv, of 70000] show ?thesis unfolding l by simp
qed

end
