(* ===== verification/LoRaWANCrypto.thy ===== *)
theory LoRaWANCrypto
  imports Prelude
begin

text \<open>
  The LoRaWAN 1.0.x ABP uplink encoder (\<open>src/src/LoRaWANCrypto.h\<close>): RFC 4493 AES-CMAC, the
  FRMPayload key stream and the Data-Up frame. The AES-128 block encryption of mbedTLS is the
  parameter \<open>aes key block\<close>; the only law used of it is that a block is 16 bytes.
\<close>

definition aes_block :: "(bytes \<Rightarrow> bytes \<Rightarrow> bytes) \<Rightarrow> bool" where
  "aes_block aes \<longleftrightarrow> (\<forall>k b. length (aes k b) = 16)"

section \<open>AES-CMAC\<close>

fun shl_loop :: "u8 \<Rightarrow> bytes \<Rightarrow> bytes" where
  "shl_loop carry [] = []"
| "shl_loop carry (b # bs) = (push_bit 1 b OR carry) # shl_loop (if b AND 0x80 \<noteq> 0 then 1 else 0) bs"

text \<open>The loop runs from byte 15 down to byte 0, so over the reversed block.\<close>

definition cmacShiftLeft :: "bytes \<Rightarrow> bytes" where
  "cmacShiftLeft inp = rev (shl_loop 0 (rev inp))"

definition cmacSubkeys :: "(bytes \<Rightarrow> bytes \<Rightarrow> bytes) \<Rightarrow> bytes \<Rightarrow> bytes \<times> bytes" where
  "cmacSubkeys aes key =
     (let Rb = 0x87 :: u8; L = aes key (replicate 16 0);
          k1 = cmacShiftLeft L;
          k1 = (if L ! 0 AND 0x80 \<noteq> 0 then k1[15 := k1 ! 15 XOR Rb] else k1);
          k2 = cmacShiftLeft k1;
          k2 = (if k1 ! 0 AND 0x80 \<noteq> 0 then k2[15 := k2 ! 15 XOR Rb] else k2)
      in (k1, k2))"

definition aesCmac :: "(bytes \<Rightarrow> bytes \<Rightarrow> bytes) \<Rightarrow> bytes \<Rightarrow> bytes \<Rightarrow> bytes" where
  "aesCmac aes key msg =
     (let (k1, k2) = cmacSubkeys aes key; len = length msg;
          n = (if len = 0 then 1 else (len + 15) div 16);
          lastComplete = (len \<noteq> 0 \<and> len mod 16 = 0);
          lastBlock = drop ((n - 1) * 16) msg;
          mLast = (if lastComplete then map (\<lambda>i. lastBlock ! i XOR k1 ! i) [0..<16]
                   else (let rem = (if len = 0 then 0 else len mod 16)
                         in map (\<lambda>i. (if i < rem then lastBlock ! i else if i = rem then 0x80 else 0) XOR k2 ! i) [0..<16]));
          x = foldl (\<lambda>x i. aes key (map (\<lambda>j. x ! j XOR msg ! (i * 16 + j)) [0..<16])) (replicate 16 0) [0..<n - 1]
      in aes key (map (\<lambda>j. x ! j XOR mLast ! j) [0..<16]))"

subsection \<open>The subkeys are doublings in GF(2^128)\<close>

fun le_val :: "bytes \<Rightarrow> int" where
  "le_val [] = 0"
| "le_val (b # bs) = uint b + 256 * le_val bs"

definition be_val :: "bytes \<Rightarrow> int" where
  "be_val bs = le_val (rev bs)"

definition gf_double :: "int \<Rightarrow> int" where
  "gf_double n = (if n < 2 ^ 127 then 2 * n else (2 * n - 2 ^ 128) XOR 0x87)"

lemma le_val_append: "le_val (xs @ ys) = le_val xs + 256 ^ length xs * le_val ys"
  by (induction xs) (auto simp: algebra_simps)

lemma le_val_nonneg: "0 \<le> le_val xs"
  by (induction xs) auto

lemma le_val_less: "le_val xs < 256 ^ length xs"
proof (induction xs)
  case (Cons b xs)
  have "uint b < 256" using uint_lt2p [of b] by simp
  with Cons show ?case by simp
qed simp

lemma mod_256_double:
  assumes "0 \<le> n" and "n < (256 :: int)"
  shows "(2 * n) mod 256 = (if 128 \<le> n then 2 * n - 256 else 2 * n)"
proof (cases "128 \<le> n")
  case True
  then have "(2 * n - 256) mod 256 = 2 * n - 256" using assms by (intro mod_pos_pos_trivial) auto
  with True show ?thesis by simp
next
  case False
  then show ?thesis using assms by (simp add: mod_pos_pos_trivial)
qed

lemma uint_succ: "uint z + 1 < 256 \<Longrightarrow> uint (z + 1 :: u8) = uint z + 1"
  by (simp add: uint_word_ariths mod_pos_pos_trivial)

lemma shl_byte:
  assumes "c = 0 \<or> c = 1"
  shows "uint (push_bit 1 b OR c) + 256 * of_bool (bit b 7) = 2 * uint (b :: u8) + uint c"
proof -
  have lt: "0 \<le> uint b" "uint b < 256" using uint_lt2p [of b] by auto
  define z where "z = push_bit 1 b"
  have "uint z = (2 * uint b) mod 256"
    by (simp add: z_def uint_word_ariths mult.commute)
  then have s: "uint z = (if 128 \<le> uint b then 2 * uint b - 256 else 2 * uint b)"
    by (simp only: mod_256_double [OF lt])
  have "even z" by (simp add: z_def)
  then have o1: "z OR 1 = z + 1" by (simp add: or_one_eq)
  have "uint z + 1 < 256" using lt s by auto
  then have "uint (z + 1) = uint z + 1" by (rule uint_succ)
  with o1 s have "uint (z OR c) + 256 * of_bool (128 \<le> uint b) = 2 * uint b + uint c"
    using assms by (elim disjE) auto
  then show ?thesis by (simp only: z_def top_bit_8)
qed

lemma length_shl_loop [simp]: "length (shl_loop c xs) = length xs"
  by (induction xs arbitrary: c) auto

definition top_carry :: "u8 \<Rightarrow> bytes \<Rightarrow> bool" where
  "top_carry c xs = (if xs = [] then c = 1 else bit (last xs) 7)"

lemma shl_loop_val:
  assumes "c = 0 \<or> c = 1"
  shows "le_val (shl_loop c xs) + 256 ^ length xs * of_bool (top_carry c xs) = 2 * le_val xs + uint c"
  using assms
proof (induction xs arbitrary: c)
  case Nil
  then show ?case by (auto simp: top_carry_def)
next
  case (Cons b bs)
  let ?c = "if b AND 0x80 \<noteq> 0 then 1 else 0 :: u8"
  have c01: "?c = 0 \<or> ?c = 1" by simp
  have cb: "uint ?c = of_bool (bit b 7)" by (simp add: and_0x80)
  have tc: "top_carry c (b # bs) = top_carry ?c bs" by (simp add: top_carry_def and_0x80)
  have "le_val (shl_loop c (b # bs)) = uint (push_bit 1 b OR c) + 256 * le_val (shl_loop ?c bs)"
    by (simp only: shl_loop.simps le_val.simps)
  moreover have "256 * le_val (shl_loop ?c bs) + 256 ^ length (b # bs) * of_bool (top_carry ?c bs)
      = 512 * le_val bs + 256 * uint ?c"
    using Cons.IH [OF c01] by simp
  ultimately show ?case using shl_byte [OF Cons.prems, of b]
    unfolding tc cb by simp
qed

lemma length_cmacShiftLeft [simp]: "length (cmacShiftLeft x) = length x"
  by (simp add: cmacShiftLeft_def)

lemma be_val_shift:
  assumes "length x = 16"
  shows "be_val (cmacShiftLeft x) = 2 * be_val x - 2 ^ 128 * of_bool (bit (x ! 0) 7)"
proof -
  obtain b bs where x: "x = b # bs" using assms by (cases x) auto
  have "top_carry 0 (rev x) = bit b 7" by (simp add: top_carry_def x)
  with shl_loop_val [of 0 "rev x"] assms show ?thesis
    by (simp add: be_val_def cmacShiftLeft_def x)
qed

lemma be_val_Cons: "be_val (b # bs) = be_val bs + 256 ^ length bs * uint b"
  by (simp add: be_val_def le_val_append)

lemma top_bit_be:
  assumes "length x = 16"
  shows "bit (x ! 0) 7 \<longleftrightarrow> 2 ^ 127 \<le> be_val x"
proof -
  obtain b bs where x: "x = b # bs" "length bs = 15" using assms by (cases x) auto
  have r: "0 \<le> be_val bs" "be_val bs < 256 ^ 15"
    using le_val_nonneg [of "rev bs"] le_val_less [of "rev bs"] x by (auto simp: be_val_def)
  have "128 \<le> uint b \<longleftrightarrow> (2 ^ 127 :: int) \<le> be_val bs + 256 ^ 15 * uint b"
    using r by auto
  then show ?thesis by (simp add: x be_val_Cons top_bit_8)
qed

lemma xor_low_byte: "uint (b XOR r) + 256 * v = (uint (b :: u8) + 256 * v) XOR uint r"
proof -
  have c: "uint w + 256 * v = concat_bit 8 (uint w) v" for w :: u8 and v
  proof -
    have "take_bit 8 (uint w) = uint w"
      by (rule take_bit_int_eq_self) (use uint_lt2p [of w] in auto)
    then show ?thesis by (simp add: concat_bit_eq push_bit_eq_mult mult.commute)
  qed
  show ?thesis
    unfolding c by (rule bit_eqI) (auto simp: bit_concat_bit_iff bit_xor_iff uint_xor bit_uint_iff)
qed

lemma be_val_xor_last:
  assumes "length x = 16"
  shows "be_val (x[15 := x ! 15 XOR r]) = be_val x XOR uint r"
proof -
  obtain b bs where x: "rev x = b # bs" using assms by (cases "rev x") auto
  then have x': "x = rev bs @ [b]" by (metis rev.simps(2) rev_rev_ident)
  with assms have l: "length bs = 15" by simp
  then show ?thesis by (simp add: x' be_val_def nth_append list_update_append xor_low_byte)
qed

lemma doubling:
  assumes "length x = 16"
  shows "be_val (if x ! 0 AND 0x80 \<noteq> 0 then (cmacShiftLeft x)[15 := cmacShiftLeft x ! 15 XOR 0x87]
      else cmacShiftLeft x) = gf_double (be_val x)"
  using be_val_shift [OF assms] top_bit_be [OF assms]
  by (auto simp: and_0x80 gf_double_def be_val_xor_last assms)

text \<open>
  The two CMAC subkeys are the GF(2^128) doublings of the encrypted zero block that RFC 4493
  (section 2.3) prescribes, the bytes read as big-endian numbers.
\<close>

theorem cmac_subkeys_are_doublings:
  assumes "aes_block aes" and "cmacSubkeys aes key = (k1, k2)"
  shows "length k1 = 16 \<and> length k2 = 16 \<and>
    be_val k1 = gf_double (be_val (aes key (replicate 16 0))) \<and> be_val k2 = gf_double (be_val k1)"
proof -
  define L where "L = aes key (replicate 16 0)"
  have L: "length L = 16" using assms(1) by (simp add: L_def aes_block_def)
  have k1: "k1 = (if L ! 0 AND 0x80 \<noteq> 0 then (cmacShiftLeft L)[15 := cmacShiftLeft L ! 15 XOR 0x87] else cmacShiftLeft L)"
    and k2: "k2 = (if k1 ! 0 AND 0x80 \<noteq> 0 then (cmacShiftLeft k1)[15 := cmacShiftLeft k1 ! 15 XOR 0x87] else cmacShiftLeft k1)"
    using assms(2) by (auto simp: cmacSubkeys_def Let_def L_def)
  have l1: "length k1 = 16" using L by (simp add: k1)
  have l2: "length k2 = 16" using l1 by (simp add: k2)
  have "be_val k1 = gf_double (be_val L)" unfolding k1 by (rule doubling [OF L])
  moreover have "be_val k2 = gf_double (be_val k1)" unfolding k2 by (rule doubling [OF l1])
  ultimately show ?thesis using l1 l2 by (simp add: L_def)
qed

text \<open>A block function that satisfies the law, for the witnesses.\<close>

definition xor_block :: "bytes \<Rightarrow> bytes \<Rightarrow> bytes" where
  "xor_block k b = map (\<lambda>i. (if i < length k then k ! i else 0) XOR (if i < length b then b ! i else 0)) [0..<16]"

lemma aes_block_xor_block: "aes_block xor_block"
  by (simp add: aes_block_def xor_block_def)

lemma cmac_subkeys_witness:
  "be_val (fst (cmacSubkeys xor_block [0x80, 1])) = gf_double (be_val (xor_block [0x80, 1] (replicate 16 0)))"
  using cmac_subkeys_are_doublings [OF aes_block_xor_block, of "[0x80, 1]"]
  by (cases "cmacSubkeys xor_block [0x80, 1]") simp

subsection \<open>The MAC against RFC 4493\<close>

text \<open>The chaining of RFC 4493, block by block on the remaining message.\<close>

function cmac_chain :: "(bytes \<Rightarrow> bytes) \<Rightarrow> bytes \<Rightarrow> bytes \<Rightarrow> bytes \<Rightarrow> bytes \<Rightarrow> bytes" where
  "cmac_chain E k1 k2 x msg =
     (if length msg > 16 then cmac_chain E k1 k2 (E (xors x (take 16 msg))) (drop 16 msg)
      else if length msg = 16 then E (xors x (xors msg k1))
      else E (xors x (xors (take 16 (msg @ 0x80 # replicate 15 0)) k2)))"
  by pat_completeness auto
termination
  by (relation "measure (\<lambda>(E, k1, k2, x, msg). length msg)") auto

declare cmac_chain.simps [simp del]

lemma xors_nth:
  assumes "length x = n" and "length y = n"
  shows "map (\<lambda>i. x ! i XOR y ! i) [0..<n] = xors x y"
  by (rule nth_equalityI) (use assms in \<open>auto simp: xors_def\<close>)

lemma xors_nth_take:
  assumes "length x = 16" and "k + 16 \<le> length msg"
  shows "map (\<lambda>j. x ! j XOR msg ! (k + j)) [0..<16] = xors x (take 16 (drop k msg))"
  by (rule nth_equalityI) (use assms in \<open>auto simp: xors_def\<close>)

text \<open>The masked last block of the code, from the number of bytes left in it.\<close>

definition last_block :: "bytes \<Rightarrow> bytes \<Rightarrow> bytes \<Rightarrow> bytes" where
  "last_block k1 k2 tl_msg = (if length tl_msg = 16 then xors tl_msg k1
     else xors (take 16 (tl_msg @ 0x80 # replicate 15 0)) k2)"

lemma pad_nth:
  assumes "length m < 16" and "length k2 = 16"
  shows "map (\<lambda>i. (if i < length m then m ! i else if i = length m then 0x80 else 0) XOR k2 ! i) [0..<16]
    = xors (take 16 (m @ 0x80 # replicate 15 0)) k2"
  by (rule nth_equalityI) (use assms in \<open>auto simp: xors_def nth_append nth_Cons'\<close>)

definition cmac_loop :: "(bytes \<Rightarrow> bytes) \<Rightarrow> bytes \<Rightarrow> bytes \<Rightarrow> nat \<Rightarrow> bytes" where
  "cmac_loop E x msg n =
     foldl (\<lambda>x i. E (map (\<lambda>j. x ! j XOR msg ! (i * 16 + j)) [0..<16])) x [0..<n]"

lemma cmac_loop_Suc:
  assumes "length x = 16" and "16 \<le> length msg"
  shows "cmac_loop E x msg (Suc n) = cmac_loop E (E (xors x (take 16 msg))) (drop 16 msg) n"
proof -
  have "[0..<Suc n] = 0 # map Suc [0..<n]" by (simp add: upt_conv_Cons map_Suc_upt)
  moreover have "E (map (\<lambda>j. x ! j XOR msg ! (0 * 16 + j)) [0..<16]) = E (xors x (take 16 msg))"
    using xors_nth_take [OF assms(1), of 0 msg] assms(2) by simp
  moreover have "(\<lambda>x i. E (map (\<lambda>j. x ! j XOR msg ! (Suc i * 16 + j)) [0..<16]))
      = (\<lambda>x i. E (map (\<lambda>j. x ! j XOR drop 16 msg ! (i * 16 + j)) [0..<16]))"
    using assms(2) by (simp add: add.assoc)
  ultimately show ?thesis by (simp only: cmac_loop_def foldl.simps foldl_map)
qed

definition blocks :: "nat \<Rightarrow> nat" where
  "blocks len = (if len = 0 then 1 else (len + 15) div 16)"

lemma cmac_chain_loop:
  assumes "\<And>b. length (E b) = 16" and "length x = 16" and "length k1 = 16" and "length k2 = 16"
  shows "cmac_chain E k1 k2 x msg =
    E (xors (cmac_loop E x msg (blocks (length msg) - 1))
        (last_block k1 k2 (drop ((blocks (length msg) - 1) * 16) msg)))"
  using assms
proof (induction E k1 k2 x msg rule: cmac_chain.induct)
  case (1 E k1 k2 x msg)
  show ?case
  proof (cases "length msg > 16")
    case True
    let ?n = "blocks (length (drop 16 msg))"
    have n: "blocks (length msg) - 1 = Suc (?n - 1)" and "blocks (length msg) = Suc ?n"
      using True by (auto simp: blocks_def)
    have "cmac_chain E k1 k2 x msg = cmac_chain E k1 k2 (E (xors x (take 16 msg))) (drop 16 msg)"
      using True by (subst cmac_chain.simps) simp
    also have "\<dots> = E (xors (cmac_loop E (E (xors x (take 16 msg))) (drop 16 msg) (?n - 1))
        (last_block k1 k2 (drop ((?n - 1) * 16) (drop 16 msg))))"
      by (rule "1.IH") (use True "1.prems" in auto)
    also have "\<dots> = E (xors (cmac_loop E x msg (Suc (?n - 1))) (last_block k1 k2 (drop (Suc (?n - 1) * 16) msg)))"
      using True "1.prems" by (subst cmac_loop_Suc) (simp_all add: add.commute)
    finally show ?thesis unfolding n .
  next
    case False
    then have "blocks (length msg) = 1"
      by (cases msg) (auto simp: blocks_def intro!: div_nat_eqI)
    with False show ?thesis by (subst cmac_chain.simps) (simp add: cmac_loop_def last_block_def)
  qed
qed

lemma length_cmac_loop:
  "(\<And>b. length (E b) = 16) \<Longrightarrow> length x = 16 \<Longrightarrow> length (cmac_loop E x msg n) = 16"
  unfolding cmac_loop_def by (rule foldl_inv [where P = "\<lambda>x. length x = 16"]) auto

lemma last_block_len:
  "drop ((blocks n - 1) * 16) [0..<n] = last_part \<Longrightarrow> length last_part = (if n = 0 then 0 else if n mod 16 = 0 then 16 else n mod 16)"
proof -
  assume "drop ((blocks n - 1) * 16) [0..<n] = last_part"
  then have l: "length last_part = n - (blocks n - 1) * 16" by auto
  show ?thesis
  proof (cases "n = 0")
    case False
    define q r where "q = n div 16" and "r = n mod 16"
    have n: "n = q * 16 + r" "r < 16" by (simp_all add: q_def r_def)
    have "(n + 15) div 16 = (if r = 0 then q else Suc q)"
    proof (cases "r = 0")
      case True
      then have "n + 15 = q * 16 + 15" using n by simp
      then have "(n + 15) div 16 = q" by simp
      with True show ?thesis by simp
    next
      case False
      then have "n + 15 = Suc q * 16 + (r - 1)" "r - 1 < 16" using n by auto
      then have "(n + 15) div 16 = Suc q" by simp
      with False show ?thesis by simp
    qed
    then have b: "blocks n = (if r = 0 then q else Suc q)" using False by (simp add: blocks_def)
    have "n mod 16 = r" by (simp add: r_def)
    then show ?thesis using l False n b by (cases q) auto
  qed (use l in simp)
qed

lemma aesCmac_loop:
  assumes aes: "aes_block aes" and k: "cmacSubkeys aes key = (k1, k2)"
    and lk: "length k1 = 16" "length k2 = 16"
  shows "aesCmac aes key msg =
    aes key (xors (cmac_loop (aes key) (replicate 16 0) msg (blocks (length msg) - 1))
      (last_block k1 k2 (drop ((blocks (length msg) - 1) * 16) msg)))"
proof -
  let ?n = "blocks (length msg)" and ?len = "length msg"
  let ?last = "drop ((?n - 1) * 16) msg"
  let ?rem = "if ?len = 0 then 0 else ?len mod 16"
  have E: "\<And>b. length (aes key b) = 16" using aes by (simp add: aes_block_def)
  have ll: "length ?last = (if ?len = 0 then 0 else if ?len mod 16 = 0 then 16 else ?len mod 16)"
    using last_block_len [OF refl, of ?len] by simp
  let ?mLast = "if ?len \<noteq> 0 \<and> ?len mod 16 = 0 then map (\<lambda>i. ?last ! i XOR k1 ! i) [0..<16]
    else map (\<lambda>i. (if i < ?rem then ?last ! i else if i = ?rem then 0x80 else 0) XOR k2 ! i) [0..<16]"
  have m: "?mLast = last_block k1 k2 ?last"
  proof (cases "?len \<noteq> 0 \<and> ?len mod 16 = 0")
    case True
    then have l16: "length ?last = 16" using ll by auto
    then have "map (\<lambda>i. ?last ! i XOR k1 ! i) [0..<16] = xors ?last k1" by (rule xors_nth [OF _ lk(1)])
    with True l16 show ?thesis by (simp only: last_block_def if_True simp_thms)
  next
    case False
    then have r: "length ?last = ?rem" "?rem < 16" using ll by auto
    with False have "last_block k1 k2 ?last = xors (take 16 (?last @ 0x80 # replicate 15 0)) k2"
      unfolding last_block_def by (simp only: r(1)) simp
    also have "\<dots> = map (\<lambda>i. (if i < length ?last then ?last ! i else if i = length ?last then 0x80 else 0) XOR k2 ! i) [0..<16]"
      by (rule pad_nth [symmetric]) (use r lk in auto)
    finally show ?thesis using False unfolding r(1) by (simp only: if_False)
  qed
  let ?x = "cmac_loop (aes key) (replicate 16 0) msg (?n - 1)"
  have x: "length ?x = 16" using E by (simp add: length_cmac_loop)
  have lm: "length ?mLast = 16" by simp
  have "aesCmac aes key msg = aes key (map (\<lambda>j. ?x ! j XOR ?mLast ! j) [0..<16])"
    by (simp only: aesCmac_def k Let_def split_conv blocks_def cmac_loop_def)
  also have "map (\<lambda>j. ?x ! j XOR ?mLast ! j) [0..<16] = xors ?x ?mLast"
    by (rule xors_nth [OF x lm])
  finally show ?thesis unfolding m .
qed

lemma length_cmacSubkeys:
  assumes "aes_block aes" and "cmacSubkeys aes key = (k1, k2)"
  shows "length k1 = 16 \<and> length k2 = 16"
  using assms by (auto simp: cmacSubkeys_def Let_def aes_block_def split: if_splits)

lemma aesCmac_chain:
  assumes aes: "aes_block aes"
  shows "aesCmac aes key msg = (case cmacSubkeys aes key of (k1, k2) \<Rightarrow>
    cmac_chain (aes key) k1 k2 (replicate 16 0) msg)"
proof -
  obtain k1 k2 where k: "cmacSubkeys aes key = (k1, k2)" by fastforce
  from length_cmacSubkeys [OF aes k] have lk: "length k1 = 16" "length k2 = 16" by auto
  have E: "\<And>b. length (aes key b) = 16" using aes by (simp add: aes_block_def)
  show ?thesis
    unfolding k aesCmac_loop [OF aes k lk] split_conv
    by (rule cmac_chain_loop [symmetric]) (simp_all add: E lk)
qed

text \<open>
  C30: The index-driven CMAC of the code, with its block count, remainder and padding arithmetic,
  computes the RFC 4493 chaining of every message of every length.
\<close>

theorem aesCmac_is_rfc4493:
  assumes "aes_block aes"
  shows "aesCmac aes key msg = (case cmacSubkeys aes key of (k1, k2) \<Rightarrow>
    cmac_chain (aes key) k1 k2 (replicate 16 0) msg)"
  by (rule aesCmac_chain [OF assms])

lemma aesCmac_witness:
  "aesCmac xor_block [] [1, 2] = (case cmacSubkeys xor_block [] of (k1, k2) \<Rightarrow>
    cmac_chain (xor_block []) k1 k2 (replicate 16 0) [1, 2])"
  by (rule aesCmac_is_rfc4493 [OF aes_block_xor_block])

lemma length_aesCmac: "aes_block aes \<Longrightarrow> length (aesCmac aes key msg) = 16"
  by (simp add: aesCmac_def aes_block_def Let_def case_prod_unfold)

section \<open>FRMPayload encryption\<close>

definition a_block :: "u32 \<Rightarrow> u32 \<Rightarrow> nat \<Rightarrow> bytes" where
  "a_block devAddr fcnt32 i =
     [0x01, 0, 0, 0, 0, 0] @ le32 devAddr @ le32 fcnt32 @ [0, word_of_nat i]"

definition crypt_step :: "(bytes \<Rightarrow> bytes \<Rightarrow> bytes) \<Rightarrow> bytes \<Rightarrow> u32 \<Rightarrow> u32 \<Rightarrow> bytes \<Rightarrow> nat \<Rightarrow> bytes" where
  "crypt_step aes key devAddr fcnt32 payload i =
     (let s = aes key (a_block devAddr fcnt32 i); off = (i - 1) * 16;
          n = (if length payload - off < 16 then length payload - off else 16)
      in take off payload @ xors (take n (drop off payload)) s @ drop (off + n) payload)"

definition cryptFrmPayload :: "(bytes \<Rightarrow> bytes \<Rightarrow> bytes) \<Rightarrow> bytes \<Rightarrow> u32 \<Rightarrow> u32 \<Rightarrow> bytes \<Rightarrow> bytes" where
  "cryptFrmPayload aes key devAddr fcnt32 payload =
     foldl (crypt_step aes key devAddr fcnt32) payload [1..<Suc ((length payload + 15) div 16)]"

text \<open>The key stream of the LoRaWAN specification: the concatenated encrypted A blocks.\<close>

definition key_stream :: "(bytes \<Rightarrow> bytes \<Rightarrow> bytes) \<Rightarrow> bytes \<Rightarrow> u32 \<Rightarrow> u32 \<Rightarrow> nat \<Rightarrow> bytes" where
  "key_stream aes key devAddr fcnt32 n =
     concat (map (\<lambda>i. aes key (a_block devAddr fcnt32 i)) [1..<Suc n])"

lemma length_key_stream: "aes_block aes \<Longrightarrow> length (key_stream aes key d f n) = 16 * n"
  by (induction n) (auto simp: key_stream_def aes_block_def)

lemma xors_append:
  "length as = length bs \<Longrightarrow> xors (as @ cs) (bs @ ds) = xors as bs @ xors cs ds"
  by (simp add: xors_def)

lemma crypt_prefix:
  assumes aes: "aes_block aes" and "16 * n \<le> length payload + 15"
  shows "foldl (crypt_step aes key d f) payload [1..<Suc n] =
    xors (take (16 * n) payload) (key_stream aes key d f n) @ drop (16 * n) payload"
  using assms(2)
proof (induction n)
  case 0
  then show ?case by (simp add: key_stream_def)
next
  case (Suc n)
  let ?s = "aes key (a_block d f (Suc n))" and ?ks = "key_stream aes key d f n"
  have s: "length ?s = 16" using aes by (simp add: aes_block_def)
  have n: "16 * n \<le> length payload" using Suc.prems by simp
  define rest where "rest = drop (16 * n) payload"
  define m where "m = min 16 (length rest)"
  have pre: "length (xors (take (16 * n) payload) ?ks) = 16 * n"
    using n by (simp add: length_key_stream [OF aes])
  have IH: "foldl (crypt_step aes key d f) payload [1..<Suc n] = xors (take (16 * n) payload) ?ks @ rest"
    using Suc by (simp add: rest_def)
  have "foldl (crypt_step aes key d f) payload [1..<Suc (Suc n)]
      = crypt_step aes key d f (xors (take (16 * n) payload) ?ks @ rest) (Suc n)"
    using IH by simp
  also have "\<dots> = xors (take (16 * n) payload) ?ks @ xors (take m rest) ?s @ drop m rest"
    using pre by (simp add: crypt_step_def Let_def m_def mult.commute [of n] min_def)
  also have "\<dots> = xors (take (16 * n) payload @ take m rest) (?ks @ ?s) @ drop m rest"
    using n by (subst xors_append) (simp_all add: length_key_stream [OF aes])
  also have "take (16 * n) payload @ take m rest = take (16 * Suc n) payload"
  proof -
    have "take m rest = take 16 rest" by (simp add: m_def min_def)
    moreover have "16 * Suc n = 16 * n + 16" by simp
    ultimately show ?thesis unfolding rest_def by (simp only: take_add)
  qed
  also have "drop m rest = drop (16 * Suc n) payload"
    by (simp add: rest_def m_def min_def add.commute)
  also have "?ks @ ?s = key_stream aes key d f (Suc n)" by (simp add: key_stream_def)
  finally show ?case .
qed

lemma crypt_key_stream:
  assumes "aes_block aes"
  shows "cryptFrmPayload aes key d f payload =
    xors payload (key_stream aes key d f ((length payload + 15) div 16))"
proof -
  have le1: "16 * ((length payload + 15) div 16) \<le> length payload + 15" by simp
  have "length payload \<le> 16 * ((length payload + 15) div 16)" by presburger
  then show ?thesis unfolding cryptFrmPayload_def crypt_prefix [OF assms le1] by simp
qed

lemma length_crypt [len_simps]:
  "aes_block aes \<Longrightarrow> length (cryptFrmPayload aes key d f payload) = length payload"
proof -
  assume a: "aes_block aes"
  have "length payload \<le> 16 * ((length payload + 15) div 16)" by presburger
  then show ?thesis by (simp add: crypt_key_stream [OF a] length_key_stream [OF a])
qed

lemma crypt_involution:
  assumes a: "aes_block aes"
  shows "cryptFrmPayload aes key d f (cryptFrmPayload aes key d f payload) = payload"
proof -
  have le: "length payload \<le> 16 * ((length payload + 15) div 16)" by presburger
  have "cryptFrmPayload aes key d f (cryptFrmPayload aes key d f payload) =
      xors (cryptFrmPayload aes key d f payload) (key_stream aes key d f ((length payload + 15) div 16))"
    by (subst crypt_key_stream [OF a]) (simp only: length_crypt [OF a])
  also have "\<dots> = payload"
    unfolding crypt_key_stream [OF a] by (rule xors_involutive) (simp add: le length_key_stream [OF a])
  finally show ?thesis .
qed

text \<open>
  FRMPayload encryption is its own inverse and keeps the length, for every key, device
  address, counter and payload: what the network server decrypts is what the bridge encrypted.
\<close>

theorem cryptFrmPayload_involutive:
  assumes "aes_block aes"
  shows "cryptFrmPayload aes key d f (cryptFrmPayload aes key d f payload) = payload \<and>
    length (cryptFrmPayload aes key d f payload) = length payload"
  using crypt_involution [OF assms] length_crypt [OF assms] by blast

lemma cryptFrmPayload_witness:
  "cryptFrmPayload xor_block [7] 1 2 (cryptFrmPayload xor_block [7] 1 2 [10, 20, 30]) = [10, 20, 30]"
  using cryptFrmPayload_involutive [OF aes_block_xor_block] by blast

section \<open>The uplink frame\<close>

definition b0_block :: "u32 \<Rightarrow> u32 \<Rightarrow> nat \<Rightarrow> bytes" where
  "b0_block devAddr fcnt32 o1 =
     [0x49, 0, 0, 0, 0, 0] @ le32 devAddr @ le32 fcnt32 @ [0, word_of_nat o1]"

definition lw_header :: "u32 \<Rightarrow> u32 \<Rightarrow> u8 \<Rightarrow> bool \<Rightarrow> bytes" where
  "lw_header devAddr fcnt32 fport confirmed =
     [if confirmed then 0x80 else 0x40] @ le32 devAddr @ [0]
       @ [ucast fcnt32, ucast (drop_bit 8 fcnt32)] @ [fport]"

definition encodeUplink ::
  "(bytes \<Rightarrow> bytes \<Rightarrow> bytes) \<Rightarrow> u32 \<Rightarrow> bytes \<Rightarrow> bytes \<Rightarrow> u32 \<Rightarrow> u8 \<Rightarrow> bytes \<Rightarrow> bool \<Rightarrow> nat \<Rightarrow> bytes option" where
  "encodeUplink aes devAddr nwkSKey appSKey fcnt32 fport payload confirmed cap =
     (let payloadLen = length payload; frameLen = 1 + 4 + 1 + 2 + 1 + payloadLen + 4 in
      if payloadLen > 242 then None
      else if frameLen > cap then None
      else (let k = (if fport = 0 then nwkSKey else appSKey);
                out = lw_header devAddr fcnt32 fport confirmed @ cryptFrmPayload aes k devAddr fcnt32 payload;
                fullMac = aesCmac aes nwkSKey (b0_block devAddr fcnt32 (length out) @ out)
            in Some (out @ take 4 fullMac)))"

lemma length_lw_header [simp]: "length (lw_header d f p c) = 9"
  by (simp add: lw_header_def)

text \<open>
  The acceptance rule of a LoRaWAN 1.0 network server for an ABP session, as the LoRaWAN
  specification states it: parse the header, check the device address and the counter's low
  half against the expected 32-bit counter, check the MIC over B0 and the message, then
  decrypt with the key the port selects.
\<close>

definition lns_receive ::
  "(bytes \<Rightarrow> bytes \<Rightarrow> bytes) \<Rightarrow> u32 \<Rightarrow> bytes \<Rightarrow> bytes \<Rightarrow> u32 \<Rightarrow> bytes \<Rightarrow> (u8 \<times> bytes) option" where
  "lns_receive aes devAddr nwk app fcnt frame =
     (let n = length frame; msg = take (n - 4) frame; mic = drop (n - 4) frame in
      if n < 13 \<or> frame ! 0 \<notin> {0x40, 0x80} \<or> get32 frame 1 \<noteq> devAddr \<or> frame ! 5 \<noteq> 0
         \<or> get16 frame 6 \<noteq> ucast fcnt
         \<or> mic \<noteq> take 4 (aesCmac aes nwk (b0_block devAddr fcnt (n - 4) @ msg)) then None
      else Some (frame ! 8, cryptFrmPayload aes (if frame ! 8 = 0 then nwk else app) devAddr fcnt (drop 9 msg)))"

lemma encodeUplink_Some_iff:
  "(\<exists>fr. encodeUplink aes d nwk app f p pl c cap = Some fr) \<longleftrightarrow> length pl \<le> 242 \<and> length pl + 13 \<le> cap"
  by (auto simp: encodeUplink_def Let_def)

lemma encodeUplink_frame:
  assumes "encodeUplink aes d nwk app f p pl c cap = Some fr"
  shows "fr = (lw_header d f p c @ cryptFrmPayload aes (if p = 0 then nwk else app) d f pl) @
    take 4 (aesCmac aes nwk (b0_block d f (length (lw_header d f p c @ cryptFrmPayload aes (if p = 0 then nwk else app) d f pl))
      @ lw_header d f p c @ cryptFrmPayload aes (if p = 0 then nwk else app) d f pl))"
  using assms by (auto simp: encodeUplink_def Let_def split: if_splits)

lemma lw_header_fields:
  "(lw_header d f p c @ rest) ! 0 = (if c then 0x80 else 0x40)" "get32 (lw_header d f p c @ rest) 1 = d"
  "(lw_header d f p c @ rest) ! 5 = 0" "get16 (lw_header d f p c @ rest) 6 = ucast f"
  "(lw_header d f p c @ rest) ! 8 = p"
proof -
  have u: "ucast f = (ucast (ucast f :: u16) :: u8)" "ucast (drop_bit 8 f) = (ucast (drop_bit 8 (ucast f :: u16)) :: u8)"
    by (rule bit_word_eqI, auto simp: bit_simps)+
  show "get16 (lw_header d f p c @ rest) 6 = ucast f"
    unfolding lw_header_def u by (simp add: get16_def le32_def join16)
qed (simp_all add: lw_header_def get32_def le32_def join32)

lemma lns_receive_encoded:
  assumes aes: "aes_block aes" and enc: "encodeUplink aes d nwk app f p pl c cap = Some fr"
  shows "lns_receive aes d nwk app f fr = Some (p, pl)"
proof -
  let ?k = "if p = 0 then nwk else app"
  define ct where "ct = cryptFrmPayload aes ?k d f pl"
  define out where "out = lw_header d f p c @ ct"
  define mic where "mic = take 4 (aesCmac aes nwk (b0_block d f (length out) @ out))"
  have fr: "fr = out @ mic" using encodeUplink_frame [OF enc] by (simp add: out_def ct_def mic_def)
  have m: "length mic = 4" by (simp add: mic_def length_aesCmac [OF aes])
  have parts: "take (length fr - 4) fr = out" "drop (length fr - 4) fr = mic" "length fr - 4 = length out"
      "take (length out) fr = out" "drop (length out) fr = mic"
    using m by (simp_all add: fr)
  have hd: "fr ! 0 = (if c then 0x80 else 0x40)" "get32 fr 1 = d" "fr ! 5 = 0" "get16 fr 6 = ucast f" "fr ! 8 = p"
    unfolding fr out_def append_assoc by (rule lw_header_fields)+
  have "13 \<le> length fr" using m by (simp add: fr out_def)
  moreover have "drop 9 out = ct" by (simp add: out_def)
  moreover have "cryptFrmPayload aes ?k d f ct = pl" unfolding ct_def by (rule crypt_involution [OF aes])
  ultimately show ?thesis
    unfolding lns_receive_def Let_def parts hd by (simp add: mic_def)
qed

text \<open>
  Every uplink the encoder emits is accepted by a LoRaWAN 1.0 network server that holds the
  same session, which recovers exactly the port and the application payload; and the encoder
  fails exactly on payloads over 242 bytes or frames over the caller's buffer.
\<close>

theorem encodeUplink_accepted:
  assumes "aes_block aes" and "length payload \<le> 242" and "length payload + 13 \<le> cap"
  shows "\<exists>fr. encodeUplink aes devAddr nwk app fcnt fport payload confirmed cap = Some fr \<and>
    length fr = length payload + 13 \<and> lns_receive aes devAddr nwk app fcnt fr = Some (fport, payload)"
proof -
  obtain fr where fr: "encodeUplink aes devAddr nwk app fcnt fport payload confirmed cap = Some fr"
    using assms(2,3) encodeUplink_Some_iff by blast
  have "length fr = length payload + 13"
    using encodeUplink_frame [OF fr] by (simp add: length_crypt length_aesCmac assms(1))
  with fr lns_receive_encoded [OF assms(1) fr] show ?thesis by blast
qed

lemma encodeUplink_witness:
  "\<exists>fr. encodeUplink xor_block 0x26011B22 [1] [2] 1 13 [119, 101] False 64 = Some fr \<and>
    length fr = 15 \<and> lns_receive xor_block 0x26011B22 [1] [2] 1 fr = Some (13, [119, 101])"
  using encodeUplink_accepted [OF aes_block_xor_block, where payload = "[119, 101]" and cap = 64
      and devAddr = "0x26011B22" and nwk = "[1]" and app = "[2]" and fcnt = 1 and fport = 13 and confirmed = False]
  by simp

section \<open>The on-device self test\<close>

definition rfc_key :: bytes where
  "rfc_key = [0x2b,0x7e,0x15,0x16, 0x28,0xae,0xd2,0xa6, 0xab,0xf7,0x15,0x88, 0x09,0xcf,0x4f,0x3c]"

definition rfc_msg :: bytes where
  "rfc_msg =
    [0x6b,0xc1,0xbe,0xe2, 0x2e,0x40,0x9f,0x96, 0xe9,0x3d,0x7e,0x11, 0x73,0x93,0x17,0x2a,
     0xae,0x2d,0x8a,0x57, 0x1e,0x03,0xac,0x9c, 0x9e,0xb7,0x6f,0xac, 0x45,0xaf,0x8e,0x51,
     0x30,0xc8,0x1c,0x46, 0xa3,0x5c,0xe4,0x11, 0xe5,0xfb,0xc1,0x19, 0x1a,0x0a,0x52,0xef,
     0xf6,0x9f,0x24,0x45, 0xdf,0x4f,0x9b,0x17, 0xad,0x2b,0x41,0x7b, 0xe6,0x6c,0x37,0x10]"

definition rfc_kat :: "(nat \<times> bytes) list" where
  "rfc_kat =
    [(0, [0xbb,0x1d,0x69,0x29,0xe9,0x59,0x37,0x28,0x7f,0xa3,0x7d,0x12,0x9b,0x75,0x67,0x46]),
     (16, [0x07,0x0a,0x16,0xb4,0x6b,0x4d,0x41,0x44,0xf7,0x9b,0xdd,0x9d,0xd0,0x4a,0x28,0x7c]),
     (40, [0xdf,0xa6,0x67,0x47,0xde,0x9a,0xe6,0x30,0x30,0xca,0x32,0x61,0x14,0x97,0xc8,0x27]),
     (64, [0x51,0xf0,0xbe,0xbf,0x7e,0x3b,0x9d,0x92,0xfc,0x49,0x74,0x17,0x79,0x36,0x3c,0xfe])]"

definition lw_selfTest :: "(bytes \<Rightarrow> bytes \<Rightarrow> bytes) \<Rightarrow> bool" where
  "lw_selfTest aes =
     (let ok1 = list_all (\<lambda>(n, expect). aesCmac aes rfc_key (take n rfc_msg) = expect) rfc_kat;
          a1 = [0x01,0,0,0,0, 0, 0x04,0x03,0x02,0x01, 0x05,0,0,0, 0, 0x01];
          ok2 = (cryptFrmPayload aes rfc_key 0x01020304 5 (replicate 16 0) = aes rfc_key a1);
          app = map (\<lambda>b. b XOR 0xFF) rfc_key; pt = str ''weatherX'';
          ok3 = (case encodeUplink aes 0x26011B22 rfc_key app 1 13 pt False 64 of
                   None \<Rightarrow> False
                 | Some fr \<Rightarrow> length fr = 1 + 4 + 1 + 2 + 1 + length pt + 4 \<and> fr ! 0 = 0x40
                     \<and> fr ! 1 = 0x22 \<and> fr ! 2 = 0x1B \<and> fr ! 3 = 0x01 \<and> fr ! 4 = 0x26
                     \<and> fr ! 5 = 0 \<and> fr ! 6 = 1 \<and> fr ! 7 = 0 \<and> fr ! 8 = 13
                     \<and> cryptFrmPayload aes app 0x26011B22 1 (take (length pt) (drop 9 fr)) = pt)
      in ok1 \<and> ok2 \<and> ok3)"

lemma frame_selftest:
  assumes "aes_block aes" and "encodeUplink aes 0x26011B22 nwk app 1 13 pt False 64 = Some fr"
    and "length pt = 8"
  shows "length fr = 21 \<and> fr ! 0 = 0x40 \<and> fr ! 1 = 0x22 \<and> fr ! 2 = 0x1B \<and> fr ! 3 = 0x01 \<and> fr ! 4 = 0x26
    \<and> fr ! 5 = 0 \<and> fr ! 6 = 1 \<and> fr ! 7 = 0 \<and> fr ! 8 = 13
    \<and> cryptFrmPayload aes app 0x26011B22 1 (take 8 (drop 9 fr)) = pt"
proof -
  define ct where "ct = cryptFrmPayload aes app 0x26011B22 1 pt"
  have ct: "length ct = 8" by (simp add: ct_def length_crypt assms)
  obtain mic where mic: "length mic = 4" "fr = lw_header 0x26011B22 1 13 False @ ct @ mic"
    using encodeUplink_frame [OF assms(2)] length_aesCmac [OF assms(1)] by (fastforce simp: ct_def)
  have "take 8 (drop 9 fr) = ct" using ct by (simp add: mic)
  moreover have "cryptFrmPayload aes app 0x26011B22 1 ct = pt"
    unfolding ct_def by (rule crypt_involution [OF assms(1)])
  ultimately show ?thesis using mic(1) ct
    by (simp add: mic(2) lw_header_def le32_def)
qed

text \<open>
  The boot-time self test accepts a block cipher exactly when it reproduces the four RFC 4493
  vectors: its key-stream and frame-assembly checks pass for every cipher, so a failure always
  points at AES or CMAC and never at the frame code.
\<close>

theorem selfTest_iff_vectors:
  assumes "aes_block aes"
  shows "lw_selfTest aes \<longleftrightarrow> (\<forall>(n, expect) \<in> set rfc_kat. aesCmac aes rfc_key (take n rfc_msg) = expect)"
proof -
  have a: "a_block 0x01020304 5 1 = [0x01,0,0,0,0, 0, 0x04,0x03,0x02,0x01, 0x05,0,0,0, 0, 0x01]"
    by (simp add: a_block_def le32_def)
  have l: "length (aes rfc_key b) = 16" for b using assms by (simp add: aes_block_def)
  have "xors (replicate 16 0) s = s" if "length s = 16" for s
    by (rule nth_equalityI) (use that in \<open>auto simp: xors_def\<close>)
  then have ok2: "cryptFrmPayload aes rfc_key 0x01020304 5 (replicate 16 0) = aes rfc_key (a_block 0x01020304 5 1)"
    by (simp add: crypt_key_stream [OF assms] key_stream_def l)
  have pt: "length (str ''weatherX'') = 8" by (simp add: str_def)
  obtain fr where "encodeUplink aes 0x26011B22 rfc_key (map (\<lambda>b. b XOR 0xFF) rfc_key) 1 13 (str ''weatherX'') False 64 = Some fr"
    using encodeUplink_Some_iff [of aes "0x26011B22" rfc_key "map (\<lambda>b. b XOR 0xFF) rfc_key" 1 13 "str ''weatherX''" False 64] pt
    by (simp only: pt) auto
  with frame_selftest [OF assms this pt] show ?thesis
    unfolding lw_selfTest_def Let_def ok2 a [symmetric] pt by (simp add: list_all_iff)
qed

lemma selfTest_witness:
  "lw_selfTest xor_block \<longleftrightarrow> (\<forall>(n, expect) \<in> set rfc_kat. aesCmac xor_block rfc_key (take n rfc_msg) = expect)"
  by (rule selfTest_iff_vectors [OF aes_block_xor_block])

end
