(* ===== verification/NodeDB.thy ===== *)
theory NodeDB
  imports Prelude
begin

text \<open>
  The Meshtastic node-name database (\<open>src/src/NodeDB.cpp\<close>): a table of at most 64 entries,
  evicting the least recently seen, mirrored to non-volatile storage on every change. The
  storage blob is carried at the level of its records; \<open>NvsMalformed\<close> stands for a blob whose
  size is not a multiple of the record size. The outcome of a storage access is a parameter.
\<close>

section \<open>Entries and their persisted form\<close>

definition MAX_NODES :: nat where "MAX_NODES = 64"
definition MAX_SHORT_NAME :: nat where "MAX_SHORT_NAME = 8"
definition MAX_LONG_NAME :: nat where "MAX_LONG_NAME = 40"

record node_entry =
  ne_nodeId :: u32
  ne_lastSeenMs :: u32
  ne_shortName :: bytes
  ne_longName :: bytes

record persisted_entry =
  pe_nodeId :: u32
  pe_shortName :: bytes
  pe_longName :: bytes

datatype nodedb_blob = NvsMissing | NvsMalformed | NvsEntries "persisted_entry list"

record nodedb =
  nd_table :: "node_entry list"
  nd_nvs :: nodedb_blob

definition persist_entry :: "node_entry \<Rightarrow> persisted_entry" where
  "persist_entry e = \<lparr>pe_nodeId = ne_nodeId e, pe_shortName = take MAX_SHORT_NAME (ne_shortName e),
     pe_longName = take MAX_LONG_NAME (ne_longName e)\<rparr>"

definition nodedb_saveToNvs :: "bool \<Rightarrow> nodedb \<Rightarrow> nodedb" where
  "nodedb_saveToNvs nvs_ok db =
     (if \<not> nvs_ok then db else db\<lparr>nd_nvs := NvsEntries (map persist_entry (nd_table db))\<rparr>)"

definition load_entry :: "persisted_entry \<Rightarrow> node_entry" where
  "load_entry p = \<lparr>ne_nodeId = pe_nodeId p, ne_lastSeenMs = 0,
     ne_shortName = take MAX_SHORT_NAME (pe_shortName p), ne_longName = take MAX_LONG_NAME (pe_longName p)\<rparr>"

definition nodedb_begin :: "bool \<Rightarrow> nodedb \<Rightarrow> nodedb" where
  "nodedb_begin nvs_ok db =
     (if \<not> nvs_ok then db\<lparr>nd_table := []\<rparr>
      else case nd_nvs db of
        NvsMissing \<Rightarrow> db\<lparr>nd_table := []\<rparr>
      | NvsMalformed \<Rightarrow> db\<lparr>nd_table := []\<rparr>
      | NvsEntries ps \<Rightarrow> db\<lparr>nd_table := map load_entry (take MAX_NODES ps)\<rparr>)"

definition lru_slot :: "node_entry list \<Rightarrow> nat" where
  "lru_slot tab = foldl (\<lambda>slot i. if ne_lastSeenMs (tab ! i) < ne_lastSeenMs (tab ! slot) then i else slot)
     0 [1..<length tab]"

fun find_node :: "u32 \<Rightarrow> node_entry list \<Rightarrow> nat option" where
  "find_node nodeId [] = None"
| "find_node nodeId (e # es) = (if ne_nodeId e = nodeId then Some 0 else map_option Suc (find_node nodeId es))"

definition nodedb_upsert :: "bool \<Rightarrow> u32 \<Rightarrow> nodedb \<Rightarrow> u32 \<Rightarrow> bytes \<Rightarrow> bytes \<Rightarrow> nodedb \<times> bool" where
  "nodedb_upsert nvs_ok now db nodeId shortName longName =
     (if nodeId = 0 \<or> nodeId = 0xFFFFFFFF then (db, False)
      else (let e = \<lparr>ne_nodeId = nodeId, ne_lastSeenMs = now, ne_shortName = take MAX_SHORT_NAME shortName,
                     ne_longName = take MAX_LONG_NAME longName\<rparr>;
                tab = nd_table db;
                tab' = (case find_node nodeId tab of
                    Some i \<Rightarrow> tab[i := e]
                  | None \<Rightarrow> if length tab < MAX_NODES then tab @ [e] else tab[lru_slot tab := e])
            in (nodedb_saveToNvs nvs_ok (db\<lparr>nd_table := tab'\<rparr>), True)))"

definition lookupShortName :: "u32 \<Rightarrow> nodedb \<Rightarrow> u32 \<Rightarrow> nat \<Rightarrow> nodedb \<times> bytes option" where
  "lookupShortName now db nodeId outCap =
     (case find_node nodeId (nd_table db) of
        None \<Rightarrow> (db, None)
      | Some i \<Rightarrow> (let e = nd_table db ! i
          in (db\<lparr>nd_table := (nd_table db)[i := e\<lparr>ne_lastSeenMs := now\<rparr>]\<rparr>, Some (take (outCap - 1) (ne_shortName e)))))"

section \<open>The table invariant\<close>

definition nd_inv :: "nodedb \<Rightarrow> bool" where
  "nd_inv db \<longleftrightarrow> length (nd_table db) \<le> MAX_NODES \<and> distinct (map ne_nodeId (nd_table db))
     \<and> (\<forall>e \<in> set (nd_table db). length (ne_shortName e) \<le> MAX_SHORT_NAME \<and> length (ne_longName e) \<le> MAX_LONG_NAME)"

lemma find_node_Some: "find_node n es = Some i \<Longrightarrow> i < length es \<and> ne_nodeId (es ! i) = n"
  by (induction es arbitrary: i) (auto split: if_splits)

lemma find_node_None: "find_node n es = None \<longleftrightarrow> n \<notin> ne_nodeId ` set es"
  by (induction es) auto

lemma find_node_distinct:
  "distinct (map ne_nodeId es) \<Longrightarrow> i < length es \<Longrightarrow> ne_nodeId (es ! i) = n \<Longrightarrow> find_node n es = Some i"
proof (induction es arbitrary: i)
  case (Cons e es)
  show ?case
  proof (cases i)
    case (Suc j)
    with Cons.prems have "ne_nodeId e \<noteq> n" using nth_mem [of j es] by force
    with Suc Cons show ?thesis by simp
  qed (use Cons.prems in simp)
qed simp

lemma lru_slot_less: "tab \<noteq> [] \<Longrightarrow> lru_slot tab < length tab"
proof -
  assume ne: "tab \<noteq> []"
  have "foldl (\<lambda>slot i. if ne_lastSeenMs (tab ! i) < ne_lastSeenMs (tab ! slot) then i else slot) s xs < length tab"
    if "s < length tab" "\<forall>x \<in> set xs. x < length tab" for s xs
    using that by (induction xs arbitrary: s) auto
  then show ?thesis using ne by (simp add: lru_slot_def)
qed

lemma distinct_update_new:
  "distinct (map ne_nodeId tab) \<Longrightarrow> i < length tab \<Longrightarrow> ne_nodeId e \<notin> ne_nodeId ` set tab
     \<Longrightarrow> distinct (map ne_nodeId (tab[i := e]))"
  by (simp add: map_update distinct_list_update)

lemma distinct_update_same:
  "distinct (map ne_nodeId tab) \<Longrightarrow> i < length tab \<Longrightarrow> ne_nodeId e = ne_nodeId (tab ! i)
     \<Longrightarrow> distinct (map ne_nodeId (tab[i := e]))"
  by (simp add: map_update list_update_same_conv [THEN iffD2])

text \<open>The table after a successful \<open>upsert\<close>: where the entry is, and what it replaced.\<close>

definition upsert_table :: "node_entry \<Rightarrow> node_entry list \<Rightarrow> node_entry list" where
  "upsert_table e tab = (case find_node (ne_nodeId e) tab of
       Some i \<Rightarrow> tab[i := e]
     | None \<Rightarrow> if length tab < MAX_NODES then tab @ [e] else tab[lru_slot tab := e])"

lemma upsert_table_distinct:
  assumes "distinct (map ne_nodeId tab)" and "length tab \<le> MAX_NODES"
  shows "distinct (map ne_nodeId (upsert_table e tab)) \<and> length (upsert_table e tab) \<le> MAX_NODES"
proof (cases "find_node (ne_nodeId e) tab")
  case None
  then have "ne_nodeId e \<notin> ne_nodeId ` set tab" by (simp add: find_node_None)
  moreover have "lru_slot tab < length tab" if "\<not> length tab < MAX_NODES"
    using that by (intro lru_slot_less) (auto simp: MAX_NODES_def)
  ultimately show ?thesis using assms
    by (auto simp: upsert_table_def None distinct_update_new)
next
  case (Some i)
  from find_node_Some [OF Some] assms show ?thesis
    by (auto simp: upsert_table_def Some distinct_update_same)
qed

lemma upsert_table_set: "set (upsert_table e tab) \<subseteq> insert e (set tab)"
  by (auto simp: upsert_table_def split: option.splits if_splits dest: subsetD [OF set_update_subset_insert])

lemma upsert_table_mem:
  assumes "length tab \<le> MAX_NODES"
  shows "e \<in> set (upsert_table e tab)"
proof (cases "find_node (ne_nodeId e) tab")
  case None
  have "lru_slot tab < length tab" if "\<not> length tab < MAX_NODES"
    using that by (intro lru_slot_less) (auto simp: MAX_NODES_def)
  then show ?thesis by (auto simp: upsert_table_def None intro: set_update_memI)
next
  case (Some i)
  from find_node_Some [OF Some] show ?thesis by (auto simp: upsert_table_def Some intro: set_update_memI)
qed

lemma upsert_eq:
  assumes "nodeId \<noteq> 0" and "nodeId \<noteq> 0xFFFFFFFF"
  shows "nodedb_upsert ok now db nodeId s l =
    (nodedb_saveToNvs ok (db\<lparr>nd_table := upsert_table \<lparr>ne_nodeId = nodeId, ne_lastSeenMs = now,
        ne_shortName = take MAX_SHORT_NAME s, ne_longName = take MAX_LONG_NAME l\<rparr> (nd_table db)\<rparr>), True)"
  using assms by (simp add: nodedb_upsert_def upsert_table_def Let_def)

lemma nd_table_save [simp]: "nd_table (nodedb_saveToNvs ok db) = nd_table db"
  by (simp add: nodedb_saveToNvs_def)

lemma nd_inv_upsert: "nd_inv db \<Longrightarrow> nd_inv (fst (nodedb_upsert ok now db nodeId s l))"
proof (cases "nodeId = 0 \<or> nodeId = 0xFFFFFFFF")
  case False
  assume inv: "nd_inv db"
  let ?e = "\<lparr>ne_nodeId = nodeId, ne_lastSeenMs = now, ne_shortName = take MAX_SHORT_NAME s, ne_longName = take MAX_LONG_NAME l\<rparr>"
  from inv upsert_table_distinct [of "nd_table db" ?e] upsert_table_set [of ?e "nd_table db"] False
  show ?thesis by (auto simp: upsert_eq nd_inv_def)
qed (simp add: nodedb_upsert_def)

lemma find_mem:
  assumes "distinct (map ne_nodeId tab)" and "e \<in> set tab"
  shows "\<exists>i. find_node (ne_nodeId e) tab = Some i \<and> tab ! i = e"
  using assms find_node_distinct by (metis in_set_conv_nth)

text \<open>
  A learned name is found again: after an accepted \<open>upsert\<close> the lookup of that node returns
  its short name (cut to 8 characters and to the caller's buffer), and after a power cycle
  the database reloaded from storage still does, provided the write succeeded.
\<close>

theorem upsert_then_lookup:
  assumes "nd_inv db" and "nodeId \<noteq> 0" and "nodeId \<noteq> 0xFFFFFFFF"
  shows "snd (lookupShortName t (fst (nodedb_upsert ok now db nodeId s l)) nodeId cap)
      = Some (take (cap - 1) (take MAX_SHORT_NAME s)) \<and>
    snd (lookupShortName t (nodedb_begin True (fst (nodedb_upsert True now db nodeId s l))) nodeId cap)
      = Some (take (cap - 1) (take MAX_SHORT_NAME s))"
proof -
  let ?e = "\<lparr>ne_nodeId = nodeId, ne_lastSeenMs = now, ne_shortName = take MAX_SHORT_NAME s, ne_longName = take MAX_LONG_NAME l\<rparr>"
  let ?tab = "upsert_table ?e (nd_table db)"
  let ?re = "\<lambda>e. load_entry (persist_entry e)"
  have d: "distinct (map ne_nodeId ?tab)" and len: "length ?tab \<le> MAX_NODES" and mem: "?e \<in> set ?tab"
    using upsert_table_distinct upsert_table_mem assms(1) by (auto simp: nd_inv_def)
  have look: "snd (lookupShortName t db' nodeId cap) = Some (take (cap - 1) (ne_shortName e))"
    if "distinct (map ne_nodeId (nd_table db'))" "e \<in> set (nd_table db')" "ne_nodeId e = nodeId" for db' e
    using find_mem [OF that(1,2)] that(3) by (auto simp: lookupShortName_def Let_def)
  have tab2: "nd_table (nodedb_begin True (fst (nodedb_upsert True now db nodeId s l))) = map ?re ?tab"
    using len by (simp add: upsert_eq [OF assms(2,3)] nodedb_begin_def nodedb_saveToNvs_def)
  have ids: "map ne_nodeId (map ?re es) = map ne_nodeId es" for es
    by (simp add: load_entry_def persist_entry_def)
  have re_mem: "?re ?e \<in> set (map ?re ?tab)" using imageI [OF mem, of ?re] by (simp only: set_map)
  have re_id: "ne_nodeId (?re e) = ne_nodeId e" for e by (simp add: load_entry_def persist_entry_def)
  have "snd (lookupShortName t (nodedb_begin True (fst (nodedb_upsert True now db nodeId s l))) nodeId cap)
      = Some (take (cap - 1) (ne_shortName (?re ?e)))"
    by (rule look) (use d re_mem in \<open>simp_all only: tab2 ids re_id, simp_all\<close>)
  moreover have "snd (lookupShortName t (fst (nodedb_upsert ok now db nodeId s l)) nodeId cap)
      = Some (take (cap - 1) (ne_shortName ?e))"
    by (rule look) (use d mem in \<open>auto simp: upsert_eq [OF assms(2,3)]\<close>)
  ultimately show ?thesis by (simp add: load_entry_def persist_entry_def)
qed

lemma upsert_then_lookup_witness:
  "snd (lookupShortName 9 (fst (nodedb_upsert False 5 \<lparr>nd_table = [], nd_nvs = NvsMissing\<rparr> 77 [65, 66] [67])) 77 16)
     = Some [65, 66]"
  using upsert_then_lookup [of "\<lparr>nd_table = [], nd_nvs = NvsMissing\<rparr>" 77 9 False 5 "[65, 66]" "[67]" 16]
  by (simp add: nd_inv_def MAX_SHORT_NAME_def)

end
