(* ===== verification/VirtualNodeMap.thy ===== *)
theory VirtualNodeMap
  imports Prelude
begin

text \<open>
  The map of MeshCore sender names to virtual Meshtastic node ids
  (\<open>src/src/VirtualNodeMap.cpp\<close>): a pure hash of the name, nudged off the reserved ids and the
  bridge's own, and a small table that limits how often a synthetic NodeInfo is sent.
\<close>

section \<open>The id of a label\<close>

definition BRIDGE_VIRT_NODES_MAX :: nat where "BRIDGE_VIRT_NODES_MAX = 32"
definition BRIDGE_VIRT_NODEINFO_PERIOD_MS :: u32 where "BRIDGE_VIRT_NODEINFO_PERIOD_MS = 900000"

definition isReserved :: "u32 \<Rightarrow> bool" where
  "isReserved i \<longleftrightarrow> i \<le> 0x000000FF \<or> i = 0xFFFFFFFF"

definition hashLabel :: "bytes \<Rightarrow> u32" where
  "hashLabel label = foldl (\<lambda>h b. (h XOR ucast b) * 16777619)
     (foldl (\<lambda>h b. (h XOR ucast b) * 16777619) 2166136261 (str ''MC|'')) label"

definition nudge_step :: "u32 \<Rightarrow> u32" where
  "nudge_step i = (let j = (i XOR 0x9E3779B9) * 16777619
     in if isReserved j then j OR 0x00010000 else j)"

fun nudge :: "nat \<Rightarrow> u32 \<Rightarrow> u32 \<Rightarrow> u32" where
  "nudge 0 avoidId i = i"
| "nudge (Suc guard) avoidId i =
     (if isReserved i \<or> i = avoidId then nudge guard avoidId (nudge_step i) else i)"

section \<open>The advertisement table\<close>

record virt_entry =
  ve_id :: u32
  ve_lastNodeInfoMs :: u32
  ve_used :: bool

fun touch_scan :: "u32 \<Rightarrow> nat \<Rightarrow> virt_entry list \<Rightarrow> nat option \<Rightarrow> nat \<Rightarrow> u32 \<Rightarrow> nat option" where
  "touch_scan k i [] freeSlot oldest oldestStamp =
     Some (case freeSlot of Some f \<Rightarrow> f | None \<Rightarrow> oldest)"
| "touch_scan k i (e # es) freeSlot oldest oldestStamp =
     (if ve_used e \<and> ve_id e = k then None
      else if \<not> ve_used e then
        touch_scan k (i + 1) es (case freeSlot of None \<Rightarrow> Some i | Some f \<Rightarrow> Some f) oldest oldestStamp
      else if ve_lastNodeInfoMs e \<le> oldestStamp then
        touch_scan k (i + 1) es freeSlot i (ve_lastNodeInfoMs e)
      else touch_scan k (i + 1) es freeSlot oldest oldestStamp)"

definition virt_touch :: "virt_entry list \<Rightarrow> u32 \<Rightarrow> virt_entry list" where
  "virt_touch tab k = (case touch_scan k 0 tab None 0 0xFFFFFFFF of
     None \<Rightarrow> tab
   | Some j \<Rightarrow> tab[j := \<lparr>ve_id = k, ve_lastNodeInfoMs = 0, ve_used = True\<rparr>])"

definition idForLabel :: "virt_entry list \<Rightarrow> bytes \<Rightarrow> u32 \<Rightarrow> virt_entry list \<times> u32" where
  "idForLabel tab label avoidId =
     (let k = nudge 8 avoidId (hashLabel label) in (virt_touch tab k, k))"

fun nodeInfoDue :: "u32 \<Rightarrow> virt_entry list \<Rightarrow> u32 \<Rightarrow> virt_entry list \<times> bool" where
  "nodeInfoDue now [] k = ([], False)"
| "nodeInfoDue now (e # es) k =
     (if ve_used e \<and> ve_id e = k then
        (if ve_lastNodeInfoMs e = 0 \<or> now - ve_lastNodeInfoMs e \<ge> BRIDGE_VIRT_NODEINFO_PERIOD_MS
         then (e\<lparr>ve_lastNodeInfoMs := (if now \<noteq> 0 then now else 1)\<rparr> # es, True)
         else (e # es, False))
      else (let (es', due) = nodeInfoDue now es k in (e # es', due)))"

section \<open>The nudging always escapes\<close>

lemma bit0_or: "bit (j OR 0x00010000) 0 = bit (j :: u32) 0"
proof -
  have "\<not> bit (0x00010000 :: u32) 0" by simp
  then show ?thesis by (simp add: bit_or_iff)
qed

lemma nudge_step_parity: "bit (nudge_step i) 0 \<longleftrightarrow> \<not> bit i 0"
proof -
  have "bit ((i XOR 0x9E3779B9) * 16777619) 0 \<longleftrightarrow> \<not> bit i 0"
    by (simp add: bit_0 even_xor_iff)
  then show ?thesis by (simp add: nudge_step_def Let_def bit0_or del: bit_0)
qed

lemma or_bit16_large: "0x00010000 \<le> (j OR 0x00010000 :: u32)"
  by (metis or.commute le_word_or2)

lemma nudge_step_reserved: "isReserved (nudge_step i) \<Longrightarrow> nudge_step i = 0xFFFFFFFF"
proof -
  assume r: "isReserved (nudge_step i)"
  let ?j = "(i XOR 0x9E3779B9) * 16777619"
  show ?thesis
  proof (cases "isReserved ?j")
    case True
    then have n: "nudge_step i = ?j OR 0x00010000" by (simp add: nudge_step_def Let_def)
    have "(0xFF :: u32) < 0x00010000" by simp
    also have "\<dots> \<le> nudge_step i" unfolding n by (rule or_bit16_large)
    finally have "\<not> nudge_step i \<le> 0xFF" by (simp only: not_le)
    then show ?thesis using r by (simp add: isReserved_def)
  qed (use r in \<open>auto simp: nudge_step_def Let_def\<close>)
qed

definition bad_id :: "u32 \<Rightarrow> u32 \<Rightarrow> bool" where
  "bad_id avoidId i \<longleftrightarrow> isReserved i \<or> i = avoidId"

lemma after_all_ones: "nudge_step (nudge_step 0xFFFFFFFF) \<noteq> 0xFFFFFFFF"
  by (simp add: nudge_step_def isReserved_def)

lemma all_ones_leaves: "nudge_step 0xFFFFFFFF \<noteq> 0xFFFFFFFF"
  by (simp add: nudge_step_def isReserved_def)

lemma step_bad: "bad_id a (nudge_step i) \<Longrightarrow> nudge_step i = 0xFFFFFFFF \<or> nudge_step i = a"
  using nudge_step_reserved by (auto simp: bad_id_def)

lemma step_not_fixed: "nudge_step i \<noteq> i"
  using nudge_step_parity [of i] by auto

lemma four_steps_escape:
  "\<not> (bad_id a (nudge_step i) \<and> bad_id a (nudge_step (nudge_step i))
      \<and> bad_id a (nudge_step (nudge_step (nudge_step i))))"
proof
  let ?x = "nudge_step i" and ?y = "nudge_step (nudge_step i)" and ?z = "nudge_step (nudge_step (nudge_step i))"
  assume "bad_id a ?x \<and> bad_id a ?y \<and> bad_id a ?z"
  then have d: "?x = 0xFFFFFFFF \<or> ?x = a" "?y = 0xFFFFFFFF \<or> ?y = a" "?z = 0xFFFFFFFF \<or> ?z = a"
    using step_bad by blast+
  have n: "?y \<noteq> ?x" "?z \<noteq> ?y" by (rule step_not_fixed)+
  show False
  proof (cases "?x = 0xFFFFFFFF")
    case True
    then have y: "?y = a" and z: "?z = 0xFFFFFFFF" using d n by auto
    then have "nudge_step (nudge_step 0xFFFFFFFF) = 0xFFFFFFFF" using True by simp
    then show False using after_all_ones by contradiction
  next
    case False
    then have x: "?x = a" and y: "?y = 0xFFFFFFFF" using d n by auto
    then have "?z = a" using d n by auto
    then have "nudge_step 0xFFFFFFFF = a" using y by simp
    moreover have "nudge_step a = 0xFFFFFFFF" using x y by simp
    ultimately show False using after_all_ones by simp
  qed
qed

lemma nudge_stop: "\<not> bad_id a i \<Longrightarrow> nudge n a i = i"
  by (cases n) (auto simp: bad_id_def)

lemma nudge_bad: "bad_id a i \<Longrightarrow> nudge (Suc n) a i = nudge n a (nudge_step i)"
  by (simp add: bad_id_def)

lemma nudge_good: "\<not> bad_id a (nudge (Suc (Suc (Suc n))) a i)"
proof (cases "bad_id a i")
  case b0: True
  let ?x = "nudge_step i" and ?y = "nudge_step (nudge_step i)" and ?z = "nudge_step (nudge_step (nudge_step i))"
  have n3: "nudge (Suc (Suc (Suc n))) a i = nudge (Suc (Suc n)) a ?x"
    by (rule nudge_bad [OF b0])
  show ?thesis
  proof (cases "bad_id a ?x")
    case b1: True
    have n2: "nudge (Suc (Suc (Suc n))) a i = nudge (Suc n) a ?y" unfolding n3 by (rule nudge_bad [OF b1])
    show ?thesis
    proof (cases "bad_id a ?y")
      case b2: True
      have n1: "nudge (Suc (Suc (Suc n))) a i = nudge n a ?z" unfolding n2 by (rule nudge_bad [OF b2])
      have "\<not> bad_id a ?z" using four_steps_escape [of a i] b1 b2 by blast
      then show ?thesis unfolding n1 by (simp add: nudge_stop)
    qed (simp add: n2 nudge_stop del: nudge.simps)
  qed (simp add: n3 nudge_stop del: nudge.simps)
qed (simp add: nudge_stop del: nudge.simps)

lemma idForLabel_usable:
  "\<not> isReserved (snd (idForLabel tab label avoidId)) \<and> snd (idForLabel tab label avoidId) \<noteq> avoidId"
proof -
  have "\<not> bad_id avoidId (nudge 8 avoidId (hashLabel label))"
    using nudge_good [of avoidId 5 "hashLabel label"] by (simp del: nudge.simps)
  then show ?thesis by (simp add: idForLabel_def Let_def bad_id_def del: nudge.simps)
qed

text \<open>
  The eight-round nudging loop always succeeds: the virtual node id of any label is never a
  reserved id (the low 256 or broadcast) and never the id the caller asked to avoid, the
  bridge's own. Three rounds already suffice.
\<close>

theorem idForLabel_never_reserved:
  "\<not> isReserved (snd (idForLabel tab label avoidId)) \<and> snd (idForLabel tab label avoidId) \<noteq> avoidId"
  by (rule idForLabel_usable)

section \<open>The rate limit\<close>

definition virt_stamp :: "virt_entry list \<Rightarrow> u32 \<Rightarrow> u32 option" where
  "virt_stamp tab k = map_option ve_lastNodeInfoMs (find (\<lambda>e. ve_used e \<and> ve_id e = k) tab)"

lemma nodeInfoDue_stamp:
  "snd (nodeInfoDue now tab k) \<longleftrightarrow>
     (\<exists>t. virt_stamp tab k = Some t \<and> (t = 0 \<or> BRIDGE_VIRT_NODEINFO_PERIOD_MS \<le> now - t))"
  by (induction tab) (auto simp: virt_stamp_def case_prod_unfold Let_def)

lemma nodeInfoDue_updates:
  "virt_stamp (fst (nodeInfoDue now tab k)) j =
     (if j = k \<and> snd (nodeInfoDue now tab k) then Some (if now \<noteq> 0 then now else 1) else virt_stamp tab j)"
  by (induction tab) (auto simp: virt_stamp_def case_prod_unfold Let_def)

text \<open>
  The advertisement rate limit. When a NodeInfo for a virtual node has just been declared
  due at time \<open>now\<close>, then after any further queries about other nodes it is due again at
  \<open>later\<close> exactly when the 15-minute period has passed since, on the wrapping clock.
\<close>

theorem nodeInfo_rate_limited:
  assumes "snd (nodeInfoDue now tab k)" and "now \<noteq> 0" and "k \<notin> fst ` set others"
  shows "snd (nodeInfoDue later
      (foldl (\<lambda>tb (j, t). fst (nodeInfoDue t tb j)) (fst (nodeInfoDue now tab k)) others) k)
    \<longleftrightarrow> BRIDGE_VIRT_NODEINFO_PERIOD_MS \<le> later - now"
proof -
  have "virt_stamp (foldl (\<lambda>tb (j, t). fst (nodeInfoDue t tb j)) tb others) k = virt_stamp tb k" for tb
    using assms(3) by (induction others arbitrary: tb) (auto simp: nodeInfoDue_updates)
  then show ?thesis using assms(1,2) by (simp add: nodeInfoDue_stamp [of later] nodeInfoDue_updates)
qed

lemma nodeInfo_rate_witness:
  "snd (nodeInfoDue 500000 (foldl (\<lambda>tb (j, t). fst (nodeInfoDue t tb j))
      (fst (nodeInfoDue 1000 [\<lparr>ve_id = 300, ve_lastNodeInfoMs = 0, ve_used = True\<rparr>] 300)) [(400, 2000)]) 300) = False"
  using nodeInfo_rate_limited [of 1000 "[\<lparr>ve_id = 300, ve_lastNodeInfoMs = 0, ve_used = True\<rparr>]" 300 "[(400, 2000)]" 500000]
  by (simp add: BRIDGE_VIRT_NODEINFO_PERIOD_MS_def)

end
