(* ===== verification/RadioChannel.thy ===== *)
theory RadioChannel
  imports LoRaWANCrypto
begin

text \<open>
  The per-radio channel context (\<open>src/src/RadioChannel.h\<close>) and its resolution from the
  configuration strings (\<open>src/src/MeshtasticConfig.cpp\<close>, \<open>src/src/MeshCoreConfig.cpp\<close>), with the
  cryptographic library as a record of functions.
\<close>

section \<open>The cryptographic library\<close>

text \<open>
  The functions of mbedTLS the firmware calls: AES-ECB on one block in both directions,
  AES-CTR on a whole buffer from a 16-byte initial counter, HMAC-SHA256, SHA-256 and base64.
\<close>

record crypto =
  aes_enc :: "bytes \<Rightarrow> bytes \<Rightarrow> bytes"
  aes_dec :: "bytes \<Rightarrow> bytes \<Rightarrow> bytes"
  aes_ctr :: "bytes \<Rightarrow> bytes \<Rightarrow> bytes \<Rightarrow> bytes"
  hmac_sha256 :: "bytes \<Rightarrow> bytes \<Rightarrow> bytes"
  sha256 :: "bytes \<Rightarrow> bytes"
  base64_decode :: "bytes \<Rightarrow> bytes option"
  base64_encode :: "bytes \<Rightarrow> bytes"

text \<open>The documented laws of the ciphers and of the MAC's size that the development uses.\<close>

definition crypto_laws :: "crypto \<Rightarrow> bool" where
  "crypto_laws c \<longleftrightarrow> aes_block (aes_enc c)
     \<and> (\<forall>k b. length b = 16 \<longrightarrow> aes_dec c k (aes_enc c k b) = b)
     \<and> (\<forall>k n m. length (aes_ctr c k n m) = length m)
     \<and> (\<forall>k n m. aes_ctr c k n (aes_ctr c k n m) = m)
     \<and> (\<forall>k m. length (hmac_sha256 c k m) = 32)"

lemma crypto_lawsD:
  assumes "crypto_laws c"
  shows "aes_block (aes_enc c)" and "length b = 16 \<Longrightarrow> aes_dec c k (aes_enc c k b) = b"
    and "length (aes_ctr c k n m) = length m" and "aes_ctr c k n (aes_ctr c k n m) = m"
    and "length (hmac_sha256 c k m) = 32"
  using assms by (auto simp: crypto_laws_def)

text \<open>An instance of the laws, for the witnesses.\<close>

definition toy_crypto :: crypto where
  "toy_crypto = \<lparr>aes_enc = \<lambda>k b. xor_block [0x5A] b, aes_dec = \<lambda>k b. xor_block [0x5A] b,
     aes_ctr = \<lambda>k n m. map (\<lambda>b. b XOR 0x33) m, hmac_sha256 = \<lambda>k m. replicate 32 (foldl (XOR) 0 m),
     sha256 = \<lambda>m. replicate 32 (foldl (XOR) 0 m), base64_decode = Some, base64_encode = \<lambda>m. m\<rparr>"

lemma toy_crypto_laws: "crypto_laws toy_crypto"
proof -
  have "xor_block [0x5A] (xor_block [0x5A] b) = b" if "length b = 16" for b
    by (rule nth_equalityI) (use that in \<open>auto simp: xor_block_def xor.assoc [symmetric]\<close>)
  moreover have "map ((\<lambda>b. b XOR 0x33) \<circ> (\<lambda>b. b XOR 0x33)) m = m" for m :: bytes
    by (induction m) (simp_all add: xor.assoc)
  ultimately show ?thesis
    using aes_block_xor_block by (simp add: crypto_laws_def toy_crypto_def aes_block_def)
qed

section \<open>Channels\<close>

record radio_channel =
  ch_protocol :: u8
  ch_key :: bytes
  ch_keyLen :: nat
  ch_channelHash :: u8
  ch_name :: bytes

definition CH_NAME_CAP :: nat where "CH_NAME_CAP = 24"

definition SYNC_WORD_MESHCORE :: u8 where "SYNC_WORD_MESHCORE = 0x12"
definition SYNC_WORD_MESHTASTIC :: u8 where "SYNC_WORD_MESHTASTIC = 0x2B"
definition SYNC_WORD_RETICULUM :: u8 where "SYNC_WORD_RETICULUM = 0x42"
definition SYNC_WORD_LORAWAN :: u8 where "SYNC_WORD_LORAWAN = 0x34"

definition DEFAULT_PSK :: bytes where
  "DEFAULT_PSK = [0xd4, 0xf1, 0xbb, 0x3a, 0x20, 0x29, 0x07, 0x59,
    0xf0, 0xbc, 0xff, 0xab, 0xcf, 0x4e, 0x69, 0x01]"

definition xorFold :: "bytes \<Rightarrow> u8" where
  "xorFold data = foldl (XOR) 0 data"

text \<open>
  \<open>MeshtasticConfig::resolve\<close>. The base64 decoder writes into a 32-byte buffer and fails when
  the result does not fit.
\<close>

definition mt_raw_psk :: "crypto \<Rightarrow> bytes \<Rightarrow> bytes" where
  "mt_raw_psk c pskB64 =
     (if pskB64 = [] then []
      else case base64_decode c pskB64 of None \<Rightarrow> []
      | Some raw \<Rightarrow> if length raw > 32 then [] else raw)"

definition mt_resolve :: "crypto \<Rightarrow> bytes \<Rightarrow> bytes \<Rightarrow> radio_channel" where
  "mt_resolve c pskB64 name =
     (let nm = bounded_copy CH_NAME_CAP name; raw = mt_raw_psk c pskB64; rawLen = length raw;
          (key, keyLen) =
            (if rawLen = 0 then (DEFAULT_PSK, 16)
             else if rawLen = 1 then
               (if raw ! 0 = 0 then (DEFAULT_PSK, 16)
                else (DEFAULT_PSK[15 := DEFAULT_PSK ! 15 + raw ! 0 - 1], 16))
             else if rawLen = 16 \<or> rawLen = 32 then (raw, rawLen)
             else (DEFAULT_PSK, 16))
      in \<lparr>ch_protocol = 0x2B, ch_key = key @ replicate (32 - length key) 0, ch_keyLen = keyLen,
          ch_channelHash = xorFold nm XOR xorFold (take keyLen key), ch_name = nm\<rparr>)"

definition FALLBACK_PUBLIC_KEY :: bytes where
  "FALLBACK_PUBLIC_KEY = [0x8b, 0x33, 0x87, 0xe9, 0xc5, 0xcd, 0xea, 0x6a,
    0xc9, 0xe5, 0xed, 0xba, 0xa1, 0x15, 0xcd, 0x72]"

definition hexNibble :: "u8 \<Rightarrow> int" where
  "hexNibble ch =
     (if of_char CHR ''0'' \<le> ch \<and> ch \<le> of_char CHR ''9'' then uint ch - uint (of_char CHR ''0'' :: u8)
      else if of_char CHR ''a'' \<le> ch \<and> ch \<le> of_char CHR ''f'' then uint ch - uint (of_char CHR ''a'' :: u8) + 10
      else if of_char CHR ''A'' \<le> ch \<and> ch \<le> of_char CHR ''F'' then uint ch - uint (of_char CHR ''A'' :: u8) + 10
      else -1)"

definition chr_at :: "bytes \<Rightarrow> nat \<Rightarrow> u8" where
  "chr_at s i = (if i < length s then s ! i else 0)"

fun parse_hex_from :: "bytes \<Rightarrow> nat \<Rightarrow> nat \<Rightarrow> bytes \<Rightarrow> bytes option" where
  "parse_hex_from hex i 0 acc = Some acc"
| "parse_hex_from hex i (Suc n) acc =
     (let hi = hexNibble (chr_at hex (2 * i)); lo = hexNibble (chr_at hex (2 * i + 1)) in
      if hi < 0 \<or> lo < 0 then None
      else parse_hex_from hex (i + 1) n (acc @ [word_of_int (push_bit 4 hi OR lo)]))"

definition parseKeyHex :: "bytes \<Rightarrow> bytes option" where
  "parseKeyHex hex = (case parse_hex_from hex 0 16 [] of None \<Rightarrow> None
     | Some key \<Rightarrow> if chr_at hex 32 = 0 then Some key else None)"

definition mc_resolve :: "crypto \<Rightarrow> bytes \<Rightarrow> bytes \<Rightarrow> radio_channel" where
  "mc_resolve c keyHex name =
     (let key = (case parseKeyHex keyHex of None \<Rightarrow> FALLBACK_PUBLIC_KEY | Some k \<Rightarrow> k)
      in \<lparr>ch_protocol = 0x12, ch_key = key @ replicate 16 0, ch_keyLen = 16,
          ch_channelHash = sha256 c key ! 0, ch_name = bounded_copy CH_NAME_CAP name\<rparr>)"

section \<open>Every resolution yields a usable channel\<close>

definition channel_ok :: "radio_channel \<Rightarrow> bool" where
  "channel_ok ch \<longleftrightarrow> length (ch_key ch) = 32 \<and> (ch_keyLen ch = 16 \<or> ch_keyLen ch = 32)
     \<and> length (ch_name ch) < CH_NAME_CAP"

lemma length_parse_hex: "parse_hex_from hex i n acc = Some k \<Longrightarrow> length k = length acc + n"
  by (induction n arbitrary: i acc) (auto simp: Let_def split: if_splits)

lemma length_parseKeyHex: "parseKeyHex hex = Some k \<Longrightarrow> length k = 16"
  by (auto simp: parseKeyHex_def split: option.splits if_splits dest: length_parse_hex)

lemma length_consts [simp]: "length DEFAULT_PSK = 16" "length FALLBACK_PUBLIC_KEY = 16"
  by (simp_all add: DEFAULT_PSK_def FALLBACK_PUBLIC_KEY_def)

lemma mt_resolve_ok: "channel_ok (mt_resolve c psk name)"
proof -
  have "length (mt_raw_psk c psk) \<le> 32"
    by (simp add: mt_raw_psk_def split: option.splits)
  then show ?thesis
    using length_bounded_copy [of CH_NAME_CAP name]
    by (auto simp: channel_ok_def mt_resolve_def Let_def CH_NAME_CAP_def split: prod.splits if_splits)
qed

lemma mc_resolve_ok: "channel_ok (mc_resolve c keyHex name)"
  using length_bounded_copy [of CH_NAME_CAP name]
  by (auto simp: channel_ok_def mc_resolve_def Let_def CH_NAME_CAP_def split: option.splits dest: length_parseKeyHex)

text \<open>The two hex digits of a byte, lower case, as a configuration string carries them.\<close>

definition hex_digit :: "u8 \<Rightarrow> u8" where
  "hex_digit d = (if d < 10 then of_char CHR ''0'' + d else of_char CHR ''a'' + (d - 10))"

definition hex_of :: "bytes \<Rightarrow> bytes" where
  "hex_of bs = concat (map (\<lambda>b. [hex_digit (drop_bit 4 b), hex_digit (b AND 0x0F)]) bs)"

lemma hexNibble_digit_all: "\<forall>n \<in> {0..<16 :: nat}. hexNibble (hex_digit (of_nat n)) = int n"
  by (simp add: hexNibble_def hex_digit_def atLeastLessThan_nat_numeral atLeastLessThan_nat_numeral)

lemma hexNibble_digit: "d < 16 \<Longrightarrow> hexNibble (hex_digit d) = uint d"
proof -
  assume "d < 16"
  then have "unat d \<in> {0..<16}" by (simp add: word_less_nat_alt)
  with hexNibble_digit_all have "hexNibble (hex_digit (of_nat (unat d))) = int (unat d)" by blast
  then show ?thesis by simp
qed

lemma nibbles:
  "drop_bit 4 b < (16 :: u8)" "b AND 0x0F < (16 :: u8)"
  "word_of_int (push_bit 4 (uint (drop_bit 4 b)) OR uint (b AND 0x0F)) = (b :: u8)"
proof -
  have m: "(0x0F :: u8) = mask 4" by (simp add: mask_eq_exp_minus_1)
  have ub: "unat b < 256" using uint_lt2p [of b] by (simp add: nat_less_iff flip: nat_uint_eq)
  have "unat (drop_bit 4 b) = unat b div 16" by (simp add: drop_bit_eq_div unat_div)
  with ub show "drop_bit 4 b < (16 :: u8)" by (simp add: word_less_nat_alt div_less_iff_less_mult)
  have "unat (b AND 0x0F) = unat b mod 16"
    unfolding m by (simp add: take_bit_eq_mask [symmetric] unsigned_take_bit_eq take_bit_eq_mod unat_mod)
  then show "b AND 0x0F < (16 :: u8)" by (simp add: word_less_nat_alt)
  show "word_of_int (push_bit 4 (uint (drop_bit 4 b)) OR uint (b AND 0x0F)) = (b :: u8)"
    unfolding m
  proof (rule bit_word_eqI)
    fix n :: nat assume "n < LENGTH(8)"
    then show "bit (word_of_int (push_bit 4 (uint (drop_bit 4 b)) OR uint (b AND mask 4)) :: u8) n = bit b n"
      by (cases "n < 4") (auto simp: bit_simps)
  qed
qed

lemma hex_of_chars:
  "i < length bs \<Longrightarrow> hex_of bs ! (2 * i) = hex_digit (drop_bit 4 (bs ! i))
     \<and> hex_of bs ! Suc (2 * i) = hex_digit (bs ! i AND 0x0F)"
proof (induction bs arbitrary: i)
  case (Cons b bs)
  then show ?case by (cases i) (auto simp: hex_of_def)
qed simp

lemma length_hex_of: "length (hex_of bs) = 2 * length bs"
  by (induction bs) (auto simp: hex_of_def)

lemma parse_hex_of:
  "i + n = length bs \<Longrightarrow> parse_hex_from (hex_of bs) i n acc = Some (acc @ drop i bs)"
proof (induction n arbitrary: i acc)
  case (Suc n)
  then have i: "i < length bs" by simp
  have hi: "hexNibble (chr_at (hex_of bs) (2 * i)) = uint (drop_bit 4 (bs ! i))"
    using i hex_of_chars [OF i] by (simp add: chr_at_def length_hex_of hexNibble_digit nibbles(1))
  have lo: "hexNibble (chr_at (hex_of bs) (2 * i + 1)) = uint (bs ! i AND 0x0F)"
    using i hex_of_chars [OF i] by (simp add: chr_at_def length_hex_of hexNibble_digit nibbles(2))
  have "parse_hex_from (hex_of bs) i (Suc n) acc = parse_hex_from (hex_of bs) (i + 1) n (acc @ [bs ! i])"
    by (simp only: parse_hex_from.simps Let_def hi lo nibbles(3)) simp
  also have "\<dots> = Some ((acc @ [bs ! i]) @ drop (i + 1) bs)" using Suc by simp
  finally show ?case using i by (simp add: Cons_nth_drop_Suc)
qed simp

text \<open>
  Channel resolution is total: whatever key and name strings the configuration holds, valid,
  malformed or over-long, both resolvers produce a channel with a 32-byte key buffer, a legal
  AES key length and a terminated name; and a MeshCore key given as the 32 hex digits of 16
  bytes resolves to exactly those bytes.
\<close>

theorem channel_resolution_total:
  "channel_ok (mt_resolve c pskB64 name) \<and> channel_ok (mc_resolve c keyHex name) \<and>
   (length key = 16 \<longrightarrow> take 16 (ch_key (mc_resolve c (hex_of key) name)) = key)"
proof -
  have "parseKeyHex (hex_of key) = Some key" if "length key = 16"
    using parse_hex_of [of 0 16 key "[]"] that by (simp add: parseKeyHex_def chr_at_def length_hex_of)
  then show ?thesis using mt_resolve_ok mc_resolve_ok by (simp add: mc_resolve_def Let_def)
qed

lemma channel_resolution_witness:
  "take 16 (ch_key (mc_resolve toy_crypto (hex_of (replicate 16 0xAB)) [])) = replicate 16 0xAB"
  using channel_resolution_total [of toy_crypto "[]" "[]" "[]" "replicate 16 0xAB"] by simp

end
