(* ===== verification/Protobuf.thy ===== *)
theory Protobuf
  imports Prelude
begin

text \<open>
  The minimal protobuf walker of the decoders (\<open>src/src/MeshDecoderDebug.h\<close>: \<open>pbVarint\<close>,
  \<open>pbSkip\<close>, \<open>pbReadFixed32\<close> and the field loops built from them). \<open>size_t\<close> has 32 bits on the
  target, and \<open>p + v > n\<close> is evaluated in 64 bits, so both wrap-arounds are kept. A field
  loop is \<open>pb_walk\<close> with the body of the loop as \<open>step\<close>; as the loop may run forever it is a
  \<open>partial_function\<close> in the option monad, where \<open>None\<close> is "does not return".
\<close>

section \<open>Primitives\<close>

function pb_varint_from :: "bytes \<Rightarrow> nat \<Rightarrow> u64 \<Rightarrow> nat \<Rightarrow> (u64 \<times> nat) option" where
  "pb_varint_from b p v shift =
     (if p < length b then
        (let byte = b ! p; v' = v OR push_bit shift (ucast (byte AND 0x7F)) in
         if byte AND 0x80 = 0 then Some (v', p + 1)
         else if shift + 7 \<ge> 64 then None
         else pb_varint_from b (p + 1) v' (shift + 7))
      else None)"
  by pat_completeness auto
termination
  by (relation "measure (\<lambda>(b, p, v, shift). length b - p)") auto

declare pb_varint_from.simps [simp del]

definition pbVarint :: "bytes \<Rightarrow> nat \<Rightarrow> (u64 \<times> nat) option" where
  "pbVarint b p = pb_varint_from b p 0 0"

text \<open>The bound check \<open>p + v > n\<close> in 64 bits, and \<open>p += (size_t)v\<close> in 32 bits.\<close>

definition len_overruns :: "nat \<Rightarrow> u64 \<Rightarrow> nat \<Rightarrow> bool" where
  "len_overruns p v n \<longleftrightarrow> of_nat p + v > of_nat n"

definition advance :: "nat \<Rightarrow> u64 \<Rightarrow> nat" where
  "advance p v = unat ((of_nat p :: u32) + ucast v)"

definition pbSkip :: "bytes \<Rightarrow> nat \<Rightarrow> nat \<Rightarrow> nat option" where
  "pbSkip b p wt =
     (if wt = 0 then map_option snd (pbVarint b p)
      else if wt = 1 then (if p + 8 > length b then None else Some (p + 8))
      else if wt = 2 then
        (case pbVarint b p of None \<Rightarrow> None
         | Some (v, p1) \<Rightarrow> if len_overruns p1 v (length b) then None else Some (advance p1 v))
      else if wt = 5 then (if p + 4 > length b then None else Some (p + 4))
      else None)"

definition pbReadFixed32 :: "bytes \<Rightarrow> nat \<Rightarrow> (u32 \<times> nat) option" where
  "pbReadFixed32 b p = (if p + 4 > length b then None else Some (get32 b p, p + 4))"

definition pb_field :: "u64 \<Rightarrow> u32" where
  "pb_field tagv = ucast (drop_bit 3 tagv)"

definition pb_wire :: "u64 \<Rightarrow> nat" where
  "pb_wire tagv = unat (tagv AND 7)"

text \<open>
  The field loop. The body \<open>step b field wire p s\<close> gives \<open>None\<close> when it does not return,
  \<open>Some None\<close> when it breaks out, and \<open>Some (Some (p', s'))\<close> when it goes on. The flag of the
  result is false after a break.
\<close>

partial_function (option) pb_walk ::
  "(bytes \<Rightarrow> u32 \<Rightarrow> nat \<Rightarrow> nat \<Rightarrow> 's \<Rightarrow> (nat \<times> 's) option option) \<Rightarrow> bytes \<Rightarrow> nat \<Rightarrow> 's \<Rightarrow> ('s \<times> bool) option" where
  "pb_walk step b p s =
     (if p \<ge> length b then Some (s, True)
      else case pbVarint b p of None \<Rightarrow> Some (s, False)
      | Some (tagv, p1) \<Rightarrow>
          (case step b (pb_field tagv) (pb_wire tagv) p1 s of
             None \<Rightarrow> None
           | Some None \<Rightarrow> Some (s, False)
           | Some (Some (p2, s2)) \<Rightarrow> pb_walk step b p2 s2))"

section \<open>Varints\<close>

lemma pb_varint_from_bounds:
  "pb_varint_from b p v shift = Some (r, q) \<Longrightarrow> p < q \<and> q \<le> length b"
proof (induction b p v shift rule: pb_varint_from.induct)
  case (1 b p v shift)
  show ?case
  proof (cases "p < length b \<and> b ! p AND 0x80 \<noteq> 0 \<and> shift + 7 < 64")
    case True
    then have "pb_varint_from b (p + 1) (v OR push_bit shift (ucast (b ! p AND 0x7F))) (shift + 7) = Some (r, q)"
      using "1.prems" by (subst (asm) pb_varint_from.simps) (simp add: Let_def)
    from "1.IH" [OF _ refl refl _ _ this] True show ?thesis by simp
  next
    case False
    then show ?thesis using "1.prems"
      by (subst (asm) pb_varint_from.simps) (auto simp: Let_def split: if_splits)
  qed
qed

lemma pbVarint_bounds: "pbVarint b p = Some (v, q) \<Longrightarrow> p < q \<and> q \<le> length b"
  unfolding pbVarint_def by (rule pb_varint_from_bounds)

lemma pbVarint_one:
  assumes "p < length b" and "b ! p < 0x80"
  shows "pbVarint b p = Some (ucast (b ! p), p + 1)"
  using small_byte [OF assms(2)] assms(1)
  by (simp add: pbVarint_def pb_varint_from.simps [of b p 0 0] Let_def)

lemma pbVarint_two:
  assumes "Suc p < length b" and "b ! p AND 0x80 \<noteq> 0" and "b ! Suc p < 0x80"
  shows "pbVarint b p = Some (ucast (b ! p AND 0x7F) OR push_bit 7 (ucast (b ! Suc p)), Suc (Suc p))"
  using small_byte [OF assms(3)] assms(1,2)
  by (simp add: pbVarint_def pb_varint_from.simps [of b p 0 0] pb_varint_from.simps [of b "Suc p"] Let_def)

text \<open>The two-byte form the encoders use for lengths from 128 up to 255.\<close>

lemma bit_0x7F: "bit (0x7F :: int) k \<longleftrightarrow> k < 7"
proof -
  have eq: "(0x7F :: int) = mask 7" by (simp add: mask_eq_exp_minus_1)
  show ?thesis unfolding eq bit_mask_iff by simp
qed

lemma bit_0x80: "bit (0x80 :: int) k \<longleftrightarrow> k = 7"
  using bit_exp_iff [where ?'a = int, of 7 k] by simp

lemma varint_two_bytes:
  assumes "128 \<le> n" and "n < 256"
  shows "(word_of_nat (n AND 0x7F OR 0x80) :: u8) AND 0x80 \<noteq> 0"
    and "(word_of_nat (drop_bit 7 n) :: u8) < 0x80"
    and "(ucast (word_of_nat (n AND 0x7F OR 0x80) AND 0x7F :: u8) OR
          push_bit 7 (ucast (word_of_nat (drop_bit 7 n) :: u8)) :: u64) = of_nat n"
proof -
  have q: "n div 128 = 1" by (rule div_nat_eqI) (use assms in auto)
  have d: "drop_bit 7 n = 1" by (simp add: drop_bit_eq_div q)
  have m: "(0x7F :: nat) = mask 7" by (simp add: mask_eq_exp_minus_1)
  have nb7: "bit n 7" by (simp add: bit_iff_odd q)
  have nbg: "\<not> bit n k" if "7 < k" for k
  proof -
    have "n < 2 ^ k" using assms(2) power_increasing [of 8 k "2 :: nat"] that by simp
    then show ?thesis by (simp add: bit_iff_odd)
  qed
  have b80: "bit (0x80 :: nat) k \<longleftrightarrow> k = 7" for k
    using bit_exp_iff [where ?'a = nat, of 7 k] by simp
  have "bit (word_of_nat (n AND 0x7F OR 0x80) :: u8) 7"
    by (simp add: bit_simps b80)
  then show "(word_of_nat (n AND 0x7F OR 0x80) :: u8) AND 0x80 \<noteq> 0" by (simp only: and_0x80)
  show "(word_of_nat (drop_bit 7 n) :: u8) < 0x80" by (simp add: d)
  have b7f: "bit (0x7F :: u8) k \<longleftrightarrow> k < 7" for k
    using bit_mask_iff [where ?'a = u8, of 7 k] by (simp add: mask_eq_exp_minus_1) arith
  show "(ucast (word_of_nat (n AND 0x7F OR 0x80) AND 0x7F :: u8) OR
          push_bit 7 (ucast (word_of_nat (drop_bit 7 n) :: u8)) :: u64) = of_nat n"
  proof (rule bit_word_eqI)
    fix k :: nat assume "k < LENGTH(64)"
    consider "k < 7" | "k = 7" | "7 < k" by linarith
    then show "bit (ucast (word_of_nat (n AND 0x7F OR 0x80) AND 0x7F :: u8) OR
          push_bit 7 (ucast (word_of_nat (drop_bit 7 n) :: u8)) :: u64) k = bit (of_nat n :: u64) k"
      using \<open>k < LENGTH(64)\<close> nb7 nbg [of k]
      by cases (auto simp: d bit_simps m b80 b7f bit_0x7F bit_0x80)
  qed
qed

section \<open>Sane buffers\<close>

text \<open>
  A varint of ten bytes needs nine continuation bytes in a row. Without one, every length a
  walk reads is below \<open>2 ^ 63\<close>, the 64-bit bound check is exact and a walk only moves forward.
\<close>

definition no_long_varint :: "bytes \<Rightarrow> bool" where
  "no_long_varint b \<longleftrightarrow> (\<forall>p < length b. p + 9 \<le> length b \<longrightarrow> (\<exists>i < 9. b ! (p + i) AND 0x80 = 0))"

lemma varint_continuations:
  "pb_varint_from b p v shift = Some (r, q) \<Longrightarrow> p + i + 1 < q \<Longrightarrow> b ! (p + i) AND 0x80 \<noteq> 0"
proof (induction b p v shift arbitrary: i rule: pb_varint_from.induct)
  case (1 b p v shift)
  have q: "p < length b" using pb_varint_from_bounds [OF "1.prems"(1)] by simp
  have c: "b ! p AND 0x80 \<noteq> 0 \<and> shift + 7 < 64"
    using "1.prems" q by (subst (asm) pb_varint_from.simps) (auto simp: Let_def split: if_splits)
  then have rec: "pb_varint_from b (p + 1) (v OR push_bit shift (ucast (b ! p AND 0x7F))) (shift + 7) = Some (r, q)"
    using "1.prems"(1) q by (subst (asm) pb_varint_from.simps) (simp add: Let_def)
  show ?case
  proof (cases i)
    case (Suc j)
    then show ?thesis using "1.IH" [OF q refl refl _ _ rec, of j] c "1.prems"(2) by simp
  qed (use c in simp)
qed

lemma varint_high_bits:
  "pb_varint_from b p v shift = Some (r, q) \<Longrightarrow> \<forall>k \<ge> shift. \<not> bit v k
     \<Longrightarrow> \<forall>k \<ge> shift + 7 * (q - p). \<not> bit r k"
proof (induction b p v shift rule: pb_varint_from.induct)
  case (1 b p v shift)
  have q: "p < length b" "p < q" using pb_varint_from_bounds [OF "1.prems"(1)] by auto
  let ?v = "v OR push_bit shift (ucast (b ! p AND 0x7F))"
  have b7: "\<not> bit (b ! p AND 0x7F) j" if "7 \<le> j" for j
  proof -
    have "(0x7F :: u8) = mask 7" by (simp add: mask_eq_exp_minus_1)
    then show ?thesis using that by (simp only: bit_and_iff bit_mask_iff) simp
  qed
  have v: "\<forall>k \<ge> shift + 7. \<not> bit ?v k"
  proof (intro allI impI)
    fix k assume "shift + 7 \<le> k"
    then show "\<not> bit ?v k" using "1.prems"(2) b7 [of "k - shift"]
      by (simp add: bit_or_iff bit_push_bit_iff unsigned_ucast_eq bit_ucast_iff)
  qed
  show ?case
  proof (cases "b ! p AND 0x80 \<noteq> 0 \<and> shift + 7 < 64")
    case True
    then have rec: "pb_varint_from b (p + 1) ?v (shift + 7) = Some (r, q)"
      using "1.prems"(1) q by (subst (asm) pb_varint_from.simps) (simp add: Let_def)
    have "\<forall>k \<ge> shift + 7 + 7 * (q - (p + 1)). \<not> bit r k"
      using "1.IH" [OF q(1) refl refl _ _ rec] True v by simp
    moreover have "p + 1 < q" using pb_varint_from_bounds [OF rec] by simp
    then have "shift + 7 + 7 * (q - (p + 1)) = shift + 7 * (q - p)" by (simp add: algebra_simps)
    ultimately show ?thesis by simp
  next
    case False
    then have "r = ?v \<and> q = p + 1"
      using "1.prems"(1) q by (subst (asm) pb_varint_from.simps) (auto simp: Let_def split: if_splits)
    with v show ?thesis by simp
  qed
qed

lemma varint_small:
  assumes "no_long_varint b" and "pbVarint b p = Some (v, q)"
  shows "v < 2 ^ 63"
proof -
  note f = assms(2) [unfolded pbVarint_def]
  have pq: "p < q" "q \<le> length b" using pb_varint_from_bounds [OF f] by auto
  have "q \<le> p + 9"
  proof (rule ccontr)
    assume "\<not> q \<le> p + 9"
    then have c: "b ! (p + i) AND 0x80 \<noteq> 0" if "i < 9" for i
      using varint_continuations [OF f, of i] that by simp
    moreover have "p + 9 \<le> length b" "p < length b" using \<open>\<not> q \<le> p + 9\<close> pq by auto
    ultimately show False using assms(1) unfolding no_long_varint_def by blast
  qed
  then have "7 * (q - p) \<le> 63" using pq by simp
  then have high: "\<not> bit v k" if "63 \<le> k" for k
    using varint_high_bits [OF f] that by simp
  have "v = take_bit 63 v"
    by (rule bit_word_eqI) (use high in \<open>auto simp: bit_take_bit_iff not_le [symmetric]\<close>)
  then have "unat v = take_bit 63 (unat v)" by (metis unsigned_take_bit_eq)
  then have "unat v < 2 ^ 63" by (metis take_bit_nat_less_exp)
  then show ?thesis by (simp add: word_less_nat_alt)
qed

lemma advance_exact:
  assumes "v < 2 ^ 63" and "n < 2 ^ 31" and "p \<le> n" and "\<not> len_overruns p v n"
  shows "advance p v = p + unat v \<and> p + unat v \<le> n"
proof -
  have v: "unat v < 2 ^ 63" using assms(1) by (simp add: word_less_nat_alt)
  have p: "p < 2 ^ 31" using assms by simp
  then have "unat (of_nat p :: u64) = p" by (simp add: unat_of_nat)
  then have "unat (of_nat p + v) = p + unat v"
    using v p by (subst unat_plus_simple [THEN iffD1]) (auto simp: no_olen_add_nat)
  moreover have "unat (of_nat n :: u64) = n" using assms(2) by (simp add: unat_of_nat)
  ultimately have le: "p + unat v \<le> n"
    using assms(4) by (simp add: len_overruns_def not_less word_le_nat_alt)
  have "unat (ucast v :: u32) = unat v"
    using le assms(2) by (simp add: unsigned_ucast_eq take_bit_nat_eq_self)
  moreover have "unat (of_nat p :: u32) = p" using p by (simp add: unat_of_nat)
  ultimately have "advance p v = p + unat v"
    unfolding advance_def using le assms(2) by (subst unat_add_lem [THEN iffD1]) auto
  with le show ?thesis by blast
qed

lemma skip_advances:
  assumes "no_long_varint b" and "length b < 2 ^ 31" and "p \<le> length b" and "pbSkip b p wt = Some q"
  shows "p \<le> q \<and> q \<le> length b"
proof (cases "wt = 2")
  case True
  then obtain v p1 where v: "pbVarint b p = Some (v, p1)" "\<not> len_overruns p1 v (length b)" "q = advance p1 v"
    using assms(4) by (auto simp: pbSkip_def split: option.splits if_splits)
  from pbVarint_bounds [OF v(1)] advance_exact [OF varint_small [OF assms(1) v(1)] assms(2) _ v(2)] v(3)
  show ?thesis by auto
next
  case False
  then show ?thesis using assms(3,4) by (auto simp: pbSkip_def dest!: pbVarint_bounds split: if_splits)
qed

section \<open>The contract of a loop body\<close>

locale pb_step =
  fixes step :: "bytes \<Rightarrow> u32 \<Rightarrow> nat \<Rightarrow> nat \<Rightarrow> 's \<Rightarrow> (nat \<times> 's) option option"
    and good :: "bytes \<Rightarrow> bool" and inv :: "bytes \<Rightarrow> 's \<Rightarrow> bool"
  assumes step_returns: "good b \<Longrightarrow> p \<le> length b \<Longrightarrow> inv b s \<Longrightarrow> step b f w p s \<noteq> None"
    and step_forward: "good b \<Longrightarrow> p \<le> length b \<Longrightarrow> inv b s \<Longrightarrow> step b f w p s = Some (Some (p2, s2))
      \<Longrightarrow> p \<le> p2 \<and> p2 \<le> length b \<and> inv b s2"
begin

lemma walk_returns:
  assumes "good b" and "p \<le> length b" and "inv b s"
  shows "\<exists>r ok. pb_walk step b p s = Some (r, ok) \<and> inv b r"
  using assms
proof (induction "length b - p" arbitrary: p s rule: less_induct)
  case less
  show ?case
  proof (cases "p < length b")
    case True
    show ?thesis
    proof (cases "pbVarint b p")
      case None
      with True less.prems show ?thesis
        by (intro exI [of _ s] exI [of _ False]) (subst pb_walk.simps, simp)
    next
      case (Some r)
      obtain tagv p1 where r: "r = (tagv, p1)" by (cases r)
      have p1: "p < p1" "p1 \<le> length b" using pbVarint_bounds Some r by auto
      obtain o1 where o1: "step b (pb_field tagv) (pb_wire tagv) p1 s = Some o1"
        using step_returns [OF less.prems(1) p1(2) less.prems(3)] by blast
      show ?thesis
      proof (cases o1)
        case None
        with True Some r o1 less.prems show ?thesis
          by (intro exI [of _ s] exI [of _ False]) (subst pb_walk.simps, simp)
      next
        case (Some q)
        obtain p2 s2 where q: "q = (p2, s2)" by (cases q)
        have fw: "p1 \<le> p2 \<and> p2 \<le> length b \<and> inv b s2"
          by (rule step_forward [OF less.prems(1) p1(2) less.prems(3) o1 [unfolded Some q]])
        then have "\<exists>r ok. pb_walk step b p2 s2 = Some (r, ok) \<and> inv b r"
          using p1 True less.prems by (intro less.hyps) auto
        moreover have "pb_walk step b p s = pb_walk step b p2 s2"
          using True \<open>pbVarint b p = Some r\<close> r o1 Some q by (subst pb_walk.simps) simp
        ultimately show ?thesis by simp
      qed
    qed
  next
    case False
    with less.prems show ?thesis
      by (intro exI [of _ s] exI [of _ True]) (subst pb_walk.simps, simp)
  qed
qed

end

definition sane_buf :: "bytes \<Rightarrow> bool" where
  "sane_buf b \<longleftrightarrow> no_long_varint b \<and> length b < 2 ^ 31"

lemma sane_slice: "sane_buf b \<Longrightarrow> sane_buf (take n (drop m b))"
proof -
  assume s: "sane_buf b"
  have "\<exists>i < 9. take n (drop m b) ! (p + i) AND 0x80 = 0"
    if "p + 9 \<le> length (take n (drop m b))" for p
  proof -
    have "p + 9 \<le> length b - m" using that by simp
    then have le: "m + p + 9 \<le> length b" by arith
    then have "m + p < length b" by simp
    with le obtain i where "i < 9" "b ! (m + p + i) AND 0x80 = 0"
      using s unfolding sane_buf_def no_long_varint_def by blast
    moreover have "take n (drop m b) ! (p + i) = b ! (m + p + i)"
      using that \<open>i < 9\<close> le by (simp add: nth_drop add.assoc)
    ultimately show ?thesis by auto
  qed
  with s show ?thesis by (simp add: sane_buf_def no_long_varint_def min_less_iff_disj less_imp_diff_less)
qed

end
