(* ===== verification/MeshDecoder.thy ===== *)
theory MeshDecoder
  imports RadioChannel Protobuf LinkProtocol
begin

text \<open>
  The body extractors of the decoders (\<open>src/src/MeshDecoderDebug.h\<close>). An extractor of a
  Meshtastic packet runs field loops that may fail to return or leave the plaintext buffer, so
  its result is an option: \<open>None\<close> when the code has no defined result, \<open>Some\<close> of what it
  reports otherwise. Output strings are C strings: their bytes before the first NUL.
\<close>

section \<open>MeshCore GRP_TXT\<close>

definition ecb_blocks :: "(bytes \<Rightarrow> bytes) \<Rightarrow> bytes \<Rightarrow> bytes" where
  "ecb_blocks f ct = concat (map (\<lambda>i. f (take 16 (drop (i * 16) ct))) [0..<length ct div 16])"

text \<open>The offset of the channel hash, when the header, path and hash are all inside the packet.\<close>

definition mc_payload_off :: "bytes \<Rightarrow> nat option" where
  "mc_payload_off buf =
     (let len = length buf; header = buf ! 0; version = drop_bit 6 header AND 0x03;
          payloadType = drop_bit 2 header AND 0x0F; routeType = header AND 0x03 in
      if len < 6 then None
      else if version \<noteq> 0 then None
      else if payloadType \<noteq> 0x05 then None
      else (let trans = (routeType = 0 \<or> routeType = 3); off = (if trans then 5 else 1) in
        if trans \<and> len < 5 then None
        else if len < off + 1 then None
        else (let pathLen = unat (buf ! off); off = off + 1 in
          if pathLen > 64 \<or> len < off + pathLen then None
          else if len < off + pathLen + 3 then None
          else Some (off + pathLen))))"

definition extractMeshCoreBody :: "crypto \<Rightarrow> bytes \<Rightarrow> radio_channel \<Rightarrow> nat \<Rightarrow> (bytes \<times> u32) option" where
  "extractMeshCoreBody c buf ch bodyOutCap =
     (if bodyOutCap < 2 then None
      else case mc_payload_off buf of None \<Rightarrow> None
      | Some off \<Rightarrow>
         (let ct = drop (off + 3) buf; ctLen = length ct in
          if buf ! off \<noteq> ch_channelHash ch then None
          else if ctLen = 0 \<or> ctLen mod 16 \<noteq> 0 \<or> ctLen > 224 then None
          else (let pt = ecb_blocks (aes_dec c (take 16 (ch_key ch))) ct in
            if ctLen < 6 then None
            else (let ts = get32 pt 0; body = takeWhile (\<lambda>b. b \<noteq> 0) (drop 5 pt) in
              if body = [] then None
              else Some (take (min (length body) (bodyOutCap - 1)) body, ts)))))"

section \<open>Meshtastic packets\<close>

definition mt_nonce :: "u32 \<Rightarrow> u32 \<Rightarrow> bytes" where
  "mt_nonce pid src = le32 pid @ [0, 0, 0, 0] @ le32 src @ [0, 0, 0, 0]"

text \<open>The common front of the Meshtastic extractors: the checks and the decryption.\<close>

definition mt_plaintext :: "crypto \<Rightarrow> radio_channel \<Rightarrow> bytes \<Rightarrow> bytes option" where
  "mt_plaintext c ch buf =
     (if length buf < 17 then None
      else if buf ! 13 \<noteq> ch_channelHash ch then None
      else (let src = get32 buf 4; pid = get32 buf 8; ct = drop 16 buf in
        if length ct > 240 then None
        else Some (aes_ctr c (take (ch_keyLen ch) (ch_key ch)) (mt_nonce pid src) ct)))"

text \<open>The walk of the Data message: the port number and the offset and length of the payload.\<close>

record data_msg =
  dm_portnum :: u32
  dm_payload :: "(nat \<times> nat) option"

definition data_step :: "bytes \<Rightarrow> u32 \<Rightarrow> nat \<Rightarrow> nat \<Rightarrow> data_msg \<Rightarrow> (nat \<times> data_msg) option option" where
  "data_step b f w p s =
     (if f = 1 \<and> w = 0 then
        (case pbVarint b p of None \<Rightarrow> Some None
         | Some (v, q) \<Rightarrow> Some (Some (q, s\<lparr>dm_portnum := ucast v\<rparr>)))
      else if f = 2 \<and> w = 2 then
        (case pbVarint b p of None \<Rightarrow> Some None
         | Some (plen, q) \<Rightarrow> if len_overruns q plen (length b) then Some None
             else (let n = unat (ucast plen :: u32)
                   in Some (Some (advance q plen, s\<lparr>dm_payload := Some (q, n)\<rparr>))))
      else (case pbSkip b p w of None \<Rightarrow> Some None | Some q \<Rightarrow> Some (Some (q, s))))"

definition data_init :: data_msg where
  "data_init = \<lparr>dm_portnum = 0, dm_payload = None\<rparr>"

definition data_walk :: "bytes \<Rightarrow> (data_msg \<times> bool) option" where
  "data_walk pt = pb_walk data_step pt 0 data_init"

text \<open>
  The payload a walk selected for port \<open>want\<close>: \<open>None\<close> when reading it would leave the
  plaintext, \<open>Some None\<close> for another port or an empty payload.
\<close>

definition dm_slice :: "bytes \<Rightarrow> data_msg \<Rightarrow> u32 \<Rightarrow> bytes option option" where
  "dm_slice pt m want =
     (if dm_portnum m \<noteq> want then Some None
      else case dm_payload m of None \<Rightarrow> Some None
      | Some (off, n) \<Rightarrow> if n = 0 then Some None
          else if off + n > length pt then None
          else Some (Some (take n (drop off pt))))"

definition mt_payload :: "crypto \<Rightarrow> radio_channel \<Rightarrow> bytes \<Rightarrow> u32 \<Rightarrow> bytes option option" where
  "mt_payload c ch buf want =
     (case mt_plaintext c ch buf of None \<Rightarrow> Some None
      | Some pt \<Rightarrow> (case data_walk pt of None \<Rightarrow> None
          | Some (m, ok) \<Rightarrow> dm_slice pt m want))"

definition extractMeshtasticBody :: "crypto \<Rightarrow> bytes \<Rightarrow> radio_channel \<Rightarrow> nat \<Rightarrow> bytes option option" where
  "extractMeshtasticBody c buf ch bodyOutCap =
     (if bodyOutCap < 2 then Some None
      else case mt_payload c ch buf 1 of None \<Rightarrow> None
      | Some None \<Rightarrow> Some None
      | Some (Some payload) \<Rightarrow> Some (Some (cstr_of (take (min (length payload) (bodyOutCap - 1)) payload))))"

subsection \<open>NodeInfo\<close>

record user_info =
  ui_long :: bytes
  ui_short :: bytes

definition user_step :: "nat \<Rightarrow> nat \<Rightarrow> bytes \<Rightarrow> u32 \<Rightarrow> nat \<Rightarrow> nat \<Rightarrow> user_info \<Rightarrow> (nat \<times> user_info) option option" where
  "user_step shortCap longCap b f w p s =
     (if w = 2 then
        (case pbVarint b p of None \<Rightarrow> Some None
         | Some (slen, q) \<Rightarrow> if len_overruns q slen (length b) then Some None
             else (let fld = (\<lambda>cap. if slen < of_nat (cap - 1) then unat slen else cap - 1) in
               if f = 2 \<and> longCap > 1 then
                 (if q + fld longCap > length b then None
                  else Some (Some (advance q slen, s\<lparr>ui_long := take (fld longCap) (drop q b)\<rparr>)))
               else if f = 3 \<and> shortCap > 1 then
                 (if q + fld shortCap > length b then None
                  else Some (Some (advance q slen, s\<lparr>ui_short := take (fld shortCap) (drop q b)\<rparr>)))
               else Some (Some (advance q slen, s))))
      else (case pbSkip b p w of None \<Rightarrow> Some None | Some q \<Rightarrow> Some (Some (q, s))))"

text \<open>The result: the node id with the short and long name.\<close>

definition extractMeshtasticNodeInfo ::
  "crypto \<Rightarrow> bytes \<Rightarrow> radio_channel \<Rightarrow> nat \<Rightarrow> nat \<Rightarrow> (u32 \<times> bytes \<times> bytes) option option" where
  "extractMeshtasticNodeInfo c buf ch shortCap longCap =
     (case mt_payload c ch buf 4 of None \<Rightarrow> None
      | Some None \<Rightarrow> Some None
      | Some (Some payload) \<Rightarrow>
         (case pb_walk (user_step shortCap longCap) payload 0 \<lparr>ui_long = [], ui_short = []\<rparr> of
            None \<Rightarrow> None
          | Some (u, ok) \<Rightarrow> if ok then Some (Some (get32 buf 4, cstr_of (ui_short u), cstr_of (ui_long u)))
              else Some None))"

subsection \<open>Position\<close>

record position_info =
  po_latI :: "u32 option"
  po_lonI :: "u32 option"
  po_altM :: "u32 option"
  po_timeUnix :: "u32 option"

definition position_step :: "bytes \<Rightarrow> u32 \<Rightarrow> nat \<Rightarrow> nat \<Rightarrow> position_info \<Rightarrow> (nat \<times> position_info) option option" where
  "position_step b f w p s =
     (if f = 1 \<and> w = 5 then
        (case pbReadFixed32 b p of None \<Rightarrow> Some None | Some (v, q) \<Rightarrow> Some (Some (q, s\<lparr>po_latI := Some v\<rparr>)))
      else if f = 2 \<and> w = 5 then
        (case pbReadFixed32 b p of None \<Rightarrow> Some None | Some (v, q) \<Rightarrow> Some (Some (q, s\<lparr>po_lonI := Some v\<rparr>)))
      else if f = 3 \<and> w = 0 then
        (case pbVarint b p of None \<Rightarrow> Some None | Some (v, q) \<Rightarrow> Some (Some (q, s\<lparr>po_altM := Some (ucast v)\<rparr>)))
      else if f = 4 \<and> w = 5 then
        (case pbReadFixed32 b p of None \<Rightarrow> Some None | Some (v, q) \<Rightarrow> Some (Some (q, s\<lparr>po_timeUnix := Some v\<rparr>)))
      else if f = 7 \<and> w = 5 \<and> po_timeUnix s = None then
        (case pbReadFixed32 b p of None \<Rightarrow> Some None | Some (v, q) \<Rightarrow> Some (Some (q, s\<lparr>po_timeUnix := Some v\<rparr>)))
      else (case pbSkip b p w of None \<Rightarrow> Some None | Some q \<Rightarrow> Some (Some (q, s))))"

definition position_init :: position_info where
  "position_init = \<lparr>po_latI = None, po_lonI = None, po_altM = None, po_timeUnix = None\<rparr>"

definition extractMeshtasticPosition :: "crypto \<Rightarrow> bytes \<Rightarrow> radio_channel \<Rightarrow> position_info option option" where
  "extractMeshtasticPosition c buf ch =
     (case mt_payload c ch buf 3 of None \<Rightarrow> None
      | Some None \<Rightarrow> Some None
      | Some (Some payload) \<Rightarrow>
         (case pb_walk position_step payload 0 position_init of
            None \<Rightarrow> None
          | Some (out, ok) \<Rightarrow>
              if ok \<and> (po_latI out \<noteq> None \<or> po_lonI out \<noteq> None \<or> po_altM out \<noteq> None) then Some (Some out)
              else Some None))"

subsection \<open>Telemetry\<close>

datatype telemetry_kind = TK_NONE | TK_DEVICE | TK_ENVIRONMENT | TK_OTHER

record telemetry_info =
  te_kind :: telemetry_kind
  te_batteryPct :: "u32 option"
  te_voltage :: "u32 option"
  te_tempC :: "u32 option"
  te_rhPct :: "u32 option"
  te_pressureHpa :: "u32 option"

definition telemetry_init :: telemetry_info where
  "telemetry_init = \<lparr>te_kind = TK_NONE, te_batteryPct = None, te_voltage = None, te_tempC = None,
     te_rhPct = None, te_pressureHpa = None\<rparr>"

definition device_step :: "bytes \<Rightarrow> u32 \<Rightarrow> nat \<Rightarrow> nat \<Rightarrow> telemetry_info \<Rightarrow> (nat \<times> telemetry_info) option option" where
  "device_step b f w p s =
     (if f = 1 \<and> w = 5 then
        (case pbReadFixed32 b p of None \<Rightarrow> Some None | Some (v, q) \<Rightarrow> Some (Some (q, s\<lparr>te_batteryPct := Some v\<rparr>)))
      else if f = 2 \<and> w = 5 then
        (case pbReadFixed32 b p of None \<Rightarrow> Some None | Some (v, q) \<Rightarrow> Some (Some (q, s\<lparr>te_voltage := Some v\<rparr>)))
      else (case pbSkip b p w of None \<Rightarrow> Some None | Some q \<Rightarrow> Some (Some (q, s))))"

definition environment_step :: "bytes \<Rightarrow> u32 \<Rightarrow> nat \<Rightarrow> nat \<Rightarrow> telemetry_info \<Rightarrow> (nat \<times> telemetry_info) option option" where
  "environment_step b f w p s =
     (if f = 1 \<and> w = 5 then
        (case pbReadFixed32 b p of None \<Rightarrow> Some None | Some (v, q) \<Rightarrow> Some (Some (q, s\<lparr>te_tempC := Some v\<rparr>)))
      else if f = 2 \<and> w = 5 then
        (case pbReadFixed32 b p of None \<Rightarrow> Some None | Some (v, q) \<Rightarrow> Some (Some (q, s\<lparr>te_rhPct := Some v\<rparr>)))
      else if f = 3 \<and> w = 5 then
        (case pbReadFixed32 b p of None \<Rightarrow> Some None | Some (v, q) \<Rightarrow> Some (Some (q, s\<lparr>te_pressureHpa := Some v\<rparr>)))
      else (case pbSkip b p w of None \<Rightarrow> Some None | Some q \<Rightarrow> Some (Some (q, s))))"

text \<open>A metrics submessage: its walk keeps what it had read when it breaks out.\<close>

definition metrics_step ::
  "(bytes \<Rightarrow> u32 \<Rightarrow> nat \<Rightarrow> nat \<Rightarrow> telemetry_info \<Rightarrow> (nat \<times> telemetry_info) option option) \<Rightarrow> telemetry_kind
    \<Rightarrow> bytes \<Rightarrow> nat \<Rightarrow> telemetry_info \<Rightarrow> (nat \<times> telemetry_info) option option" where
  "metrics_step sub k b p s =
     (case pbVarint b p of None \<Rightarrow> Some None
      | Some (slen, q) \<Rightarrow> if len_overruns q slen (length b) then Some None
          else (let sn = unat (ucast slen :: u32) in
            if q + sn > length b then None
            else (case pb_walk sub (take sn (drop q b)) 0 (s\<lparr>te_kind := k\<rparr>) of
                    None \<Rightarrow> None
                  | Some (s2, ok) \<Rightarrow> Some (Some (advance q slen, s2)))))"

definition telemetry_step :: "bytes \<Rightarrow> u32 \<Rightarrow> nat \<Rightarrow> nat \<Rightarrow> telemetry_info \<Rightarrow> (nat \<times> telemetry_info) option option" where
  "telemetry_step b f w p s =
     (if f = 2 \<and> w = 2 then metrics_step device_step TK_DEVICE b p s
      else if f = 3 \<and> w = 2 then metrics_step environment_step TK_ENVIRONMENT b p s
      else if 4 \<le> sint f \<and> sint f \<le> 7 \<and> w = 2 then
        (case pbVarint b p of None \<Rightarrow> Some None
         | Some (slen, q) \<Rightarrow> if len_overruns q slen (length b) then Some None
             else Some (Some (advance q slen, if te_kind s = TK_NONE then s\<lparr>te_kind := TK_OTHER\<rparr> else s)))
      else (case pbSkip b p w of None \<Rightarrow> Some None | Some q \<Rightarrow> Some (Some (q, s))))"

definition extractMeshtasticTelemetry :: "crypto \<Rightarrow> bytes \<Rightarrow> radio_channel \<Rightarrow> telemetry_info option option" where
  "extractMeshtasticTelemetry c buf ch =
     (case mt_payload c ch buf 67 of None \<Rightarrow> None
      | Some None \<Rightarrow> Some None
      | Some (Some payload) \<Rightarrow>
         (case pb_walk telemetry_step payload 0 telemetry_init of
            None \<Rightarrow> None
          | Some (out, ok) \<Rightarrow>
              if ok \<and> (te_kind out = TK_DEVICE \<or> te_kind out = TK_ENVIRONMENT) then Some (Some out)
              else Some None))"

section \<open>LoRaWAN and Reticulum\<close>

record lorawan_meta =
  lm_mtype :: u8
  lm_isData :: bool
  lm_isJoinReq :: bool
  lm_devAddr :: u32
  lm_fctrl :: u8
  lm_fcnt :: u16
  lm_hasFport :: bool
  lm_fport :: u8
  lm_frmPayloadLen :: u16
  lm_joinEui :: u64
  lm_devEui :: u64

definition lorawan_meta0 :: lorawan_meta where
  "lorawan_meta0 = \<lparr>lm_mtype = 0, lm_isData = False, lm_isJoinReq = False, lm_devAddr = 0, lm_fctrl = 0,
     lm_fcnt = 0, lm_hasFport = False, lm_fport = 0, lm_frmPayloadLen = 0, lm_joinEui = 0, lm_devEui = 0\<rparr>"

text \<open>The output struct is filled as far as the parse gets; the flag is the return value.\<close>

definition extractLoRaWANMeta :: "bytes \<Rightarrow> lorawan_meta \<times> bool" where
  "extractLoRaWANMeta buf =
     (let len = length buf in
      if len < 1 then (lorawan_meta0, False)
      else (let mt = drop_bit 5 (buf ! 0) AND 0x07; isData = (2 \<le> mt \<and> mt \<le> 5); isJoin = (mt = 0);
                out = lorawan_meta0\<lparr>lm_mtype := mt, lm_isData := isData, lm_isJoinReq := isJoin\<rparr> in
        if isData then
          (if len < 12 then (out, False)
           else (let out = out\<lparr>lm_devAddr := get32 buf 1, lm_fctrl := buf ! 5, lm_fcnt := get16 buf 6\<rparr>;
                     foptsLen = unat (buf ! 5 AND 0x0F); fhdrEnd = 8 + foptsLen in
             if fhdrEnd + 4 > len then (out, False)
             else (let afterFhdr = len - 4 - fhdrEnd in
               if afterFhdr \<ge> 1 then
                 (out\<lparr>lm_hasFport := True, lm_fport := buf ! fhdrEnd,
                      lm_frmPayloadLen := of_nat (afterFhdr - 1)\<rparr>, True)
               else (out, True))))
        else if isJoin then
          (if len < 23 then (out, False)
           else (out\<lparr>lm_joinEui := get64 buf 1, lm_devEui := get64 buf 9\<rparr>, True))
        else (out, len \<ge> 5)))"

definition crc16_ccitt :: "bytes \<Rightarrow> u16" where
  "crc16_ccitt data = foldl (\<lambda>crc b. (crc_bit ^^ 8) (crc XOR push_bit 8 (ucast b))) 0xFFFF data"

definition extractReticulumBase64 :: "crypto \<Rightarrow> bytes \<Rightarrow> nat \<Rightarrow> bytes option" where
  "extractReticulumBase64 c buf bodyOutCap =
     (if bodyOutCap < 2 then None
      else if buf = [] then None
      else (let e = base64_encode c buf in if length e + 1 > bodyOutCap then None else Some e))"

definition reassembleReticulumFragment :: "bytes \<Rightarrow> bytes option" where
  "reassembleReticulumFragment body = None"

lemma crc16_ccitt_is_link_crc: "crc16_ccitt data = crc16 data"
  by (simp add: crc16_ccitt_def crc16_def crc_byte_def [abs_def])

section \<open>The field loops return on sane plaintexts\<close>

lemma varint_step_fwd:
  assumes "sane_buf b" and "pbVarint b p = Some (v, q)" and "\<not> len_overruns q v (length b)"
  shows "p \<le> advance q v \<and> advance q v \<le> length b \<and> unat (ucast v :: u32) = unat v
    \<and> q + unat v \<le> length b \<and> advance q v = q + unat v"
proof -
  have s: "no_long_varint b" "length b < 2 ^ 31" using assms(1) by (auto simp: sane_buf_def)
  have q: "p < q" "q \<le> length b" using pbVarint_bounds [OF assms(2)] by auto
  have a: "advance q v = q + unat v" "q + unat v \<le> length b"
    using advance_exact [OF varint_small [OF s(1) assms(2)] s(2) q(2) assms(3)] by auto
  then have "unat (ucast v :: u32) = unat v"
    using s(2) by (simp add: unsigned_ucast_eq take_bit_nat_eq_self)
  with a q show ?thesis by simp
qed

lemma skip_fwd: "sane_buf b \<Longrightarrow> p \<le> length b \<Longrightarrow> pbSkip b p w = Some q \<Longrightarrow> p \<le> q \<and> q \<le> length b"
  by (rule skip_advances) (auto simp: sane_buf_def)

lemma fixed_fwd: "pbReadFixed32 b p = Some (v, q) \<Longrightarrow> p \<le> q \<and> q \<le> length b"
  by (auto simp: pbReadFixed32_def split: if_splits)

definition dm_inside :: "bytes \<Rightarrow> data_msg \<Rightarrow> bool" where
  "dm_inside b m \<longleftrightarrow> (case dm_payload m of None \<Rightarrow> True | Some (off, n) \<Rightarrow> off + n \<le> length b)"

interpretation data_loop: pb_step data_step sane_buf dm_inside
proof unfold_locales
  fix b :: bytes and p :: nat and s :: data_msg and f w
  show "data_step b f w p s \<noteq> None"
    by (auto simp: data_step_def Let_def split: option.splits prod.splits)
next
  fix b :: bytes and p :: nat and s s2 :: data_msg and f w p2
  assume a: "sane_buf b" "p \<le> length b" "dm_inside b s" "data_step b f w p s = Some (Some (p2, s2))"
  show "p \<le> p2 \<and> p2 \<le> length b \<and> dm_inside b s2"
    using a varint_step_fwd [OF a(1), of p] skip_fwd [OF a(1,2)] pbVarint_bounds [of b p]
    by (fastforce simp: data_step_def Let_def dm_inside_def split: option.splits prod.splits if_splits)
qed

lemma name_copy_inside:
  assumes "sane_buf b" and "pbVarint b p = Some (slen, q)" and "\<not> len_overruns q slen (length b)"
    and "cap < 2 ^ 32"
  shows "q + (if slen < of_nat (cap - 1) then unat slen else cap - 1) \<le> length b"
proof -
  have "unat (of_nat (cap - 1) :: u64) = cap - 1" using assms(4) by (simp add: unat_of_nat)
  then have "(if slen < of_nat (cap - 1) then unat slen else cap - 1) \<le> unat slen"
    by (simp add: word_less_nat_alt)
  then show ?thesis using varint_step_fwd [OF assms(1-3)] by linarith
qed

definition name_caps_ok :: "nat \<Rightarrow> nat \<Rightarrow> bytes \<Rightarrow> bool" where
  "name_caps_ok sc lc b \<longleftrightarrow> sane_buf b \<and> sc < 2 ^ 32 \<and> lc < 2 ^ 32"

interpretation user_loop: pb_step "user_step sc lc" "name_caps_ok sc lc" "\<lambda>b s. True" for sc lc
proof unfold_locales
  fix b :: bytes and p :: nat and s :: user_info and f w
  assume a: "name_caps_ok sc lc b" "p \<le> length b"
  then have "sane_buf b" "sc < 2 ^ 32" "lc < 2 ^ 32" by (auto simp: name_caps_ok_def)
  note n = name_copy_inside [OF this(1) _ _ this(2), of p] name_copy_inside [OF this(1) _ _ this(3), of p]
  show "user_step sc lc b f w p s \<noteq> None"
    using n by (auto simp: user_step_def Let_def split: option.splits prod.splits)
next
  fix b :: bytes and p :: nat and s s2 :: user_info and f w p2
  assume a: "name_caps_ok sc lc b" "p \<le> length b" "user_step sc lc b f w p s = Some (Some (p2, s2))"
  then have sb: "sane_buf b" by (simp add: name_caps_ok_def)
  show "p \<le> p2 \<and> p2 \<le> length b \<and> True"
    using a(2,3) varint_step_fwd [OF sb, of p] skip_fwd [OF sb a(2)]
    by (auto simp: user_step_def Let_def split: option.splits prod.splits if_splits)
qed

interpretation position_loop: pb_step position_step sane_buf "\<lambda>b s. True"
proof unfold_locales
  fix b :: bytes and p :: nat and s :: position_info and f w
  show "position_step b f w p s \<noteq> None"
    by (auto simp: position_step_def split: option.splits prod.splits)
next
  fix b :: bytes and p :: nat and s s2 :: position_info and f w p2
  assume a: "sane_buf b" "p \<le> length b" "position_step b f w p s = Some (Some (p2, s2))"
  show "p \<le> p2 \<and> p2 \<le> length b \<and> True"
    using a(3) pbVarint_bounds [of b p] skip_fwd [OF a(1,2)] fixed_fwd [of b p]
    by (auto simp: position_step_def split: option.splits prod.splits if_splits)
qed

text \<open>The two metrics submessages share one shape: only 32-bit fields are read.\<close>

lemma fixed_fields_step:
  assumes "sane_buf b" and "p \<le> length b" and "st b f w p s = Some (Some (p2, s2))"
    and "\<And>r. st b f w p s = Some (Some r) \<Longrightarrow>
      (\<exists>v. pbReadFixed32 b p = Some (v, fst r)) \<or> pbSkip b p w = Some (fst r)"
  shows "p \<le> p2 \<and> p2 \<le> length b"
  using assms(4) [OF assms(3)] skip_fwd [OF assms(1,2)] fixed_fwd by fastforce

interpretation device_loop: pb_step device_step sane_buf "\<lambda>b s. True"
proof unfold_locales
  fix b :: bytes and p :: nat and s :: telemetry_info and f w
  show "device_step b f w p s \<noteq> None"
    by (auto simp: device_step_def split: option.splits prod.splits)
next
  fix b :: bytes and p :: nat and s s2 :: telemetry_info and f w p2
  assume a: "sane_buf b" "p \<le> length b" "device_step b f w p s = Some (Some (p2, s2))"
  have "p \<le> p2 \<and> p2 \<le> length b"
    by (rule fixed_fields_step [where st = device_step, OF a])
      (auto simp: device_step_def split: option.splits prod.splits if_splits)
  then show "p \<le> p2 \<and> p2 \<le> length b \<and> True" by simp
qed

interpretation environment_loop: pb_step environment_step sane_buf "\<lambda>b s. True"
proof unfold_locales
  fix b :: bytes and p :: nat and s :: telemetry_info and f w
  show "environment_step b f w p s \<noteq> None"
    by (auto simp: environment_step_def split: option.splits prod.splits)
next
  fix b :: bytes and p :: nat and s s2 :: telemetry_info and f w p2
  assume a: "sane_buf b" "p \<le> length b" "environment_step b f w p s = Some (Some (p2, s2))"
  have "p \<le> p2 \<and> p2 \<le> length b"
    by (rule fixed_fields_step [where st = environment_step, OF a])
      (auto simp: environment_step_def split: option.splits prod.splits if_splits)
  then show "p \<le> p2 \<and> p2 \<le> length b \<and> True" by simp
qed

lemma metrics_step_fwd:
  assumes "sane_buf b"
    and sub: "\<And>b s. sane_buf b \<Longrightarrow> \<exists>r ok. pb_walk sub b 0 s = Some (r, ok)"
  shows "metrics_step sub k b p s \<noteq> None"
    and "metrics_step sub k b p s = Some (Some (p2, s2)) \<Longrightarrow> p \<le> p2 \<and> p2 \<le> length b"
proof -
  have walk: "\<exists>r ok. pb_walk sub (take n (drop q b)) 0 t = Some (r, ok)" for n q t
    by (rule sub [OF sane_slice [OF assms(1)]])
  show "metrics_step sub k b p s \<noteq> None"
  proof (cases "pbVarint b p")
    case (Some r)
    obtain slen q where r: "r = (slen, q)" by (cases r)
    show ?thesis
    proof (cases "len_overruns q slen (length b)")
      case False
      obtain t ok where "pb_walk sub (take (unat (ucast slen :: u32)) (drop q b)) 0 (s\<lparr>te_kind := k\<rparr>) = Some (t, ok)"
        using walk by blast
      with False Some r varint_step_fwd [OF assms(1) Some [unfolded r] False] show ?thesis
        by (simp add: metrics_step_def Let_def)
    qed (simp add: metrics_step_def Some r)
  qed (simp add: metrics_step_def)
  show "p \<le> p2 \<and> p2 \<le> length b" if "metrics_step sub k b p s = Some (Some (p2, s2))"
    using that varint_step_fwd [OF assms(1), of p]
    by (auto simp: metrics_step_def Let_def split: option.splits prod.splits if_splits)
qed

lemma device_returns: "sane_buf b \<Longrightarrow> \<exists>r ok. pb_walk device_step b 0 s = Some (r, ok)"
  using device_loop.walk_returns [of b 0 s] by blast

lemma environment_returns: "sane_buf b \<Longrightarrow> \<exists>r ok. pb_walk environment_step b 0 s = Some (r, ok)"
  using environment_loop.walk_returns [of b 0 s] by blast

interpretation telemetry_loop: pb_step telemetry_step sane_buf "\<lambda>b s. True"
proof unfold_locales
  fix b :: bytes and p :: nat and s :: telemetry_info and f w
  assume a: "sane_buf b"
  show "telemetry_step b f w p s \<noteq> None"
    using metrics_step_fwd(1) [OF a device_returns] metrics_step_fwd(1) [OF a environment_returns]
    by (auto simp: telemetry_step_def split: option.splits prod.splits)
next
  fix b :: bytes and p :: nat and s s2 :: telemetry_info and f w p2
  assume a: "sane_buf b" "p \<le> length b" "telemetry_step b f w p s = Some (Some (p2, s2))"
  show "p \<le> p2 \<and> p2 \<le> length b \<and> True"
    using a(3) metrics_step_fwd(2) [OF a(1) device_returns] metrics_step_fwd(2) [OF a(1) environment_returns]
      varint_step_fwd [OF a(1), of p] skip_fwd [OF a(1,2)]
    by (auto simp: telemetry_step_def split: option.splits prod.splits if_splits)
qed

end
