(* ===== verification/DecoderSafety.thy ===== *)
theory DecoderSafety
  imports MeshDecoder
begin

text \<open>
  What the extractors of \<open>src/src/MeshDecoderDebug.h\<close> guarantee: they return and stay in bounds on
  sane plaintexts, their strings fit the caller's buffers, and the two plaintexts on which the
  wrapping bound check fails.
\<close>

section \<open>What the extractors return\<close>

lemma mt_payload_sane:
  assumes "\<And>pt. mt_plaintext c ch buf = Some pt \<Longrightarrow> sane_buf pt"
  shows "mt_payload c ch buf want \<noteq> None \<and> (\<forall>pl. mt_payload c ch buf want = Some (Some pl) \<longrightarrow> sane_buf pl)"
proof (cases "mt_plaintext c ch buf")
  case (Some pt)
  note sane = assms [OF Some]
  have "dm_inside pt data_init" by (simp add: dm_inside_def data_init_def)
  from data_loop.walk_returns [OF sane _ this, of 0]
  obtain m ok where m: "data_walk pt = Some (m, ok)" "dm_inside pt m" by (auto simp: data_walk_def)
  have "dm_slice pt m want \<noteq> None \<and> (\<forall>pl. dm_slice pt m want = Some (Some pl) \<longrightarrow> sane_buf pl)"
    using m(2) sane_slice [OF sane] by (auto simp: dm_slice_def dm_inside_def split: option.splits prod.splits)
  with Some m(1) show ?thesis by (simp add: mt_payload_def)
qed (simp add: mt_payload_def)


definition sample_channel :: radio_channel where
  "sample_channel = \<lparr>ch_protocol = 0x2B, ch_key = replicate 32 1, ch_keyLen = 16, ch_channelHash = 8, ch_name = []\<rparr>"

definition sample_mt_packet :: bytes where
  "sample_mt_packet = replicate 13 0xFF @ [8, 0, 0] @ map (\<lambda>b. b XOR 0x33) [0x08, 1, 0x12, 2, 72, 105]"

lemma sample_mt_plain: "mt_plaintext toy_crypto sample_channel sample_mt_packet = Some [0x08, 1, 0x12, 2, 72, 105]"
  by (simp add: mt_plaintext_def sample_mt_packet_def sample_channel_def toy_crypto_def Let_def nth_append)

lemma sane_short: "length b < 9 \<Longrightarrow> sane_buf b"
  by (simp add: sane_buf_def no_long_varint_def)


text \<open>
  The 64-bit bound check \<open>pos + plen > ctLen\<close> wraps for lengths near \<open>2 ^ 64\<close>. A packet whose
  plaintext is the eleven bytes below sends the walk back to position 0 for ever; with the
  thirteen bytes of the second it leaves the loop with a payload length of \<open>2 ^ 32 - 1\<close>, and the
  copy that follows reads beyond the plaintext.
\<close>

definition looping_plaintext :: bytes where
  "looping_plaintext = [0x12, 0xF5, 0xFF, 0xFF, 0xFF, 0xFF, 0xFF, 0xFF, 0xFF, 0xFF, 0x01]"

definition overread_plaintext :: bytes where
  "overread_plaintext = [0x08, 0x01, 0x12, 0xFF, 0xFF, 0xFF, 0xFF, 0xFF, 0xFF, 0xFF, 0xFF, 0xFF, 0x01]"

lemma looping_varints:
  "pbVarint looping_plaintext 0 = Some (0x12, 1)" "pbVarint looping_plaintext 1 = Some (18446744073709551605, 11)"
  by code_simp+

lemma looping_step:
  "data_step looping_plaintext (pb_field 0x12) (pb_wire 0x12) 1 s
     = Some (Some (0, s\<lparr>dm_payload := Some (11, 2 ^ 32 - 11)\<rparr>))"
proof -
  have "pb_field 0x12 = 2" "pb_wire 0x12 = 2" by code_simp+
  moreover have "len_overruns 11 18446744073709551605 11 = False" "advance 11 18446744073709551605 = 0"
    "unat (ucast (18446744073709551605 :: u64) :: u32) = 2 ^ 32 - 11"
    by (simp_all add: len_overruns_def advance_def unsigned_ucast_eq)
  moreover have "length looping_plaintext = 11" by (simp add: looping_plaintext_def)
  ultimately show ?thesis by (simp only: data_step_def looping_varints Let_def) simp
qed

lemma looping_walk: "pb_walk data_step looping_plaintext 0 s = None"
proof -
  have no: "\<not> (st = data_step \<and> b = looping_plaintext \<and> p = 0)" if "pb_walk st b p s = Some r" for st b p s r
    using that
  proof (rule pb_walk.raw_induct [where P = "\<lambda>st b p s r. \<not> (st = data_step \<and> b = looping_plaintext \<and> p = 0)", rotated])
    fix walk st b p s r
    assume hyp: "\<And>st b p s r. walk st b p s = Some r \<Longrightarrow> \<not> (st = data_step \<and> b = looping_plaintext \<and> p = 0)"
      and eq: "(if p \<ge> length b then Some (s, True)
        else case pbVarint b p of None \<Rightarrow> Some (s, False)
        | Some (tagv, p1) \<Rightarrow> (case st b (pb_field tagv) (pb_wire tagv) p1 s of None \<Rightarrow> None
           | Some None \<Rightarrow> Some (s, False) | Some (Some (p2, s2)) \<Rightarrow> walk st b p2 s2)) = Some r"
    show "\<not> (st = data_step \<and> b = looping_plaintext \<and> p = 0)"
    proof
      assume a: "st = data_step \<and> b = looping_plaintext \<and> p = 0"
      have "length looping_plaintext = 11" by (simp add: looping_plaintext_def)
      then have "walk data_step looping_plaintext 0 (s\<lparr>dm_payload := Some (11, 2 ^ 32 - 11)\<rparr>) = Some r"
        using eq a by (simp add: looping_varints looping_step del: One_nat_def)
      from hyp [OF this] show False by simp
    qed
  qed
  show ?thesis
  proof (cases "pb_walk data_step looping_plaintext 0 s")
    case (Some r)
    from no [OF this] show ?thesis by simp
  qed
qed

lemma data_walk_never_returns: "data_walk looping_plaintext = None"
  unfolding data_walk_def by (rule looping_walk)

lemma overread_walk:
  "data_walk overread_plaintext = Some (\<lparr>dm_portnum = 1, dm_payload = Some (13, 2 ^ 32 - 1)\<rparr>, False)"
proof -
  let ?b = overread_plaintext
  have len: "length ?b = 13" by (simp add: overread_plaintext_def)
  have v: "pbVarint ?b 0 = Some (8, 1)" "pbVarint ?b 1 = Some (1, 2)" "pbVarint ?b 2 = Some (0x12, 3)"
    "pbVarint ?b 3 = Some (18446744073709551615, 13)" "pbVarint ?b 12 = Some (1, 13)" by code_simp+
  have t: "pb_field 8 = 1" "pb_wire 8 = 0" "pb_field 0x12 = 2" "pb_wire 0x12 = 2" "pb_field 1 = 0" "pb_wire 1 = 1"
    by code_simp+
  have e: "len_overruns 13 18446744073709551615 13 = False" "advance 13 18446744073709551615 = 12"
    "unat (ucast (18446744073709551615 :: u64) :: u32) = 2 ^ 32 - 1"
    by (simp_all add: len_overruns_def advance_def)
  have "data_step ?b 1 0 1 data_init = Some (Some (2, data_init\<lparr>dm_portnum := 1\<rparr>))"
    by (simp add: data_step_def v del: One_nat_def)
  moreover have "data_step ?b 2 2 3 s = Some (Some (12, s\<lparr>dm_payload := Some (13, 2 ^ 32 - 1)\<rparr>))" for s
    by (simp add: data_step_def v len e)
  moreover have "data_step ?b 0 1 13 s = Some None" for s
    by (simp add: data_step_def pbSkip_def len)
  ultimately show ?thesis
    unfolding data_walk_def
    by (subst pb_walk.simps, simp add: len v t del: One_nat_def, subst pb_walk.simps,
        simp add: len v t del: One_nat_def, subst pb_walk.simps, simp add: len v t data_init_def)
qed

lemma extractor_overreads:
  assumes "mt_plaintext c ch buf = Some overread_plaintext" and "2 \<le> cap"
  shows "extractMeshtasticBody c buf ch cap = None"
  using assms by (simp add: extractMeshtasticBody_def mt_payload_def overread_walk dm_slice_def)
    (simp add: overread_plaintext_def)

end
