(* ===== verification/MeshEncoder.thy ===== *)
theory MeshEncoder
  imports DecoderSafety
begin

text \<open>
  The packet encoders (\<open>src/src/MeshEncoderDebug.h\<close>) and their round trips with the extractors
  of \<open>MeshDecoder\<close>. The random packet id of \<open>esp_random\<close> is the argument \<open>rnd\<close>; a body that
  contains a NUL does not occur, since the arguments are C strings.
\<close>

section \<open>The encoders\<close>

definition encodeMeshCoreGrpTxt :: "crypto \<Rightarrow> radio_channel \<Rightarrow> bytes \<Rightarrow> u32 \<Rightarrow> nat \<Rightarrow> bytes option" where
  "encodeMeshCoreGrpTxt c ch body ts outBufCap =
     (let bodyLen = length body; ptCore = 4 + 1 + bodyLen + 1; ptLen = (ptCore + 15) div 16 * 16; hdrBytes = 5 in
      if ptLen > 224 then None
      else if hdrBytes + ptLen > outBufCap then None
      else (let pt = le32 ts @ [0] @ body @ replicate (ptLen - 5 - bodyLen) 0;
                key = take 16 (ch_key ch);
                ct = ecb_blocks (aes_enc c key) pt; hmac = hmac_sha256 c key ct
            in Some ([push_bit 2 0x05 OR 0x01, 0, ch_channelHash ch, hmac ! 0, hmac ! 1] @ ct)))"

text \<open>The length varint both Meshtastic encoders write: one byte below 128, else two.\<close>

definition len_varint :: "nat \<Rightarrow> bytes" where
  "len_varint n = (if n < 128 then [word_of_nat n]
     else [word_of_nat (n AND 0x7F OR 0x80), word_of_nat (drop_bit 7 n)])"

definition mt_header :: "u32 \<Rightarrow> u32 \<Rightarrow> radio_channel \<Rightarrow> bytes" where
  "mt_header src pid ch = le32 0xFFFFFFFF @ le32 src @ le32 pid @ [0x63, ch_channelHash ch, 0, 0]"

definition mt_encrypt :: "crypto \<Rightarrow> radio_channel \<Rightarrow> u32 \<Rightarrow> u32 \<Rightarrow> bytes \<Rightarrow> bytes" where
  "mt_encrypt c ch pid src pb = aes_ctr c (take (ch_keyLen ch) (ch_key ch)) (mt_nonce pid src) pb"

text \<open>The packet and the packet id it carries.\<close>

definition encodeMeshtasticText :: "crypto \<Rightarrow> u32 \<Rightarrow> radio_channel \<Rightarrow> u32 \<Rightarrow> bytes \<Rightarrow> nat \<Rightarrow> (bytes \<times> u32) option" where
  "encodeMeshtasticText c rnd ch srcNodeId body outBufCap =
     (let bodyLen = length body in
      if bodyLen > 200 then None
      else (let pbLen = 2 + 1 + (if bodyLen < 128 then 1 else 2) + bodyLen in
        if 16 + pbLen > outBufCap then None
        else (let pb = [0x08, 0x01, 0x12] @ len_varint bodyLen @ body;
                  pid = (if rnd = 0 then 1 else rnd)
              in Some (mt_header srcNodeId pid ch @ mt_encrypt c ch pid srcNodeId pb, pid))))"

definition user_message :: "bytes \<Rightarrow> bytes \<Rightarrow> bytes \<Rightarrow> bytes" where
  "user_message nid longName shortName =
     [0x0A, word_of_nat (length nid)] @ nid @ [0x12, word_of_nat (length longName)] @ longName
       @ [0x1A, word_of_nat (length shortName)] @ shortName"

definition encodeMeshtasticNodeInfo ::
  "crypto \<Rightarrow> u32 \<Rightarrow> radio_channel \<Rightarrow> u32 \<Rightarrow> bytes \<Rightarrow> bytes \<Rightarrow> bytes \<Rightarrow> nat \<Rightarrow> bytes option" where
  "encodeMeshtasticNodeInfo c rnd ch srcNodeId nid longName shortName outBufCap =
     (if length nid \<ge> 128 \<or> length longName \<ge> 128 \<or> length shortName \<ge> 128 then None
      else (let userLen = (1 + 1 + length nid) + (1 + 1 + length longName) + (1 + 1 + length shortName);
                dataLen = 2 + 1 + (if userLen < 128 then 1 else 2) + userLen in
        if 16 + dataLen > outBufCap then None
        else (let pb = [0x08, 0x04, 0x12] @ len_varint userLen @ user_message nid longName shortName;
                  pid = (if rnd = 0 then 1 else rnd)
              in Some (mt_header srcNodeId pid ch @ mt_encrypt c ch pid srcNodeId pb))))"

definition encodeReticulum :: "bytes \<Rightarrow> bytes option" where
  "encodeReticulum body = None"

section \<open>Walking an encoded message\<close>

lemma length_len_varint: "length (len_varint n) = (if n < 128 then 1 else 2)"
  by (simp add: len_varint_def)

lemma small_of_nat: "n < 128 \<Longrightarrow> (word_of_nat n :: u8) < 0x80"
  by (simp add: word_less_nat_alt unat_of_nat)

lemma pbVarint_len:
  assumes "n < 256" and "p = length pre"
  shows "pbVarint (pre @ len_varint n @ post) p = Some (of_nat n, p + length (len_varint n))"
proof (cases "n < 128")
  case True
  then have "(ucast (word_of_nat n :: u8) :: u64) = of_nat n"
    by (simp add: unsigned_of_nat take_bit_nat_eq_self)
  with True show ?thesis
    using pbVarint_one [of p "pre @ len_varint n @ post"] small_of_nat [OF True] assms(2)
    by (simp add: len_varint_def)
next
  case False
  then have "128 \<le> n" by simp
  note two = varint_two_bytes [OF this assms(1)]
  have lv: "len_varint n = [word_of_nat (n AND 0x7F OR 0x80), word_of_nat (drop_bit 7 n)]"
    using False by (simp add: len_varint_def)
  show ?thesis unfolding lv
    using pbVarint_two [of p "pre @ [word_of_nat (n AND 0x7F OR 0x80), word_of_nat (drop_bit 7 n)] @ post"]
      two assms(2) by (simp add: nth_append del: of_nat_and_eq of_nat_or_eq)
qed

lemma pbVarint_tag:
  "b < 0x80 \<Longrightarrow> p = length pre \<Longrightarrow> pbVarint (pre @ b # post) p = Some (ucast b, p + 1)"
  using pbVarint_one [of p "pre @ b # post"] by simp

lemma len_inside: "p + n \<le> m \<Longrightarrow> m < 2 ^ 31 \<Longrightarrow> \<not> len_overruns p (of_nat n) m"
  by (simp add: len_overruns_def not_less word_le_nat_alt unat_of_nat of_nat_add [symmetric] del: of_nat_add)

lemma advance_of_nat: "p + n < 2 ^ 32 \<Longrightarrow> advance p (of_nat n) = p + n"
proof -
  assume a: "p + n < 2 ^ 32"
  have "(ucast (of_nat n :: u64) :: u32) = of_nat n"
    by (rule bit_word_eqI) (simp add: bit_simps)
  then show ?thesis using a
    by (simp add: advance_def unat_of_nat of_nat_add [symmetric] del: of_nat_add)
qed

lemma data_walk_message:
  assumes "pn < 0x80" and "length pl < 256"
  shows "data_walk ([0x08, pn, 0x12] @ len_varint (length pl) @ pl) =
    Some (\<lparr>dm_portnum = ucast pn, dm_payload = Some (3 + length (len_varint (length pl)), length pl)\<rparr>, True)"
proof -
  let ?n = "length pl" and ?lv = "len_varint (length pl)"
  define b where "b = [0x08, pn, 0x12] @ ?lv @ pl"
  have lb: "length b = 3 + length ?lv + ?n" "length ?lv \<le> 2" by (auto simp: b_def length_len_varint)
  have lt: "length b < 2 ^ 31" using lb assms(2) by simp
  have t12: "(0x12 :: u8) < 0x80" by simp
  have v: "pbVarint b 0 = Some (8, 1)" "pbVarint b 1 = Some (ucast pn, 2)" "pbVarint b 2 = Some (0x12, 3)"
    using pbVarint_tag [of "0x08" 0 "[]"] pbVarint_tag [OF assms(1), of 1 "[0x08]"]
      pbVarint_tag [OF t12, of 2 "[0x08, pn]"] by (simp_all add: b_def)
  have vl: "pbVarint b 3 = Some (of_nat ?n, 3 + length ?lv)"
    using pbVarint_len [OF assms(2), of 3 "[0x08, pn, 0x12]" pl] by (simp add: b_def)
  have t: "pb_field 8 = 1" "pb_wire 8 = 0" "pb_field 0x12 = 2" "pb_wire 0x12 = 2"
    by code_simp+
  have pn: "(ucast (ucast pn :: u64) :: u32) = ucast pn"
    by (rule bit_word_eqI) (auto simp: bit_simps)
  have no: "\<not> len_overruns (3 + length ?lv) (of_nat ?n) (length b)"
    using lt by (intro len_inside) (auto simp: lb(1))
  have adv: "advance (3 + length ?lv) (of_nat ?n) = length b"
    using lb lt by (subst advance_of_nat) auto
  have n32: "unat (ucast (of_nat ?n :: u64) :: u32) = ?n"
    using assms(2) by (simp add: unsigned_ucast_eq unsigned_of_nat take_bit_nat_eq_self)
  have s1: "data_step b 1 0 1 s = Some (Some (2, s\<lparr>dm_portnum := ucast pn\<rparr>))" for s
    by (simp add: data_step_def v pn del: One_nat_def)
  have s2: "data_step b 2 2 3 s = Some (Some (length b, s\<lparr>dm_payload := Some (3 + length ?lv, ?n)\<rparr>))" for s
    by (simp add: data_step_def vl no adv n32)
  have "2 < length b" "b \<noteq> []" using lb by (auto simp: length_len_varint b_def)
  then have "pb_walk data_step b 0 s =
      Some (s\<lparr>dm_portnum := ucast pn, dm_payload := Some (3 + length ?lv, ?n)\<rparr>, True)" for s
    by (subst pb_walk.simps, simp add: v t s1 del: One_nat_def, subst pb_walk.simps,
        simp add: v t s2 del: One_nat_def, subst pb_walk.simps, simp)
  then show ?thesis by (simp add: data_walk_def data_init_def b_def)
qed

lemma dm_slice_message:
  assumes "pl \<noteq> []"
  shows "dm_slice ([0x08, pn, 0x12] @ len_varint (length pl) @ pl)
     \<lparr>dm_portnum = want, dm_payload = Some (3 + length (len_varint (length pl)), length pl)\<rparr> want = Some (Some pl)"
  using assms by (simp add: dm_slice_def numeral_3_eq_3)

lemma mt_header_fields:
  "length (mt_header src pid ch) = 16" "get32 (mt_header src pid ch @ rest) 4 = src"
  "get32 (mt_header src pid ch @ rest) 8 = pid" "(mt_header src pid ch @ rest) ! 13 = ch_channelHash ch"
  by (simp_all add: mt_header_def le32_def get32_def join32)

lemma mt_plaintext_encrypted:
  assumes "crypto_laws c" and "pb \<noteq> []" and "length pb \<le> 240"
  shows "mt_plaintext c ch (mt_header src pid ch @ mt_encrypt c ch pid src pb) = Some pb"
  using assms(2,3) crypto_lawsD(3,4) [OF assms(1)]
  by (simp add: mt_plaintext_def mt_header_fields mt_encrypt_def Let_def)

lemma mt_payload_message:
  assumes "crypto_laws c" and "pl \<noteq> []" and "length pl \<le> 235" and "pn < 0x80"
  shows "mt_payload c ch (mt_header src pid ch @
      mt_encrypt c ch pid src ([0x08, pn, 0x12] @ len_varint (length pl) @ pl)) (ucast pn) = Some (Some pl)"
proof -
  have "length ([0x08, pn, 0x12] @ len_varint (length pl) @ pl) \<le> 240"
    using assms(3) by (simp add: length_len_varint)
  from mt_plaintext_encrypted [OF assms(1) _ this, of ch src pid]
  have "mt_plaintext c ch (mt_header src pid ch @ mt_encrypt c ch pid src ([0x08, pn, 0x12] @ len_varint (length pl) @ pl))
      = Some ([0x08, pn, 0x12] @ len_varint (length pl) @ pl)" by simp
  then show ?thesis
    unfolding mt_payload_def
    using data_walk_message [OF assms(4), of pl] dm_slice_message [OF assms(2), of pn "ucast pn"] assms(3)
    by simp
qed

lemma encodeMeshtasticText_Some:
  assumes "encodeMeshtasticText c rnd ch src body cap = Some (pkt, pid)"
  shows "length body \<le> 200 \<and> pid = (if rnd = 0 then 1 else rnd) \<and>
    pkt = mt_header src pid ch @ mt_encrypt c ch pid src ([0x08, 1, 0x12] @ len_varint (length body) @ body)"
  using assms by (auto simp: encodeMeshtasticText_def Let_def split: if_splits)

lemma mt_text_decodes:
  assumes "crypto_laws c" and "body \<noteq> []" and "cstr_ok body" and "2 \<le> cap"
    and "encodeMeshtasticText c rnd ch src body outCap = Some (pkt, pid)"
  shows "extractMeshtasticBody c pkt ch cap = Some (Some (take (cap - 1) body)) \<and>
    length pkt \<le> outCap \<and> length pkt \<le> 221 \<and> pid \<noteq> 0"
proof -
  note e = encodeMeshtasticText_Some [OF assms(5)]
  have one: "(ucast (1 :: u8) :: u32) = 1" by simp
  have "mt_payload c ch pkt 1 = Some (Some body)"
    using mt_payload_message [OF assms(1,2), of 1 ch src pid] e one by simp
  moreover have "cstr_of (take n body) = take n body" for n
    using assms(3) by (intro cstr_of_id cstr_ok_take)
  moreover have "take (min (length body) (cap - 1)) body = take (cap - 1) body" by (simp add: min_def)
  ultimately have "extractMeshtasticBody c pkt ch cap = Some (Some (take (cap - 1) body))"
    using assms(4) by (simp add: extractMeshtasticBody_def)
  moreover have "length pkt = 19 + length (len_varint (length body)) + length body"
    using e by (simp add: mt_header_fields mt_encrypt_def crypto_lawsD(3) [OF assms(1)])
  moreover have "19 + length (len_varint (length body)) + length body \<le> outCap"
    using assms(5) by (auto simp: encodeMeshtasticText_def Let_def length_len_varint split: if_splits)
  ultimately show ?thesis using e by (auto simp: length_len_varint)
qed

text \<open>
  Meshtastic text round trip. Every non-empty text the encoder accepts is decoded on the same
  channel as exactly that text (cut to the receiver's buffer), the packet fits the air limit
  and its id is never 0.
\<close>

theorem meshtastic_text_roundtrip:
  assumes "crypto_laws c" and "body \<noteq> []" and "cstr_ok body" and "2 \<le> cap"
    and "encodeMeshtasticText c rnd ch src body outCap = Some (pkt, pid)"
  shows "extractMeshtasticBody c pkt ch cap = Some (Some (take (cap - 1) body)) \<and>
    length pkt \<le> outCap \<and> length pkt \<le> 221 \<and> pid \<noteq> 0"
  using assms by (rule mt_text_decodes)

lemma meshtastic_text_witness:
  "\<exists>pkt pid. encodeMeshtasticText toy_crypto 0 sample_channel 77 [72, 105] 256 = Some (pkt, pid) \<and>
    extractMeshtasticBody toy_crypto pkt sample_channel 64 = Some (Some [72, 105])"
proof -
  obtain pkt pid where e: "encodeMeshtasticText toy_crypto 0 sample_channel 77 [72, 105] 256 = Some (pkt, pid)"
    by (simp add: encodeMeshtasticText_def Let_def)
  from meshtastic_text_roundtrip [OF toy_crypto_laws _ _ _ e, of 64] e show ?thesis by simp
qed

text \<open>
  Extracted names and bodies are terminated strings that fit the caller's buffers.
\<close>

theorem extracted_strings_fit:
  assumes "2 \<le> cap" and "extractMeshtasticBody c buf ch cap = Some (Some body) \<or>
      (\<exists>ts. extractMeshCoreBody c buf ch cap = Some (body, ts))"
  shows "cstr_ok body \<and> length body < cap"
proof -
  have "cstr_ok (take n (takeWhile (\<lambda>b. b \<noteq> 0) xs))" for n xs
    using cstr_of_ok [of xs] by (simp add: cstr_of_def cstr_ok_take)
  moreover have "length (cstr_of (take (min n (cap - 1)) xs)) < cap" for n xs
  proof -
    have "length (cstr_of (take (min n (cap - 1)) xs)) \<le> length (take (min n (cap - 1)) xs)"
      unfolding cstr_of_def by (rule length_takeWhile_le)
    also have "\<dots> < cap" using assms(1) by simp
    finally show ?thesis .
  qed
  ultimately show ?thesis using assms
    by (auto simp: extractMeshtasticBody_def extractMeshCoreBody_def cstr_of_ok Let_def split: option.splits if_splits)
qed


lemma extracted_strings_fit_witness:
  "cstr_ok [72, 105] \<and> length [72 :: u8, 105] < 64"
proof -
  have "mt_payload toy_crypto sample_channel sample_mt_packet 1 = Some (Some [72, 105])"
    using data_walk_message [of 1 "[72, 105]"] dm_slice_message [of "[72, 105]" 1 1]
    by (simp add: mt_payload_def sample_mt_plain len_varint_def)
  then have "extractMeshtasticBody toy_crypto sample_mt_packet sample_channel 64 = Some (Some [72, 105])"
    by (simp add: extractMeshtasticBody_def cstr_of_def)
  with extracted_strings_fit [of 64 toy_crypto sample_mt_packet sample_channel "[72, 105]"] show ?thesis by simp
qed

section \<open>MeshCore round trip\<close>

lemma nth_concat_blocks:
  assumes "\<And>b. length (f b) = 16" and "i < length xs div 16"
  shows "take 16 (drop (i * 16) (ecb_blocks f xs)) = f (take 16 (drop (i * 16) xs))"
proof -
  have "take 16 (drop (i * 16) (concat (map g [0..<n]))) = g i"
    if "\<And>j. length (g j) = 16" "i < n" for g :: "nat \<Rightarrow> bytes" and n
    using that(2)
  proof (induction n)
    case (Suc n)
    have len: "length (concat (map g [0..<n])) = n * 16"
      by (induction n) (auto simp: that(1))
    show ?case
    proof (cases "i < n")
      case True
      then have "i * 16 + 16 \<le> length (concat (map g [0..<n]))" by (simp add: len)
      then show ?thesis using Suc.IH [OF True] by (simp add: len)
    next
      case False
      with Suc.prems have "i = n" by simp
      then show ?thesis by (simp add: len that(1))
    qed
  qed simp
  then show ?thesis using assms by (simp add: ecb_blocks_def)
qed

lemma length_ecb_blocks: "(\<And>b. length (f b) = 16) \<Longrightarrow> length (ecb_blocks f xs) = length xs div 16 * 16"
proof -
  assume f: "\<And>b. length (f b) = 16"
  have "length (concat (map (\<lambda>i. f (g i)) [0..<n])) = n * 16" for g n
    by (induction n) (auto simp: f)
  then show ?thesis by (simp add: ecb_blocks_def)
qed

lemma concat_chunks: "length xs = n * 16 \<Longrightarrow> concat (map (\<lambda>i. take 16 (drop (i * 16) xs)) [0..<n]) = xs"
proof (induction n arbitrary: xs)
  case (Suc n)
  let ?ys = "take (n * 16) xs"
  have "concat (map (\<lambda>i. take 16 (drop (i * 16) xs)) [0..<n]) = concat (map (\<lambda>i. take 16 (drop (i * 16) ?ys)) [0..<n])"
    by (intro arg_cong [where f = concat] map_cong refl) (auto simp: drop_take min_def)
  also have "\<dots> = ?ys" by (rule Suc.IH) (use Suc.prems in simp)
  finally show ?case using Suc.prems by simp
qed simp

lemma ecb_roundtrip:
  assumes "crypto_laws c" and "length pt mod 16 = 0"
  shows "ecb_blocks (aes_dec c k) (ecb_blocks (aes_enc c k) pt) = pt"
proof -
  have e: "\<And>b. length (aes_enc c k b) = 16" using crypto_lawsD(1) [OF assms(1)] by (simp add: aes_block_def)
  have len: "length pt = (length pt div 16) * 16" using assms(2) by (metis add.right_neutral div_mult_mod_eq)
  have n: "length (ecb_blocks (aes_enc c k) pt) div 16 = length pt div 16"
    by (simp add: length_ecb_blocks [of "aes_enc c k", OF e])
  have "aes_dec c k (take 16 (drop (i * 16) (ecb_blocks (aes_enc c k) pt))) = take 16 (drop (i * 16) pt)"
    if "i < length pt div 16" for i
  proof -
    have "length (take 16 (drop (i * 16) pt)) = 16" using that len by simp
    then show ?thesis using nth_concat_blocks [of "aes_enc c k", OF e that] crypto_lawsD(2) [OF assms(1)] by simp
  qed
  then have "ecb_blocks (aes_dec c k) (ecb_blocks (aes_enc c k) pt)
      = concat (map (\<lambda>i. take 16 (drop (i * 16) pt)) [0..<length pt div 16])"
    unfolding ecb_blocks_def [of "aes_dec c k"] n by (intro arg_cong [where f = concat] map_cong) auto
  also have "\<dots> = pt" by (rule concat_chunks [OF len])
  finally show ?thesis .
qed

lemma mc_payload_off_encoded:
  assumes "4 \<le> length rest"
  shows "mc_payload_off (0x15 # 0 # h # rest) = Some 2"
proof -
  have "drop_bit 6 (0x15 :: u8) AND 3 = 0" "drop_bit 2 (0x15 :: u8) AND 0x0F = 5" "(0x15 :: u8) AND 3 = 1"
    by code_simp+
  then show ?thesis using assms by (simp add: mc_payload_off_def Let_def)
qed

lemma mc_text_decodes:
  assumes "crypto_laws c" and "body \<noteq> []" and "cstr_ok body" and "2 \<le> cap"
  shows "case encodeMeshCoreGrpTxt c ch body ts outCap of
      None \<Rightarrow> 218 < length body \<or> outCap < 5 + (length body + 21) div 16 * 16
    | Some pkt \<Rightarrow> length pkt \<le> outCap \<and> extractMeshCoreBody c pkt ch cap = Some (take (cap - 1) body, ts)"
proof (cases "encodeMeshCoreGrpTxt c ch body ts outCap")
  case None
  then show ?thesis by (auto simp: encodeMeshCoreGrpTxt_def Let_def add.commute split: if_splits)
next
  case (Some pkt)
  define n where "n = (length body + 21) div 16 * 16"
  define pt where "pt = le32 ts @ [0] @ body @ replicate (n - 5 - length body) 0"
  let ?k = "take 16 (ch_key ch)"
  define ct where "ct = ecb_blocks (aes_enc c ?k) pt"
  let ?h = "hmac_sha256 c ?k ct"
  have bound: "n \<le> 224" "5 + n \<le> outCap"
    and pkt: "pkt = [0x15, 0, ch_channelHash ch, ?h ! 0, ?h ! 1] @ ct"
    using Some by (auto simp: encodeMeshCoreGrpTxt_def Let_def n_def pt_def ct_def add.commute split: if_splits)
  have n: "length body + 6 \<le> n" unfolding n_def by presburger
  have lp: "length pt = n" using n by (simp add: pt_def)
  have n16: "n mod 16 = 0" "n div 16 * 16 = n" by (simp_all add: n_def)
  have e: "\<And>b. length (aes_enc c ?k b) = 16" using crypto_lawsD(1) [OF assms(1)] by (simp add: aes_block_def)
  have lct: "length ct = n"
    using n16 by (simp add: ct_def length_ecb_blocks [of "aes_enc c ?k", OF e] lp)
  have dec: "ecb_blocks (aes_dec c ?k) ct = pt"
    unfolding ct_def by (rule ecb_roundtrip [OF assms(1)]) (simp add: lp n16)
  have ts: "get32 pt 0 = ts" by (simp add: pt_def get32_def le32_def join32)
  obtain z where z: "n - 5 - length body = Suc z" using n by (cases "n - 5 - length body") auto
  have "takeWhile (\<lambda>b. b \<noteq> 0) (drop 5 pt) = body"
    using cstr_of_terminated [OF assms(3), of "replicate z 0"]
    unfolding pt_def z by (simp add: cstr_of_def le32_def)
  moreover have "ct \<noteq> []" using lct n by auto
  moreover have "mc_payload_off pkt = Some 2"
    unfolding pkt using mc_payload_off_encoded n lct by simp
  ultimately have "extractMeshCoreBody c pkt ch cap = Some (take (min (length body) (cap - 1)) body, ts)"
    using assms(2,4) n16 n bound by (simp add: extractMeshCoreBody_def Let_def pkt dec ts lct)
  then show ?thesis using Some bound by (simp add: min_def pkt lct)
qed

text \<open>
  MeshCore text round trip: every non-empty text the encoder accepts is decoded on the same
  channel as exactly that text, cut to the receiver's buffer, with the timestamp it was
  stamped with; and the encoder accepts exactly the texts of at most 218 bytes that fit the
  caller's buffer after padding.
\<close>

theorem meshcore_text_roundtrip:
  assumes "crypto_laws c" and "body \<noteq> []" and "cstr_ok body" and "2 \<le> cap"
  shows "case encodeMeshCoreGrpTxt c ch body ts outCap of
      None \<Rightarrow> 218 < length body \<or> outCap < 5 + (length body + 21) div 16 * 16
    | Some pkt \<Rightarrow> length pkt \<le> outCap \<and> extractMeshCoreBody c pkt ch cap = Some (take (cap - 1) body, ts)"
  using assms by (rule mc_text_decodes)

lemma meshcore_text_witness:
  "\<exists>pkt. encodeMeshCoreGrpTxt toy_crypto sample_channel [72, 105] 5 256 = Some pkt \<and>
    extractMeshCoreBody toy_crypto pkt sample_channel 64 = Some ([72, 105], 5)"
  using meshcore_text_roundtrip [OF toy_crypto_laws, where body = "[72, 105]" and cap = 64 and ch = sample_channel
      and ts = 5 and outCap = 256]
  by (simp split: option.splits)

end
