(* ===== verification/EncoderRoundTrips.thy ===== *)
theory EncoderRoundTrips
  imports MeshEncoder
begin

text \<open>
  The round trips of the NodeInfo encoder of \<open>src/src/MeshEncoderDebug.h\<close> and of the LoRaWAN
  uplink encoder with the parsers of \<open>src/src/MeshDecoderDebug.h\<close>.
\<close>

section \<open>NodeInfo round trip\<close>

lemma user_field:
  assumes "tag < 0x80" and "pb_wire (ucast tag) = 2" and "length x < 128"
    and "b = pre @ tag # word_of_nat (length x) # x @ post" and "length b < 2 ^ 31" and "length pre = p"
    and "sc < 2 ^ 32" and "lc < 2 ^ 32"
  shows "pb_walk (user_step sc lc) b p s = pb_walk (user_step sc lc) b (p + 2 + length x)
    (if pb_field (ucast tag) = 2 \<and> 1 < lc then s\<lparr>ui_long := take (lc - 1) x\<rparr>
     else if pb_field (ucast tag) = 3 \<and> 1 < sc then s\<lparr>ui_short := take (sc - 1) x\<rparr> else s)"
    (is "_ = pb_walk _ b _ ?s")
proof -
  let ?n = "length x"
  have v1: "pbVarint b p = Some (ucast tag, p + 1)"
    using pbVarint_tag [OF assms(1), of p pre] assms(4,6) by simp
  have v2: "pbVarint b (p + 1) = Some (of_nat ?n, p + 2)"
    using pbVarint_len [of ?n "p + 1" "pre @ [tag]" "x @ post"] assms(3,4,6) by (simp add: len_varint_def)
  have lb: "p + 2 + ?n \<le> length b" using assms(4,6) by simp
  have no: "\<not> len_overruns (p + 2) (of_nat ?n) (length b)" using lb assms(5) by (intro len_inside) auto
  have adv: "advance (p + 2) (of_nat ?n) = p + 2 + ?n" using lb assms(5) by (intro advance_of_nat) auto
  have n64: "unat (of_nat ?n :: u64) = ?n" using assms(3) by (simp add: unat_of_nat)
  have cut: "(if (of_nat ?n :: u64) < of_nat (cap - 1) then ?n else cap - 1) = min ?n (cap - 1)" if "cap < 2 ^ 32" for cap
  proof -
    have "unat (of_nat (cap - 1) :: u64) = cap - 1" using that by (simp add: unat_of_nat)
    then show ?thesis by (simp add: word_less_nat_alt n64 min_def)
  qed
  have slice: "take (min ?n k) (drop (p + 2) b) = take k x" for k
    using assms(4,6) by (simp add: min_def)
  have inside: "p + 2 + min ?n k \<le> length b" for k using lb by simp
  have "user_step sc lc b (pb_field (ucast tag)) 2 (p + 1) s = Some (Some (p + 2 + ?n, ?s))"
    by (simp only: user_step_def v2 option.case prod.case no n64 cut [OF assms(7)] cut [OF assms(8)] Let_def adv)
      (use inside slice in \<open>simp add: not_less [symmetric]\<close>)
  then show ?thesis
    using lb assms(2) by (subst pb_walk.simps) (simp add: v1)
qed

lemma user_walk:
  assumes "length nid < 128" and "length lng < 128" and "length sht < 128"
    and "1 < sc" and "1 < lc" and "sc < 2 ^ 32" and "lc < 2 ^ 32"
  shows "pb_walk (user_step sc lc) (user_message nid lng sht) 0 u =
    Some (u\<lparr>ui_long := take (lc - 1) lng, ui_short := take (sc - 1) sht\<rparr>, True)"
proof -
  let ?b = "user_message nid lng sht"
  have lb: "length ?b = 6 + length nid + length lng + length sht" by (simp add: user_message_def)
  then have l31: "length ?b < 2 ^ 31" using assms by simp
  have f: "pb_field (ucast (0x0A :: u8)) = 1" "pb_field (ucast (0x12 :: u8)) = 2" "pb_field (ucast (0x1A :: u8)) = 3"
    "pb_wire (ucast (0x0A :: u8)) = 2" "pb_wire (ucast (0x12 :: u8)) = 2" "pb_wire (ucast (0x1A :: u8)) = 2"
    by code_simp+
  have t: "(0x0A :: u8) < 0x80" "(0x12 :: u8) < 0x80" "(0x1A :: u8) < 0x80" by simp_all
  let ?p1 = "2 + length nid" and ?p2 = "4 + length nid + length lng"
  let ?st = "user_step sc lc"
  have w1: "pb_walk ?st ?b 0 u = pb_walk ?st ?b (0 + 2 + length nid)
      (if pb_field (ucast (0x0A :: u8)) = 2 \<and> 1 < lc then u\<lparr>ui_long := take (lc - 1) nid\<rparr>
       else if pb_field (ucast (0x0A :: u8)) = 3 \<and> 1 < sc then u\<lparr>ui_short := take (sc - 1) nid\<rparr> else u)"
    by (rule user_field [where pre = "[]" and post = "[0x12, word_of_nat (length lng)] @ lng
       @ [0x1A, word_of_nat (length sht)] @ sht", OF t(1) f(4) assms(1) _ l31 _ assms(6,7)])
      (simp_all add: user_message_def)
  have w2: "pb_walk ?st ?b ?p1 u = pb_walk ?st ?b (?p1 + 2 + length lng)
      (if pb_field (ucast (0x12 :: u8)) = 2 \<and> 1 < lc then u\<lparr>ui_long := take (lc - 1) lng\<rparr>
       else if pb_field (ucast (0x12 :: u8)) = 3 \<and> 1 < sc then u\<lparr>ui_short := take (sc - 1) lng\<rparr> else u)"
    by (rule user_field [where pre = "[0x0A, word_of_nat (length nid)] @ nid"
        and post = "[0x1A, word_of_nat (length sht)] @ sht", OF t(2) f(5) assms(2) _ l31 _ assms(6,7)])
      (simp_all add: user_message_def)
  have w3: "pb_walk ?st ?b ?p2 v = pb_walk ?st ?b (?p2 + 2 + length sht)
      (if pb_field (ucast (0x1A :: u8)) = 2 \<and> 1 < lc then v\<lparr>ui_long := take (lc - 1) sht\<rparr>
       else if pb_field (ucast (0x1A :: u8)) = 3 \<and> 1 < sc then v\<lparr>ui_short := take (sc - 1) sht\<rparr> else v)" for v
    by (rule user_field [where pre = "[0x0A, word_of_nat (length nid)] @ nid @ [0x12, word_of_nat (length lng)] @ lng"
        and post = "[]", OF t(3) f(6) assms(3) _ l31 _ assms(6,7)])
      (simp_all add: user_message_def)
  have p: "0 + 2 + length nid = ?p1" "?p1 + 2 + length lng = ?p2" by simp_all
  have ne: "(1 :: u32) \<noteq> 2" "(1 :: u32) \<noteq> 3" "(3 :: u32) \<noteq> 2" by simp_all
  have "pb_walk ?st ?b 0 u = pb_walk ?st ?b ?p1 u"
    using w1 by (simp only: p f ne simp_thms if_False)
  also have "\<dots> = pb_walk ?st ?b ?p2 (u\<lparr>ui_long := take (lc - 1) lng\<rparr>)"
    using w2 assms(5) by (simp only: p f ne simp_thms if_True)
  also have "\<dots> = pb_walk ?st ?b (?p2 + 2 + length sht)
      (u\<lparr>ui_long := take (lc - 1) lng, ui_short := take (sc - 1) sht\<rparr>)"
    using w3 [of "u\<lparr>ui_long := take (lc - 1) lng\<rparr>"] assms(4)
    by (simp only: f ne simp_thms if_True if_False)
  also have "\<dots> = Some (u\<lparr>ui_long := take (lc - 1) lng, ui_short := take (sc - 1) sht\<rparr>, True)"
    using lb by (subst pb_walk.simps) simp
  finally show ?thesis .
qed

lemma nodeinfo_decodes:
  assumes "crypto_laws c" and "encodeMeshtasticNodeInfo c rnd ch src nid lng sht outCap = Some pkt"
    and "outCap \<le> 256" and "cstr_ok lng" and "cstr_ok sht"
    and "1 < sc" and "1 < lc" and "sc < 2 ^ 32" and "lc < 2 ^ 32"
  shows "length pkt \<le> outCap \<and>
    extractMeshtasticNodeInfo c pkt ch sc lc = Some (Some (src, take (sc - 1) sht, take (lc - 1) lng))"
proof -
  let ?u = "user_message nid lng sht" and ?pid = "if rnd = 0 then 1 else rnd"
  have lu: "length ?u = 6 + length nid + length lng + length sht" by (simp add: user_message_def)
  have ul: "(1 + 1 + length nid) + (1 + 1 + length lng) + (1 + 1 + length sht) = length ?u"
    by (simp add: lu)
  have pkt: "pkt = mt_header src ?pid ch @ mt_encrypt c ch ?pid src ([0x08, 4, 0x12] @ len_varint (length ?u) @ ?u)"
    and lens: "length nid < 128" "length lng < 128" "length sht < 128"
    and fit: "16 + (2 + 1 + (if length ?u < 128 then 1 else 2) + length ?u) \<le> outCap"
    using assms(2) [unfolded encodeMeshtasticNodeInfo_def Let_def ul] by (auto simp del: One_nat_def split: if_splits)
  have "length ?u \<le> 235" using fit assms(3) by (auto split: if_splits)
  moreover have "?u \<noteq> []" by (simp add: user_message_def)
  moreover have "(4 :: u8) < 0x80" "(ucast (4 :: u8) :: u32) = 4" by simp_all
  ultimately have pl: "mt_payload c ch pkt 4 = Some (Some ?u)"
    unfolding pkt using mt_payload_message [OF assms(1), of ?u 4 ch src ?pid] by simp
  have src: "get32 pkt 4 = src" unfolding pkt by (rule mt_header_fields)
  have names: "cstr_of (take k lng) = take k lng" "cstr_of (take k sht) = take k sht" for k
    using assms(4,5) by (auto intro: cstr_of_id cstr_ok_take)
  have "extractMeshtasticNodeInfo c pkt ch sc lc = Some (Some (src, take (sc - 1) sht, take (lc - 1) lng))"
    using user_walk [OF lens assms(6-9)] by (simp add: extractMeshtasticNodeInfo_def pl src names)
  moreover have "length pkt = 19 + length (len_varint (length ?u)) + length ?u"
    unfolding pkt by (simp add: mt_header_fields mt_encrypt_def crypto_lawsD(3) [OF assms(1)])
  ultimately show ?thesis using fit by (simp add: length_len_varint)
qed

text \<open>
  NodeInfo round trip: the advertisement the bridge sends for itself or for a virtual node is
  decoded by a Meshtastic receiver of this code as exactly the node id and the two names it
  was given, cut to the receiver's buffers.
\<close>

theorem nodeinfo_roundtrip:
  assumes "crypto_laws c" and "encodeMeshtasticNodeInfo c rnd ch src nid lng sht outCap = Some pkt"
    and "outCap \<le> 256" and "cstr_ok lng" and "cstr_ok sht"
    and "1 < sc" and "1 < lc" and "sc < 2 ^ 32" and "lc < 2 ^ 32"
  shows "length pkt \<le> outCap \<and>
    extractMeshtasticNodeInfo c pkt ch sc lc = Some (Some (src, take (sc - 1) sht, take (lc - 1) lng))"
  using assms by (rule nodeinfo_decodes)

lemma nodeinfo_roundtrip_witness:
  "\<exists>pkt. encodeMeshtasticNodeInfo toy_crypto 9 sample_channel 77 [33] [72, 105] [72] 256 = Some pkt \<and>
    extractMeshtasticNodeInfo toy_crypto pkt sample_channel 9 41 = Some (Some (77, [72], [72, 105]))"
proof -
  obtain pkt where e: "encodeMeshtasticNodeInfo toy_crypto 9 sample_channel 77 [33] [72, 105] [72] 256 = Some pkt"
    by (simp add: encodeMeshtasticNodeInfo_def Let_def)
  from nodeinfo_roundtrip [OF toy_crypto_laws e, of 9 41] e show ?thesis by simp
qed

section \<open>LoRaWAN: the tap reads what the uplink encoder wrote\<close>

text \<open>
  The keyless LoRaWAN header parser of the capture tap reads from every uplink of the ABP
  encoder the device address, the low half of the frame counter, the port and the payload
  length it was built with, and classifies it as a data frame.
\<close>

theorem lorawan_tap_reads_uplink:
  assumes "aes_block aes" and "encodeUplink aes d nwk app f p pl confirmed cap = Some fr"
  shows "case extractLoRaWANMeta fr of (m, ok) \<Rightarrow> ok \<and> lm_isData m \<and> lm_mtype m = (if confirmed then 4 else 2)
    \<and> lm_devAddr m = d \<and> lm_fcnt m = ucast f \<and> lm_hasFport m \<and> lm_fport m = p
    \<and> lm_frmPayloadLen m = of_nat (length pl)"
proof -
  let ?ct = "cryptFrmPayload aes (if p = 0 then nwk else app) d f pl"
  obtain mic where fr: "fr = lw_header d f p confirmed @ ?ct @ mic" and mic: "length mic = 4"
    using encodeUplink_frame [OF assms(2)] length_aesCmac [OF assms(1)] by fastforce
  have len: "length fr = 13 + length pl" using mic by (simp add: fr length_crypt [OF assms(1)])
  have hd: "fr ! 0 = (if confirmed then 0x80 else 0x40)" "get32 fr 1 = d" "fr ! 5 = 0" "get16 fr 6 = ucast f" "fr ! 8 = p"
    unfolding fr by (rule lw_header_fields)+
  have mt: "drop_bit 5 (0x80 :: u8) AND 7 = 4" "drop_bit 5 (0x40 :: u8) AND 7 = 2" by code_simp+
  have m: "drop_bit 5 (fr ! 0) AND 7 = (if confirmed then 4 else 2)" using mt by (simp add: hd)
  have "13 + length pl - 4 - 8 - 1 = length pl" by simp
  then show ?thesis unfolding extractLoRaWANMeta_def Let_def m
    using len hd by (simp add: lorawan_meta0_def)
qed

lemma lorawan_tap_witness:
  "\<exists>fr. encodeUplink xor_block 5 [1] [2] 70000 13 [9, 9] False 64 = Some fr \<and>
    lm_fcnt (fst (extractLoRaWANMeta fr)) = ucast (70000 :: u32)"
proof -
  obtain fr where e: "encodeUplink xor_block 5 [1] [2] 70000 13 [9, 9] False 64 = Some fr"
    by (simp add: encodeUplink_def Let_def)
  from lorawan_tap_reads_uplink [OF aes_block_xor_block e] e show ?thesis by (auto split: prod.splits)
qed

end
