(* ===== verification/Format.thy ===== *)
theory Format
  imports RadioChannel
begin

text \<open>
  The \<open>printf\<close> conversions of the firmware, as functions from machine integers to the bytes
  they print: \<open>%08lx\<close>, \<open>%08lX\<close>, \<open>%02X\<close> and decimal. \<open>snprintf(buf, cap, ..)\<close> keeps the first
  \<open>cap - 1\<close> bytes, which is \<open>bounded_copy cap\<close> of the prelude.
\<close>

definition HEX_digit :: "u8 \<Rightarrow> u8" where
  "HEX_digit d = (if d < 10 then of_char CHR ''0'' + d else of_char CHR ''A'' + (d - 10))"

definition HEX_of :: "bytes \<Rightarrow> bytes" where
  "HEX_of bs = concat (map (\<lambda>b. [HEX_digit (drop_bit 4 b), HEX_digit (b AND 0x0F)]) bs)"

definition fmt_08lx :: "u32 \<Rightarrow> bytes" where
  "fmt_08lx w = hex_of (rev (le32 w))"

definition fmt_08lX :: "u32 \<Rightarrow> bytes" where
  "fmt_08lX w = HEX_of (rev (le32 w))"

definition fmt_02X :: "u8 \<Rightarrow> bytes" where
  "fmt_02X b = HEX_of [b]"

fun fmt_u :: "nat \<Rightarrow> bytes" where
  "fmt_u n = (if n < 10 then [of_char CHR ''0'' + of_nat n]
     else fmt_u (n div 10) @ [of_char CHR ''0'' + of_nat (n mod 10)])"

declare fmt_u.simps [simp del]

definition fmt_d :: "int \<Rightarrow> bytes" where
  "fmt_d i = (if i < 0 then of_char CHR ''-'' # fmt_u (nat (- i)) else fmt_u (nat i))"

lemma fmt_u_digit: "n < 10 \<Longrightarrow> fmt_u n = [of_char CHR ''0'' + of_nat n]"
  by (simp add: fmt_u.simps)

lemma length_fmt_08lx [simp]: "length (fmt_08lx w) = 8"
  by (simp add: fmt_08lx_def length_hex_of)

lemma length_HEX_of: "length (HEX_of bs) = 2 * length bs"
  by (induction bs) (auto simp: HEX_of_def)

lemma length_fmt_08lX [simp]: "length (fmt_08lX w) = 8"
  by (simp add: fmt_08lX_def length_HEX_of)

lemma hex_digit_inj:
  assumes "a < 16" and "b < 16" and "hex_digit a = hex_digit b"
  shows "a = b"
proof -
  have "uint a = uint b"
    using hexNibble_digit [OF assms(1)] hexNibble_digit [OF assms(2)] assms(3) by simp
  then show ?thesis by (simp add: word_uint_eq_iff)
qed

lemma hex_of_inj: "hex_of as = hex_of bs \<Longrightarrow> length as = length bs \<Longrightarrow> as = bs"
proof (induction as arbitrary: bs)
  case (Cons a as)
  then obtain b bs' where bs: "bs = b # bs'" by (cases bs) auto
  with Cons.prems have e: "hex_digit (drop_bit 4 a) = hex_digit (drop_bit 4 b)"
    "hex_digit (a AND 0x0F) = hex_digit (b AND 0x0F)" "hex_of as = hex_of bs'"
    by (simp_all add: hex_of_def)
  have d: "drop_bit 4 a = drop_bit 4 b" by (rule hex_digit_inj [OF nibbles(1) nibbles(1) e(1)])
  have m: "a AND 0x0F = b AND 0x0F" by (rule hex_digit_inj [OF nibbles(2) nibbles(2) e(2)])
  have "a = b"
    by (subst nibbles(3) [symmetric, of a], subst nibbles(3) [symmetric, of b], simp only: d m)
  moreover have "as = bs'" by (rule Cons.IH [OF e(3)]) (use Cons.prems bs in simp)
  ultimately show ?case using bs by simp
qed simp

lemma le32_inj: "le32 a = le32 b \<longleftrightarrow> a = b"
proof
  assume "le32 a = le32 b"
  with get32_le32 [of "[]" a "[]"] get32_le32 [of "[]" b "[]"] show "a = b" by simp
qed simp

text \<open>Storage keys built from an id therefore never collide.\<close>

lemma fmt_08lx_inj: "fmt_08lx a = fmt_08lx b \<longleftrightarrow> a = b"
proof
  assume "fmt_08lx a = fmt_08lx b"
  then have "hex_of (rev (le32 a)) = hex_of (rev (le32 b))" by (simp add: fmt_08lx_def)
  then have "rev (le32 a) = rev (le32 b)" by (rule hex_of_inj) simp
  then show "a = b" by (simp only: rev_is_rev_conv le32_inj)
qed simp

lemma hexNibble_0: "hexNibble 0 = -1"
  by (simp add: hexNibble_def)

lemma hex_digit_nonzero:
  assumes "d < 16"
  shows "hex_digit d \<noteq> 0"
proof
  assume "hex_digit d = 0"
  then have "uint d = -1" using hexNibble_digit [OF assms] by (simp add: hexNibble_0)
  then show False using uint_ge_0 [of d] by linarith
qed

end
