(* ===== verification/Counters.thy ===== *)
theory Counters
  imports Prelude
begin

text \<open>
  Reboot-safe counters. Non-volatile storage (the \<open>Preferences\<close> library) is a map from keys to
  32-bit values whose writes have one of three outcomes, chosen by the environment; and an
  interface, \<open>monotone_issuer\<close>, for every component that hands out or accepts strictly
  increasing numbers across reboots: the frame counters of \<open>LoRaWANConfig\<close> and the outbound
  and inbound sequence numbers of \<open>CamC2Config\<close>.
\<close>

section \<open>Storage\<close>

text \<open>
  A write is confirmed; or reported failed with nothing stored; or reported failed although the
  value did reach the flash (a lost confirmation).
\<close>

datatype nvs_write = Write_ok | Write_lost | Write_unconfirmed

type_synonym nvs_uints = "bytes \<rightharpoonup> u32"

text \<open>\<open>getUInt(key, 0)\<close> and \<open>putUInt(key, val)\<close>; the flag of a write is its confirmation.\<close>

definition nvs_get :: "nvs_uints \<Rightarrow> bytes \<Rightarrow> u32" where
  "nvs_get m k = (case m k of None \<Rightarrow> 0 | Some v \<Rightarrow> v)"

definition nvs_put :: "nvs_write \<Rightarrow> bytes \<Rightarrow> u32 \<Rightarrow> nvs_uints \<Rightarrow> nvs_uints \<times> bool" where
  "nvs_put w k v m = (if w = Write_lost then m else m(k \<mapsto> v), w = Write_ok)"

lemma nvs_get_put_same: "nvs_get (fst (nvs_put w k v m)) k = (if w = Write_lost then nvs_get m k else v)"
  by (simp add: nvs_get_def nvs_put_def)

lemma nvs_get_put_other: "k' \<noteq> k \<Longrightarrow> nvs_get (fst (nvs_put w k v m)) k' = nvs_get m k'"
  by (simp add: nvs_get_def nvs_put_def)

lemma nvs_get_upd: "nvs_get (m(k \<mapsto> v)) k' = (if k' = k then v else nvs_get m k')"
  by (simp add: nvs_get_def)

lemma unat_u32: "unat (p :: u32) < 4294967296"
  using uint_lt2p [of p] by (simp add: nat_less_iff flip: nat_uint_eq)

lemma unat_succ:
  assumes "f < (p :: u32)"
  shows "unat (f + 1) = Suc (unat f)"
proof -
  have "unat f + 1 < 2 ^ 32"
    using assms unat_u32 [of p] by (simp add: word_less_nat_alt)
  then show ?thesis by (simp add: unat_word_ariths)
qed

lemma below_not_max: "f < (p :: u32) \<Longrightarrow> f \<noteq> 0xFFFFFFFF"
proof
  assume "f < p" and "f = 0xFFFFFFFF"
  then show False using unat_u32 [of p] by (simp add: word_less_nat_alt)
qed

section \<open>Tables with one holder of a key\<close>

lemma filter_once:
  assumes "length (filter P xs) \<le> 1" and "i < length xs" and "j < length xs" and "P (xs ! i)" and "P (xs ! j)"
  shows "i = j"
  using assms
proof (induction xs arbitrary: i j)
  case (Cons x xs)
  then show ?case
  proof (cases "P x")
    case True
    with Cons.prems(1) have "filter P xs = []" by simp
    then have "\<forall>k < length xs. \<not> P (xs ! k)" by (simp add: filter_empty_conv)
    with Cons.prems show ?thesis by (cases i; cases j) auto
  next
    case False
    with Cons show ?thesis by (cases i; cases j) auto
  qed
qed simp

lemma filter_nonempty: "i < length xs \<Longrightarrow> P (xs ! i) \<Longrightarrow> 1 \<le> length (filter P xs)"
  by (metis One_nat_def Suc_leI filter_empty_conv length_greater_0_conv nth_mem)

lemma all_less_4: "(\<forall>i < (4 :: nat). P i) \<longleftrightarrow> P 0 \<and> P 1 \<and> P 2 \<and> P 3"
  by (auto simp: numeral_eq_Suc less_Suc_eq)

section \<open>Runs that issue numbers\<close>

text \<open>
  \<open>step e s\<close> is one operation (or a reboot) with the number it issues, if any; \<open>ok e s\<close> the
  condition on the environment at that operation.
\<close>

fun issued :: "('e \<Rightarrow> 's \<Rightarrow> 's \<times> u32 option) \<Rightarrow> 'e list \<Rightarrow> 's \<Rightarrow> u32 list" where
  "issued step [] s = []"
| "issued step (e # es) s = (case step e s of
     (s2, None) \<Rightarrow> issued step es s2
   | (s2, Some v) \<Rightarrow> v # issued step es s2)"

fun run_ok :: "('e \<Rightarrow> 's \<Rightarrow> bool) \<Rightarrow> ('e \<Rightarrow> 's \<Rightarrow> 's \<times> u32 option) \<Rightarrow> 'e list \<Rightarrow> 's \<Rightarrow> bool" where
  "run_ok ok step [] s \<longleftrightarrow> True"
| "run_ok ok step (e # es) s \<longleftrightarrow> ok e s \<and> run_ok ok step es (fst (step e s))"

text \<open>
  The contract: \<open>inv n s\<close> says that every number below \<open>n\<close> is spent in \<open>s\<close>. A step that
  issues a number issues an unspent one and spends everything up to it.
\<close>

locale monotone_issuer =
  fixes step :: "'e \<Rightarrow> 's \<Rightarrow> 's \<times> u32 option"
    and ok :: "'e \<Rightarrow> 's \<Rightarrow> bool"
    and inv :: "nat \<Rightarrow> 's \<Rightarrow> bool"
  assumes silent: "inv n s \<Longrightarrow> ok e s \<Longrightarrow> step e s = (s2, None) \<Longrightarrow> inv n s2"
    and issue: "inv n s \<Longrightarrow> ok e s \<Longrightarrow> step e s = (s2, Some v) \<Longrightarrow> n \<le> unat v \<and> inv (Suc (unat v)) s2"
begin

lemma issued_unspent:
  "inv n s \<Longrightarrow> run_ok ok step es s \<Longrightarrow> v \<in> set (issued step es s) \<Longrightarrow> n \<le> unat v"
proof (induction es arbitrary: n s)
  case (Cons e es)
  obtain s2 r where st: "step e s = (s2, r)" by (cases "step e s")
  show ?case
  proof (cases r)
    case None
    with st Cons.prems have "inv n s2" by (intro silent [of n s e s2]) auto
    then show ?thesis using Cons.IH [of n s2] Cons.prems st None by auto
  next
    case (Some w)
    with st Cons.prems have i: "n \<le> unat w" "inv (Suc (unat w)) s2" using issue [of n s e s2 w] by auto
    then show ?thesis using Cons.IH [of "Suc (unat w)" s2] Cons.prems st Some by auto
  qed
qed simp

lemma issued_increasing:
  "inv n s \<Longrightarrow> run_ok ok step es s \<Longrightarrow> sorted_wrt (<) (issued step es s)"
proof (induction es arbitrary: n s)
  case (Cons e es)
  obtain s2 r where st: "step e s = (s2, r)" by (cases "step e s")
  show ?case
  proof (cases r)
    case None
    with st Cons.prems have "inv n s2" by (intro silent [of n s e s2]) auto
    then show ?thesis using Cons.IH [of n s2] Cons.prems st None by auto
  next
    case (Some w)
    with st Cons.prems have i: "inv (Suc (unat w)) s2" using issue [of n s e s2 w] by auto
    have ok: "run_ok ok step es s2" using Cons.prems st by simp
    have "\<forall>v \<in> set (issued step es s2). w < v"
      using issued_unspent [OF i ok] by (auto simp: word_less_nat_alt Suc_le_eq)
    then show ?thesis using Cons.IH [OF i ok] st Some by simp
  qed
qed simp

lemma issued_once: "inv n s \<Longrightarrow> run_ok ok step es s \<Longrightarrow> distinct (issued step es s)"
  using issued_increasing [of n s es] by (induction "issued step es s") (auto simp: strict_sorted_iff)

end

end
