(* ===== verification/LoRaWANConfig.thy ===== *)
theory LoRaWANConfig
  imports Counters Format
begin

text \<open>
  The ABP device table with its reboot-safe frame counters
  (\<open>src/src/LoRaWANConfig.cpp\<close>, \<open>LoRaWANConfig.h\<close>). The storage namespace is part of the state;
  the outcome of every write and whether a read succeeds are arguments.
\<close>

definition MAX_DEVICES :: nat where "MAX_DEVICES = 4"
definition FCNT_RESERVE :: u32 where "FCNT_RESERVE = 32"
definition FLAG_TAG_SRC :: u8 where "FLAG_TAG_SRC = 0x01"
definition FCNT_INVALID :: u32 where "FCNT_INVALID = 0xFFFFFFFF"

definition SRC_ANY :: u8 where "SRC_ANY = 0"
definition SRC_MT_NODE :: u8 where "SRC_MT_NODE = 1"
definition SRC_PROTO :: u8 where "SRC_PROTO = 2"

definition PROTO_MT :: u8 where "PROTO_MT = 1"
definition PROTO_MC :: u8 where "PROTO_MC = 2"
definition PROTO_RNS :: u8 where "PROTO_RNS = 3"
definition PROTO_CUSTOM :: u8 where "PROTO_CUSTOM = 4"
definition PROTO_LORAWAN :: u8 where "PROTO_LORAWAN = 5"

lemmas lw_consts = MAX_DEVICES_def FCNT_RESERVE_def FCNT_INVALID_def SRC_ANY_def SRC_MT_NODE_def
  SRC_PROTO_def PROTO_MT_def PROTO_MC_def PROTO_RNS_def PROTO_CUSTOM_def PROTO_LORAWAN_def

record lw_device =
  dev_inUse :: u8
  dev_srcSel :: u8
  dev_fport :: u8
  dev_flags :: u8
  dev_srcMatch :: u32
  dev_devAddr :: u32
  dev_nwkSKey :: bytes
  dev_appSKey :: bytes

definition zero_device :: lw_device where
  "zero_device = \<lparr>dev_inUse = 0, dev_srcSel = 0, dev_fport = 0, dev_flags = 0, dev_srcMatch = 0,
     dev_devAddr = 0, dev_nwkSKey = replicate 16 0, dev_appSKey = replicate 16 0\<rparr>"

text \<open>The stored device table: absent, of another size than the build's, or a table of 4 devices.\<close>

datatype lw_blob = LwAbsent | LwOtherSize | LwTable "lw_device list"

text \<open>The module's variables with its storage namespace.\<close>

record lw_state =
  lw_dev :: "lw_device list"
  lw_fcnt :: "u32 list"
  lw_reserved :: "u32 list"
  lw_persisted :: "u32 list"
  lw_extDevAddr :: u32
  lw_extFcnt :: u32
  lw_extReserved :: u32
  lw_table :: lw_blob
  lw_uints :: nvs_uints

definition fcntKeyForAddr :: "u32 \<Rightarrow> bytes" where
  "fcntKeyForAddr a = str ''fc_'' @ fmt_08lx a"

definition loadReservedForAddr :: "bool \<Rightarrow> u32 \<Rightarrow> nvs_uints \<Rightarrow> u32" where
  "loadReservedForAddr readable a m =
     (if a = 0 then 0 else if \<not> readable then 0 else nvs_get m (fcntKeyForAddr a))"

definition persistReservedForAddr :: "nvs_write \<Rightarrow> u32 \<Rightarrow> u32 \<Rightarrow> nvs_uints \<Rightarrow> nvs_uints \<times> bool" where
  "persistReservedForAddr w a v m = (if a = 0 then (m, False) else nvs_put w (fcntKeyForAddr a) v m)"

text \<open>\<open>begin\<close>; \<open>readable\<close> is whether the namespace opens.\<close>

definition lw_begin :: "bool \<Rightarrow> lw_state \<Rightarrow> lw_state" where
  "lw_begin readable s =
     (let devs = (if readable then (case lw_table s of LwTable ds \<Rightarrow> ds | _ \<Rightarrow> replicate MAX_DEVICES zero_device)
                  else replicate MAX_DEVICES zero_device);
          marks = (if readable then map (\<lambda>d. if dev_devAddr d = 0 then 0
                       else nvs_get (lw_uints s) (fcntKeyForAddr (dev_devAddr d))) devs
                   else replicate MAX_DEVICES 0)
      in s\<lparr>lw_dev := devs, lw_fcnt := marks, lw_reserved := marks, lw_persisted := marks,
           lw_extDevAddr := 0, lw_extFcnt := 0, lw_extReserved := 0\<rparr>)"

definition lw_saveTable :: "nvs_write \<Rightarrow> lw_state \<Rightarrow> lw_state" where
  "lw_saveTable w s = (if w = Write_lost then s else s\<lparr>lw_table := LwTable (lw_dev s)\<rparr>)"

definition lw_configured :: "lw_device \<Rightarrow> bool" where
  "lw_configured d \<longleftrightarrow> dev_inUse d \<noteq> 0 \<and> dev_devAddr d \<noteq> 0"

definition lw_anyConfigured :: "lw_state \<Rightarrow> bool" where
  "lw_anyConfigured s \<longleftrightarrow> list_ex lw_configured (lw_dev s)"

definition lw_hasDevAddr :: "lw_state \<Rightarrow> u32 \<Rightarrow> bool" where
  "lw_hasDevAddr s a \<longleftrightarrow> a \<noteq> 0 \<and> list_ex (\<lambda>d. dev_inUse d \<noteq> 0 \<and> dev_devAddr d = a) (lw_dev s)"

definition protoOf :: "u8 \<Rightarrow> u8" where
  "protoOf sync =
     (if sync = 0x2B then PROTO_MT
      else if sync = 0x12 then PROTO_MC
      else if sync = 0x42 then PROTO_RNS
      else if sync = 0x34 then PROTO_LORAWAN
      else PROTO_CUSTOM)"

definition lw_matches :: "lw_device \<Rightarrow> u8 \<Rightarrow> u32 \<Rightarrow> int \<Rightarrow> bool" where
  "lw_matches d proto srcId specificity =
     (if \<not> lw_configured d then False
      else if dev_srcSel d = SRC_MT_NODE then specificity = 2 \<and> proto = PROTO_MT \<and> srcId = dev_srcMatch d
      else if dev_srcSel d = SRC_PROTO then specificity = 1 \<and> proto = ucast (dev_srcMatch d)
      else if dev_srcSel d = SRC_ANY then specificity = 0
      else False)"

fun first_match :: "('a \<Rightarrow> bool) \<Rightarrow> nat \<Rightarrow> 'a list \<Rightarrow> nat option" where
  "first_match P i [] = None"
| "first_match P i (d # ds) = (if P d then Some i else first_match P (i + 1) ds)"

text \<open>\<open>resolve\<close>: the index of the device, \<open>None\<close> for -1 and a null pointer.\<close>

fun resolve_passes :: "lw_device list \<Rightarrow> u8 \<Rightarrow> u32 \<Rightarrow> int list \<Rightarrow> nat option" where
  "resolve_passes ds proto srcId [] = None"
| "resolve_passes ds proto srcId (spec # specs) =
     (case first_match (\<lambda>d. lw_matches d proto srcId spec) 0 ds of
        Some i \<Rightarrow> Some i
      | None \<Rightarrow> resolve_passes ds proto srcId specs)"

definition lw_resolve :: "lw_state \<Rightarrow> u8 \<Rightarrow> u32 \<Rightarrow> nat option" where
  "lw_resolve s srcSync srcId = resolve_passes (lw_dev s) (protoOf srcSync) srcId [2, 1, 0]"

text \<open>\<open>advanceFcnt\<close>: the new counter, high-water mark and storage, and the value returned.\<close>

definition advanceFcnt ::
  "nvs_write \<Rightarrow> u32 \<Rightarrow> u32 \<Rightarrow> u32 \<Rightarrow> nvs_uints \<Rightarrow> u32 \<times> u32 \<times> nvs_uints \<times> u32" where
  "advanceFcnt w devAddr fcnt persisted m =
     (let v = fcnt in
      if persisted \<le> v then
        (if 0xFFFFFFFF - 1 - FCNT_RESERVE < v then (fcnt, persisted, m, FCNT_INVALID)
         else (let nr = v + 1 + FCNT_RESERVE in
           case persistReservedForAddr w devAddr nr m of
             (m2, False) \<Rightarrow> (fcnt, persisted, m2, FCNT_INVALID)
           | (m2, True) \<Rightarrow> (v + 1, nr, m2, v)))
      else (v + 1, persisted, m, v))"

definition nextFcnt :: "nvs_write \<Rightarrow> int \<Rightarrow> lw_state \<Rightarrow> lw_state \<times> u32" where
  "nextFcnt w i s =
     (if i < 0 \<or> int MAX_DEVICES \<le> i then (s, FCNT_INVALID)
      else (let k = nat i; a = dev_devAddr (lw_dev s ! k) in
        if a = 0 then (s, FCNT_INVALID)
        else (case advanceFcnt w a (lw_fcnt s ! k) (lw_persisted s ! k) (lw_uints s) of
          (f, p, m, v) \<Rightarrow> (s\<lparr>lw_fcnt := (lw_fcnt s)[k := f], lw_persisted := (lw_persisted s)[k := p],
                             lw_reserved := (lw_reserved s)[k := p], lw_uints := m\<rparr>, v))))"

definition nextFcntForDevAddr :: "nvs_write \<Rightarrow> bool \<Rightarrow> u32 \<Rightarrow> lw_state \<Rightarrow> lw_state \<times> u32" where
  "nextFcntForDevAddr w readable a s =
     (if a = 0 then (s, FCNT_INVALID)
      else (let r = loadReservedForAddr readable a (lw_uints s);
                s = (if a \<noteq> lw_extDevAddr s then s\<lparr>lw_extDevAddr := a, lw_extFcnt := r, lw_extReserved := r\<rparr> else s)
        in case advanceFcnt w a (lw_extFcnt s) (lw_extReserved s) (lw_uints s) of
             (f, p, m, v) \<Rightarrow> (s\<lparr>lw_extFcnt := f, lw_extReserved := p, lw_uints := m\<rparr>, v)))"

definition setDevice :: "bool \<Rightarrow> int \<Rightarrow> lw_device \<Rightarrow> lw_state \<Rightarrow> lw_state" where
  "setDevice readable i d s =
     (if i < 0 \<or> int MAX_DEVICES \<le> i then s
      else (let k = nat i;
                r = loadReservedForAddr readable (dev_devAddr d) (lw_uints s);
                s = (if dev_devAddr d \<noteq> dev_devAddr (lw_dev s ! k) then
                       s\<lparr>lw_reserved := (lw_reserved s)[k := r], lw_fcnt := (lw_fcnt s)[k := r],
                         lw_persisted := (lw_persisted s)[k := r]\<rparr> else s)
        in s\<lparr>lw_dev := (lw_dev s)[k := d]\<rparr>))"

definition clearDevice :: "int \<Rightarrow> lw_state \<Rightarrow> lw_state" where
  "clearDevice i s =
     (if i < 0 \<or> int MAX_DEVICES \<le> i then s
      else (let k = nat i in
        s\<lparr>lw_dev := (lw_dev s)[k := zero_device], lw_reserved := (lw_reserved s)[k := 0],
          lw_fcnt := (lw_fcnt s)[k := 0], lw_persisted := (lw_persisted s)[k := 0]\<rparr>))"

definition lw_deviceAt :: "int \<Rightarrow> lw_state \<Rightarrow> lw_device" where
  "lw_deviceAt i s = (if i < 0 \<or> int MAX_DEVICES \<le> i then zero_device else lw_dev s ! nat i)"

definition currentFcnt :: "int \<Rightarrow> lw_state \<Rightarrow> u32" where
  "currentFcnt i s = (if i < 0 \<or> int MAX_DEVICES \<le> i then 0 else lw_fcnt s ! nat i)"

section \<open>Source matching\<close>

lemma first_match_iff:
  "first_match P i ds = Some j \<longleftrightarrow>
     i \<le> j \<and> j - i < length ds \<and> P (ds ! (j - i)) \<and> (\<forall>n < j - i. \<not> P (ds ! n))"
proof (induction ds arbitrary: i)
  case (Cons d ds)
  show ?case
  proof (cases "P d")
    case True
    then show ?thesis by (cases "j - i") auto
  next
    case False
    show ?thesis
    proof (cases "i < j")
      case True
      then have j: "j - i = Suc (j - Suc i)" by simp
      have "(\<forall>n < Suc (j - Suc i). \<not> P ((d # ds) ! n)) \<longleftrightarrow> (\<forall>n < j - Suc i. \<not> P (ds ! n))"
        using \<open>\<not> P d\<close> by (auto simp: less_Suc_eq_0_disj)
      with True \<open>\<not> P d\<close> show ?thesis by (simp add: Cons j)
    next
      case False
      with \<open>\<not> P d\<close> show ?thesis by (auto simp: Cons)
    qed
  qed
qed simp

lemma first_match_None: "first_match P i ds = None \<longleftrightarrow> (\<forall>d \<in> set ds. \<not> P d)"
  by (induction ds arbitrary: i) auto

lemma resolve_passes_Some:
  assumes "resolve_passes ds proto srcId specs = Some i"
  shows "\<exists>pre spec post. specs = pre @ spec # post \<and> i < length ds \<and> lw_matches (ds ! i) proto srcId spec
    \<and> (\<forall>j < i. \<not> lw_matches (ds ! j) proto srcId spec)
    \<and> (\<forall>d \<in> set ds. \<forall>sp \<in> set pre. \<not> lw_matches d proto srcId sp)"
  using assms
proof (induction specs)
  case (Cons sp specs)
  show ?case
  proof (cases "first_match (\<lambda>d. lw_matches d proto srcId sp) 0 ds")
    case None
    with Cons obtain pre spec post where h: "specs = pre @ spec # post" "i < length ds"
      "lw_matches (ds ! i) proto srcId spec" "\<forall>j < i. \<not> lw_matches (ds ! j) proto srcId spec"
      "\<forall>d \<in> set ds. \<forall>sp \<in> set pre. \<not> lw_matches d proto srcId sp" by auto
    have "\<forall>d \<in> set ds. \<not> lw_matches d proto srcId sp" using None by (simp add: first_match_None)
    with h show ?thesis by (intro exI [of _ "sp # pre"] exI [of _ spec] exI [of _ post]) auto
  next
    case (Some k)
    with Cons.prems have "first_match (\<lambda>d. lw_matches d proto srcId sp) 0 ds = Some i" by simp
    then show ?thesis
      by (intro exI [of _ "[]"] exI [of _ sp] exI [of _ specs]) (simp add: first_match_iff)
  qed
qed simp

lemma resolve_passes_None:
  "resolve_passes ds proto srcId specs = None \<longleftrightarrow>
     (\<forall>d \<in> set ds. \<forall>sp \<in> set specs. \<not> lw_matches d proto srcId sp)"
proof (induction specs)
  case (Cons sp specs)
  then show ?case
    using first_match_None [of "\<lambda>d. lw_matches d proto srcId sp" 0 ds]
    by (cases "first_match (\<lambda>d. lw_matches d proto srcId sp) 0 ds") auto
qed simp

text \<open>How specifically a device names a source: 2 for its node, 1 for its protocol, 0 for any.\<close>

definition lw_rank :: "lw_device \<Rightarrow> u8 \<Rightarrow> u32 \<Rightarrow> int option" where
  "lw_rank d proto srcId =
     (if dev_inUse d = 0 \<or> dev_devAddr d = 0 then None
      else if dev_srcSel d = 1 then (if proto = PROTO_MT \<and> srcId = dev_srcMatch d then Some 2 else None)
      else if dev_srcSel d = 2 then (if proto = ucast (dev_srcMatch d) then Some 1 else None)
      else if dev_srcSel d = 0 then Some 0
      else None)"

lemma lw_matches_rank: "lw_matches d proto srcId sp \<longleftrightarrow> lw_rank d proto srcId = Some sp"
  by (auto simp: lw_matches_def lw_rank_def lw_configured_def SRC_MT_NODE_def SRC_PROTO_def SRC_ANY_def)

lemma lw_rank_range: "lw_rank d proto srcId = Some sp \<Longrightarrow> sp \<in> {2, 1, 0}"
  by (auto simp: lw_rank_def split: if_splits)

text \<open>
  Device selection: the device an uplink is sent as is a configured one that matches the
  source most specifically (its exact node, then its protocol, then any source), the first such
  slot; and the source is left unsent only when no configured device matches it.
\<close>

theorem resolve_most_specific:
  "case lw_resolve s sync src of
     None \<Rightarrow> \<forall>d \<in> set (lw_dev s). lw_rank d (protoOf sync) src = None
   | Some i \<Rightarrow> i < length (lw_dev s) \<and> (\<exists>r. lw_rank (lw_dev s ! i) (protoOf sync) src = Some r \<and>
       (\<forall>j < length (lw_dev s). case lw_rank (lw_dev s ! j) (protoOf sync) src of
          None \<Rightarrow> True | Some r2 \<Rightarrow> r2 < r \<or> r2 = r \<and> i \<le> j))"
proof (cases "lw_resolve s sync src")
  case None
  then have "\<forall>d \<in> set (lw_dev s). \<forall>sp \<in> {2, 1, 0}. lw_rank d (protoOf sync) src \<noteq> Some sp"
    by (simp only: lw_resolve_def resolve_passes_None lw_matches_rank list.set)
  then have "lw_rank d (protoOf sync) src = None" if "d \<in> set (lw_dev s)" for d
    using lw_rank_range that by (cases "lw_rank d (protoOf sync) src") blast+
  then show ?thesis using None by simp
next
  case (Some i)
  then obtain pre spec post where h: "[2, 1, 0] = pre @ spec # post" "i < length (lw_dev s)"
    "lw_rank (lw_dev s ! i) (protoOf sync) src = Some spec"
    "\<forall>j < i. lw_rank (lw_dev s ! j) (protoOf sync) src \<noteq> Some spec"
    "\<forall>d \<in> set (lw_dev s). \<forall>sp \<in> set pre. lw_rank d (protoOf sync) src \<noteq> Some sp"
    using resolve_passes_Some [of "lw_dev s" "protoOf sync" src "[2, 1, 0]" i]
    by (auto simp: lw_resolve_def lw_matches_rank)
  have "r2 < spec \<or> r2 = spec \<and> i \<le> j"
    if j: "j < length (lw_dev s)" "lw_rank (lw_dev s ! j) (protoOf sync) src = Some r2" for j r2
  proof -
    have "r2 \<notin> set pre" using h(5) j by auto
    moreover have "r2 \<in> set (pre @ spec # post)" using lw_rank_range [OF j(2)] h(1) by (metis list.set(1,2))
    moreover have "sorted_wrt (>) (pre @ spec # post)" unfolding h(1) [symmetric] by simp
    ultimately have "r2 = spec \<or> r2 < spec" by (auto simp: sorted_wrt_append)
    moreover have "i \<le> j" if "r2 = spec" using h(4) j(2) that by (meson not_le)
    ultimately show ?thesis by blast
  qed
  with h(2,3) Some show ?thesis by (auto split: option.splits)
qed

section \<open>Frame counters across reboots, failed writes and portal edits\<close>

datatype lw_event =
    LwNext nvs_write int
  | LwNextExt nvs_write bool u32
  | LwReboot bool
  | LwSet bool int lw_device
  | LwClear int
  | LwSave nvs_write

text \<open>One operation, with the counter value it issued for the identity \<open>a\<close>.\<close>

definition issued_for :: "bool \<Rightarrow> lw_state \<times> u32 \<Rightarrow> lw_state \<times> u32 option" where
  "issued_for mine r = (fst r, if mine \<and> snd r \<noteq> FCNT_INVALID then Some (snd r) else None)"

fun lw_step :: "u32 \<Rightarrow> lw_event \<Rightarrow> lw_state \<Rightarrow> lw_state \<times> u32 option" where
  "lw_step a (LwNext w i) s = issued_for (dev_devAddr (lw_deviceAt i s) = a) (nextFcnt w i s)"
| "lw_step a (LwNextExt w readable b) s = issued_for (b = a) (nextFcntForDevAddr w readable b s)"
| "lw_step a (LwReboot readable) s = (lw_begin readable s, None)"
| "lw_step a (LwSet readable i d) s = (setDevice readable i d s, None)"
| "lw_step a (LwClear i) s = (clearDevice i s, None)"
| "lw_step a (LwSave w) s = (lw_saveTable w s, None)"

text \<open>
  The environment: storage reads succeed (writes may fail in any way), and the identity is held
  by at most one of the slots and the build-flag fallback at a time.
\<close>

fun lw_reads_ok :: "lw_event \<Rightarrow> bool" where
  "lw_reads_ok (LwNextExt w readable b) = readable"
| "lw_reads_ok (LwReboot readable) = readable"
| "lw_reads_ok (LwSet readable i d) = readable"
| "lw_reads_ok _ = True"

definition lw_holders :: "u32 \<Rightarrow> lw_state \<Rightarrow> nat" where
  "lw_holders a s = length (filter (\<lambda>d. dev_devAddr d = a) (lw_dev s)) + (if lw_extDevAddr s = a then 1 else 0)"

definition lw_ok :: "u32 \<Rightarrow> lw_event \<Rightarrow> lw_state \<Rightarrow> bool" where
  "lw_ok a e s \<longleftrightarrow> lw_reads_ok e \<and> lw_holders a (fst (lw_step a e s)) \<le> 1"

definition lw_wf :: "lw_state \<Rightarrow> bool" where
  "lw_wf s \<longleftrightarrow> length (lw_dev s) = MAX_DEVICES \<and> length (lw_fcnt s) = MAX_DEVICES \<and>
     length (lw_reserved s) = MAX_DEVICES \<and> length (lw_persisted s) = MAX_DEVICES \<and>
     (case lw_table s of LwTable ds \<Rightarrow> length ds = MAX_DEVICES | _ \<Rightarrow> True)"

definition durable :: "u32 \<Rightarrow> lw_state \<Rightarrow> u32" where
  "durable a s = nvs_get (lw_uints s) (fcntKeyForAddr a)"

text \<open>Every value below \<open>n\<close> is spent for \<open>a\<close>: durably, and in the counter of whoever holds \<open>a\<close>.\<close>

definition holder_ok :: "u32 \<Rightarrow> nat \<Rightarrow> u32 \<Rightarrow> u32 \<Rightarrow> bool" where
  "holder_ok stored n fcnt persisted \<longleftrightarrow> n \<le> unat fcnt \<and> persisted \<le> stored"

definition lw_inv :: "u32 \<Rightarrow> nat \<Rightarrow> lw_state \<Rightarrow> bool" where
  "lw_inv a n s \<longleftrightarrow> a \<noteq> 0 \<and> lw_wf s \<and> lw_holders a s \<le> 1 \<and> n \<le> unat (durable a s) \<and>
     (\<forall>i < MAX_DEVICES. dev_devAddr (lw_dev s ! i) = a \<longrightarrow>
        holder_ok (durable a s) n (lw_fcnt s ! i) (lw_persisted s ! i)) \<and>
     (lw_extDevAddr s = a \<longrightarrow> holder_ok (durable a s) n (lw_extFcnt s) (lw_extReserved s))"

lemma key_inj: "fcntKeyForAddr a = fcntKeyForAddr b \<longleftrightarrow> a = b"
  by (simp add: fcntKeyForAddr_def fmt_08lx_inj)

lemma key_fits: "length (fcntKeyForAddr a) = 11"
  by (simp add: fcntKeyForAddr_def str_def)

text \<open>The heart of the scheme: what one \<open>advanceFcnt\<close> does to the counter of its own identity.\<close>

lemma advance_issues:
  assumes "a \<noteq> 0" and "advanceFcnt w a f p m = (f2, p2, m2, v)"
    and "n \<le> unat (nvs_get m (fcntKeyForAddr a))"
    and "holder_ok (nvs_get m (fcntKeyForAddr a)) n f p"
  shows "if v = FCNT_INVALID
    then n \<le> unat (nvs_get m2 (fcntKeyForAddr a)) \<and> holder_ok (nvs_get m2 (fcntKeyForAddr a)) n f2 p2
    else n \<le> unat v \<and> Suc (unat v) \<le> unat (nvs_get m2 (fcntKeyForAddr a)) \<and>
      holder_ok (nvs_get m2 (fcntKeyForAddr a)) (Suc (unat v)) f2 p2"
proof -
  have n: "n \<le> unat f" "p \<le> nvs_get m (fcntKeyForAddr a)" using assms(4) by (auto simp: holder_ok_def)
  show ?thesis
  proof (cases "f < p")
    case True
    then have "f < nvs_get m (fcntKeyForAddr a)" using n(2) by (rule order.strict_trans2)
    moreover have "unat (f + 1) = Suc (unat f)" by (rule unat_succ [OF True])
    moreover have "f \<noteq> FCNT_INVALID" by (rule below_not_max [OF True, folded FCNT_INVALID_def])
    moreover have np: "\<not> p \<le> f" using True by (simp add: not_le)
    moreover have "f2 = f + 1" "p2 = p" "m2 = m" "v = f"
      using assms(2) trans [OF assms(2) [symmetric], of "(f + 1, p, m, f)"] by (simp_all add: advanceFcnt_def np)
    ultimately show ?thesis using n by (simp add: holder_ok_def word_less_nat_alt)
  next
    case False
    show ?thesis
    proof (cases "0xFFFFFFFF - 1 - FCNT_RESERVE < f")
      case True
      then have "f2 = f" "p2 = p" "m2 = m" "v = FCNT_INVALID"
        using assms(2) False by (simp_all add: advanceFcnt_def Let_def not_less)
      then show ?thesis using assms(3,4) by simp
    next
      case g: False
      then have u: "unat f \<le> 4294967262" by (simp add: FCNT_RESERVE_def word_less_nat_alt)
      then have s1: "unat (f + 1) = Suc (unat f)" and s2: "unat (f + 1 + FCNT_RESERVE) = unat f + 33"
        by (simp_all add: FCNT_RESERVE_def unat_word_ariths)
      have "f \<noteq> FCNT_INVALID" using u by (auto simp: FCNT_INVALID_def)
      moreover have "p \<le> f + 1 + FCNT_RESERVE" using False s2 by (simp add: word_le_nat_alt not_less)
      moreover have "advanceFcnt w a f p m = (if w = Write_ok then f + 1 else f,
        if w = Write_ok then f + 1 + FCNT_RESERVE else p,
        if w = Write_lost then m else m(fcntKeyForAddr a \<mapsto> f + 1 + FCNT_RESERVE),
        if w = Write_ok then f else FCNT_INVALID)"
        using assms(1) False g
        by (cases w) (auto simp: advanceFcnt_def persistReservedForAddr_def nvs_put_def Let_def)
      ultimately show ?thesis using assms(2,3) n s1 s2
        by (cases w) (auto simp: holder_ok_def nvs_get_upd)
    qed
  qed
qed

lemma advance_other_key:
  assumes "advanceFcnt w b f p m = (f2, p2, m2, v)" and "b \<noteq> a"
  shows "nvs_get m2 (fcntKeyForAddr a) = nvs_get m (fcntKeyForAddr a)"
  using assms
  by (auto simp: advanceFcnt_def persistReservedForAddr_def nvs_put_def nvs_get_upd key_inj Let_def split: if_splits prod.splits bool.splits)

text \<open>A held identity has one holder: two slots, or a slot and the fallback, never share it.\<close>

lemma sole_slot:
  assumes "lw_holders a s \<le> 1" and "i < length (lw_dev s)" and "dev_devAddr (lw_dev s ! i) = a"
  shows "lw_extDevAddr s \<noteq> a" and "j < length (lw_dev s) \<Longrightarrow> dev_devAddr (lw_dev s ! j) = a \<Longrightarrow> j = i"
proof -
  have n: "1 \<le> length (filter (\<lambda>d. dev_devAddr d = a) (lw_dev s))"
    using assms(2,3) by (intro filter_nonempty [of i])
  then show "lw_extDevAddr s \<noteq> a" using assms(1) by (auto simp: lw_holders_def split: if_splits)
  show "j = i" if "j < length (lw_dev s)" "dev_devAddr (lw_dev s ! j) = a"
    using filter_once [of "\<lambda>d. dev_devAddr d = a" "lw_dev s" j i] assms that
    by (auto simp: lw_holders_def split: if_splits)
qed

lemma sole_ext:
  assumes "lw_holders a s \<le> 1" and "lw_extDevAddr s = a" and "i < length (lw_dev s)"
  shows "dev_devAddr (lw_dev s ! i) \<noteq> a"
  using sole_slot(1) [OF assms(1,3)] assms(2) by blast

lemma lw_invD:
  assumes "lw_inv a n s"
  shows "a \<noteq> 0" and "lw_wf s" and "lw_holders a s \<le> 1" and "n \<le> unat (durable a s)"
    and "i < MAX_DEVICES \<Longrightarrow> dev_devAddr (lw_dev s ! i) = a \<Longrightarrow>
      holder_ok (durable a s) n (lw_fcnt s ! i) (lw_persisted s ! i)"
    and "lw_extDevAddr s = a \<Longrightarrow> holder_ok (durable a s) n (lw_extFcnt s) (lw_extReserved s)"
  using assms by (auto simp: lw_inv_def)

lemma resumed_ok: "n \<le> unat m \<Longrightarrow> holder_ok m n m m"
  by (simp add: holder_ok_def)

lemma lw_inv_reboot:
  assumes "lw_inv a n s" and "lw_holders a (lw_begin True s) \<le> 1"
  shows "lw_inv a n (lw_begin True s)"
  using assms
  by (auto simp: lw_inv_def lw_begin_def lw_wf_def durable_def resumed_ok Let_def split: lw_blob.splits)

lemma lw_inv_set:
  assumes "lw_inv a n s" and "lw_holders a (setDevice True i d s) \<le> 1"
  shows "lw_inv a n (setDevice True i d s)"
proof (cases "i < 0 \<or> int MAX_DEVICES \<le> i")
  case True
  then show ?thesis using assms by (simp add: setDevice_def)
next
  case False
  then have k: "nat i < MAX_DEVICES" by auto
  note a = lw_invD [OF assms(1)]
  have dur: "durable a (setDevice True i d s) = durable a s" by (simp add: setDevice_def durable_def Let_def)
  have "holder_ok (durable a s) n (lw_fcnt (setDevice True i d s) ! j) (lw_persisted (setDevice True i d s) ! j)"
    if j: "j < MAX_DEVICES" "dev_devAddr (lw_dev (setDevice True i d s) ! j) = a" for j
  proof (cases "j = nat i \<and> dev_devAddr d \<noteq> dev_devAddr (lw_dev s ! nat i)")
    case True
    then have "dev_devAddr d = a" using j k False a(2) by (auto simp: setDevice_def Let_def lw_wf_def)
    with True k False a(1,2,4) show ?thesis
      by (auto simp: setDevice_def Let_def lw_wf_def loadReservedForAddr_def durable_def resumed_ok)
  next
    case f: False
    then have "dev_devAddr (lw_dev s ! j) = a" using j False k a(2)
      by (auto simp: setDevice_def Let_def lw_wf_def nth_list_update split: if_splits)
    with f a(5) [OF j(1)] False k a(2) show ?thesis
      by (auto simp: setDevice_def Let_def lw_wf_def nth_list_update split: if_splits)
  qed
  then show ?thesis using a assms(2) False dur
    by (auto simp: lw_inv_def setDevice_def Let_def lw_wf_def split: lw_blob.splits)
qed

lemma lw_inv_clear: 
  assumes "lw_inv a n s"
  shows "lw_inv a n (clearDevice i s)"
proof (cases "i < 0 \<or> int MAX_DEVICES \<le> i")
  case False
  then have k: "nat i < MAX_DEVICES" by auto
  note a = lw_invD [OF assms]
  have "length (filter (\<lambda>d. dev_devAddr d = a) (ds[k := zero_device]))
      \<le> length (filter (\<lambda>d. dev_devAddr d = a) ds)" for ds k
    using a(1) by (induction ds arbitrary: k) (auto simp: zero_device_def split: nat.split)
  then have "lw_holders a (clearDevice i s) \<le> lw_holders a s"
    by (simp add: lw_holders_def clearDevice_def Let_def)
  then have h: "lw_holders a (clearDevice i s) \<le> 1" using a(3) by (rule order_trans)
  have "holder_ok (durable a s) n (lw_fcnt (clearDevice i s) ! j) (lw_persisted (clearDevice i s) ! j)"
    if j: "j < MAX_DEVICES" "dev_devAddr (lw_dev (clearDevice i s) ! j) = a" for j
  proof -
    have "j \<noteq> nat i" using j a(1,2) False by (auto simp: clearDevice_def Let_def lw_wf_def zero_device_def)
    then show ?thesis using j a(5) [OF j(1)] False by (simp add: clearDevice_def Let_def)
  qed
  then show ?thesis using a h False
    by (auto simp: lw_inv_def clearDevice_def Let_def lw_wf_def durable_def split: lw_blob.splits)
qed (use assms in \<open>simp add: clearDevice_def\<close>)

lemma lw_inv_save: "lw_inv a n s \<Longrightarrow> lw_inv a n (lw_saveTable w s)"
  by (auto simp: lw_inv_def lw_saveTable_def lw_wf_def lw_holders_def durable_def)

text \<open>Issuing from a slot: the counter moves, and only the identity's own key is written.\<close>

lemma lw_inv_next:
  assumes inv: "lw_inv a n s" and st: "nextFcnt w i s = (s2, v)"
  shows "if dev_devAddr (lw_deviceAt i s) = a \<and> v \<noteq> FCNT_INVALID
    then n \<le> unat v \<and> lw_inv a (Suc (unat v)) s2 else lw_inv a n s2"
proof -
  note a = lw_invD [OF inv]
  show ?thesis
  proof (cases "i < 0 \<or> int MAX_DEVICES \<le> i \<or> dev_devAddr (lw_dev s ! nat i) = 0")
    case True
    then have "s2 = s" "v = FCNT_INVALID" using st by (auto simp: nextFcnt_def Let_def split: if_splits)
    then show ?thesis using inv by simp
  next
    case False
    define k where "k = nat i"
    define b where "b = dev_devAddr (lw_dev s ! k)"
    from False have k: "k < MAX_DEVICES" and b: "b \<noteq> 0" by (auto simp: k_def b_def)
    obtain f p m where adv: "advanceFcnt w b (lw_fcnt s ! k) (lw_persisted s ! k) (lw_uints s) = (f, p, m, v)"
      and s2: "s2 = s\<lparr>lw_fcnt := (lw_fcnt s)[k := f], lw_persisted := (lw_persisted s)[k := p],
         lw_reserved := (lw_reserved s)[k := p], lw_uints := m\<rparr>"
      using st False by (auto simp: nextFcnt_def Let_def k_def b_def split: prod.splits)
    have dev: "lw_deviceAt i s = lw_dev s ! k" using False by (simp add: lw_deviceAt_def k_def)
    have len: "length (lw_dev s) = MAX_DEVICES" "length (lw_fcnt s) = MAX_DEVICES"
      "length (lw_persisted s) = MAX_DEVICES" using a(2) by (auto simp: lw_wf_def)
    have wf: "lw_wf s2" "lw_holders a s2 \<le> 1" using a(2,3) s2 by (auto simp: lw_wf_def lw_holders_def split: lw_blob.splits)
    show ?thesis
    proof (cases "b = a")
      case True
      have sole: "dev_devAddr (lw_dev s ! j) = a \<Longrightarrow> j < MAX_DEVICES \<Longrightarrow> j = k" "lw_extDevAddr s \<noteq> a" for j
        using sole_slot [OF a(3), of k] k len True by (auto simp: b_def)
      have "lw_inv a q s2" if "q \<le> unat (nvs_get m (fcntKeyForAddr a))" "holder_ok (nvs_get m (fcntKeyForAddr a)) q f p" for q
        using that wf a(1) sole s2 k len by (auto simp: lw_inv_def durable_def nth_list_update)
      moreover have "holder_ok (nvs_get (lw_uints s) (fcntKeyForAddr a)) n (lw_fcnt s ! k) (lw_persisted s ! k)"
        using a(5) [OF k] True by (simp add: b_def durable_def)
      ultimately show ?thesis
        using advance_issues [OF a(1) adv [unfolded True], of n] a(4) True dev
        by (auto simp: durable_def b_def split: if_splits)
    next
      case False
      then have "durable a s2 = durable a s" using advance_other_key [OF adv] s2 by (simp add: durable_def)
      then have "lw_inv a n s2"
        using a wf s2 False k len by (auto simp: lw_inv_def nth_list_update b_def)
      then show ?thesis using False dev by (auto simp: b_def)
    qed
  qed
qed

lemma lw_inv_next_ext:
  assumes inv: "lw_inv a n s" and st: "nextFcntForDevAddr w True b s = (s2, v)" and sole2: "lw_holders a s2 \<le> 1"
  shows "if b = a \<and> v \<noteq> FCNT_INVALID
    then n \<le> unat v \<and> lw_inv a (Suc (unat v)) s2 else lw_inv a n s2"
proof -
  note a = lw_invD [OF inv]
  show ?thesis
  proof (cases "b = 0")
    case True
    then show ?thesis using st inv a(1) by (auto simp: nextFcntForDevAddr_def)
  next
    case b0: False
    define t where "t = (if b \<noteq> lw_extDevAddr s then s\<lparr>lw_extDevAddr := b,
      lw_extFcnt := nvs_get (lw_uints s) (fcntKeyForAddr b), lw_extReserved := nvs_get (lw_uints s) (fcntKeyForAddr b)\<rparr> else s)"
    have t: "lw_extDevAddr t = b" "lw_uints t = lw_uints s" "lw_dev t = lw_dev s" "lw_fcnt t = lw_fcnt s"
      "lw_persisted t = lw_persisted s" "lw_reserved t = lw_reserved s" "lw_table t = lw_table s"
      by (auto simp: t_def)
    obtain f p m where adv: "advanceFcnt w b (lw_extFcnt t) (lw_extReserved t) (lw_uints s) = (f, p, m, v)"
      and s2: "s2 = t\<lparr>lw_extFcnt := f, lw_extReserved := p, lw_uints := m\<rparr>"
      using st b0 t(2) by (auto simp: nextFcntForDevAddr_def loadReservedForAddr_def Let_def t_def split: prod.splits if_splits)
    have wf: "lw_wf s2" using a(2) s2 t by (auto simp: lw_wf_def split: lw_blob.splits)
    show ?thesis
    proof (cases "b = a")
      case True
      have h: "holder_ok (nvs_get (lw_uints s) (fcntKeyForAddr a)) n (lw_extFcnt t) (lw_extReserved t)"
        using a(4,6) True by (auto simp: t_def durable_def resumed_ok)
      have "dev_devAddr (lw_dev s ! j) \<noteq> a" if "j < MAX_DEVICES" for j
        using sole_ext [OF sole2, of j] that s2 t True a(2) by (simp add: lw_wf_def)
      then have "lw_inv a q s2" if "q \<le> unat (nvs_get m (fcntKeyForAddr a))" "holder_ok (nvs_get m (fcntKeyForAddr a)) q f p" for q
        using that wf a(1) s2 t sole2 by (auto simp: lw_inv_def durable_def)
      then show ?thesis
        using advance_issues [OF a(1) adv [unfolded True], of n] h a(4) True
        by (auto simp: durable_def split: if_splits)
    next
      case False
      then have "durable a s2 = durable a s" using advance_other_key [OF adv] s2 by (simp add: durable_def)
      then have "lw_inv a n s2"
        using a wf s2 False t sole2 by (auto simp: lw_inv_def)
      then show ?thesis using False by simp
    qed
  qed
qed

lemma issued_for_eq:
  "issued_for mine r = (s2, None) \<longleftrightarrow> fst r = s2 \<and> \<not> (mine \<and> snd r \<noteq> FCNT_INVALID)"
  "issued_for mine r = (s2, Some v) \<longleftrightarrow> r = (s2, v) \<and> mine \<and> v \<noteq> FCNT_INVALID"
  by (cases r; auto simp: issued_for_def)+

lemma lw_inv_step:
  assumes "lw_inv a n s" and "lw_ok a e s" and "lw_step a e s = (s2, r)"
  shows "case r of None \<Rightarrow> lw_inv a n s2 | Some v \<Rightarrow> n \<le> unat v \<and> lw_inv a (Suc (unat v)) s2"
proof (cases e)
  case (LwNext w i)
  obtain s3 v where nf: "nextFcnt w i s = (s3, v)" by fastforce
  from LwNext nf lw_inv_next [OF assms(1) nf] show ?thesis
    using assms(3) by (cases r) (auto simp: issued_for_eq split: if_splits)
next
  case (LwNextExt w rd b)
  obtain s3 v where nf: "nextFcntForDevAddr w True b s = (s3, v)" by fastforce
  have rd: rd "lw_holders a s3 \<le> 1" using assms(2) LwNextExt nf by (auto simp: lw_ok_def issued_for_def)
  from LwNextExt nf rd lw_inv_next_ext [OF assms(1) nf rd(2)] show ?thesis
    using assms(3) by (cases r) (auto simp: issued_for_eq split: if_splits)
next
  case (LwReboot rd)
  then show ?thesis using assms lw_inv_reboot by (auto simp: lw_ok_def)
next
  case (LwSet rd i d)
  then show ?thesis using assms lw_inv_set by (auto simp: lw_ok_def)
next
  case (LwClear i)
  then show ?thesis using assms lw_inv_clear by auto
next
  case (LwSave w)
  then show ?thesis using assms lw_inv_save by auto
qed

interpretation lw_fcnt: monotone_issuer "lw_step a" "lw_ok a" "lw_inv a" for a
proof unfold_locales
  fix n s e s2 v
  show "lw_inv a n s2" if "lw_inv a n s" "lw_ok a e s" "lw_step a e s = (s2, None)"
    using lw_inv_step [OF that] by simp
  show "n \<le> unat v \<and> lw_inv a (Suc (unat v)) s2"
    if "lw_inv a n s" "lw_ok a e s" "lw_step a e s = (s2, Some v)"
    using lw_inv_step [OF that] by simp
qed

text \<open>
  C27: Frame counters never repeat. For every device address, the counter values issued for it
  strictly increase over any sequence of uplinks, reboots, table saves and portal edits that
  move, clear and re-add devices, however many storage writes fail or lose their confirmation,
  as long as storage reads succeed and the address has one holder at a time.
\<close>

theorem fcnt_strictly_increasing:
  assumes "lw_inv a n s" and "run_ok (lw_ok a) (lw_step a) es s"
  shows "sorted_wrt (<) (issued (lw_step a) es s) \<and> (\<forall>v \<in> set (issued (lw_step a) es s). n \<le> unat v)"
  using lw_fcnt.issued_increasing [OF assms] lw_fcnt.issued_unspent [OF assms] by blast

definition sample_device :: "u32 \<Rightarrow> lw_device" where
  "sample_device a = zero_device\<lparr>dev_inUse := 1, dev_fport := 1, dev_devAddr := a\<rparr>"

definition sample_lw :: lw_state where
  "sample_lw = \<lparr>lw_dev = [sample_device 7, zero_device, zero_device, zero_device], lw_fcnt = [0, 0, 0, 0],
     lw_reserved = [0, 0, 0, 0], lw_persisted = [0, 0, 0, 0], lw_extDevAddr = 0, lw_extFcnt = 0,
     lw_extReserved = 0, lw_table = LwTable [sample_device 7, zero_device, zero_device, zero_device],
     lw_uints = Map.empty\<rparr>"

text \<open>Two uplinks, a lost confirmation after a reboot, a retry: the counter jumps to 33, then on.\<close>

definition sample_run :: "lw_event list" where
  "sample_run = [LwNext Write_ok 0, LwNext Write_ok 0, LwReboot True, LwNext Write_unconfirmed 0, LwNext Write_ok 0]"

lemma fcnt_strictly_increasing_witness:
  "issued (lw_step 7) sample_run sample_lw = [0, 1, 33] \<and> sorted_wrt (<) (issued (lw_step 7) sample_run sample_lw)"
proof -
  have inv: "lw_inv 7 0 sample_lw"
    by (simp add: lw_inv_def lw_wf_def sample_lw_def sample_device_def zero_device_def lw_holders_def
      holder_ok_def MAX_DEVICES_def durable_def nvs_get_def all_less_4)
  have ok: "run_ok (lw_ok 7) (lw_step 7) sample_run sample_lw"
    by code_simp
  have "issued (lw_step 7) sample_run sample_lw = [0, 1, 33]"
    by code_simp
  with fcnt_strictly_increasing [OF inv ok] show ?thesis by simp
qed

text \<open>
  The one-holder condition is needed: nothing in the portal stops two slots from carrying the
  same address, and then the second issues counter values the first has already used.
\<close>

lemma shared_address_repeats:
  "issued (lw_step 7) [LwSet True 1 (sample_device 7), LwNext Write_ok 0, LwNext Write_ok 1] sample_lw = [0, 0]"
  by (simp add: sample_lw_def sample_device_def zero_device_def setDevice_def loadReservedForAddr_def
    nextFcnt_def advanceFcnt_def issued_for_def lw_consts persistReservedForAddr_def nvs_put_def
    nvs_get_def lw_deviceAt_def)

lemma resolve_most_specific_witness:
  "lw_resolve sample_lw 0x12 5 = Some 0 \<and> (\<exists>r. lw_rank (lw_dev sample_lw ! 0) (protoOf 0x12) 5 = Some r \<and>
     (\<forall>j < length (lw_dev sample_lw). case lw_rank (lw_dev sample_lw ! j) (protoOf 0x12) 5 of
        None \<Rightarrow> True | Some r2 \<Rightarrow> r2 < r \<or> r2 = r \<and> 0 \<le> j))"
proof -
  have r: "lw_resolve sample_lw 0x12 5 = Some 0" by code_simp
  from resolve_most_specific [of sample_lw "0x12" 5] show ?thesis by (simp only: r option.case)
qed

end
