(* ===== verification/CamC2Config.thy ===== *)
theory CamC2Config
  imports Counters Format
begin

text \<open>
  The peer whitelist of the camera's command channel with its inbound anti-replay floors and
  its outbound sequence counter (\<open>src/src/CamC2Config.cpp\<close>, \<open>CamC2Config.h\<close>).
\<close>

definition MAX_PEERS :: nat where "MAX_PEERS = 4"
definition SEQ_RESERVE :: u32 where "SEQ_RESERVE = 16"
definition SEQ_INVALID :: u32 where "SEQ_INVALID = 0xFFFFFFFF"
definition FLAG_PRIMARY_MASTER :: u8 where "FLAG_PRIMARY_MASTER = 0x01"

record c2_peer =
  pr_inUse :: u8
  pr_flags :: u8
  pr_peerId :: u32
  pr_psk :: bytes
  pr_rxHighWater :: u32

definition zero_peer :: c2_peer where
  "zero_peer = \<lparr>pr_inUse = 0, pr_flags = 0, pr_peerId = 0, pr_psk = replicate 16 0, pr_rxHighWater = 0\<rparr>"

datatype c2_blob = C2Absent | C2OtherSize | C2Table "c2_peer list"

record c2_config =
  cc_peer :: "c2_peer list"
  cc_txSeq :: u32
  cc_txReserved :: u32
  cc_table :: c2_blob
  cc_uints :: nvs_uints

definition KEY_TXSEQ :: bytes where
  "KEY_TXSEQ = str ''txseq''"

definition rxKeyForPeer :: "u32 \<Rightarrow> bytes" where
  "rxKeyForPeer i = str ''rx_'' @ fmt_08lx i"

definition loadRxForPeer :: "bool \<Rightarrow> u32 \<Rightarrow> nvs_uints \<Rightarrow> u32" where
  "loadRxForPeer readable i m =
     (if i = 0 then 0 else if \<not> readable then 0 else nvs_get m (rxKeyForPeer i))"

definition persistRxForPeer :: "nvs_write \<Rightarrow> u32 \<Rightarrow> u32 \<Rightarrow> nvs_uints \<Rightarrow> nvs_uints \<times> bool" where
  "persistRxForPeer w i v m = (if i = 0 then (m, False) else nvs_put w (rxKeyForPeer i) v m)"

definition persistTxSeq :: "nvs_write \<Rightarrow> u32 \<Rightarrow> nvs_uints \<Rightarrow> nvs_uints \<times> bool" where
  "persistTxSeq w v m = nvs_put w KEY_TXSEQ v m"

text \<open>The build-flag key: exactly 32 hex digits.\<close>

definition parseHex16 :: "bytes \<Rightarrow> bytes option" where
  "parseHex16 hex = (case parse_hex_from hex 0 16 [] of None \<Rightarrow> None
     | Some key \<Rightarrow> if chr_at hex 32 = 0 then Some key else None)"

definition peer_configured :: "c2_peer \<Rightarrow> bool" where
  "peer_configured p \<longleftrightarrow> pr_inUse p \<noteq> 0 \<and> pr_peerId p \<noteq> 0"

definition cc_anyConfigured :: "c2_config \<Rightarrow> bool" where
  "cc_anyConfigured s \<longleftrightarrow> list_ex peer_configured (cc_peer s)"

text \<open>The build-flag peer: its id, key string and whether it is the primary master.\<close>

type_synonym c2_seed = "(u32 \<times> bytes \<times> bool) option"

definition cc_seed :: "c2_seed \<Rightarrow> bool \<Rightarrow> c2_config \<Rightarrow> c2_config" where
  "cc_seed seed readable s =
     (case seed of None \<Rightarrow> s
      | Some (pid, hex, primary) \<Rightarrow>
          if cc_anyConfigured s then s
          else (case parseHex16 hex of None \<Rightarrow> s
            | Some key \<Rightarrow> s\<lparr>cc_peer := (cc_peer s)[0 := \<lparr>pr_inUse = 1,
                 pr_flags = (if primary then FLAG_PRIMARY_MASTER else 0), pr_peerId = pid, pr_psk = key,
                 pr_rxHighWater = loadRxForPeer readable pid (cc_uints s)\<rparr>]\<rparr>))"

definition cc_begin :: "c2_seed \<Rightarrow> bool \<Rightarrow> c2_config \<Rightarrow> c2_config" where
  "cc_begin seed readable s =
     (let peers = (if readable then (case cc_table s of C2Table ps \<Rightarrow> ps | _ \<Rightarrow> replicate MAX_PEERS zero_peer)
                   else replicate MAX_PEERS zero_peer);
          peers = (if readable then map (\<lambda>p. if pr_peerId p = 0 then p
                     else p\<lparr>pr_rxHighWater := nvs_get (cc_uints s) (rxKeyForPeer (pr_peerId p))\<rparr>) peers
                   else peers);
          txr = (if readable then nvs_get (cc_uints s) KEY_TXSEQ else 0)
      in cc_seed seed readable
           (s\<lparr>cc_peer := peers, cc_txReserved := txr, cc_txSeq := (if txr = 0 then 1 else txr)\<rparr>))"

definition cc_saveTable :: "nvs_write \<Rightarrow> c2_config \<Rightarrow> c2_config" where
  "cc_saveTable w s = (if w = Write_lost then s else s\<lparr>cc_table := C2Table (cc_peer s)\<rparr>)"

fun find_peer :: "u32 \<Rightarrow> nat \<Rightarrow> c2_peer list \<Rightarrow> nat option" where
  "find_peer i k [] = None"
| "find_peer i k (p # ps) = (if pr_inUse p \<noteq> 0 \<and> pr_peerId p = i then Some k else find_peer i (k + 1) ps)"

definition cc_resolve :: "c2_config \<Rightarrow> u32 \<Rightarrow> nat option" where
  "cc_resolve s i = (if i \<noteq> 0 then find_peer i 0 (cc_peer s) else None)"

definition acceptInboundSeq :: "nvs_write \<Rightarrow> int \<Rightarrow> u32 \<Rightarrow> c2_config \<Rightarrow> c2_config \<times> bool" where
  "acceptInboundSeq w i seq s =
     (if i < 0 \<or> int MAX_PEERS \<le> i then (s, False)
      else (let k = nat i; pr = cc_peer s ! k in
        if \<not> peer_configured pr then (s, False)
        else if seq \<le> pr_rxHighWater pr then (s, False)
        else (case persistRxForPeer w (pr_peerId pr) seq (cc_uints s) of
            (m, False) \<Rightarrow> (s\<lparr>cc_uints := m\<rparr>, False)
          | (m, True) \<Rightarrow> (s\<lparr>cc_uints := m, cc_peer := (cc_peer s)[k := pr\<lparr>pr_rxHighWater := seq\<rparr>]\<rparr>, True))))"

definition nextTxSeq :: "nvs_write \<Rightarrow> c2_config \<Rightarrow> c2_config \<times> u32" where
  "nextTxSeq w s =
     (let v = cc_txSeq s in
      if cc_txReserved s \<le> v then
        (if 0xFFFFFFFF - 1 - SEQ_RESERVE < v then (s, SEQ_INVALID)
         else (let nr = v + 1 + SEQ_RESERVE in
           case persistTxSeq w nr (cc_uints s) of
             (m, False) \<Rightarrow> (s\<lparr>cc_uints := m\<rparr>, SEQ_INVALID)
           | (m, True) \<Rightarrow> (s\<lparr>cc_uints := m, cc_txReserved := nr, cc_txSeq := v + 1\<rparr>, v)))
      else (s\<lparr>cc_txSeq := v + 1\<rparr>, v))"

definition cc_peerAt :: "int \<Rightarrow> c2_config \<Rightarrow> c2_peer" where
  "cc_peerAt i s = (if i < 0 \<or> int MAX_PEERS \<le> i then zero_peer else cc_peer s ! nat i)"

definition setPeer :: "bool \<Rightarrow> int \<Rightarrow> c2_peer \<Rightarrow> c2_config \<Rightarrow> c2_config" where
  "setPeer readable i p s =
     (if i < 0 \<or> int MAX_PEERS \<le> i then s
      else (let k = nat i in
        if pr_peerId p \<noteq> pr_peerId (cc_peer s ! k) then
          s\<lparr>cc_peer := (cc_peer s)[k := p\<lparr>pr_rxHighWater := loadRxForPeer readable (pr_peerId p) (cc_uints s)\<rparr>]\<rparr>
        else s\<lparr>cc_peer := (cc_peer s)[k := p]\<rparr>))"

definition clearPeer :: "int \<Rightarrow> c2_config \<Rightarrow> c2_config" where
  "clearPeer i s = (if i < 0 \<or> int MAX_PEERS \<le> i then s
     else s\<lparr>cc_peer := (cc_peer s)[nat i := zero_peer]\<rparr>)"

section \<open>Runs of the module\<close>

datatype c2_event =
    C2Accept nvs_write int u32
  | C2Next nvs_write
  | C2Reboot c2_seed bool
  | C2Set bool int c2_peer
  | C2Clear int
  | C2Save nvs_write

text \<open>One operation; the first number is an outbound sequence number issued, the second an
  inbound one accepted from peer \<open>a\<close>.\<close>

definition tx_issued :: "c2_config \<times> u32 \<Rightarrow> c2_config \<times> u32 option" where
  "tx_issued r = (fst r, if snd r = SEQ_INVALID then None else Some (snd r))"

definition rx_accepted :: "bool \<Rightarrow> u32 \<Rightarrow> c2_config \<times> bool \<Rightarrow> c2_config \<times> u32 option" where
  "rx_accepted mine seq r = (fst r, if mine \<and> snd r then Some seq else None)"

fun c2_tx_step :: "c2_event \<Rightarrow> c2_config \<Rightarrow> c2_config \<times> u32 option" where
  "c2_tx_step (C2Accept w i seq) s = (fst (acceptInboundSeq w i seq s), None)"
| "c2_tx_step (C2Next w) s = tx_issued (nextTxSeq w s)"
| "c2_tx_step (C2Reboot seed readable) s = (cc_begin seed readable s, None)"
| "c2_tx_step (C2Set readable i p) s = (setPeer readable i p s, None)"
| "c2_tx_step (C2Clear i) s = (clearPeer i s, None)"
| "c2_tx_step (C2Save w) s = (cc_saveTable w s, None)"

fun c2_rx_step :: "u32 \<Rightarrow> c2_event \<Rightarrow> c2_config \<Rightarrow> c2_config \<times> u32 option" where
  "c2_rx_step a (C2Accept w i seq) s = rx_accepted (pr_peerId (cc_peerAt i s) = a) seq (acceptInboundSeq w i seq s)"
| "c2_rx_step a (C2Next w) s = (fst (nextTxSeq w s), None)"
| "c2_rx_step a (C2Reboot seed readable) s = (cc_begin seed readable s, None)"
| "c2_rx_step a (C2Set readable i p) s = (setPeer readable i p s, None)"
| "c2_rx_step a (C2Clear i) s = (clearPeer i s, None)"
| "c2_rx_step a (C2Save w) s = (cc_saveTable w s, None)"

subsection \<open>Outbound\<close>

text \<open>The environment of the outbound counter: the namespace opens at every reboot after the
  first write.\<close>

fun c2_tx_ok :: "c2_event \<Rightarrow> c2_config \<Rightarrow> bool" where
  "c2_tx_ok (C2Reboot seed readable) s \<longleftrightarrow> readable \<or> cc_uints s KEY_TXSEQ = None"
| "c2_tx_ok _ s \<longleftrightarrow> True"

definition c2_tx_inv :: "nat \<Rightarrow> c2_config \<Rightarrow> bool" where
  "c2_tx_inv n s \<longleftrightarrow> n \<le> unat (cc_txSeq s) \<and> n \<le> max 1 (unat (nvs_get (cc_uints s) KEY_TXSEQ)) \<and>
     cc_txReserved s \<le> nvs_get (cc_uints s) KEY_TXSEQ"

lemma tx_key_other: "KEY_TXSEQ \<noteq> rxKeyForPeer a"
proof -
  have "length KEY_TXSEQ \<noteq> length (rxKeyForPeer a)" by (simp add: KEY_TXSEQ_def rxKeyForPeer_def str_def)
  then show ?thesis by metis
qed

lemma c2_tx_inv_next:
  assumes "c2_tx_inv n s" and st: "nextTxSeq w s = (s2, v)"
  shows "if v = SEQ_INVALID then c2_tx_inv n s2 else n \<le> unat v \<and> c2_tx_inv (Suc (unat v)) s2"
proof -
  define f where "f = cc_txSeq s"
  define m where "m = cc_uints s"
  have i: "n \<le> unat f" "n \<le> max 1 (unat (nvs_get m KEY_TXSEQ))" "cc_txReserved s \<le> nvs_get m KEY_TXSEQ"
    using assms(1) by (auto simp: c2_tx_inv_def f_def m_def)
  show ?thesis
  proof (cases "f < cc_txReserved s")
    case True
    then have lt: "f < nvs_get m KEY_TXSEQ" using i(3) by (rule order.strict_trans2)
    have "nextTxSeq w s = (s\<lparr>cc_txSeq := f + 1\<rparr>, f)" using True by (auto simp: nextTxSeq_def f_def Let_def)
    then have r: "s2 = s\<lparr>cc_txSeq := f + 1\<rparr>" "v = f" using st by auto
    have "f \<noteq> SEQ_INVALID" by (rule below_not_max [OF True, folded SEQ_INVALID_def])
    then show ?thesis using r i lt unat_succ [OF True]
      by (auto simp: c2_tx_inv_def word_less_nat_alt simp flip: m_def)
  next
    case False
    show ?thesis
    proof (cases "0xFFFFFFFF - 1 - SEQ_RESERVE < f")
      case True
      with False have "nextTxSeq w s = (s, SEQ_INVALID)" by (auto simp: nextTxSeq_def f_def Let_def)
      with st assms(1) show ?thesis by simp
    next
      case g: False
      then have u: "unat f \<le> 4294967278" by (simp add: SEQ_RESERVE_def word_less_nat_alt)
      then have s1: "unat (f + 1) = Suc (unat f)" and s2: "unat (f + 1 + SEQ_RESERVE) = unat f + 17"
        by (simp_all add: SEQ_RESERVE_def unat_word_ariths)
      have nm: "f \<noteq> SEQ_INVALID" using u by (auto simp: SEQ_INVALID_def)
      have ge: "cc_txReserved s \<le> f + 1 + SEQ_RESERVE" using False s2 by (simp add: word_le_nat_alt not_less)
      have "nextTxSeq w s = (case nvs_put w KEY_TXSEQ (f + 1 + SEQ_RESERVE) m of
          (m2, False) \<Rightarrow> (s\<lparr>cc_uints := m2\<rparr>, SEQ_INVALID)
        | (m2, True) \<Rightarrow> (s\<lparr>cc_uints := m2, cc_txReserved := f + 1 + SEQ_RESERVE, cc_txSeq := f + 1\<rparr>, f))"
        using False g
        by (auto simp: nextTxSeq_def f_def m_def Let_def persistTxSeq_def split: prod.splits bool.splits)
      then show ?thesis using st i s1 s2 nm ge assms(1)
        by (cases w) (auto simp: nvs_put_def nvs_get_upd c2_tx_inv_def simp flip: m_def f_def)
    qed
  qed
qed

lemma put_rx_keeps_tx: "nvs_get (fst (persistRxForPeer w a v m)) KEY_TXSEQ = nvs_get m KEY_TXSEQ"
  using tx_key_other [of a] by (auto simp: persistRxForPeer_def nvs_put_def nvs_get_upd)

lemma accept_fields:
  assumes "acceptInboundSeq w i seq s = (s2, b)"
  shows "cc_txSeq s2 = cc_txSeq s" and "cc_txReserved s2 = cc_txReserved s" and "cc_table s2 = cc_table s"
    and "nvs_get (cc_uints s2) KEY_TXSEQ = nvs_get (cc_uints s) KEY_TXSEQ"
  using assms put_rx_keeps_tx [of w _ seq "cc_uints s"]
  by (auto simp: acceptInboundSeq_def Let_def split: if_splits prod.splits bool.splits) (metis fst_conv)+

lemma seed_fields:
  "cc_txSeq (cc_seed seed rd s) = cc_txSeq s" "cc_txReserved (cc_seed seed rd s) = cc_txReserved s"
  "cc_uints (cc_seed seed rd s) = cc_uints s" "cc_table (cc_seed seed rd s) = cc_table s"
  by (auto simp: cc_seed_def split: option.splits)

lemma c2_tx_inv_step:
  assumes "c2_tx_inv n s" and "c2_tx_ok e s" and "c2_tx_step e s = (s2, r)"
  shows "case r of None \<Rightarrow> c2_tx_inv n s2 | Some v \<Rightarrow> n \<le> unat v \<and> c2_tx_inv (Suc (unat v)) s2"
proof (cases e)
  case (C2Accept w i seq)
  obtain s3 b where ac: "acceptInboundSeq w i seq s = (s3, b)" by fastforce
  from C2Accept ac accept_fields [OF ac] show ?thesis using assms(1,3) by (auto simp: c2_tx_inv_def)
next
  case (C2Next w)
  obtain s3 v where nx: "nextTxSeq w s = (s3, v)" by fastforce
  from C2Next nx c2_tx_inv_next [OF assms(1) nx] show ?thesis
    using assms(3) by (auto simp: tx_issued_def split: if_splits)
next
  case (C2Reboot seed rd)
  then have "r = None" "s2 = cc_begin seed rd s" using assms(3) by auto
  moreover have "nvs_get (cc_uints s) KEY_TXSEQ = 0" if "\<not> rd"
    using assms(2) C2Reboot that by (auto simp: nvs_get_def)
  moreover have "nvs_get (cc_uints s) KEY_TXSEQ \<noteq> 0 \<Longrightarrow> Suc 0 \<le> unat (nvs_get (cc_uints s) KEY_TXSEQ)"
    by (simp add: Suc_le_eq unat_gt_0)
  ultimately show ?thesis using assms(1)
    by (auto simp: c2_tx_inv_def cc_begin_def seed_fields Let_def word_le_nat_alt max_def split: if_splits)
next
  case (C2Set rd i p)
  then show ?thesis using assms by (auto simp: c2_tx_inv_def setPeer_def Let_def)
next
  case (C2Clear i)
  then show ?thesis using assms by (auto simp: c2_tx_inv_def clearPeer_def)
next
  case (C2Save w)
  then show ?thesis using assms by (auto simp: c2_tx_inv_def cc_saveTable_def)
qed

interpretation c2_tx: monotone_issuer c2_tx_step c2_tx_ok c2_tx_inv
proof unfold_locales
  fix n s e s2 v
  show "c2_tx_inv n s2" if "c2_tx_inv n s" "c2_tx_ok e s" "c2_tx_step e s = (s2, None)"
    using c2_tx_inv_step [OF that] by simp
  show "n \<le> unat v \<and> c2_tx_inv (Suc (unat v)) s2"
    if "c2_tx_inv n s" "c2_tx_ok e s" "c2_tx_step e s = (s2, Some v)"
    using c2_tx_inv_step [OF that] by simp
qed

subsection \<open>Inbound\<close>

definition c2_holders :: "u32 \<Rightarrow> c2_config \<Rightarrow> nat" where
  "c2_holders a s = length (filter (\<lambda>p. pr_peerId p = a) (cc_peer s))"

text \<open>
  The environment of the inbound floor of peer \<open>a\<close>: storage reads succeed, a portal edit that
  keeps a slot's peer also keeps its floor (as \<open>handlePeersPost\<close> does), and \<open>a\<close> has one slot.
\<close>

fun c2_rx_env :: "u32 \<Rightarrow> c2_event \<Rightarrow> c2_config \<Rightarrow> bool" where
  "c2_rx_env a (C2Reboot seed readable) s \<longleftrightarrow> readable"
| "c2_rx_env a (C2Set readable i p) s \<longleftrightarrow> readable \<and>
     (pr_peerId p = a \<and> pr_peerId (cc_peerAt i s) = a \<longrightarrow> pr_rxHighWater p = pr_rxHighWater (cc_peerAt i s))"
| "c2_rx_env a _ s \<longleftrightarrow> True"

definition c2_rx_ok :: "u32 \<Rightarrow> c2_event \<Rightarrow> c2_config \<Rightarrow> bool" where
  "c2_rx_ok a e s \<longleftrightarrow> c2_rx_env a e s \<and> c2_holders a (fst (c2_rx_step a e s)) \<le> 1"

definition cc_wf :: "c2_config \<Rightarrow> bool" where
  "cc_wf s \<longleftrightarrow> length (cc_peer s) = MAX_PEERS \<and> (case cc_table s of C2Table ps \<Rightarrow> length ps = MAX_PEERS | _ \<Rightarrow> True)"

definition c2_rx_inv :: "u32 \<Rightarrow> nat \<Rightarrow> c2_config \<Rightarrow> bool" where
  "c2_rx_inv a n s \<longleftrightarrow> a \<noteq> 0 \<and> cc_wf s \<and> c2_holders a s \<le> 1 \<and>
     n \<le> Suc (unat (nvs_get (cc_uints s) (rxKeyForPeer a))) \<and>
     (\<forall>i < MAX_PEERS. pr_peerId (cc_peer s ! i) = a \<longrightarrow> n \<le> Suc (unat (pr_rxHighWater (cc_peer s ! i))))"

lemma rx_key_inj: "rxKeyForPeer a = rxKeyForPeer b \<longleftrightarrow> a = b"
  by (simp add: rxKeyForPeer_def fmt_08lx_inj)

lemma rx_keys_fit: "length (rxKeyForPeer a) = 11"
  by (simp add: rxKeyForPeer_def str_def)

lemma c2_rx_inv_accept:
  assumes inv: "c2_rx_inv a n s" and st: "acceptInboundSeq w i seq s = (s2, b)"
  shows "if pr_peerId (cc_peerAt i s) = a \<and> b
    then n \<le> unat seq \<and> c2_rx_inv a (Suc (unat seq)) s2 else c2_rx_inv a n s2"
proof (cases "i < 0 \<or> int MAX_PEERS \<le> i \<or> \<not> peer_configured (cc_peer s ! nat i) \<or> seq \<le> pr_rxHighWater (cc_peer s ! nat i)")
  case True
  then have "s2 = s" "\<not> b" using st by (auto simp: acceptInboundSeq_def Let_def split: if_splits)
  with inv show ?thesis by simp
next
  case False
  define k where "k = nat i"
  define q where "q = pr_peerId (cc_peer s ! k)"
  have k: "k < MAX_PEERS" "cc_peerAt i s = cc_peer s ! k" using False by (auto simp: k_def cc_peerAt_def)
  have q: "q \<noteq> 0" and hw: "pr_rxHighWater (cc_peer s ! k) < seq"
    using False by (auto simp: q_def k_def peer_configured_def not_le)
  have acc: "acceptInboundSeq w i seq s = (if w = Write_ok
      then (s\<lparr>cc_uints := (cc_uints s)(rxKeyForPeer q \<mapsto> seq), cc_peer := (cc_peer s)[k := (cc_peer s ! k)\<lparr>pr_rxHighWater := seq\<rparr>]\<rparr>, True)
      else (s\<lparr>cc_uints := (if w = Write_lost then cc_uints s else (cc_uints s)(rxKeyForPeer q \<mapsto> seq))\<rparr>, False))"
    using False q by (cases w) (auto simp: acceptInboundSeq_def Let_def k_def q_def persistRxForPeer_def nvs_put_def)
  have f: "a \<noteq> 0" "cc_wf s" "c2_holders a s \<le> 1" "n \<le> Suc (unat (nvs_get (cc_uints s) (rxKeyForPeer a)))"
    "\<And>j. j < MAX_PEERS \<Longrightarrow> pr_peerId (cc_peer s ! j) = a \<Longrightarrow> n \<le> Suc (unat (pr_rxHighWater (cc_peer s ! j)))"
    using inv by (auto simp: c2_rx_inv_def)
  have len: "length (cc_peer s) = MAX_PEERS" using f(2) by (simp add: cc_wf_def)
  have hold: "c2_holders a (s\<lparr>cc_uints := u, cc_peer := (cc_peer s)[k := (cc_peer s ! k)\<lparr>pr_rxHighWater := seq\<rparr>]\<rparr>) = c2_holders a s" for u
  proof -
    have "map pr_peerId ((cc_peer s)[k := (cc_peer s ! k)\<lparr>pr_rxHighWater := seq\<rparr>]) = map pr_peerId (cc_peer s)"
      using k(1) len by (simp add: map_update list_update_same_conv)
    then have "length (filter (\<lambda>i. i = a) (map pr_peerId ((cc_peer s)[k := (cc_peer s ! k)\<lparr>pr_rxHighWater := seq\<rparr>])))
        = length (filter (\<lambda>i. i = a) (map pr_peerId (cc_peer s)))" by simp
    then show ?thesis by (simp add: c2_holders_def filter_map comp_def)
  qed
  show ?thesis
  proof (cases "q = a")
    case True
    then have n: "n \<le> unat seq" using f(5) [OF k(1)] hw by (auto simp: q_def word_less_nat_alt)
    have one: "j < MAX_PEERS \<Longrightarrow> pr_peerId (cc_peer s ! j) = a \<Longrightarrow> j = k" for j
      using filter_once [of "\<lambda>p. pr_peerId p = a" "cc_peer s" j k] f(3) k(1) len True
      by (simp add: c2_holders_def q_def)
    show ?thesis
    proof (cases "w = Write_ok")
      case w: True
      then have "s2 = s\<lparr>cc_uints := (cc_uints s)(rxKeyForPeer q \<mapsto> seq),
          cc_peer := (cc_peer s)[k := (cc_peer s ! k)\<lparr>pr_rxHighWater := seq\<rparr>]\<rparr>" "b" using st acc by auto
      then have s2: "cc_uints s2 = (cc_uints s)(rxKeyForPeer a \<mapsto> seq)" "cc_wf s2" "c2_holders a s2 \<le> 1"
          "cc_peer s2 = (cc_peer s)[k := (cc_peer s ! k)\<lparr>pr_rxHighWater := seq\<rparr>]" and bt: "b"
        using True hold f(2,3) by (simp_all add: cc_wf_def)
      have "pr_rxHighWater (cc_peer s2 ! j) = seq" if "j < MAX_PEERS" "pr_peerId (cc_peer s2 ! j) = a" for j
        using one [of j] that k(1) len by (cases "j = k") (auto simp: s2(4))
      then have "c2_rx_inv a (Suc (unat seq)) s2"
        using f(1) s2(1,2,3) by (simp add: c2_rx_inv_def nvs_get_upd)
      with n bt k(2) True show ?thesis by (simp add: q_def)
    next
      case w: False
      then have "s2 = s\<lparr>cc_uints := (if w = Write_lost then cc_uints s else (cc_uints s)(rxKeyForPeer q \<mapsto> seq))\<rparr>" "\<not> b"
        using st acc by auto
      then show ?thesis using n f True
        by (auto simp: c2_rx_inv_def cc_wf_def nvs_get_upd c2_holders_def)
    qed
  next
    case False
    show ?thesis
    proof (cases "w = Write_ok")
      case w: True
      then have "s2 = s\<lparr>cc_uints := (cc_uints s)(rxKeyForPeer q \<mapsto> seq),
          cc_peer := (cc_peer s)[k := (cc_peer s ! k)\<lparr>pr_rxHighWater := seq\<rparr>]\<rparr>" using st acc by auto
      then show ?thesis using f False k len hold
        by (auto simp: c2_rx_inv_def cc_wf_def nvs_get_upd rx_key_inj nth_list_update q_def)
    next
      case w: False
      then have "s2 = s\<lparr>cc_uints := (if w = Write_lost then cc_uints s else (cc_uints s)(rxKeyForPeer q \<mapsto> seq))\<rparr>"
        using st acc by auto
      then show ?thesis using f False k
        by (auto simp: c2_rx_inv_def cc_wf_def nvs_get_upd rx_key_inj c2_holders_def q_def)
    qed
  qed
qed

lemma c2_rx_invD:
  assumes "c2_rx_inv a n s"
  shows "a \<noteq> 0" and "cc_wf s" and "c2_holders a s \<le> 1"
    and "n \<le> Suc (unat (nvs_get (cc_uints s) (rxKeyForPeer a)))"
    and "j < MAX_PEERS \<Longrightarrow> pr_peerId (cc_peer s ! j) = a \<Longrightarrow> n \<le> Suc (unat (pr_rxHighWater (cc_peer s ! j)))"
  using assms by (auto simp: c2_rx_inv_def)

lemma next_keeps_rx:
  assumes "nextTxSeq w s = (s2, v)"
  shows "cc_peer s2 = cc_peer s" and "cc_table s2 = cc_table s"
    and "nvs_get (cc_uints s2) (rxKeyForPeer a) = nvs_get (cc_uints s) (rxKeyForPeer a)"
  using assms tx_key_other [of a]
  by (auto simp: nextTxSeq_def persistTxSeq_def nvs_put_def nvs_get_upd Let_def split: if_splits prod.splits bool.splits)

text \<open>The peer table right after a reboot, before the build-flag seed.\<close>

definition booted_peers :: "c2_config \<Rightarrow> c2_peer list" where
  "booted_peers s = map (\<lambda>p. if pr_peerId p = 0 then p
      else p\<lparr>pr_rxHighWater := nvs_get (cc_uints s) (rxKeyForPeer (pr_peerId p))\<rparr>)
    (case cc_table s of C2Table ps \<Rightarrow> ps | _ \<Rightarrow> replicate MAX_PEERS zero_peer)"

lemma begin_booted: "cc_begin seed True s = cc_seed seed True (s\<lparr>cc_peer := booted_peers s,
    cc_txReserved := nvs_get (cc_uints s) KEY_TXSEQ,
    cc_txSeq := (if nvs_get (cc_uints s) KEY_TXSEQ = 0 then 1 else nvs_get (cc_uints s) KEY_TXSEQ)\<rparr>)"
  by (simp add: cc_begin_def booted_peers_def Let_def)

lemma booted_floor:
  assumes "cc_wf s" and "p \<in> set (booted_peers s)" and "pr_peerId p = a" and "a \<noteq> 0"
  shows "pr_rxHighWater p = nvs_get (cc_uints s) (rxKeyForPeer a)"
  using assms(2-4) by (auto simp: booted_peers_def)

lemma length_booted: "cc_wf s \<Longrightarrow> length (booted_peers s) = MAX_PEERS"
  by (auto simp: cc_wf_def booted_peers_def split: c2_blob.splits)

lemma seed_peer_nth:
  assumes "j < length (cc_peer s)"
  shows "cc_peer (cc_seed seed rd s) ! j = cc_peer s ! j \<or>
    pr_rxHighWater (cc_peer (cc_seed seed rd s) ! j) =
      loadRxForPeer rd (pr_peerId (cc_peer (cc_seed seed rd s) ! j)) (cc_uints s)"
  using assms by (cases j) (auto simp: cc_seed_def nth_list_update split: option.splits)

lemma begin_peers:
  assumes wf: "cc_wf s" and j: "j < MAX_PEERS"
    and a: "pr_peerId (cc_peer (cc_begin seed True s) ! j) = a" "a \<noteq> 0"
  shows "pr_rxHighWater (cc_peer (cc_begin seed True s) ! j) = nvs_get (cc_uints s) (rxKeyForPeer a)"
proof -
  define t where "t = s\<lparr>cc_peer := booted_peers s, cc_txReserved := nvs_get (cc_uints s) KEY_TXSEQ,
    cc_txSeq := (if nvs_get (cc_uints s) KEY_TXSEQ = 0 then 1 else nvs_get (cc_uints s) KEY_TXSEQ)\<rparr>"
  have t: "cc_begin seed True s = cc_seed seed True t" "cc_peer t = booted_peers s" "cc_uints t = cc_uints s"
    by (simp_all add: begin_booted t_def)
  have "j < length (cc_peer t)" using j length_booted [OF wf] t(2) by simp
  from seed_peer_nth [OF this, of seed True] show ?thesis
  proof
    assume "cc_peer (cc_seed seed True t) ! j = cc_peer t ! j"
    then show ?thesis
      using booted_floor [OF wf, of "booted_peers s ! j" a] a t j length_booted [OF wf] by simp
  next
    assume "pr_rxHighWater (cc_peer (cc_seed seed True t) ! j) =
      loadRxForPeer True (pr_peerId (cc_peer (cc_seed seed True t) ! j)) (cc_uints t)"
    then show ?thesis using a t by (simp add: loadRxForPeer_def)
  qed
qed

lemma seed_length: "length (cc_peer (cc_seed seed rd s)) = length (cc_peer s)"
  by (auto simp: cc_seed_def split: option.splits)

lemma begin_wf: "cc_wf s \<Longrightarrow> cc_wf (cc_begin seed True s)"
  using length_booted [of s] by (simp add: begin_booted cc_wf_def seed_fields seed_length)

lemma c2_rx_inv_set:
  assumes inv: "c2_rx_inv a n s" and env: "c2_rx_env a (C2Set True i p) s" and h: "c2_holders a (setPeer True i p s) \<le> 1"
  shows "c2_rx_inv a n (setPeer True i p s)"
proof (cases "i < 0 \<or> int MAX_PEERS \<le> i")
  case True
  then show ?thesis using inv by (simp add: setPeer_def)
next
  case False
  then have k: "nat i < MAX_PEERS" "cc_peerAt i s = cc_peer s ! nat i" by (auto simp: cc_peerAt_def)
  note f = c2_rx_invD [OF inv]
  have len: "length (cc_peer s) = MAX_PEERS" using f(2) by (simp add: cc_wf_def)
  have "n \<le> Suc (unat (pr_rxHighWater (cc_peer (setPeer True i p s) ! j)))"
    if j: "j < MAX_PEERS" "pr_peerId (cc_peer (setPeer True i p s) ! j) = a" for j
  proof (cases "j = nat i")
    case True
    then have "pr_peerId p = a" using j(2) False k len by (auto simp: setPeer_def Let_def split: if_splits)
    then show ?thesis using True f(1,4) f(5) [OF k(1)] env False k len
      by (auto simp: setPeer_def Let_def loadRxForPeer_def)
  next
    case ne: False
    then have "cc_peer (setPeer True i p s) ! j = cc_peer s ! j" using False by (simp add: setPeer_def Let_def)
    with j f(5) show ?thesis by simp
  qed
  then show ?thesis using f h False
    by (auto simp: c2_rx_inv_def cc_wf_def setPeer_def Let_def)
qed

lemma c2_rx_inv_clear:
  assumes inv: "c2_rx_inv a n s"
  shows "c2_rx_inv a n (clearPeer i s)"
proof (cases "i < 0 \<or> int MAX_PEERS \<le> i")
  case True
  then show ?thesis using inv by (simp add: clearPeer_def)
next
  case False
  note f = c2_rx_invD [OF inv]
  have len: "length (cc_peer s) = MAX_PEERS" using f(2) by (simp add: cc_wf_def)
  have "length (filter (\<lambda>p. pr_peerId p = a) (ps[k := zero_peer])) \<le> length (filter (\<lambda>p. pr_peerId p = a) ps)" for ps k
    using f(1) by (induction ps arbitrary: k) (auto simp: zero_peer_def split: nat.split)
  then have "c2_holders a (clearPeer i s) \<le> c2_holders a s"
    by (simp add: c2_holders_def clearPeer_def)
  then have h: "c2_holders a (clearPeer i s) \<le> 1" using f(3) by (rule order_trans)
  have "n \<le> Suc (unat (pr_rxHighWater (cc_peer (clearPeer i s) ! j)))"
    if j: "j < MAX_PEERS" "pr_peerId (cc_peer (clearPeer i s) ! j) = a" for j
  proof -
    have "j \<noteq> nat i" using j f(1) False len by (auto simp: clearPeer_def zero_peer_def)
    then show ?thesis using j f(5) False by (simp add: clearPeer_def)
  qed
  then show ?thesis using f h False by (auto simp: c2_rx_inv_def cc_wf_def clearPeer_def)
qed

lemma c2_rx_inv_step:
  assumes inv: "c2_rx_inv a n s" and ok: "c2_rx_ok a e s" and st: "c2_rx_step a e s = (s2, r)"
  shows "case r of None \<Rightarrow> c2_rx_inv a n s2 | Some v \<Rightarrow> n \<le> unat v \<and> c2_rx_inv a (Suc (unat v)) s2"
proof (cases e)
  case (C2Accept w i seq)
  obtain s3 b where ac: "acceptInboundSeq w i seq s = (s3, b)" by fastforce
  from C2Accept ac c2_rx_inv_accept [OF inv ac] show ?thesis
    using st by (auto simp: rx_accepted_def split: if_splits)
next
  case (C2Next w)
  obtain s3 v where nx: "nextTxSeq w s = (s3, v)" by fastforce
  from C2Next nx next_keeps_rx [OF nx] c2_rx_invD [OF inv] show ?thesis
    using st by (auto simp: c2_rx_inv_def cc_wf_def c2_holders_def)
next
  case (C2Reboot seed rd)
  note f = c2_rx_invD [OF inv]
  have rd: rd "r = None" "s2 = cc_begin seed True s" "c2_holders a s2 \<le> 1"
    using ok st C2Reboot by (auto simp: c2_rx_ok_def)
  have "cc_uints s2 = cc_uints s" using rd(3) by (simp add: cc_begin_def seed_fields Let_def)
  then show ?thesis using f rd begin_wf [OF f(2)] begin_peers [OF f(2) _ _ f(1)] by (auto simp: c2_rx_inv_def)
next
  case (C2Set rd i p)
  then show ?thesis using ok st c2_rx_inv_set [OF inv, of i p] by (auto simp: c2_rx_ok_def)
next
  case (C2Clear i)
  then show ?thesis using st c2_rx_inv_clear [OF inv] by auto
next
  case (C2Save w)
  then show ?thesis using st c2_rx_invD [OF inv] by (auto simp: c2_rx_inv_def cc_saveTable_def cc_wf_def c2_holders_def)
qed

interpretation c2_rx: monotone_issuer "c2_rx_step a" "c2_rx_ok a" "c2_rx_inv a" for a
proof unfold_locales
  fix n s e s2 v
  show "c2_rx_inv a n s2" if "c2_rx_inv a n s" "c2_rx_ok a e s" "c2_rx_step a e s = (s2, None)"
    using c2_rx_inv_step [OF that] by simp
  show "n \<le> unat v \<and> c2_rx_inv a (Suc (unat v)) s2"
    if "c2_rx_inv a n s" "c2_rx_ok a e s" "c2_rx_step a e s = (s2, Some v)"
    using c2_rx_inv_step [OF that] by simp
qed

section \<open>Properties\<close>

text \<open>
  C25: No replay. The sequence numbers accepted from a peer strictly increase over any sequence
  of deliveries, reboots, table saves and pairing edits, however many storage writes fail or
  lose their confirmation: no command is acted on twice, as long as storage reads succeed and
  the peer occupies one slot.
\<close>

theorem inbound_seq_never_replayed:
  assumes "c2_rx_inv a 0 s" and "run_ok (c2_rx_ok a) (c2_rx_step a) es s"
  shows "sorted_wrt (<) (issued (c2_rx_step a) es s) \<and> distinct (issued (c2_rx_step a) es s)"
  using c2_rx.issued_increasing [OF assms] c2_rx.issued_once [OF assms] by blast


definition sample_peer :: "u32 \<Rightarrow> c2_peer" where
  "sample_peer a = zero_peer\<lparr>pr_inUse := 1, pr_peerId := a\<rparr>"

definition sample_cc :: c2_config where
  "sample_cc = \<lparr>cc_peer = [sample_peer 9, zero_peer, zero_peer, zero_peer], cc_txSeq = 1, cc_txReserved = 0,
     cc_table = C2Table [sample_peer 9, zero_peer, zero_peer, zero_peer], cc_uints = Map.empty\<rparr>"

definition sample_c2_run :: "c2_event list" where
  "sample_c2_run = [C2Accept Write_ok 0 5, C2Next Write_ok, C2Reboot None True, C2Accept Write_ok 0 5, C2Next Write_ok,
     C2Accept Write_lost 0 6, C2Accept Write_ok 0 6]"

lemma inbound_seq_witness:
  "issued (c2_rx_step 9) sample_c2_run sample_cc = [5, 6] \<and> distinct (issued (c2_rx_step 9) sample_c2_run sample_cc)"
proof -
  have inv: "c2_rx_inv 9 0 sample_cc"
    by (simp add: c2_rx_inv_def cc_wf_def c2_holders_def sample_cc_def sample_peer_def zero_peer_def MAX_PEERS_def)
  have ok: "run_ok (c2_rx_ok 9) (c2_rx_step 9) sample_c2_run sample_cc" by code_simp
  have "issued (c2_rx_step 9) sample_c2_run sample_cc = [5, 6]" by code_simp
  with inbound_seq_never_replayed [OF inv ok] show ?thesis by simp
qed


text \<open>
  One slot per peer is needed: with the same id in two slots, the second keeps the floor it was
  created with, and once the first is cleared it accepts an old command again.
\<close>

lemma shared_slot_replays:
  "issued (c2_rx_step 9) [C2Set True 1 (sample_peer 9), C2Accept Write_ok 0 5, C2Clear 0, C2Accept Write_ok 1 5] sample_cc
     = [5, 5]"
  by code_simp

end
