(* ===== verification/CamC2.thy ===== *)
theory CamC2
  imports CamC2Config LoRaWANCrypto
begin

text \<open>
  The camera command-and-control layer (\<open>src/src/CamC2.cpp\<close>, \<open>CamC2.h\<close>): the signed and
  encrypted frame, the authenticated inbound path, command execution, beacons, messages and the
  message ring. The camera itself answers through the environment record and is driven by the
  action log; the emit seam is an outbox.
\<close>

definition C2_MAGIC_VER :: u8 where "C2_MAGIC_VER = 0xC2"
definition C2_HDR_LEN :: nat where "C2_HDR_LEN = 14"
definition C2_TAG_LEN :: nat where "C2_TAG_LEN = 8"
definition C2_MAX_PAYLOAD :: nat where "C2_MAX_PAYLOAD = 64"
definition C2_MIN_FRAME :: nat where "C2_MIN_FRAME = 22"
definition C2_MAX_FRAME :: nat where "C2_MAX_FRAME = 86"
definition MSG_TEXT_MAX :: nat where "MSG_TEXT_MAX = 48"
definition MSG_RING :: nat where "MSG_RING = 12"

lemmas c2_sizes = C2_HDR_LEN_def C2_TAG_LEN_def C2_MAX_PAYLOAD_def C2_MIN_FRAME_def C2_MAX_FRAME_def
  MSG_TEXT_MAX_def

definition T_CMD :: u8 where "T_CMD = 1"
definition T_ACK :: u8 where "T_ACK = 2"
definition T_EVT :: u8 where "T_EVT = 3"
definition T_BEACON :: u8 where "T_BEACON = 4"
definition T_MSG :: u8 where "T_MSG = 5"

definition CMD_NONE :: u8 where "CMD_NONE = 0"
definition CMD_START_CAPTURE :: u8 where "CMD_START_CAPTURE = 1"
definition CMD_RECORD :: u8 where "CMD_RECORD = 2"
definition CMD_STOP :: u8 where "CMD_STOP = 3"
definition CMD_SET_QUALITY :: u8 where "CMD_SET_QUALITY = 4"
definition CMD_SET_FRAMESIZE :: u8 where "CMD_SET_FRAMESIZE = 5"
definition CMD_GET_STATUS :: u8 where "CMD_GET_STATUS = 6"

definition RES_OK :: u8 where "RES_OK = 0"
definition RES_ERR :: u8 where "RES_ERR = 1"
definition RES_BUSY :: u8 where "RES_BUSY = 2"
definition RES_BADARG :: u8 where "RES_BADARG = 3"
definition RES_NOCAM :: u8 where "RES_NOCAM = 4"

lemmas c2_codes = T_CMD_def T_ACK_def T_EVT_def T_BEACON_def T_MSG_def CMD_NONE_def CMD_START_CAPTURE_def
  CMD_RECORD_def CMD_STOP_def CMD_SET_QUALITY_def CMD_SET_FRAMESIZE_def CMD_GET_STATUS_def
  RES_OK_def RES_ERR_def RES_BUSY_def RES_BADARG_def RES_NOCAM_def

section \<open>The frame\<close>

definition ctEqual :: "bytes \<Rightarrow> bytes \<Rightarrow> nat \<Rightarrow> bool" where
  "ctEqual a b n \<longleftrightarrow> foldl (\<lambda>d i. d OR (a ! i XOR b ! i)) 0 [0..<n] = 0"

definition key_label :: "u8 \<Rightarrow> bytes" where
  "key_label l = l # replicate 15 0"

definition deriveKeys :: "(bytes \<Rightarrow> bytes \<Rightarrow> bytes) \<Rightarrow> bytes \<Rightarrow> bytes \<times> bytes" where
  "deriveKeys aes psk = (aes psk (key_label 0x01), aes psk (key_label 0x02))"

definition c2_header :: "u8 \<Rightarrow> u32 \<Rightarrow> u32 \<Rightarrow> u32 \<Rightarrow> bytes" where
  "c2_header type sender recip seq = [C2_MAGIC_VER, type] @ le32 sender @ le32 recip @ le32 seq"

definition c2_buildFrame ::
  "(bytes \<Rightarrow> bytes \<Rightarrow> bytes) \<Rightarrow> u8 \<Rightarrow> u32 \<Rightarrow> u32 \<Rightarrow> u32 \<Rightarrow> bytes \<Rightarrow> bytes \<Rightarrow> nat \<Rightarrow> bytes option" where
  "c2_buildFrame aes type sender recip seq psk payload cap =
     (if C2_MAX_PAYLOAD < length payload then None
      else if cap < C2_HDR_LEN + length payload + C2_TAG_LEN then None
      else (case deriveKeys aes psk of (macKey, encKey) \<Rightarrow>
        let msg = c2_header type sender recip seq @ cryptFrmPayload aes encKey sender seq payload
        in Some (msg @ take C2_TAG_LEN (aesCmac aes macKey msg))))"

record c2_decoded =
  dc_type :: u8
  dc_sender :: u32
  dc_recip :: u32
  dc_seq :: u32
  dc_plain :: bytes

definition verifyAndDecrypt :: "(bytes \<Rightarrow> bytes \<Rightarrow> bytes) \<Rightarrow> bytes \<Rightarrow> bytes \<Rightarrow> c2_decoded option" where
  "verifyAndDecrypt aes buf psk =
     (if length buf < C2_MIN_FRAME \<or> C2_MAX_FRAME < length buf then None
      else if buf ! 0 \<noteq> C2_MAGIC_VER then None
      else (let authLen = length buf - C2_TAG_LEN; payloadLen = authLen - C2_HDR_LEN in
        if C2_MAX_PAYLOAD < payloadLen then None
        else (case deriveKeys aes psk of (macKey, encKey) \<Rightarrow>
          if \<not> ctEqual (aesCmac aes macKey (take authLen buf)) (drop authLen buf) C2_TAG_LEN then None
          else (let sender = get32 buf 2; seq = get32 buf 10 in
            Some \<lparr>dc_type = buf ! 1, dc_sender = sender, dc_recip = get32 buf 6, dc_seq = seq,
              dc_plain = cryptFrmPayload aes encKey sender seq (take payloadLen (drop C2_HDR_LEN buf))\<rparr>))))"

definition camSelfTest :: "(bytes \<Rightarrow> bytes \<Rightarrow> bytes) \<Rightarrow> bool" where
  "camSelfTest aes =
     (let psk = map (\<lambda>i. of_nat (i + 1)) [0..<16]; pt = [CMD_GET_STATUS, 0xAA, 0xBB] in
      case c2_buildFrame aes T_CMD 0x11223344 0x55667788 7 psk pt C2_MAX_FRAME of
        None \<Rightarrow> False
      | Some frame \<Rightarrow>
          (let good = (verifyAndDecrypt aes frame psk = Some \<lparr>dc_type = T_CMD, dc_sender = 0x11223344,
                 dc_recip = 0x55667788, dc_seq = 7, dc_plain = pt\<rparr>);
               n = length frame;
               rejected = (verifyAndDecrypt aes (frame[n - 1 := frame ! (n - 1) XOR 0x01]) psk = None)
           in good \<and> rejected))"

section \<open>State\<close>

record c2_message =
  me_fromId :: u32
  me_atSec :: u32
  me_text :: bytes

text \<open>What the camera was told to do.\<close>

datatype cam_action = CamSnap | CamRecordStart u16 | CamRecordStop

record c2_state =
  c2_cfg :: c2_config
  c2_emit :: bool
  c2_ok :: bool
  c2_lastCmd :: u8
  c2_lastRes :: u8
  c2_msgs :: "c2_message list"
  c2_msgCount :: nat
  c2_msgHead :: nat
  c2_outbox :: "(int \<times> bytes) list"
  c2_actions :: "cam_action list"

text \<open>
  The environment of one call: the build roles, the clock, this device's id, the outcome of the
  storage writes and of the emit seam, and the camera's answers (\<open>env_snap\<close>: file name and
  byte count; \<open>env_recStart\<close>: file name, or failure).
\<close>

record c2_env =
  env_camera :: bool
  env_now :: u32
  env_myId :: u32
  env_rxWrite :: nvs_write
  env_txWrite :: "nat \<Rightarrow> nvs_write"
  env_emitOk :: bool
  env_camReady :: bool
  env_snap :: "bytes \<times> nat"
  env_sdPresent :: bool
  env_sdFreePct :: u8
  env_recActive :: bool
  env_recStart :: "bytes option"

definition c2_begin :: "(bytes \<Rightarrow> bytes \<Rightarrow> bytes) \<Rightarrow> c2_seed \<Rightarrow> bool \<Rightarrow> bool \<Rightarrow> c2_state \<Rightarrow> c2_state" where
  "c2_begin aes seed readable emit s =
     s\<lparr>c2_emit := emit, c2_cfg := cc_begin seed readable (c2_cfg s), c2_ok := lw_selfTest aes \<and> camSelfTest aes\<rparr>"

definition emit_frame :: "c2_env \<Rightarrow> int \<Rightarrow> bytes \<Rightarrow> c2_state \<Rightarrow> c2_state \<times> bool" where
  "emit_frame e radio frame s = (s\<lparr>c2_outbox := c2_outbox s @ [(radio, frame)]\<rparr>, env_emitOk e)"

definition storeMessage :: "u32 \<Rightarrow> u32 \<Rightarrow> bytes \<Rightarrow> c2_state \<Rightarrow> c2_state" where
  "storeMessage now from txt s =
     s\<lparr>c2_msgs := (c2_msgs s)[c2_msgHead s := \<lparr>me_fromId = from, me_atSec = now div 1000, me_text = take MSG_TEXT_MAX txt\<rparr>],
       c2_msgHead := (c2_msgHead s + 1) mod MSG_RING,
       c2_msgCount := (if c2_msgCount s < MSG_RING then c2_msgCount s + 1 else c2_msgCount s)\<rparr>"

definition c2_message_at :: "nat \<Rightarrow> c2_state \<Rightarrow> c2_message" where
  "c2_message_at i s = c2_msgs s ! ((c2_msgHead s + MSG_RING - 1 - i) mod MSG_RING)"

section \<open>Operations\<close>

definition authInbound ::
  "(bytes \<Rightarrow> bytes \<Rightarrow> bytes) \<Rightarrow> c2_env \<Rightarrow> bytes \<Rightarrow> c2_state \<Rightarrow> c2_state \<times> c2_decoded option" where
  "authInbound aes e buf s =
     (if length buf < C2_MIN_FRAME \<or> C2_MAX_FRAME < length buf then (s, None)
      else if buf ! 0 \<noteq> C2_MAGIC_VER then (s, None)
      else (let from = get32 buf 2; r = get32 buf 6 in
        if r \<noteq> 0 \<and> r \<noteq> env_myId e then (s, None)
        else (case cc_resolve (c2_cfg s) from of None \<Rightarrow> (s, None)
          | Some idx \<Rightarrow> (case verifyAndDecrypt aes buf (pr_psk (cc_peer (c2_cfg s) ! idx)) of None \<Rightarrow> (s, None)
            | Some d \<Rightarrow> (case acceptInboundSeq (env_rxWrite e) (int idx) (dc_seq d) (c2_cfg s) of
                (cfg, True) \<Rightarrow> (s\<lparr>c2_cfg := cfg\<rparr>, Some d)
              | (cfg, False) \<Rightarrow> (s\<lparr>c2_cfg := cfg\<rparr>, None))))))"

definition writeStatus :: "c2_env \<Rightarrow> c2_state \<Rightarrow> nat \<Rightarrow> bytes" where
  "writeStatus e s cap =
     (if cap < 8 then []
      else [100, env_sdFreePct e] @ le32 (env_now e div 1000) @ [c2_lastCmd s, c2_lastRes s])"

text \<open>A file name or note that is copied behind the result byte when it fits.\<close>

definition ack_note :: "nat \<Rightarrow> bytes \<Rightarrow> bytes" where
  "ack_note cap note = (if 1 + length note \<le> cap then note else [])"

definition FILE_NAME_CAP :: nat where "FILE_NAME_CAP = 40"

text \<open>The switch of \<open>executeCommand\<close>: the camera actions, the result and the bytes behind it.\<close>

definition run_command :: "c2_env \<Rightarrow> c2_state \<Rightarrow> u8 \<Rightarrow> bytes \<Rightarrow> nat \<Rightarrow> cam_action list \<times> u8 \<times> bytes" where
  "run_command e s cmd args ackCap =
     (if cmd = CMD_GET_STATUS then ([], RES_OK, writeStatus e s (ackCap - 1))
      else if cmd = CMD_START_CAPTURE then
        (let acts = (if env_camReady e then [CamSnap] else []); n = (if env_camReady e then snd (env_snap e) else 0) in
         if n = 0 then (acts, RES_NOCAM, [])
         else (acts, RES_OK, ack_note ackCap (bounded_copy FILE_NAME_CAP (fst (env_snap e)))))
      else if cmd = CMD_RECORD then
        (let dur = (if 2 \<le> length args then ucast (args ! 0) OR push_bit 8 (ucast (args ! 1)) else 30) in
         if \<not> env_camReady e \<or> \<not> env_sdPresent e then ([], RES_NOCAM, [])
         else if env_recActive e then ([], RES_BUSY, [])
         else (case env_recStart e of None \<Rightarrow> ([CamRecordStart dur], RES_ERR, [])
           | Some fn \<Rightarrow> ([CamRecordStart dur], RES_OK, ack_note ackCap (bounded_copy FILE_NAME_CAP fn))))
      else if cmd = CMD_STOP then
        (if env_recActive e then ([CamRecordStop], RES_OK, ack_note ackCap (str ''rec-stop''))
         else ([], RES_OK, ack_note ackCap (str ''idle'')))
      else if cmd = CMD_SET_QUALITY \<or> cmd = CMD_SET_FRAMESIZE then
        ([], if length args < 1 then RES_BADARG else RES_OK, [])
      else ([], RES_BADARG, []))"

definition executeCommand :: "c2_env \<Rightarrow> u8 \<Rightarrow> bytes \<Rightarrow> nat \<Rightarrow> c2_state \<Rightarrow> c2_state \<times> bytes \<times> u8" where
  "executeCommand e cmd args ackCap s =
     (if ackCap < 1 then (s, [], RES_ERR)
      else (case run_command e s cmd args ackCap of (acts, res, extra) \<Rightarrow>
        (s\<lparr>c2_actions := c2_actions s @ acts, c2_lastCmd := cmd, c2_lastRes := res\<rparr>, res # extra, res)))"

text \<open>The unicast acknowledgement.\<close>

definition send_ack :: "(bytes \<Rightarrow> bytes \<Rightarrow> bytes) \<Rightarrow> c2_env \<Rightarrow> int \<Rightarrow> u32 \<Rightarrow> bytes \<Rightarrow> c2_state \<Rightarrow> c2_state" where
  "send_ack aes e radio sender ack s =
     (case cc_resolve (c2_cfg s) sender of None \<Rightarrow> s
      | Some idx \<Rightarrow> if \<not> c2_emit s then s
          else (case nextTxSeq (env_txWrite e 0) (c2_cfg s) of (cfg, txSeq) \<Rightarrow>
            let s2 = s\<lparr>c2_cfg := cfg\<rparr> in
            if txSeq = SEQ_INVALID then s2
            else (case c2_buildFrame aes T_ACK (env_myId e) sender txSeq (pr_psk (cc_peer cfg ! idx)) ack C2_MAX_FRAME of
                None \<Rightarrow> s2
              | Some frame \<Rightarrow> fst (emit_frame e radio frame s2))))"

definition handleInbound ::
  "(bytes \<Rightarrow> bytes \<Rightarrow> bytes) \<Rightarrow> c2_env \<Rightarrow> int \<Rightarrow> bytes \<Rightarrow> c2_state \<Rightarrow> c2_state \<times> bool" where
  "handleInbound aes e radio buf s =
     (if \<not> c2_ok s then (s, False)
      else (case authInbound aes e buf s of
          (s2, None) \<Rightarrow> (s2, False)
        | (s2, Some d) \<Rightarrow>
            if env_camera e \<and> dc_type d = T_CMD then
              (let cmd = (case dc_plain d of [] \<Rightarrow> CMD_NONE | c # _ \<Rightarrow> c) in
               case executeCommand e cmd (drop 1 (dc_plain d)) C2_MAX_PAYLOAD s2 of
                 (s3, ack, res) \<Rightarrow> (send_ack aes e radio (dc_sender d) ack s3, True))
            else if env_camera e \<and> dc_type d = T_MSG then
              (storeMessage (env_now e) (dc_sender d) (dc_plain d) s2, True)
            else (s2, True)))"

text \<open>The beacon loop over the peer slots; \<open>k\<close> numbers the storage writes.\<close>

fun beacon_loop :: "(bytes \<Rightarrow> bytes \<Rightarrow> bytes) \<Rightarrow> c2_env \<Rightarrow> int \<Rightarrow> bytes \<Rightarrow> c2_peer list \<Rightarrow> nat \<Rightarrow> c2_state \<Rightarrow> c2_state" where
  "beacon_loop aes e radio status [] k s = s"
| "beacon_loop aes e radio status (pr # prs) k s =
     (if \<not> peer_configured pr then beacon_loop aes e radio status prs k s
      else (case nextTxSeq (env_txWrite e k) (c2_cfg s) of (cfg, txSeq) \<Rightarrow>
        let s2 = s\<lparr>c2_cfg := cfg\<rparr> in
        if txSeq = SEQ_INVALID then s2
        else (case c2_buildFrame aes T_BEACON (env_myId e) (pr_peerId pr) txSeq (pr_psk pr) status C2_MAX_FRAME of
            None \<Rightarrow> beacon_loop aes e radio status prs (k + 1) s2
          | Some frame \<Rightarrow> beacon_loop aes e radio status prs (k + 1) (fst (emit_frame e radio frame s2)))))"

definition emitBeacon :: "(bytes \<Rightarrow> bytes \<Rightarrow> bytes) \<Rightarrow> c2_env \<Rightarrow> int \<Rightarrow> c2_state \<Rightarrow> c2_state" where
  "emitBeacon aes e radio s =
     (if \<not> c2_ok s \<or> \<not> c2_emit s then s
      else beacon_loop aes e radio (writeStatus e s 8) (cc_peer (c2_cfg s)) 0 s)"

text \<open>The common end of the two senders: number, build, emit.\<close>

definition send_to ::
  "(bytes \<Rightarrow> bytes \<Rightarrow> bytes) \<Rightarrow> c2_env \<Rightarrow> int \<Rightarrow> u8 \<Rightarrow> u32 \<Rightarrow> nat \<Rightarrow> bytes \<Rightarrow> c2_state \<Rightarrow> c2_state \<times> bool" where
  "send_to aes e radio type peerId idx payload s =
     (case nextTxSeq (env_txWrite e 0) (c2_cfg s) of (cfg, txSeq) \<Rightarrow>
        let s2 = s\<lparr>c2_cfg := cfg\<rparr> in
        if txSeq = SEQ_INVALID then (s2, False)
        else (case c2_buildFrame aes type (env_myId e) peerId txSeq (pr_psk (cc_peer cfg ! idx)) payload C2_MAX_FRAME of
            None \<Rightarrow> (s2, False)
          | Some frame \<Rightarrow> emit_frame e radio frame s2))"

definition sendMessage ::
  "(bytes \<Rightarrow> bytes \<Rightarrow> bytes) \<Rightarrow> c2_env \<Rightarrow> int \<Rightarrow> u32 \<Rightarrow> bytes \<Rightarrow> c2_state \<Rightarrow> c2_state \<times> bool" where
  "sendMessage aes e radio peerId text s =
     (if \<not> c2_ok s \<or> \<not> c2_emit s then (s, False)
      else (case cc_resolve (c2_cfg s) peerId of None \<Rightarrow> (s, False)
        | Some idx \<Rightarrow> send_to aes e radio T_MSG peerId idx (take MSG_TEXT_MAX text) s))"

definition sendCommand ::
  "(bytes \<Rightarrow> bytes \<Rightarrow> bytes) \<Rightarrow> c2_env \<Rightarrow> int \<Rightarrow> u32 \<Rightarrow> u8 \<Rightarrow> bytes \<Rightarrow> c2_state \<Rightarrow> c2_state \<times> bool" where
  "sendCommand aes e radio camId cmd args s =
     (if \<not> c2_ok s \<or> \<not> c2_emit s then (s, False)
      else (case cc_resolve (c2_cfg s) camId of None \<Rightarrow> (s, False)
        | Some idx \<Rightarrow> if C2_MAX_PAYLOAD < 1 + length args then (s, False)
            else send_to aes e radio T_CMD camId idx (cmd # args) s))"

end
