(* ===== verification/CamC2Safety.thy ===== *)
theory CamC2Safety
  imports CamC2
begin

text \<open>
  What the command channel guarantees: the frame round trip and its authentication, the gate in
  front of every actuation, replay rejection, and the end-to-end delivery of commands.
\<close>

section \<open>The constant-time comparison\<close>

lemma foldl_or_zero:
  "foldl (\<lambda>d i. d OR f i) d0 xs = (0 :: u8) \<longleftrightarrow> d0 = 0 \<and> (\<forall>i \<in> set xs. f i = 0)"
  by (induction xs arbitrary: d0) (auto simp: or_eq_0_iff)

lemma xor_zero_iff: "a XOR b = (0 :: u8) \<longleftrightarrow> a = b"
  using xor_right_cancel [of a b b] by auto

lemma ctEqual_iff: "ctEqual a b n \<longleftrightarrow> (\<forall>i < n. a ! i = b ! i)"
  by (simp add: ctEqual_def foldl_or_zero xor_zero_iff atLeastLessThan_iff Ball_def)

lemma ctEqual_take:
  "n \<le> length a \<Longrightarrow> n \<le> length b \<Longrightarrow> ctEqual a b n \<longleftrightarrow> take n a = take n b"
  by (auto simp: ctEqual_iff list_eq_iff_nth_eq)

section \<open>Frames\<close>

lemma length_c2_header [simp]: "length (c2_header t s r q) = C2_HDR_LEN"
  by (simp add: c2_header_def C2_HDR_LEN_def)

lemma c2_header_fields:
  "(c2_header t s r q @ rest) ! 0 = C2_MAGIC_VER" "(c2_header t s r q @ rest) ! 1 = t"
  "get32 (c2_header t s r q @ rest) 2 = s" "get32 (c2_header t s r q @ rest) 6 = r"
  "get32 (c2_header t s r q @ rest) 10 = q"
proof -
  show "(c2_header t s r q @ rest) ! 0 = C2_MAGIC_VER" "(c2_header t s r q @ rest) ! 1 = t"
    by (simp_all add: c2_header_def)
  show "get32 (c2_header t s r q @ rest) 2 = s"
    using get32_le32_at [of 2 "[C2_MAGIC_VER, t]" s "le32 r @ le32 q @ rest"] by (simp add: c2_header_def)
  show "get32 (c2_header t s r q @ rest) 6 = r"
    using get32_le32_at [of 6 "[C2_MAGIC_VER, t] @ le32 s" r "le32 q @ rest"] by (simp add: c2_header_def)
  show "get32 (c2_header t s r q @ rest) 10 = q"
    using get32_le32_at [of 10 "[C2_MAGIC_VER, t] @ le32 s @ le32 r" q rest] by (simp add: c2_header_def)
qed

lemma c2_buildFrame_Some:
  assumes "aes_block aes"
  shows "c2_buildFrame aes t s r q psk pl cap = Some fr \<longleftrightarrow>
    length pl \<le> C2_MAX_PAYLOAD \<and> length pl + 22 \<le> cap \<and>
    (\<exists>ct msg. ct = cryptFrmPayload aes (snd (deriveKeys aes psk)) s q pl \<and> msg = c2_header t s r q @ ct \<and>
      fr = msg @ take C2_TAG_LEN (aesCmac aes (fst (deriveKeys aes psk)) msg))"
  by (auto simp: c2_buildFrame_def Let_def c2_sizes split: prod.splits)

lemma length_built:
  assumes "aes_block aes" and "c2_buildFrame aes t s r q psk pl cap = Some fr"
  shows "length fr = length pl + 22" and "length fr \<le> cap" and "length pl \<le> 64"
  using assms by (auto simp: c2_buildFrame_Some c2_sizes length_crypt length_aesCmac)

lemma verify_Some:
  assumes "verifyAndDecrypt aes buf psk = Some d"
  shows "C2_MIN_FRAME \<le> length buf" and "length buf \<le> C2_MAX_FRAME" and "buf ! 0 = C2_MAGIC_VER"
    and "dc_type d = buf ! 1" and "dc_sender d = get32 buf 2" and "dc_recip d = get32 buf 6"
    and "dc_seq d = get32 buf 10" and "length (dc_plain d) \<le> length buf - C2_MIN_FRAME \<or> \<not> aes_block aes"
  using assms
  by (auto simp: verifyAndDecrypt_def Let_def c2_sizes length_crypt split: if_splits prod.splits)

lemma verify_built:
  assumes "aes_block aes" and "c2_buildFrame aes t s r q psk pl cap = Some fr"
  shows "verifyAndDecrypt aes fr psk = Some \<lparr>dc_type = t, dc_sender = s, dc_recip = r, dc_seq = q, dc_plain = pl\<rparr>"
proof -
  obtain mk ek where k: "deriveKeys aes psk = (mk, ek)" by fastforce
  define ct where "ct = cryptFrmPayload aes ek s q pl"
  define msg where "msg = c2_header t s r q @ ct"
  have fr: "fr = msg @ take C2_TAG_LEN (aesCmac aes mk msg)" and pl: "length pl \<le> 64"
    using assms k by (auto simp: c2_buildFrame_Some ct_def msg_def c2_sizes)
  have ct: "length ct = length pl" using assms(1) by (simp add: ct_def length_crypt)
  then have len: "length msg = length pl + 14" by (simp add: msg_def C2_HDR_LEN_def)
  have mac: "length (aesCmac aes mk msg) = 16" using assms(1) by (simp add: length_aesCmac)
  have auth: "length fr - C2_TAG_LEN = length msg" using fr mac by (simp add: C2_TAG_LEN_def)
  have split: "take (length msg) fr = msg" "drop (length msg) fr = take C2_TAG_LEN (aesCmac aes mk msg)"
    using fr by simp_all
  have body: "take (length msg - C2_HDR_LEN) (drop C2_HDR_LEN fr) = ct"
    using fr ct len by (simp add: msg_def C2_HDR_LEN_def)
  have fields: "fr ! 0 = C2_MAGIC_VER" "fr ! 1 = t" "get32 fr 2 = s" "get32 fr 6 = r" "get32 fr 10 = q"
    using fr by (simp_all add: msg_def c2_header_fields del: One_nat_def)
  have tag: "ctEqual (aesCmac aes mk msg) (take C2_TAG_LEN (aesCmac aes mk msg)) C2_TAG_LEN"
    by (simp add: ctEqual_iff)
  have lf: "length fr = length pl + 22" using fr mac len by (simp add: C2_TAG_LEN_def)
  have dec: "cryptFrmPayload aes ek s q ct = pl" using assms(1) by (simp add: ct_def crypt_involution)
  have r: "\<not> (length fr < C2_MIN_FRAME \<or> C2_MAX_FRAME < length fr)"
    "\<not> C2_MAX_PAYLOAD < length msg - C2_HDR_LEN"
    using lf pl len by (simp_all add: c2_sizes)
  show ?thesis
    unfolding verifyAndDecrypt_def Let_def auth split body fields k prod.case dec
    using r tag fields(1) by simp
qed

text \<open>What verification accepts: the length window, the magic byte and the eight tag bytes.\<close>

definition c2_tag_ok :: "(bytes \<Rightarrow> bytes \<Rightarrow> bytes) \<Rightarrow> bytes \<Rightarrow> bytes \<Rightarrow> bool" where
  "c2_tag_ok aes psk buf \<longleftrightarrow>
     drop (length buf - 8) buf = take 8 (aesCmac aes (fst (deriveKeys aes psk)) (take (length buf - 8) buf))"

lemma verify_accepts_iff:
  assumes "aes_block aes"
  shows "verifyAndDecrypt aes buf psk \<noteq> None \<longleftrightarrow>
    22 \<le> length buf \<and> length buf \<le> 86 \<and> buf ! 0 = 0xC2 \<and> c2_tag_ok aes psk buf"
proof (cases "22 \<le> length buf \<and> length buf \<le> 86 \<and> buf ! 0 = 0xC2")
  case True
  obtain mk ek where k: "deriveKeys aes psk = (mk, ek)" by fastforce
  have mac: "length (aesCmac aes mk m) = 16" for m using assms by (simp add: length_aesCmac)
  have "ctEqual (aesCmac aes mk (take (length buf - 8) buf)) (drop (length buf - 8) buf) 8
      \<longleftrightarrow> take 8 (aesCmac aes mk (take (length buf - 8) buf)) = drop (length buf - 8) buf"
    using True by (subst ctEqual_take) (auto simp: mac)
  then show ?thesis using True
    by (auto simp: verifyAndDecrypt_def c2_sizes C2_MAGIC_VER_def Let_def c2_tag_ok_def k)
next
  case False
  then show ?thesis by (auto simp: verifyAndDecrypt_def c2_sizes C2_MAGIC_VER_def)
qed

text \<open>
  Frame round trip: every frame the builder produces is verified under the same pre-shared
  key and decodes to exactly the type, sender, recipient, sequence number and payload it was
  built from; it builds every payload of at most 64 bytes whose frame fits the buffer.
\<close>

theorem c2_frame_roundtrip:
  assumes "aes_block aes" and "length payload \<le> 64" and "length payload + 22 \<le> cap"
  shows "\<exists>fr. c2_buildFrame aes type sender recip seq psk payload cap = Some fr \<and>
    length fr = length payload + 22 \<and>
    verifyAndDecrypt aes fr psk = Some \<lparr>dc_type = type, dc_sender = sender, dc_recip = recip,
      dc_seq = seq, dc_plain = payload\<rparr>"
proof -
  obtain fr where fr: "c2_buildFrame aes type sender recip seq psk payload cap = Some fr"
    using assms c2_buildFrame_Some [OF assms(1)] by (simp add: C2_MAX_PAYLOAD_def)
  with verify_built [OF assms(1) fr] length_built [OF assms(1) fr] show ?thesis by blast
qed

lemma c2_frame_roundtrip_witness:
  "\<exists>fr. c2_buildFrame xor_block T_CMD 1 2 3 [7] [6] 86 = Some fr \<and> length fr = 23 \<and>
    verifyAndDecrypt xor_block fr [7] = Some \<lparr>dc_type = T_CMD, dc_sender = 1, dc_recip = 2, dc_seq = 3, dc_plain = [6]\<rparr>"
  using c2_frame_roundtrip [OF aes_block_xor_block, of "[6]" 86 T_CMD 1 2 3 "[7]"] by simp


lemma sample_frame_verifies:
  "\<exists>msg tag. length tag = 8 \<and> verifyAndDecrypt xor_block (msg @ tag) [7] =
     Some \<lparr>dc_type = T_CMD, dc_sender = 1, dc_recip = 2, dc_seq = 3, dc_plain = [6]\<rparr>"
proof -
  obtain fr where fr: "c2_buildFrame xor_block T_CMD 1 2 3 [7] [6] 86 = Some fr"
    using c2_buildFrame_Some [OF aes_block_xor_block] by (simp add: C2_MAX_PAYLOAD_def)
  have "length fr = 23" using length_built [OF aes_block_xor_block fr] by simp
  then have "length (drop 15 fr) = 8" by simp
  moreover have "verifyAndDecrypt xor_block (take 15 fr @ drop 15 fr) [7] =
     Some \<lparr>dc_type = T_CMD, dc_sender = 1, dc_recip = 2, dc_seq = 3, dc_plain = [6]\<rparr>"
    using verify_built [OF aes_block_xor_block fr] by simp
  ultimately show ?thesis by blast
qed

lemma flip_first: "length tag = 8 \<Longrightarrow> map (\<lambda>b :: u8. b XOR 1) tag \<noteq> tag"
proof
  assume t: "length tag = 8" "map (\<lambda>b :: u8. b XOR 1) tag = tag"
  then obtain b bs where "tag = b # bs" by (cases tag) auto
  with t have "b XOR 1 = b XOR 0" by simp
  then have "(1 :: u8) = 0" by (simp only: xor_left_cancel)
  then show False by simp
qed


section \<open>Readiness\<close>

lemma camSelfTest_holds:
  assumes "aes_block aes"
  shows "camSelfTest aes"
proof -
  define psk :: bytes where "psk = map (\<lambda>i. of_nat (i + 1)) [0..<16]"
  define pt :: bytes where "pt = [CMD_GET_STATUS, 0xAA, 0xBB]"
  obtain fr where fr: "c2_buildFrame aes T_CMD 0x11223344 0x55667788 7 psk pt C2_MAX_FRAME = Some fr"
    using c2_buildFrame_Some [OF assms] by (simp add: c2_sizes pt_def)
  have len: "length fr = 25" using length_built [OF assms fr] by (simp add: pt_def)
  have good: "verifyAndDecrypt aes fr psk = Some \<lparr>dc_type = T_CMD, dc_sender = 0x11223344,
      dc_recip = 0x55667788, dc_seq = 7, dc_plain = pt\<rparr>" by (rule verify_built [OF assms fr])
  have ok: "c2_tag_ok aes psk fr" using verify_accepts_iff [OF assms, of fr psk] good by simp
  define fr2 where "fr2 = fr[length fr - 1 := fr ! (length fr - 1) XOR 0x01]"
  have "fr2 ! 24 \<noteq> fr ! 24"
  proof
    assume "fr2 ! 24 = fr ! 24"
    then have "fr ! 24 XOR 0x01 = fr ! 24" using len by (simp add: fr2_def)
    then have "fr ! 24 XOR 0x01 = fr ! 24 XOR 0" by simp
    then have "(0x01 :: u8) = 0" by (simp only: xor_left_cancel)
    then show False by simp
  qed
  moreover have "drop 17 fr2 ! 7 = fr2 ! 24" "drop 17 fr ! 7 = fr ! 24"
    using len by (simp_all add: fr2_def)
  ultimately have "drop 17 fr2 \<noteq> drop 17 fr" by metis
  moreover have "take 17 fr2 = take 17 fr" using len by (simp add: fr2_def)
  ultimately have "\<not> c2_tag_ok aes psk fr2" using ok len by (simp add: c2_tag_ok_def fr2_def)
  then have "verifyAndDecrypt aes fr2 psk = None" using verify_accepts_iff [OF assms, of fr2 psk] by simp
  with good show ?thesis
    unfolding camSelfTest_def Let_def psk_def [symmetric] pt_def [symmetric] fr option.case fr2_def
    by simp
qed

text \<open>
  Fail-closed start: after \<open>begin\<close> the channel is ready exactly when the cipher passes the
  published test vectors (the frame layer's own self test never fails on a correct cipher), and
  a channel that is not ready refuses every inbound frame and sends nothing.
\<close>

theorem c2_ready_iff_selftest:
  assumes "aes_block aes"
  shows "c2_ok (c2_begin aes seed readable emit s) = lw_selfTest aes \<and>
    (\<not> c2_ok s \<longrightarrow> handleInbound aes e radio buf s = (s, False) \<and> emitBeacon aes e radio s = s \<and>
      sendMessage aes e radio peer text s = (s, False) \<and> sendCommand aes e radio peer cmd args s = (s, False))"
  using camSelfTest_holds [OF assms]
  by (simp add: c2_begin_def handleInbound_def emitBeacon_def sendMessage_def sendCommand_def)

section \<open>The gate in front of every actuation\<close>

text \<open>Everything a rejected frame may leave behind is a write to the counter storage.\<close>

definition c2_inert :: "c2_state \<Rightarrow> c2_state \<Rightarrow> bool" where
  "c2_inert s s2 \<longleftrightarrow> s2 = s\<lparr>c2_cfg := (c2_cfg s)\<lparr>cc_uints := cc_uints (c2_cfg s2)\<rparr>\<rparr>"

definition c2_trusted :: "(bytes \<Rightarrow> bytes \<Rightarrow> bytes) \<Rightarrow> u32 \<Rightarrow> bytes \<Rightarrow> c2_config \<Rightarrow> nat \<Rightarrow> c2_decoded \<Rightarrow> bool" where
  "c2_trusted aes myId buf cfg idx d \<longleftrightarrow>
     cc_resolve cfg (get32 buf 2) = Some idx \<and>
     verifyAndDecrypt aes buf (pr_psk (cc_peer cfg ! idx)) = Some d \<and>
     (dc_recip d = 0 \<or> dc_recip d = myId) \<and>
     pr_rxHighWater (cc_peer cfg ! idx) < dc_seq d"

lemma find_peer_Some:
  "find_peer i k ps = Some j \<Longrightarrow> k \<le> j \<and> j - k < length ps \<and> pr_inUse (ps ! (j - k)) \<noteq> 0 \<and> pr_peerId (ps ! (j - k)) = i"
proof (induction ps arbitrary: k)
  case (Cons p ps)
  show ?case
  proof (cases "pr_inUse p \<noteq> 0 \<and> pr_peerId p = i")
    case True
    with Cons.prems show ?thesis by simp
  next
    case False
    then have "find_peer i (k + 1) ps = Some j" using Cons.prems by (simp split: if_splits)
    from Cons.IH [OF this] have h: "Suc k \<le> j" "j - Suc k < length ps"
      "pr_inUse (ps ! (j - Suc k)) \<noteq> 0 \<and> pr_peerId (ps ! (j - Suc k)) = i" by auto
    moreover from h(1) have "j - k = Suc (j - Suc k)" by simp
    ultimately show ?thesis by simp
  qed
qed simp

lemma cc_resolve_Some:
  assumes "cc_resolve cfg i = Some idx"
  shows "idx < length (cc_peer cfg)" and "peer_configured (cc_peer cfg ! idx)"
    and "pr_peerId (cc_peer cfg ! idx) = i" and "i \<noteq> 0"
  using assms find_peer_Some [of i 0 "cc_peer cfg" idx]
  by (auto simp: cc_resolve_def peer_configured_def split: if_splits)

text \<open>What accepting a sequence number does to the configuration.\<close>

lemma accept_cases:
  assumes "acceptInboundSeq w i q cfg = (cfg2, ok)"
  shows "if ok then pr_rxHighWater (cc_peer cfg ! nat i) < q \<and> nat i < MAX_PEERS \<and>
      peer_configured (cc_peer cfg ! nat i) \<and>
      cfg2 = cfg\<lparr>cc_uints := (cc_uints cfg)(rxKeyForPeer (pr_peerId (cc_peer cfg ! nat i)) \<mapsto> q),
        cc_peer := (cc_peer cfg)[nat i := (cc_peer cfg ! nat i)\<lparr>pr_rxHighWater := q\<rparr>]\<rparr>
    else cfg2 = cfg\<lparr>cc_uints := cc_uints cfg2\<rparr>"
  using assms
  by (auto simp: acceptInboundSeq_def persistRxForPeer_def nvs_put_def peer_configured_def Let_def
      split: if_splits prod.splits bool.splits)

definition c2_accepted_state :: "c2_state \<Rightarrow> nat \<Rightarrow> u32 \<Rightarrow> c2_state" where
  "c2_accepted_state s idx q = (let cfg = c2_cfg s in
     s\<lparr>c2_cfg := cfg\<lparr>cc_uints := (cc_uints cfg)(rxKeyForPeer (pr_peerId (cc_peer cfg ! idx)) \<mapsto> q),
        cc_peer := (cc_peer cfg)[idx := (cc_peer cfg ! idx)\<lparr>pr_rxHighWater := q\<rparr>]\<rparr>\<rparr>)"

lemma authInbound_cases:
  assumes "authInbound aes e buf s = (s2, r)"
  shows "case r of None \<Rightarrow> c2_inert s s2
    | Some d \<Rightarrow> \<exists>idx. c2_trusted aes (env_myId e) buf (c2_cfg s) idx d \<and> idx < MAX_PEERS \<and>
        s2 = c2_accepted_state s idx (dc_seq d)"
proof (cases "length buf < C2_MIN_FRAME \<or> C2_MAX_FRAME < length buf \<or> buf ! 0 \<noteq> C2_MAGIC_VER \<or>
    (get32 buf 6 \<noteq> 0 \<and> get32 buf 6 \<noteq> env_myId e) \<or> cc_resolve (c2_cfg s) (get32 buf 2) = None")
  case True
  then have "s2 = s" "r = None" using assms by (auto simp: authInbound_def Let_def split: if_splits)
  then show ?thesis by (simp add: c2_inert_def)
next
  case False
  then obtain idx where idx: "cc_resolve (c2_cfg s) (get32 buf 2) = Some idx" by auto
  show ?thesis
  proof (cases "verifyAndDecrypt aes buf (pr_psk (cc_peer (c2_cfg s) ! idx))")
    case None
    then have "s2 = s" "r = None" using assms False idx by (auto simp: authInbound_def Let_def)
    then show ?thesis by (simp add: c2_inert_def)
  next
    case (Some d)
    obtain cfg2 ok where ac: "acceptInboundSeq (env_rxWrite e) (int idx) (dc_seq d) (c2_cfg s) = (cfg2, ok)"
      by fastforce
    have r: "s2 = s\<lparr>c2_cfg := cfg2\<rparr>" "r = (if ok then Some d else None)"
      using assms False idx Some ac by (auto simp: authInbound_def Let_def split: bool.splits)
    show ?thesis
    proof (cases ok)
      case True
      with accept_cases [OF ac] r idx Some False verify_Some [OF Some] show ?thesis
        by (auto simp: c2_trusted_def c2_accepted_state_def Let_def)
    next
      case no: False
      with accept_cases [OF ac] r show ?thesis by (simp add: c2_inert_def)
    qed
  qed
qed

lemma send_ack_fields:
  "c2_lastCmd (send_ack aes e radio from ack s) = c2_lastCmd s"
  "c2_actions (send_ack aes e radio from ack s) = c2_actions s"
  "c2_ok (send_ack aes e radio from ack s) = c2_ok s"
  "cc_peer (c2_cfg (send_ack aes e radio from ack s)) = cc_peer (c2_cfg s)"
proof -
  obtain cfg q where nx: "nextTxSeq (env_txWrite e 0) (c2_cfg s) = (cfg, q)" by fastforce
  show "c2_lastCmd (send_ack aes e radio from ack s) = c2_lastCmd s"
    "c2_actions (send_ack aes e radio from ack s) = c2_actions s"
    "c2_ok (send_ack aes e radio from ack s) = c2_ok s"
    "cc_peer (c2_cfg (send_ack aes e radio from ack s)) = cc_peer (c2_cfg s)"
    using next_keeps_rx(1) [OF nx]
    by (auto simp: send_ack_def nx Let_def emit_frame_def split: option.splits)
qed

lemma execute_fields:
  assumes "executeCommand e cmd args cap s = (s2, ack, res)"
  shows "c2_cfg s2 = c2_cfg s" and "c2_ok s2 = c2_ok s"
  using assms by (auto simp: executeCommand_def split: if_splits prod.splits)

lemma handleInbound_cases:
  assumes "handleInbound aes e radio buf s = (s2, acted)"
  shows "if acted then c2_ok s \<and> (\<exists>idx d. c2_trusted aes (env_myId e) buf (c2_cfg s) idx d \<and> idx < MAX_PEERS \<and>
      c2_ok s2 \<and> cc_peer (c2_cfg s2) = cc_peer (c2_cfg (c2_accepted_state s idx (dc_seq d))))
    else c2_inert s s2"
proof (cases "c2_ok s")
  case False
  then show ?thesis using assms by (auto simp: handleInbound_def c2_inert_def)
next
  case True
  obtain s1 r where au: "authInbound aes e buf s = (s1, r)" by fastforce
  show ?thesis
  proof (cases r)
    case None
    then have "s2 = s1" "\<not> acted" using assms True au by (auto simp: handleInbound_def)
    then show ?thesis using authInbound_cases [OF au] None by simp
  next
    case (Some d)
    then obtain idx where t: "c2_trusted aes (env_myId e) buf (c2_cfg s) idx d" "idx < MAX_PEERS"
      "s1 = c2_accepted_state s idx (dc_seq d)" using authInbound_cases [OF au] by auto
    define cmd where "cmd = (case dc_plain d of [] \<Rightarrow> CMD_NONE | c # _ \<Rightarrow> c)"
    obtain s3 ack res where ex: "executeCommand e cmd (drop 1 (dc_plain d)) C2_MAX_PAYLOAD s1 = (s3, ack, res)"
      by (metis prod_cases3)
    have ok: "c2_ok s1" using t(3) True by (simp add: c2_accepted_state_def Let_def)
    have h: "handleInbound aes e radio buf s =
      (if env_camera e \<and> dc_type d = T_CMD then (send_ack aes e radio (dc_sender d) ack s3, True)
       else if env_camera e \<and> dc_type d = T_MSG then (storeMessage (env_now e) (dc_sender d) (dc_plain d) s1, True)
       else (s1, True))"
      using True au Some ex by (simp add: handleInbound_def cmd_def Let_def)
    then have "acted" "cc_peer (c2_cfg s2) = cc_peer (c2_cfg s1)" "c2_ok s2"
      using assms execute_fields [OF ex] ok
      by (auto simp: send_ack_fields storeMessage_def split: if_splits)
    then show ?thesis using True t by auto
  qed
qed

text \<open>
  C26: The gate. The channel acts on a frame only if it is ready, the sender is whitelisted and
  enabled, the frame is addressed to this device or to everyone, its tag verifies under that
  peer's key and its sequence number is above the peer's floor, which is then raised to it. A
  frame that is not acted on moves no actuator, sends nothing, stores no message and changes no
  peer: at most the stored counter value may move.
\<close>

theorem c2_gate:
  assumes "handleInbound aes e radio buf s = (s2, acted)" and "length (cc_peer (c2_cfg s)) = MAX_PEERS"
  shows "if acted then c2_ok s \<and> (\<exists>idx d. c2_trusted aes (env_myId e) buf (c2_cfg s) idx d \<and>
      pr_inUse (cc_peer (c2_cfg s) ! idx) \<noteq> 0 \<and>
      pr_rxHighWater (cc_peer (c2_cfg s2) ! idx) = dc_seq d)
    else c2_inert s s2"
proof (cases acted)
  case True
  with handleInbound_cases [OF assms(1)] obtain idx d where
    h: "c2_ok s" "c2_trusted aes (env_myId e) buf (c2_cfg s) idx d" "idx < MAX_PEERS"
      "cc_peer (c2_cfg s2) = cc_peer (c2_cfg (c2_accepted_state s idx (dc_seq d)))" by auto
  have "peer_configured (cc_peer (c2_cfg s) ! idx)" using h(2) cc_resolve_Some by (auto simp: c2_trusted_def)
  then have "pr_inUse (cc_peer (c2_cfg s) ! idx) \<noteq> 0" by (simp add: peer_configured_def)
  moreover have "pr_rxHighWater (cc_peer (c2_cfg s2) ! idx) = dc_seq d"
    using h(3,4) assms(2) by (simp add: c2_accepted_state_def Let_def)
  ultimately show ?thesis using True h(1,2) by auto
next
  case False
  with handleInbound_cases [OF assms(1)] show ?thesis by simp
qed

lemma find_peer_update:
  assumes "pr_inUse p = pr_inUse (ps ! j)" and "pr_peerId p = pr_peerId (ps ! j)"
  shows "find_peer i k (ps[j := p]) = find_peer i k ps"
  using assms
proof (induction ps arbitrary: k j)
  case (Cons q ps)
  then show ?case by (cases j) auto
qed simp

text \<open>
  A replayed frame is dead: once a frame has been acted on, handling the same bytes again, at
  any later time, in any environment of the same device, does nothing.
\<close>

theorem c2_replay_inert:
  assumes "handleInbound aes e radio buf s = (s2, True)" and "length (cc_peer (c2_cfg s)) = MAX_PEERS"
    and "handleInbound aes e2 radio2 buf s2 = (s3, acted)"
  shows "\<not> acted \<and> c2_inert s2 s3"
proof -
  from handleInbound_cases [OF assms(1)] obtain idx d where
    h: "c2_trusted aes (env_myId e) buf (c2_cfg s) idx d" "idx < MAX_PEERS"
      "cc_peer (c2_cfg s2) = cc_peer (c2_cfg (c2_accepted_state s idx (dc_seq d)))" by auto
  have peers: "cc_peer (c2_cfg s2) = (cc_peer (c2_cfg s))[idx := (cc_peer (c2_cfg s) ! idx)\<lparr>pr_rxHighWater := dc_seq d\<rparr>]"
    using h(3) by (simp add: c2_accepted_state_def Let_def)
  have "cc_resolve (c2_cfg s2) (get32 buf 2) = cc_resolve (c2_cfg s) (get32 buf 2)"
    using h(2) assms(2) by (simp add: cc_resolve_def peers find_peer_update)
  then have res: "cc_resolve (c2_cfg s2) (get32 buf 2) = Some idx" using h(1) by (simp add: c2_trusted_def)
  have "pr_psk (cc_peer (c2_cfg s2) ! idx) = pr_psk (cc_peer (c2_cfg s) ! idx)"
    "pr_rxHighWater (cc_peer (c2_cfg s2) ! idx) = dc_seq d"
    using h(2) assms(2) by (simp_all add: peers)
  then have "\<not> c2_trusted aes my buf (c2_cfg s2) j d2" for my j d2
    using res h(1) by (auto simp: c2_trusted_def)
  then show ?thesis using handleInbound_cases [OF assms(3)] by (auto split: if_splits)
qed

section \<open>Samples\<close>

definition sample_env :: c2_env where
  "sample_env = \<lparr>env_camera = True, env_now = 5000, env_myId = 2, env_rxWrite = Write_ok,
     env_txWrite = (\<lambda>_. Write_ok), env_emitOk = True, env_camReady = True, env_snap = (str ''a.jpg'', 9),
     env_sdPresent = True, env_sdFreePct = 50, env_recActive = False, env_recStart = None\<rparr>"

definition sample_c2 :: "u32 \<Rightarrow> c2_state" where
  "sample_c2 peer = \<lparr>c2_cfg = sample_cc\<lparr>cc_peer := [(sample_peer peer)\<lparr>pr_psk := [7]\<rparr>, zero_peer, zero_peer, zero_peer]\<rparr>,
     c2_emit = True, c2_ok = True, c2_lastCmd = 0, c2_lastRes = 0,
     c2_msgs = replicate 12 \<lparr>me_fromId = 0, me_atSec = 0, me_text = []\<rparr>, c2_msgCount = 0, c2_msgHead = 0,
     c2_outbox = [], c2_actions = []\<rparr>"

definition sample_frame :: bytes where
  "sample_frame = the (c2_buildFrame xor_block T_CMD 1 2 3 [7] [CMD_START_CAPTURE] 86)"

lemma sample_env_simps: "env_myId sample_env = 2" "env_camReady sample_env" "env_camera sample_env"
  "env_rxWrite sample_env = Write_ok"
  by (simp_all add: sample_env_def)

lemma sample_acted: "snd (handleInbound xor_block sample_env 0 sample_frame (sample_c2 1)) = True"
  by code_simp

lemma sample_length: "length (cc_peer (c2_cfg (sample_c2 p))) = MAX_PEERS"
  by (simp add: sample_c2_def MAX_PEERS_def)

lemma c2_gate_witness:
  "\<exists>idx d. c2_trusted xor_block 2 sample_frame (c2_cfg (sample_c2 1)) idx d \<and>
     pr_rxHighWater (cc_peer (c2_cfg (fst (handleInbound xor_block sample_env 0 sample_frame (sample_c2 1)))) ! idx) = dc_seq d"
proof -
  obtain s2 where h: "handleInbound xor_block sample_env 0 sample_frame (sample_c2 1) = (s2, True)"
    using sample_acted by (cases "handleInbound xor_block sample_env 0 sample_frame (sample_c2 1)") auto
  from c2_gate [OF h sample_length] show ?thesis by (auto simp: h sample_env_simps)
qed

lemma c2_replay_witness:
  "snd (handleInbound xor_block sample_env 0 sample_frame (sample_c2 1)) = True \<and>
   snd (handleInbound xor_block sample_env 1 sample_frame
     (fst (handleInbound xor_block sample_env 0 sample_frame (sample_c2 1)))) = False"
proof -
  obtain s2 where h: "handleInbound xor_block sample_env 0 sample_frame (sample_c2 1) = (s2, True)"
    using sample_acted by (cases "handleInbound xor_block sample_env 0 sample_frame (sample_c2 1)") auto
  obtain s3 acted where h3: "handleInbound xor_block sample_env 1 sample_frame s2 = (s3, acted)" by fastforce
  from c2_replay_inert [OF h sample_length h3] show ?thesis by (simp add: h h3)
qed

section \<open>Command execution\<close>

lemma length_note: "length (ack_note cap note) \<le> cap - 1"
  by (auto simp: ack_note_def)

lemma run_command_extra:
  assumes "run_command e s cmd args cap = (acts, res, extra)" and "1 \<le> cap"
  shows "length extra \<le> cap - 1"
proof -
  have "length (writeStatus e s (cap - 1)) \<le> cap - 1" by (auto simp: writeStatus_def)
  with assms show ?thesis
    using length_note [of cap "bounded_copy FILE_NAME_CAP (fst (env_snap e))"] length_note [of cap "str ''rec-stop''"]
      length_note [of cap "str ''idle''"]
    by (auto simp: run_command_def Let_def length_note [unfolded One_nat_def] split: if_splits option.splits)
qed

text \<open>
  The command switch is safe for every caller: with any buffer of at least one byte the
  acknowledgement starts with the result code and never exceeds the buffer, the result is the
  one remembered for the next status report, and the camera is only driven by capture, record
  and stop, only when it is ready (and, to record, has a card and is not already recording).
\<close>

theorem executeCommand_safe:
  assumes "executeCommand e cmd args cap s = (s2, ack, res)" and "1 \<le> cap"
  shows "length ack \<le> cap \<and> ack ! 0 = res \<and> ack \<noteq> [] \<and> c2_lastCmd s2 = cmd \<and> c2_lastRes s2 = res \<and>
    (\<exists>acts. c2_actions s2 = c2_actions s @ acts \<and>
      (if cmd = CMD_START_CAPTURE then acts = (if env_camReady e then [CamSnap] else [])
       else if cmd = CMD_RECORD then (acts = [] \<or>
         (\<exists>d. acts = [CamRecordStart d]) \<and> env_camReady e \<and> env_sdPresent e \<and> \<not> env_recActive e)
       else if cmd = CMD_STOP then acts = (if env_recActive e then [CamRecordStop] else [])
       else acts = []))"
proof -
  obtain acts r extra where rc: "run_command e s cmd args cap = (acts, r, extra)" by (metis prod_cases3)
  have x: "s2 = s\<lparr>c2_actions := c2_actions s @ acts, c2_lastCmd := cmd, c2_lastRes := r\<rparr>" "ack = r # extra" "res = r"
    using assms rc by (auto simp: executeCommand_def)
  have "length extra \<le> cap - 1" by (rule run_command_extra [OF rc assms(2)])
  moreover have "if cmd = CMD_START_CAPTURE then acts = (if env_camReady e then [CamSnap] else [])
       else if cmd = CMD_RECORD then (acts = [] \<or>
         (\<exists>d. acts = [CamRecordStart d]) \<and> env_camReady e \<and> env_sdPresent e \<and> \<not> env_recActive e)
       else if cmd = CMD_STOP then acts = (if env_recActive e then [CamRecordStop] else [])
       else acts = []"
    using rc by (auto simp: run_command_def Let_def c2_codes split: if_splits option.splits)
  ultimately show ?thesis using x assms(2) by auto
qed

lemma executeCommand_witness:
  "c2_actions (fst (executeCommand sample_env CMD_START_CAPTURE [] 64 (sample_c2 1))) = [CamSnap]"
proof -
  obtain s2 ack res where ex: "executeCommand sample_env CMD_START_CAPTURE [] 64 (sample_c2 1) = (s2, ack, res)"
    by (metis prod_cases3)
  have "c2_actions (sample_c2 1) = []" by (simp add: sample_c2_def)
  with executeCommand_safe [OF ex] show ?thesis by (auto simp: ex sample_env_simps)
qed

text \<open>
  End-to-end delivery. When a commander's \<open>sendCommand\<close> succeeds, the frame it queued, given
  to a ready camera that whitelists it with the same key, a floor below the frame's number and
  working storage, is acted on: the camera executes exactly that command with those arguments
  and answers it.
\<close>

theorem command_delivered:
  assumes "aes_block aes"
    and "sendCommand aes e1 r1 (env_myId e2) cmd args s = (s2, True)"
    and "cc_resolve (c2_cfg s) (env_myId e2) = Some i" and "cc_resolve (c2_cfg t) (env_myId e1) = Some j"
    and "pr_psk (cc_peer (c2_cfg s) ! i) = pr_psk (cc_peer (c2_cfg t) ! j)"
    and "pr_rxHighWater (cc_peer (c2_cfg t) ! j) < cc_txSeq (c2_cfg s)"
    and "c2_ok t" and "env_camera e2" and "env_rxWrite e2 = Write_ok" and "length (cc_peer (c2_cfg t)) = MAX_PEERS"
  shows "\<exists>fr s3 ack res. c2_outbox s2 = c2_outbox s @ [(r1, fr)] \<and>
    executeCommand e2 cmd args C2_MAX_PAYLOAD (c2_accepted_state t j (cc_txSeq (c2_cfg s))) = (s3, ack, res) \<and>
    handleInbound aes e2 r2 fr t = (send_ack aes e2 r2 (env_myId e1) ack s3, True)"
proof -
  obtain cfg q where nx: "nextTxSeq (env_txWrite e1 0) (c2_cfg s) = (cfg, q)" by fastforce
  have len: "length (cmd # args) \<le> C2_MAX_PAYLOAD" and q: "q \<noteq> SEQ_INVALID"
    using assms(2,3) nx by (auto simp: sendCommand_def send_to_def Let_def split: if_splits)
  have peer: "cc_peer cfg = cc_peer (c2_cfg s)" by (rule next_keeps_rx(1) [OF nx])
  define psk where "psk = pr_psk (cc_peer (c2_cfg t) ! j)"
  obtain fr where fr: "c2_buildFrame aes T_CMD (env_myId e1) (env_myId e2) q psk (cmd # args) C2_MAX_FRAME = Some fr"
    using c2_buildFrame_Some [OF assms(1)] len by (simp add: c2_sizes)
  have out: "c2_outbox s2 = c2_outbox s @ [(r1, fr)]"
    using assms(2,3,5) nx len q fr peer
    by (auto simp: sendCommand_def send_to_def Let_def emit_frame_def psk_def split: if_splits)
  have v: "q = cc_txSeq (c2_cfg s)"
    using nx q by (auto simp: nextTxSeq_def Let_def split: if_splits prod.splits bool.splits)
  have ver: "verifyAndDecrypt aes fr psk = Some \<lparr>dc_type = T_CMD, dc_sender = env_myId e1, dc_recip = env_myId e2,
      dc_seq = q, dc_plain = cmd # args\<rparr>" by (rule verify_built [OF assms(1) fr])
  note vs = verify_Some [OF ver]
  note rs = cc_resolve_Some [OF assms(4)]
  have j: "j < MAX_PEERS" using rs(1) assms(10) by simp
  have ac: "acceptInboundSeq Write_ok (int j) q (c2_cfg t) =
      (c2_cfg (c2_accepted_state t j q), True)"
    using j rs(2,4) assms(6) v
    by (auto simp: acceptInboundSeq_def persistRxForPeer_def nvs_put_def c2_accepted_state_def Let_def
        peer_configured_def not_le)
  have au: "authInbound aes e2 fr t = (c2_accepted_state t j q, Some \<lparr>dc_type = T_CMD, dc_sender = env_myId e1,
      dc_recip = env_myId e2, dc_seq = q, dc_plain = cmd # args\<rparr>)"
    using vs(1-3) vs(5,6) assms(4,9) ver ac
    by (simp add: authInbound_def Let_def psk_def [symmetric] c2_accepted_state_def not_less)
  obtain s3 ack res where ex: "executeCommand e2 cmd args C2_MAX_PAYLOAD (c2_accepted_state t j q) = (s3, ack, res)"
    by (metis prod_cases3)
  have "handleInbound aes e2 r2 fr t = (send_ack aes e2 r2 (env_myId e1) ack s3, True)"
    using assms(7,8) au ex by (simp add: handleInbound_def Let_def)
  then show ?thesis using out ex v by blast
qed

lemma command_delivered_witness:
  "\<exists>fr. c2_outbox (fst (sendCommand xor_block (sample_env\<lparr>env_myId := 1\<rparr>) 0 2 CMD_START_CAPTURE [] (sample_c2 2))) = [(0, fr)] \<and>
     snd (handleInbound xor_block sample_env 0 fr (sample_c2 1)) = True"
proof -
  have ok: "snd (sendCommand xor_block (sample_env\<lparr>env_myId := 1\<rparr>) 0 2 CMD_START_CAPTURE [] (sample_c2 2)) = True"
    by code_simp
  then obtain s2 where h: "sendCommand xor_block (sample_env\<lparr>env_myId := 1\<rparr>) 0 (env_myId sample_env) CMD_START_CAPTURE [] (sample_c2 2) = (s2, True)"
    by (cases "sendCommand xor_block (sample_env\<lparr>env_myId := 1\<rparr>) 0 2 CMD_START_CAPTURE [] (sample_c2 2)") (auto simp: sample_env_def)
  have r: "cc_resolve (c2_cfg (sample_c2 2)) (env_myId sample_env) = Some 0"
    "cc_resolve (c2_cfg (sample_c2 1)) (env_myId (sample_env\<lparr>env_myId := 1\<rparr>)) = Some 0" by code_simp+
  have side: "pr_psk (cc_peer (c2_cfg (sample_c2 2)) ! 0) = pr_psk (cc_peer (c2_cfg (sample_c2 1)) ! 0)"
    "pr_rxHighWater (cc_peer (c2_cfg (sample_c2 1)) ! 0) < cc_txSeq (c2_cfg (sample_c2 2))"
    "c2_ok (sample_c2 1)" "c2_outbox (sample_c2 2) = []"
    by (simp_all add: sample_c2_def sample_cc_def sample_peer_def zero_peer_def)
  obtain fr s3 ack where d: "c2_outbox s2 = c2_outbox (sample_c2 2) @ [(0, fr)]"
    "handleInbound xor_block sample_env 0 fr (sample_c2 1) =
       (send_ack xor_block sample_env 0 (env_myId (sample_env\<lparr>env_myId := 1\<rparr>)) ack s3, True)"
    using command_delivered [OF aes_block_xor_block h r side(1,2,3) sample_env_simps(3,4) sample_length, of 0] by blast
  show ?thesis using d h side(4) by (auto simp: sample_env_simps)
qed

section \<open>Beacons and the message ring\<close>

text \<open>The ring as a view of the messages stored so far, newest first.\<close>

definition ring_holds :: "c2_state \<Rightarrow> c2_message list \<Rightarrow> bool" where
  "ring_holds s hist \<longleftrightarrow> length (c2_msgs s) = MSG_RING \<and> c2_msgHead s < MSG_RING \<and>
     c2_msgCount s = min MSG_RING (length hist) \<and>
     (\<forall>i < c2_msgCount s. c2_message_at i s = hist ! i)"

lemma mod_12: "n < 24 \<Longrightarrow> n mod (12 :: nat) = (if n < 12 then n else n - 12)"
  by (auto simp: mod_if)

lemma ring_index_older:
  assumes "h < 12" and "i < 11"
  shows "((h + 1) mod 12 + 12 - 1 - Suc i) mod 12 = (h + 12 - 1 - i) mod 12 \<and> (h + 12 - 1 - i) mod (12 :: nat) \<noteq> h"
proof -
  have "(h + 1) mod 12 = (if h = 11 then 0 else h + 1)" using assms by (auto simp: mod_12)
  then show ?thesis using assms by (auto simp: mod_12)
qed

lemma ring_index_newest:
  assumes "h < 12"
  shows "((h + 1) mod 12 + 12 - 1 - 0) mod 12 = (h :: nat)"
proof -
  have "(h + 1) mod 12 = (if h = 11 then 0 else h + 1)" using assms by (auto simp: mod_12)
  then show ?thesis using assms by (auto simp: mod_12)
qed

lemma ring_store:
  assumes "ring_holds s hist"
  shows "ring_holds (storeMessage now from txt s)
    (\<lparr>me_fromId = from, me_atSec = now div 1000, me_text = take MSG_TEXT_MAX txt\<rparr> # hist)"
proof -
  define m where "m = \<lparr>me_fromId = from, me_atSec = now div 1000, me_text = take MSG_TEXT_MAX txt\<rparr>"
  let ?t = "storeMessage now from txt s"
  have f: "length (c2_msgs s) = 12" "c2_msgHead s < 12" "c2_msgCount s = min 12 (length hist)"
    "\<And>i. i < c2_msgCount s \<Longrightarrow> c2_message_at i s = hist ! i"
    using assms by (auto simp: ring_holds_def MSG_RING_def)
  have t: "c2_msgs ?t = (c2_msgs s)[c2_msgHead s := m]" "c2_msgHead ?t = (c2_msgHead s + 1) mod 12"
    "c2_msgCount ?t = min 12 (Suc (length hist))"
    using f(3) by (simp_all add: storeMessage_def m_def MSG_RING_def)
  have "c2_message_at i ?t = (m # hist) ! i" if i: "i < c2_msgCount ?t" for i
  proof (cases i)
    case 0
    then show ?thesis using ring_index_newest [OF f(2)] f(1,2) t by (simp add: c2_message_at_def MSG_RING_def)
  next
    case (Suc k)
    then have k: "k < 11" "k < c2_msgCount s" using i t(3) f(3) by auto
    have "c2_message_at i ?t = c2_msgs s ! ((c2_msgHead s + 12 - 1 - k) mod 12)"
      using ring_index_older [OF f(2) k(1)] t Suc by (simp add: c2_message_at_def MSG_RING_def)
    also have "\<dots> = hist ! k" using f(4) [OF k(2)] by (simp add: c2_message_at_def MSG_RING_def)
    finally show ?thesis using Suc by simp
  qed
  then show ?thesis using f t unfolding m_def [symmetric] by (simp add: ring_holds_def MSG_RING_def)
qed

text \<open>
  The message ring keeps the newest twelve operator messages: after any number of stores
  into an empty ring it holds the last twelve (or fewer), and reading index \<open>i\<close> gives the
  \<open>i\<close>-th newest, its text cut to 48 bytes.
\<close>

theorem message_ring_newest_first:
  assumes "ring_holds s []"
  shows "ring_holds (foldl (\<lambda>s (now, from, txt). storeMessage now from txt s) s ms)
    (map (\<lambda>(now, from, txt). \<lparr>me_fromId = from, me_atSec = now div 1000, me_text = take MSG_TEXT_MAX txt\<rparr>) (rev ms))"
proof -
  have "ring_holds (foldl (\<lambda>s (now, from, txt). storeMessage now from txt s) s ms)
      (map (\<lambda>(now, from, txt). \<lparr>me_fromId = from, me_atSec = now div 1000, me_text = take MSG_TEXT_MAX txt\<rparr>) (rev ms) @ hist)"
    if "ring_holds s hist" for s hist
    using that
  proof (induction ms arbitrary: s hist)
    case (Cons m ms)
    obtain now who body where m: "m = (now, who, body)" by (metis prod_cases3)
    show ?case using Cons.IH [OF ring_store [OF Cons.prems, of now who body]] by (simp add: m)
  qed simp
  from this [OF assms] show ?thesis by simp
qed

lemma message_ring_witness:
  "c2_message_at 0 (foldl (\<lambda>s (now, from, txt). storeMessage now from txt s) (sample_c2 1) [(1000, 4, [65]), (2000, 5, [66])])
     = \<lparr>me_fromId = 5, me_atSec = 2, me_text = [66]\<rparr>"
proof -
  have e: "ring_holds (sample_c2 1) []" by (simp add: ring_holds_def sample_c2_def MSG_RING_def)
  show ?thesis
    using message_ring_newest_first [OF e, of "[(1000, 4, [65]), (2000, 5, [66])]"]
    by (simp add: ring_holds_def MSG_RING_def MSG_TEXT_MAX_def)
qed

text \<open>What a beacon run adds to the outbox.\<close>

definition is_beacon_for :: "(bytes \<Rightarrow> bytes \<Rightarrow> bytes) \<Rightarrow> c2_env \<Rightarrow> bytes \<Rightarrow> c2_peer \<Rightarrow> bytes \<Rightarrow> bool" where
  "is_beacon_for aes e status p fr \<longleftrightarrow> (\<exists>q. q \<noteq> SEQ_INVALID \<and>
     verifyAndDecrypt aes fr (pr_psk p) = Some \<lparr>dc_type = T_BEACON, dc_sender = env_myId e,
       dc_recip = pr_peerId p, dc_seq = q, dc_plain = status\<rparr>)"

lemma beacon_loop_out:
  assumes "aes_block aes" and "length status = 8"
  shows "\<exists>n frs. c2_outbox (beacon_loop aes e radio status ps k s) = c2_outbox s @ map (Pair radio) frs \<and>
    list_all2 (is_beacon_for aes e status) (take n (filter peer_configured ps)) frs"
proof (induction ps arbitrary: k s)
  case Nil
  then show ?case by (intro exI [of _ 0] exI [of _ "[]"]) simp
next
  case (Cons p ps)
  obtain cfg q where nx: "nextTxSeq (env_txWrite e k) (c2_cfg s) = (cfg, q)" by fastforce
  show ?case
  proof (cases "peer_configured p")
    case False
    then show ?thesis using Cons.IH [of k s] by simp
  next
    case conf: True
    show ?thesis
    proof (cases "q = SEQ_INVALID")
      case True
      then show ?thesis using conf nx by (intro exI [of _ 0] exI [of _ "[]"]) (simp add: Let_def)
    next
      case q: False
      obtain fr where fr: "c2_buildFrame aes T_BEACON (env_myId e) (pr_peerId p) q (pr_psk p) status C2_MAX_FRAME = Some fr"
        using c2_buildFrame_Some [OF assms(1)] assms(2) by (simp add: c2_sizes)
      define s2 where "s2 = fst (emit_frame e radio fr (s\<lparr>c2_cfg := cfg\<rparr>))"
      have out: "c2_outbox s2 = c2_outbox s @ [(radio, fr)]" by (simp add: s2_def emit_frame_def)
      have lp: "beacon_loop aes e radio status (p # ps) k s = beacon_loop aes e radio status ps (k + 1) s2"
        using conf nx q fr by (simp add: Let_def s2_def)
      from Cons.IH [of "k + 1" s2] obtain n frs where
        ih: "c2_outbox (beacon_loop aes e radio status ps (k + 1) s2) = c2_outbox s2 @ map (Pair radio) frs"
          "list_all2 (is_beacon_for aes e status) (take n (filter peer_configured ps)) frs" by blast
      have "is_beacon_for aes e status p fr" using verify_built [OF assms(1) fr] q by (auto simp: is_beacon_for_def)
      with ih(2) conf have "list_all2 (is_beacon_for aes e status) (take (Suc n) (filter peer_configured (p # ps))) (fr # frs)"
        by simp
      moreover have "c2_outbox (beacon_loop aes e radio status (p # ps) k s) = c2_outbox s @ map (Pair radio) (fr # frs)"
        unfolding lp ih(1) out by simp
      ultimately show ?thesis by blast
    qed
  qed
qed

text \<open>
  A beacon run sends, in slot order, one status frame to each enabled peer, each one
  accepted under that peer's own key and addressed to it, and stops early only when the
  sequence counter cannot be reserved; it never sends to a slot that is empty or disabled.
\<close>

theorem beacons_reach_peers:
  assumes "aes_block aes" and "c2_ok s" and "c2_emit s"
  shows "\<exists>n frs. c2_outbox (emitBeacon aes e radio s) = c2_outbox s @ map (Pair radio) frs \<and>
    list_all2 (is_beacon_for aes e (writeStatus e s 8)) (take n (filter peer_configured (cc_peer (c2_cfg s)))) frs"
proof -
  have "length (writeStatus e s 8) = 8" by (simp add: writeStatus_def)
  from beacon_loop_out [OF assms(1) this] show ?thesis using assms(2,3) by (simp add: emitBeacon_def)
qed

lemma beacons_witness:
  "\<exists>n frs. c2_outbox (emitBeacon xor_block sample_env 0 (sample_c2 1)) = map (Pair 0) frs \<and>
    list_all2 (is_beacon_for xor_block sample_env (writeStatus sample_env (sample_c2 1) 8))
      (take n (filter peer_configured (cc_peer (c2_cfg (sample_c2 1))))) frs"
  using beacons_reach_peers [OF aes_block_xor_block, of "sample_c2 1" sample_env 0] by (simp add: sample_c2_def)

lemma c2_ready_witness:
  "c2_ok (c2_begin xor_block None True True (sample_c2 1)) = lw_selfTest xor_block"
  using c2_ready_iff_selftest [OF aes_block_xor_block, of None True True "sample_c2 1"] by blast

end
