(* ===== verification/CamPortalConfig.thy ===== *)
theory CamPortalConfig
  imports CamC2Safety
begin

text \<open>
  The credentials of the camera's web portal (\<open>src/src/CamPortalConfig.cpp\<close>,
  \<open>CamPortalConfig.h\<close>): the access point passphrase and the login as a salted SHA-256 hash, in
  their own storage namespace. The hash is the function of the cryptographic library, the random
  salt an argument; the strings come from the web server and are never null.
\<close>

definition USER_MAX :: nat where "USER_MAX = 23"
definition AP_PASS_MAX :: nat where "AP_PASS_MAX = 63"
definition AP_PASS_MIN :: nat where "AP_PASS_MIN = 8"
definition BLOB_VER :: u8 where "BLOB_VER = 1"

record portal_persist =
  pp_ver :: u8
  pp_provisioned :: u8
  pp_user :: bytes
  pp_salt :: bytes
  pp_hash :: bytes
  pp_apPass :: bytes

datatype portal_blob = PpAbsent | PpOtherSize | PpBlob portal_persist

record portal_creds =
  pc_cfg :: portal_persist
  pc_defaults :: bool
  pc_blob :: portal_blob

text \<open>The build-flag defaults: user, password and passphrase.\<close>

record portal_flags =
  pg_user :: bytes
  pg_pass :: bytes
  pg_apPass :: bytes

datatype cred_error = Ap_length | User_length | Pass_short

definition sha256Salted :: "crypto \<Rightarrow> bytes \<Rightarrow> bytes \<Rightarrow> bytes" where
  "sha256Salted k salt pass = sha256 k (salt @ pass)"

definition seedDefaults :: "crypto \<Rightarrow> portal_flags \<Rightarrow> bytes \<Rightarrow> portal_creds \<Rightarrow> portal_creds" where
  "seedDefaults k fl salt s =
     s\<lparr>pc_cfg := \<lparr>pp_ver = BLOB_VER, pp_provisioned = 0, pp_user = take USER_MAX (pg_user fl), pp_salt = salt,
         pp_hash = sha256Salted k salt (pg_pass fl), pp_apPass = take AP_PASS_MAX (pg_apPass fl)\<rparr>,
       pc_defaults := True\<rparr>"

definition cred_persist :: "bool \<Rightarrow> nvs_write \<Rightarrow> portal_creds \<Rightarrow> portal_creds" where
  "cred_persist opens w s = (if \<not> opens \<or> w = Write_lost then s else s\<lparr>pc_blob := PpBlob (pc_cfg s)\<rparr>)"

definition cred_begin :: "crypto \<Rightarrow> portal_flags \<Rightarrow> bool \<Rightarrow> bytes \<Rightarrow> portal_creds \<Rightarrow> portal_creds" where
  "cred_begin k fl opens salt s =
     (case (opens, pc_blob s) of
        (True, PpBlob tmp) \<Rightarrow>
          if pp_ver tmp = BLOB_VER then s\<lparr>pc_cfg := tmp, pc_defaults := (pp_provisioned tmp = 0)\<rparr>
          else seedDefaults k fl salt s
      | _ \<Rightarrow> seedDefaults k fl salt s)"

definition isProvisioned :: "portal_creds \<Rightarrow> bool" where
  "isProvisioned s \<longleftrightarrow> pp_provisioned (pc_cfg s) \<noteq> 0"

text \<open>\<open>strncmp\<close> over the 24 characters of the user array; both comparisons are always made.\<close>

definition checkLogin :: "crypto \<Rightarrow> bytes \<Rightarrow> bytes \<Rightarrow> portal_creds \<Rightarrow> bool" where
  "checkLogin k u p s =
     (let userOk = (take (USER_MAX + 1) u = take (USER_MAX + 1) (pp_user (pc_cfg s)));
          passOk = ctEqual (sha256Salted k (pp_salt (pc_cfg s)) p) (pp_hash (pc_cfg s)) 32
      in userOk \<and> passOk)"

definition setApPass :: "bool \<Rightarrow> nvs_write \<Rightarrow> bytes \<Rightarrow> portal_creds \<Rightarrow> portal_creds \<times> cred_error option" where
  "setApPass opens w pass s =
     (if length pass < AP_PASS_MIN \<or> AP_PASS_MAX < length pass then (s, Some Ap_length)
      else (cred_persist opens w
              (s\<lparr>pc_cfg := (pc_cfg s)\<lparr>pp_apPass := take AP_PASS_MAX pass, pp_provisioned := 1\<rparr>, pc_defaults := False\<rparr>), None))"

definition setLogin ::
  "crypto \<Rightarrow> bool \<Rightarrow> nvs_write \<Rightarrow> bytes \<Rightarrow> bytes \<Rightarrow> bytes \<Rightarrow> portal_creds \<Rightarrow> portal_creds \<times> cred_error option" where
  "setLogin k opens w salt u pass s =
     (if length u < 1 \<or> USER_MAX < length u then (s, Some User_length)
      else if length pass < 6 then (s, Some Pass_short)
      else (cred_persist opens w
              (s\<lparr>pc_cfg := (pc_cfg s)\<lparr>pp_user := take USER_MAX u, pp_salt := salt,
                   pp_hash := sha256Salted k salt pass, pp_provisioned := 1\<rparr>, pc_defaults := False\<rparr>), None))"

section \<open>The stored login is the login\<close>

text \<open>The documented size of a SHA-256 digest.\<close>

definition sha_laws :: "crypto \<Rightarrow> bool" where
  "sha_laws k \<longleftrightarrow> (\<forall>m. length (sha256 k m) = 32)"

lemma checkLogin_iff:
  assumes "sha_laws k" and "length (pp_hash (pc_cfg s)) = 32" and "length (pp_user (pc_cfg s)) \<le> USER_MAX"
  shows "checkLogin k u p s \<longleftrightarrow> u = pp_user (pc_cfg s) \<and> sha256 k (pp_salt (pc_cfg s) @ p) = pp_hash (pc_cfg s)"
proof -
  have "take (USER_MAX + 1) u = pp_user (pc_cfg s) \<longleftrightarrow> u = pp_user (pc_cfg s)"
  proof
    assume t: "take (USER_MAX + 1) u = pp_user (pc_cfg s)"
    then have "length (take (USER_MAX + 1) u) \<le> USER_MAX" using assms(3) by simp
    then have "length u \<le> USER_MAX" by (simp add: min_def split: if_splits)
    with t show "u = pp_user (pc_cfg s)" by simp
  qed (use assms(3) in simp)
  with assms show ?thesis
    by (simp add: checkLogin_def Let_def sha256Salted_def ctEqual_take sha_laws_def)
qed

text \<open>The live credentials always carry the current version, so that they are accepted on load.\<close>

definition cred_ok :: "portal_creds \<Rightarrow> bool" where
  "cred_ok s \<longleftrightarrow> pp_ver (pc_cfg s) = BLOB_VER"

lemma cred_persist_cfg [simp]: "pc_cfg (cred_persist opens w s) = pc_cfg s" "pc_defaults (cred_persist opens w s) = pc_defaults s"
  by (simp_all add: cred_persist_def)

lemma cred_ok_begin: "cred_ok (cred_begin k fl opens salt s)"
  by (auto simp: cred_ok_def cred_begin_def seedDefaults_def split: portal_blob.splits bool.splits)

lemma cred_ok_set: "cred_ok s \<Longrightarrow> cred_ok (fst (setApPass opens w a s))"
  "cred_ok s \<Longrightarrow> cred_ok (fst (setLogin k opens w salt u p s))"
  by (simp_all add: cred_ok_def setApPass_def setLogin_def)

lemma setLogin_Some:
  assumes "setLogin k opens w salt u p s = (s2, None)"
  shows "length u \<le> USER_MAX" and "s2 = cred_persist opens w (s\<lparr>pc_cfg := (pc_cfg s)\<lparr>pp_user := u, pp_salt := salt,
      pp_hash := sha256Salted k salt p, pp_provisioned := 1\<rparr>, pc_defaults := False\<rparr>)"
  using assms by (auto simp: setLogin_def split: if_splits)

text \<open>
  C35: The portal login survives a reboot and is exact: after the operator set a user and a
  password and the write took, the restarted portal accepts that user with that password, never
  another user, and another password only if its salted SHA-256 is the same.
\<close>

theorem login_exact:
  assumes "sha_laws k" and "cred_ok s" and "setLogin k True Write_ok salt u p s = (s2, None)"
  shows "(checkLogin k u2 p2 (cred_begin k fl True salt2 s2) \<longleftrightarrow> u2 = u \<and> sha256 k (salt @ p2) = sha256 k (salt @ p)) \<and>
    \<not> pc_defaults (cred_begin k fl True salt2 s2)"
proof -
  note h = setLogin_Some [OF assms(3)]
  define c where "c = (pc_cfg s)\<lparr>pp_user := u, pp_salt := salt, pp_hash := sha256Salted k salt p, pp_provisioned := 1\<rparr>"
  have "cred_begin k fl True salt2 s2 = s2\<lparr>pc_cfg := c, pc_defaults := False\<rparr>"
    using assms(2) unfolding h(2) by (simp add: cred_begin_def cred_persist_def c_def cred_ok_def)
  then have b: "pc_cfg (cred_begin k fl True salt2 s2) = c" "\<not> pc_defaults (cred_begin k fl True salt2 s2)" by simp_all
  show ?thesis
    using checkLogin_iff [OF assms(1), of "cred_begin k fl True salt2 s2" u2 p2] b h(1) assms(1)
    by (simp add: c_def sha256Salted_def sha_laws_def)
qed

text \<open>A new WiFi passphrase alone silences the warning while the login is still the default one.\<close>

lemma passphrase_hides_default_login:
  fixes s :: portal_creds and salt :: bytes
  assumes "sha_laws k" and "length (pg_user fl) \<le> USER_MAX" and "8 \<le> length a" and "length a \<le> 63"
  defines "s2 \<equiv> fst (setApPass True Write_ok a (seedDefaults k fl salt s))"
  shows "\<not> pc_defaults s2" and "checkLogin k (pg_user fl) (pg_pass fl) s2"
proof -
  have s2: "s2 = cred_persist True Write_ok ((seedDefaults k fl salt s)\<lparr>pc_cfg := (pc_cfg (seedDefaults k fl salt s))
      \<lparr>pp_apPass := a, pp_provisioned := 1\<rparr>, pc_defaults := False\<rparr>)"
    using assms(3,4) by (simp add: s2_def setApPass_def AP_PASS_MIN_def AP_PASS_MAX_def)
  show "\<not> pc_defaults s2" by (simp add: s2)
  show "checkLogin k (pg_user fl) (pg_pass fl) s2"
    using assms(1,2) by (subst checkLogin_iff) (simp_all add: s2 seedDefaults_def sha256Salted_def sha_laws_def)
qed

lemma toy_sha_laws: "sha_laws toy_crypto"
  by (simp add: sha_laws_def toy_crypto_def)

definition fresh_creds :: portal_creds where
  "fresh_creds = \<lparr>pc_cfg = \<lparr>pp_ver = BLOB_VER, pp_provisioned = 0, pp_user = str ''admin'', pp_salt = [], pp_hash = [], pp_apPass = []\<rparr>,
     pc_defaults = True, pc_blob = PpAbsent\<rparr>"

definition sample_portal_flags :: portal_flags where
  "sample_portal_flags = \<lparr>pg_user = str ''admin'', pg_pass = str ''loracam-admin'', pg_apPass = str ''loracam-portal''\<rparr>"

lemma login_exact_witness:
  "checkLogin toy_crypto (str ''eve'') (str ''secret'') (cred_begin toy_crypto sample_portal_flags True []
     (fst (setLogin toy_crypto True Write_ok [1] (str ''eve'') (str ''secret'') fresh_creds)))"
proof -
  have "setLogin toy_crypto True Write_ok [1] (str ''eve'') (str ''secret'') fresh_creds =
      (fst (setLogin toy_crypto True Write_ok [1] (str ''eve'') (str ''secret'') fresh_creds), None)"
    by (simp add: setLogin_def USER_MAX_def str_def)
  from login_exact [OF toy_sha_laws _ this] show ?thesis by (simp add: cred_ok_def fresh_creds_def)
qed

end
