(* ===== verification/Floats.thy ===== *)
theory Floats
  imports Format
begin

text \<open>
  The part of C floating point the firmware computes with: IEEE single precision division,
  multiplication, addition and comparison (each rounded once, to nearest, ties to even), the
  truncating conversion to an integer, and the \<open>%.nf\<close> conversion of \<open>printf\<close>. A finite value
  is \<open>(-1)^s * m * 2^e\<close>; the pair of integers is exact, so every operation is one rounding of
  a rational. Contraction of a multiplication and an addition into one rounding, which a
  compiler may choose, is not modelled.
\<close>

datatype fval = Fin bool int int | Inf bool | Not_a_number

definition f32_of_bits :: "u32 \<Rightarrow> fval" where
  "f32_of_bits w =
     (let s = bit w 31; ex = uint (drop_bit 23 w AND 0xFF); fr = uint (w AND 0x7FFFFF) in
      if ex = 255 then (if fr = 0 then Inf s else Not_a_number)
      else if ex = 0 then Fin s fr (-149)
      else Fin s (fr + 2 ^ 23) (ex - 150))"

section \<open>Rounding\<close>

function bitlen :: "int \<Rightarrow> int" where
  "bitlen n = (if n \<le> 0 then 0 else 1 + bitlen (n div 2))"
  by pat_completeness auto
termination by (relation "measure nat") auto

declare bitlen.simps [simp del]

text \<open>\<open>num / den = a / (b * 2 ^ e)\<close>, and the integer nearest to \<open>a / b\<close>, ties to even.\<close>

definition scaled :: "int \<Rightarrow> int \<Rightarrow> int \<Rightarrow> int \<times> int" where
  "scaled num den e = (if 0 \<le> e then (num, den * 2 ^ nat e) else (num * 2 ^ nat (- e), den))"

definition nearest :: "int \<Rightarrow> int \<Rightarrow> int" where
  "nearest a b =
     (let q = a div b; r = a mod b in
      if 2 * r < b \<or> (2 * r = b \<and> even q) then q else q + 1)"

definition ratio_log :: "int \<Rightarrow> int \<Rightarrow> int" where
  "ratio_log num den =
     (let l = bitlen num - bitlen den; (a, b) = scaled num den l in if a < b then l - 1 else l)"

text \<open>The value \<open>num / den\<close> in a format of \<open>p\<close> bits with exponents from \<open>emin\<close> and below \<open>2 ^ emax\<close>.\<close>

definition round_to :: "int \<Rightarrow> int \<Rightarrow> int \<Rightarrow> bool \<Rightarrow> int \<Rightarrow> int \<Rightarrow> fval" where
  "round_to p emin emax s num den =
     (if num = 0 then Fin s 0 emin
      else (let e = max emin (ratio_log num den - p + 1); (a, b) = scaled num den e; q = nearest a b in
        if emax < e + bitlen q then Inf s else Fin s q e))"

definition round_f32 :: "bool \<Rightarrow> int \<Rightarrow> int \<Rightarrow> fval" where
  "round_f32 = round_to 24 (-149) 128"

definition round_f64 :: "bool \<Rightarrow> int \<Rightarrow> int \<Rightarrow> fval" where
  "round_f64 = round_to 53 (-1074) 1024"

section \<open>Operations\<close>

definition f32_of_int :: "int \<Rightarrow> fval" where
  "f32_of_int i = round_f32 (i < 0) \<bar>i\<bar> 1"

definition fneg :: "fval \<Rightarrow> bool" where
  "fneg x = (case x of Fin s m e \<Rightarrow> s | Inf s \<Rightarrow> s | Not_a_number \<Rightarrow> False)"

text \<open>\<open>m1 * 2 ^ e1 * 2 ^ k\<close> as a ratio.\<close>

definition pow_ratio :: "int \<Rightarrow> int \<Rightarrow> int \<times> int" where
  "pow_ratio m e = (if 0 \<le> e then (m * 2 ^ nat e, 1) else (m, 2 ^ nat (- e)))"

definition f32_div :: "fval \<Rightarrow> fval \<Rightarrow> fval" where
  "f32_div x y =
     (case (x, y) of
        (Fin s m e, Fin t n f) \<Rightarrow>
          (if n = 0 then (if m = 0 then Not_a_number else Inf (s \<noteq> t))
           else (let (a, b) = pow_ratio m (e - f) in round_f32 (s \<noteq> t) a (b * n)))
      | (Fin s m e, Inf t) \<Rightarrow> Fin (s \<noteq> t) 0 (-149)
      | (Inf s, Fin t n f) \<Rightarrow> Inf (s \<noteq> t)
      | _ \<Rightarrow> Not_a_number)"

definition f32_mul :: "fval \<Rightarrow> fval \<Rightarrow> fval" where
  "f32_mul x y =
     (case (x, y) of
        (Fin s m e, Fin t n f) \<Rightarrow> (let (a, b) = pow_ratio (m * n) (e + f) in round_f32 (s \<noteq> t) a b)
      | (Fin s m e, Inf t) \<Rightarrow> if m = 0 then Not_a_number else Inf (s \<noteq> t)
      | (Inf s, Fin t n f) \<Rightarrow> if n = 0 then Not_a_number else Inf (s \<noteq> t)
      | (Inf s, Inf t) \<Rightarrow> Inf (s \<noteq> t)
      | _ \<Rightarrow> Not_a_number)"

definition signed :: "bool \<Rightarrow> int \<Rightarrow> int" where
  "signed s m = (if s then - m else m)"

definition f32_add :: "fval \<Rightarrow> fval \<Rightarrow> fval" where
  "f32_add x y =
     (case (x, y) of
        (Fin s m e, Fin t n f) \<Rightarrow>
          (let k = min e f;
               v = signed s m * 2 ^ nat (e - k) + signed t n * 2 ^ nat (f - k);
               neg = (if v = 0 then s \<and> t else v < 0);
               (a, b) = pow_ratio \<bar>v\<bar> k
           in round_f32 neg a b)
      | (Inf s, Inf t) \<Rightarrow> if s = t then Inf s else Not_a_number
      | (Inf s, Fin t n f) \<Rightarrow> Inf s
      | (Fin s m e, Inf t) \<Rightarrow> Inf t
      | _ \<Rightarrow> Not_a_number)"

text \<open>\<open>x \<le> y\<close> and \<open>x < y\<close>; both false on a NaN.\<close>

definition f_le :: "fval \<Rightarrow> fval \<Rightarrow> bool" where
  "f_le x y =
     (case (x, y) of
        (Fin s m e, Fin t n f) \<Rightarrow>
          (let k = min e f in signed s m * 2 ^ nat (e - k) \<le> signed t n * 2 ^ nat (f - k))
      | (Inf s, Fin _ _ _) \<Rightarrow> s
      | (Fin _ _ _, Inf t) \<Rightarrow> \<not> t
      | (Inf s, Inf t) \<Rightarrow> s \<or> \<not> t
      | _ \<Rightarrow> False)"

definition f_less :: "fval \<Rightarrow> fval \<Rightarrow> bool" where
  "f_less x y \<longleftrightarrow> f_le x y \<and> \<not> f_le y x"

text \<open>
  Conversion to an integer type with values from \<open>lo\<close> to \<open>hi\<close> truncates; outside that range
  it is undefined in C, here \<open>None\<close>.
\<close>

definition f_trunc :: "int \<Rightarrow> int \<Rightarrow> fval \<Rightarrow> int option" where
  "f_trunc lo hi x =
     (case x of
        Fin s m e \<Rightarrow>
          (let (a, b) = pow_ratio m e; v = signed s (a div b) in if lo \<le> v \<and> v \<le> hi then Some v else None)
      | _ \<Rightarrow> None)"

definition f_to_u32 :: "fval \<Rightarrow> u32 option" where
  "f_to_u32 x = map_option word_of_int (f_trunc 0 (2 ^ 32 - 1) x)"

definition f_to_int :: "fval \<Rightarrow> int option" where
  "f_to_int x = f_trunc (- (2 ^ 31)) (2 ^ 31 - 1) x"

section \<open>Printing\<close>

definition zero_pad :: "nat \<Rightarrow> bytes \<Rightarrow> bytes" where
  "zero_pad n s = replicate (n - length s) (of_char CHR ''0'') @ s"

text \<open>\<open>%.pf\<close>: the decimal with \<open>p\<close> places nearest to the exact value, ties to even.\<close>

definition fmt_fixed :: "nat \<Rightarrow> fval \<Rightarrow> bytes" where
  "fmt_fixed p x =
     (case x of
        Fin s m e \<Rightarrow>
          (let (a, b) = pow_ratio (m * 10 ^ p) e; q = nearest a b; d = 10 ^ p
           in (if s then str ''-'' else []) @ fmt_u (nat (q div d)) @
              (if p = 0 then [] else str ''.'' @ zero_pad p (fmt_u (nat (q mod d)))))
      | Inf s \<Rightarrow> (if s then str ''-inf'' else str ''inf'')
      | Not_a_number \<Rightarrow> str ''nan'')"

text \<open>\<open>(double)i / 1e7\<close>: the nearest double of the quotient.\<close>

definition degrees :: "u32 \<Rightarrow> fval" where
  "degrees w = round_f64 (sint w < 0) \<bar>sint w\<bar> (10 ^ 7)"

section \<open>Facts\<close>

lemma nearest_bounds:
  assumes "0 < b"
  shows "\<bar>2 * (nearest a b * b - a)\<bar> \<le> b"
proof -
  define q r where "q = a div b" and "r = a mod b"
  have a: "a = q * b + r" by (simp add: q_def r_def)
  have r: "0 \<le> r" "r < b" using assms by (simp_all add: r_def)
  have "nearest a b = (if 2 * r < b \<or> (2 * r = b \<and> even q) then q else q + 1)"
    by (simp add: nearest_def Let_def q_def r_def)
  then show ?thesis using r by (simp add: a distrib_right split: if_splits)
qed

lemma nearest_nonneg: "0 \<le> a \<Longrightarrow> 0 < b \<Longrightarrow> 0 \<le> nearest a b"
  by (auto simp: nearest_def Let_def pos_imp_zdiv_nonneg_iff)

lemma length_zero_pad: "length s \<le> n \<Longrightarrow> length (zero_pad n s) = n"
  by (simp add: zero_pad_def)

end
