(* ===== verification/CameraNode.thy ===== *)
theory CameraNode
  imports CamC2 Floats
begin

text \<open>
  The camera and its microSD card (\<open>src/src/CameraNode.cpp\<close>, \<open>CameraNode.h\<close>): numbering and
  listing of the media files, snapshots, and the recorder with the AVI file it writes. The
  sensor, the bus lock and the card answer through arguments; the media directory is a list of
  named contents in directory order. Writes to the open recording succeed (the source does not
  look at their results).
\<close>

type_synonym sd_dir = "(bytes \<times> bytes) list"

record cam_node =
  cn_ok :: bool
  cn_sdOk :: bool
  cn_dir :: sd_dir
  cn_nextIdx :: u32
  cn_nextVid :: u32
  cn_sdFreePct :: u8
  cn_recActive :: bool
  cn_recStop :: bool
  cn_recSecs :: u16
  cn_recIdx :: u32
  cn_rd :: "bytes option"

text \<open>What the card reports: total and used bytes.\<close>

type_synonym sd_usage = "u64 \<times> u64"

definition refreshFreePct :: "sd_usage \<Rightarrow> cam_node \<Rightarrow> cam_node" where
  "refreshFreePct u s = s\<lparr>cn_sdFreePct := (if fst u = 0 then 0 else ucast (((fst u - snd u) * 100) div fst u))\<rparr>"

section \<open>Media names\<close>

definition fmt_05u :: "u32 \<Rightarrow> bytes" where
  "fmt_05u n = zero_pad 5 (fmt_u (unat n))"

text \<open>The file of a number, below the media directory.\<close>

definition mediaPath :: "u32 \<Rightarrow> bool \<Rightarrow> bytes" where
  "mediaPath idx vid = (if vid then str ''VID_'' @ fmt_05u idx @ str ''.avi'' else str ''IMG_'' @ fmt_05u idx @ str ''.jpg'')"

definition base_name :: "bytes \<Rightarrow> bytes" where
  "base_name nm = rev (takeWhile (\<lambda>b. b \<noteq> of_char CHR ''/'') (rev nm))"

definition is_space_c :: "u8 \<Rightarrow> bool" where
  "is_space_c b \<longleftrightarrow> b = 32 \<or> 9 \<le> b \<and> b \<le> 13"

definition is_digit_c :: "u8 \<Rightarrow> bool" where
  "is_digit_c b \<longleftrightarrow> of_char CHR ''0'' \<le> b \<and> b \<le> of_char CHR ''9''"

definition digit_val :: "nat \<Rightarrow> u8 \<Rightarrow> nat" where
  "digit_val v c = v * 10 + unat (c - of_char CHR ''0'')"

text \<open>\<open>%u\<close> of \<open>sscanf\<close>: blanks, an optional sign, digits; beyond 32 bits it saturates.\<close>

definition scan_u :: "bytes \<Rightarrow> u32 option" where
  "scan_u s =
     (let s = dropWhile is_space_c s;
          neg = (s \<noteq> [] \<and> hd s = of_char CHR ''-'');
          s = (if s \<noteq> [] \<and> (hd s = of_char CHR ''-'' \<or> hd s = of_char CHR ''+'') then tl s else s);
          ds = takeWhile is_digit_c s;
          v = foldl digit_val 0 ds
      in if ds = [] then None
         else Some (if 2 ^ 32 \<le> v then 0xFFFFFFFF else if neg then - of_nat v else of_nat v))"

definition scan_name :: "string \<Rightarrow> bytes \<Rightarrow> u32 option" where
  "scan_name pre base = (if take 4 base = str pre then scan_u (drop 4 base) else None)"

section \<open>Mounting the card\<close>

text \<open>The numbering resumes behind the highest numbers on the card.\<close>

definition resume_entry :: "u32 \<times> u32 \<Rightarrow> bytes \<Rightarrow> u32 \<times> u32" where
  "resume_entry n nm =
     (let base = base_name nm in
      case scan_name ''IMG_'' base of
        Some idx \<Rightarrow> if fst n \<le> idx then (idx + 1, snd n) else n
      | None \<Rightarrow> (case scan_name ''VID_'' base of
            Some idx \<Rightarrow> if snd n \<le> idx then (fst n, idx + 1) else n
          | None \<Rightarrow> n))"

definition beginStorage :: "bool \<Rightarrow> bool \<Rightarrow> sd_dir \<Rightarrow> sd_usage \<Rightarrow> cam_node \<Rightarrow> cam_node" where
  "beginStorage busOk mountOk dir u s =
     (if \<not> busOk \<or> \<not> mountOk then s
      else (let n = foldl resume_entry (cn_nextIdx s, cn_nextVid s) (map fst dir) in
        (refreshFreePct u (s\<lparr>cn_dir := dir, cn_nextIdx := fst n, cn_nextVid := snd n\<rparr>))\<lparr>cn_sdOk := True\<rparr>))"

section \<open>The media list\<close>

record photo_info =
  ph_idx :: u32
  ph_bytes :: u32
  ph_vid :: bool

definition photo_of :: "bytes \<times> bytes \<Rightarrow> photo_info option" where
  "photo_of e =
     (let base = base_name (fst e); size = of_nat (length (snd e)) in
      case scan_name ''IMG_'' base of
        Some i \<Rightarrow> Some \<lparr>ph_idx = i, ph_bytes = size, ph_vid = False\<rparr>
      | None \<Rightarrow> map_option (\<lambda>i. \<lparr>ph_idx = i, ph_bytes = size, ph_vid = True\<rparr>) (scan_name ''VID_'' base))"

fun min_pos :: "photo_info list \<Rightarrow> nat list \<Rightarrow> nat \<Rightarrow> nat" where
  "min_pos xs [] mn = mn"
| "min_pos xs (i # is') mn = min_pos xs is' (if ph_idx (xs ! i) < ph_idx (xs ! mn) then i else mn)"

text \<open>A full list replaces its smallest number.\<close>

definition add_photo :: "nat \<Rightarrow> photo_info list \<Rightarrow> photo_info \<Rightarrow> photo_info list" where
  "add_photo cap out p =
     (if length out < cap then out @ [p]
      else (let mn = min_pos out [1..<length out] 0 in
        if ph_idx (out ! mn) < ph_idx p then out[mn := p] else out))"

text \<open>One pass of the insertion sort: \<open>k\<close> moves in front of the smaller ones at the end.\<close>

definition insert_back :: "photo_info list \<Rightarrow> photo_info \<Rightarrow> photo_info list" where
  "insert_back xs k =
     (let small = rev (takeWhile (\<lambda>p. ph_idx p < ph_idx k) (rev xs))
      in take (length xs - length small) xs @ k # small)"

definition photoList :: "bool \<Rightarrow> nat \<Rightarrow> cam_node \<Rightarrow> photo_info list" where
  "photoList busOk cap s =
     (if \<not> cn_sdOk s \<or> cap = 0 \<or> \<not> busOk then []
      else foldl insert_back [] (foldl (add_photo cap) [] (List.map_filter photo_of (cn_dir s))))"

section \<open>Reading and deleting\<close>

definition photoOpen :: "bool \<Rightarrow> u32 \<Rightarrow> bool \<Rightarrow> cam_node \<Rightarrow> cam_node \<times> nat" where
  "photoOpen busOk idx vid s =
     (if \<not> cn_sdOk s \<or> \<not> busOk then (s, 0)
      else (let f = map_of (cn_dir s) (mediaPath idx vid) in
        (s\<lparr>cn_rd := f\<rparr>, case f of None \<Rightarrow> 0 | Some d \<Rightarrow> length d)))"

definition photoReadChunk :: "bool \<Rightarrow> nat \<Rightarrow> cam_node \<Rightarrow> cam_node \<times> bytes" where
  "photoReadChunk busOk cap s =
     (case cn_rd s of
        None \<Rightarrow> (s, [])
      | Some d \<Rightarrow> if \<not> busOk then (s, []) else (s\<lparr>cn_rd := Some (drop cap d)\<rparr>, take cap d))"

definition photoClose :: "bool \<Rightarrow> cam_node \<Rightarrow> cam_node" where
  "photoClose busOk s = (if cn_rd s = None \<or> \<not> busOk then s else s\<lparr>cn_rd := None\<rparr>)"

definition remove_file :: "bytes \<Rightarrow> sd_dir \<Rightarrow> sd_dir" where
  "remove_file nm d = filter (\<lambda>e. fst e \<noteq> nm) d"

text \<open>Creating a file empties an existing one of that name.\<close>

definition write_file :: "bytes \<Rightarrow> bytes \<Rightarrow> sd_dir \<Rightarrow> sd_dir" where
  "write_file nm data d =
     (if nm \<in> fst ` set d then map (\<lambda>e. if fst e = nm then (nm, data) else e) d else d @ [(nm, data)])"

definition photoDelete :: "bool \<Rightarrow> sd_usage \<Rightarrow> u32 \<Rightarrow> bool \<Rightarrow> cam_node \<Rightarrow> cam_node \<times> bool" where
  "photoDelete busOk u idx vid s =
     (if \<not> cn_sdOk s \<or> \<not> busOk then (s, False)
      else (let nm = mediaPath idx vid in
        if nm \<in> fst ` set (cn_dir s) then (refreshFreePct u (s\<lparr>cn_dir := remove_file nm (cn_dir s)\<rparr>), True)
        else (s, False)))"

section \<open>Snapshots\<close>

text \<open>A frame of the sensor: width, height and the JPEG bytes.\<close>

type_synonym cam_frame = "u16 \<times> u16 \<times> bytes"

text \<open>
  The outcome of one snapshot: the camera lock, the frame, the bus lock, whether the file opens
  and how much of it is written.
\<close>

record snap_env =
  sn_lock :: bool
  sn_frame :: "cam_frame option"
  sn_busOk :: bool
  sn_openOk :: bool
  sn_written :: nat
  sn_usage :: sd_usage

definition psram_name :: "cam_frame \<Rightarrow> bytes" where
  "psram_name fb = (case fb of (w, h, d) \<Rightarrow>
     str ''snap_'' @ fmt_u (unat w) @ str ''x'' @ fmt_u (unat h) @ str ''_'' @ fmt_u (length d) @ str ''B.jpg'')"

text \<open>The state, the byte count and the name reported (empty when the capture failed).\<close>

definition snap :: "snap_env \<Rightarrow> nat \<Rightarrow> cam_node \<Rightarrow> cam_node \<times> nat \<times> bytes" where
  "snap e nameCap s =
     (if \<not> cn_ok s \<or> \<not> sn_lock e then (s, 0, [])
      else (case sn_frame e of
          None \<Rightarrow> (s, 0, [])
        | Some (w, h, d) \<Rightarrow>
            (let nm = mediaPath (cn_nextIdx s) False; synthetic = bounded_copy nameCap (psram_name (w, h, d)) in
             if cn_sdOk s \<and> sn_busOk e \<and> sn_openOk e then
               (if sn_written e = length d then
                  (refreshFreePct (sn_usage e) (s\<lparr>cn_dir := write_file nm d (cn_dir s), cn_nextIdx := cn_nextIdx s + 1\<rparr>),
                   length d, bounded_copy nameCap (str ''/loracam/'' @ nm))
                else (s\<lparr>cn_dir := remove_file nm (cn_dir s)\<rparr>, length d, synthetic))
             else (s, length d, synthetic))))"

section \<open>The recorder\<close>

definition REC_MAX_FRAMES :: nat where "REC_MAX_FRAMES = 3000"

text \<open>\<open>memcpy\<close> into a buffer, or a write behind a seek into a file.\<close>

definition put_at :: "nat \<Rightarrow> bytes \<Rightarrow> bytes \<Rightarrow> bytes" where
  "put_at off bs buf = take off buf @ bs @ drop (off + length bs) buf"

definition writeAviHeader :: "u16 \<Rightarrow> u16 \<Rightarrow> bytes" where
  "writeAviHeader w h =
     fold (\<lambda>(off, bs). put_at off bs)
       [(0, str ''RIFF''), (8, str ''AVI ''), (12, str ''LIST''), (16, le32 192), (20, str ''hdrl''),
        (24, str ''avih''), (28, le32 56), (44, le32 0x10), (56, le32 1), (64, le32 (ucast w)), (68, le32 (ucast h)),
        (88, str ''LIST''), (92, le32 116), (96, str ''strl''), (100, str ''strh''), (104, le32 56),
        (108, str ''vids''), (112, str ''MJPG''), (132, le32 1000000), (160, le16 w), (162, le16 h),
        (164, str ''strf''), (168, le32 40), (172, le32 40), (176, le32 (ucast w)), (180, le32 (ucast h)),
        (184, [1]), (186, [24]), (188, str ''MJPG''), (192, le32 (ucast w * ucast h * 3)), (212, str ''LIST''), (220, str ''movi'')]
       (replicate 224 0)"

text \<open>The open recording: file content, index entries (offset, length), byte count of the movie list.\<close>

record recording =
  rg_file :: bytes
  rg_idx :: "(u32 \<times> u32) list"
  rg_movi :: u32

definition rec_empty :: recording where
  "rec_empty = \<lparr>rg_file = [], rg_idx = [], rg_movi = 4\<rparr>"

text \<open>A frame as a chunk, padded to an even length.\<close>

definition jpeg_chunk :: "bytes \<Rightarrow> bytes" where
  "jpeg_chunk d = str ''00dc'' @ le32 (of_nat (length d)) @ d @ (if odd (length d) then [0] else [])"

definition rec_frame :: "cam_frame \<Rightarrow> recording \<Rightarrow> recording" where
  "rec_frame fb r = (case fb of (w, h, d) \<Rightarrow>
     let file = (if rg_idx r = [] then writeAviHeader w h else rg_file r); clen = of_nat (length d) :: u32
     in \<lparr>rg_file = file @ jpeg_chunk d, rg_idx = rg_idx r @ [(rg_movi r, clen)],
         rg_movi = rg_movi r + (8 + (if odd (length d) then clen + 1 else clen))\<rparr>)"

text \<open>
  One turn of the loop: the clock at its test, the stop flag, the camera lock with the frame, and
  the bus lock.
\<close>

record rec_turn =
  rt_now :: u32
  rt_stop :: bool
  rt_frame :: "cam_frame option"
  rt_busOk :: bool

definition rec_continue :: "u32 \<Rightarrow> rec_turn \<Rightarrow> recording \<Rightarrow> bool" where
  "rec_continue deadline t r \<longleftrightarrow> \<not> rt_stop t \<and> rt_now t < deadline \<and> length (rg_idx r) < REC_MAX_FRAMES"

fun rec_loop :: "u32 \<Rightarrow> rec_turn list \<Rightarrow> recording \<Rightarrow> recording" where
  "rec_loop deadline [] r = r"
| "rec_loop deadline (t # ts) r =
     (if \<not> rec_continue deadline t r then r
      else rec_loop deadline ts
        (case rt_frame t of None \<Rightarrow> r | Some fb \<Rightarrow> if rt_busOk t then rec_frame fb r else r))"

definition idx_entry :: "u32 \<times> u32 \<Rightarrow> bytes" where
  "idx_entry e = str ''00dc'' @ le32 0x10 @ le32 (fst e) @ le32 (snd e)"

text \<open>The index is appended and the sizes of the header are filled in.\<close>

definition rec_finalize :: "u32 \<Rightarrow> recording \<Rightarrow> bytes" where
  "rec_finalize elapsedMs r =
     (let frames = of_nat (length (rg_idx r)); usPerFrame = (elapsedMs * 1000) div frames;
          file = rg_file r @ (str ''idx1'' @ le32 (frames * 16)) @ concat (map idx_entry (rg_idx r));
          total = 224 + (rg_movi r - 4) + 8 + frames * 16
      in put_at 216 (le32 (rg_movi r)) (put_at 140 (le32 frames) (put_at 128 (le32 usPerFrame)
           (put_at 48 (le32 frames) (put_at 32 (le32 usPerFrame) (put_at 4 (le32 (total - 8)) file))))))"

text \<open>The task: whether memory, bus and file are available, its start and end times, the final bus lock.\<close>

record rec_env =
  re_open :: bool
  re_start :: u32
  re_turns :: "rec_turn list"
  re_end :: u32
  re_finalBus :: bool
  re_usage :: sd_usage

definition recTask :: "rec_env \<Rightarrow> cam_node \<Rightarrow> cam_node" where
  "recTask e s =
     (let nm = mediaPath (cn_recIdx s) True in
      if \<not> re_open e then s\<lparr>cn_recActive := False\<rparr>
      else (let deadline = re_start e + ucast (cn_recSecs s) * 1000;
                r = rec_loop deadline (re_turns e) rec_empty;
                s = s\<lparr>cn_dir := write_file nm (rg_file r) (cn_dir s)\<rparr>;
                s = (if \<not> re_finalBus e then s
                     else if rg_idx r = [] then s\<lparr>cn_dir := remove_file nm (cn_dir s)\<rparr>
                     else refreshFreePct (re_usage e)
                       (s\<lparr>cn_dir := write_file nm (rec_finalize (elapsed (re_end e) (re_start e)) r) (cn_dir s)\<rparr>))
        in s\<lparr>cn_recActive := False\<rparr>))"

definition recordStop :: "cam_node \<Rightarrow> cam_node" where
  "recordStop s = s\<lparr>cn_recStop := True\<rparr>"

definition clamp_seconds :: "u16 \<Rightarrow> u16" where
  "clamp_seconds n = (let n = (if n < 5 then 5 else n) in if 300 < n then 300 else n)"

text \<open>\<open>spawned\<close>: whether the task could be created; the name is empty on failure.\<close>

definition recordStart :: "bool \<Rightarrow> u16 \<Rightarrow> nat \<Rightarrow> cam_node \<Rightarrow> cam_node \<times> bytes option" where
  "recordStart spawned seconds nameCap s =
     (if \<not> cn_ok s \<or> \<not> cn_sdOk s \<or> cn_recActive s then (s, None)
      else (let s2 = s\<lparr>cn_recSecs := clamp_seconds seconds, cn_recIdx := cn_nextVid s, cn_nextVid := cn_nextVid s + 1,
                  cn_recStop := False, cn_recActive := True\<rparr>
        in if \<not> spawned then (s2\<lparr>cn_recActive := False\<rparr>, None)
           else (s2, Some (bounded_copy nameCap (str ''/loracam/'' @ mediaPath (cn_recIdx s2) True)))))"

definition cam_begin :: "bool \<Rightarrow> cam_node \<Rightarrow> cam_node" where
  "cam_begin initOk s = s\<lparr>cn_ok := initOk\<rparr>"

end
