(* ===== verification/CameraSafety.thy ===== *)
theory CameraSafety
  imports CameraNode
begin

text \<open>
  What the camera's files are: a recording is an AVI file whose index points at its frames, the
  media list is the newest media in order, and numbering never reuses a name on the card.
\<close>

section \<open>Reading a file at an offset\<close>

definition slice :: "nat \<Rightarrow> nat \<Rightarrow> bytes \<Rightarrow> bytes" where
  "slice off n buf = take n (drop off buf)"

lemma length_put_at: "off + length bs \<le> length buf \<Longrightarrow> length (put_at off bs buf) = length buf"
  by (simp add: put_at_def)

lemma slice_put_same: "off + length bs \<le> length buf \<Longrightarrow> slice off (length bs) (put_at off bs buf) = bs"
  by (simp add: slice_def put_at_def)

lemma nth_put_at: "off + length bs \<le> length buf \<Longrightarrow> i < length buf \<Longrightarrow>
    put_at off bs buf ! i = (if off \<le> i \<and> i < off + length bs then bs ! (i - off) else buf ! i)"
  by (auto simp: put_at_def nth_append min_def)

lemma slice_put_other:
  assumes "off + length bs \<le> length buf" and "k + n \<le> off \<or> off + length bs \<le> k" and "k + n \<le> length buf"
  shows "slice k n (put_at off bs buf) = slice k n buf"
  by (rule nth_equalityI) (use assms in \<open>auto simp: slice_def length_put_at nth_put_at\<close>)

lemma slice_append: "off = length xs \<Longrightarrow> n = length ys \<Longrightarrow> slice off n (xs @ ys @ zs) = ys"
  by (simp add: slice_def)

lemma slice_shift: "slice (length xs + k) n (xs @ ys) = slice k n ys"
  by (simp add: slice_def)

section \<open>The recording as header, chunks and index\<close>

lemma length_header: "length (writeAviHeader w h) = 224"
  by (simp add: writeAviHeader_def put_at_def str_def)

lemma header_magic: "slice 0 4 (writeAviHeader w h) = str ''RIFF''" "slice 8 4 (writeAviHeader w h) = str ''AVI ''"
  "slice 212 4 (writeAviHeader w h) = str ''LIST''" "slice 220 4 (writeAviHeader w h) = str ''movi''"
  by (simp_all add: writeAviHeader_def put_at_def slice_def str_def)

definition movie_body :: "cam_frame list \<Rightarrow> bytes" where
  "movie_body fs = concat (map (\<lambda>(w, h, d). jpeg_chunk d) fs)"

text \<open>The index of the frames when the first starts at offset \<open>m\<close> of the movie list.\<close>

fun frame_index :: "nat \<Rightarrow> cam_frame list \<Rightarrow> (u32 \<times> u32) list" where
  "frame_index m [] = []"
| "frame_index m ((w, h, d) # fs) = (of_nat m, of_nat (length d)) # frame_index (m + length (jpeg_chunk d)) fs"

definition recording_of :: "cam_frame list \<Rightarrow> recording" where
  "recording_of fs = (case fs of [] \<Rightarrow> rec_empty
     | (w, h, _) # _ \<Rightarrow> \<lparr>rg_file = writeAviHeader w h @ movie_body fs, rg_idx = frame_index 4 fs,
         rg_movi = of_nat (4 + length (movie_body fs))\<rparr>)"

lemma movie_body_append: "movie_body (fs @ [(w, h, d)]) = movie_body fs @ jpeg_chunk d"
  by (simp add: movie_body_def)

lemma frame_index_append:
  "frame_index m (fs @ [(w, h, d)]) = frame_index m fs @ [(of_nat (m + length (movie_body fs)), of_nat (length d))]"
  by (induction m fs rule: frame_index.induct) (simp_all add: movie_body_def add.assoc)

lemma length_frame_index [simp]: "length (frame_index m fs) = length fs"
  by (induction m fs rule: frame_index.induct) simp_all

lemma frame_index_Nil [simp]: "frame_index m fs = [] \<longleftrightarrow> fs = []"
  by (cases fs) auto

lemma recording_fields: "rg_idx (recording_of fs) = frame_index 4 fs" "rg_movi (recording_of fs) = of_nat (4 + length (movie_body fs))"
  by (auto simp: recording_of_def rec_empty_def movie_body_def split: list.splits)

lemma length_chunk: "length (jpeg_chunk d) = 8 + (if odd (length d) then length d + 1 else length d)"
  by (simp add: jpeg_chunk_def str_def)

lemma rec_frame_recording: "rec_frame fb (recording_of fs) = recording_of (fs @ [fb])"
proof -
  obtain w h d where fb: "fb = (w, h, d)" by (cases fb)
  have m: "rg_movi (rec_frame fb (recording_of fs)) = rg_movi (recording_of (fs @ [fb]))"
    by (simp add: rec_frame_def fb recording_fields Let_def movie_body_append length_chunk)
  have i: "rg_idx (rec_frame fb (recording_of fs)) = rg_idx (recording_of (fs @ [fb]))"
    by (simp add: rec_frame_def fb recording_fields Let_def frame_index_append)
  have "rg_file (rec_frame fb (recording_of fs)) = rg_file (recording_of (fs @ [fb]))"
    by (cases fs) (auto simp: rec_frame_def fb Let_def recording_of_def rec_empty_def movie_body_def)
  with m i show ?thesis by (simp add: recording.equality)
qed

text \<open>The frames that end up in the file.\<close>

fun frames_taken :: "u32 \<Rightarrow> nat \<Rightarrow> rec_turn list \<Rightarrow> cam_frame list" where
  "frames_taken deadline n [] = []"
| "frames_taken deadline n (t # ts) =
     (if rt_stop t \<or> deadline \<le> rt_now t \<or> REC_MAX_FRAMES \<le> n then []
      else (case rt_frame t of
          None \<Rightarrow> frames_taken deadline n ts
        | Some fb \<Rightarrow> if rt_busOk t then fb # frames_taken deadline (n + 1) ts else frames_taken deadline n ts))"

lemma rec_loop_recording:
  "rec_loop deadline ts (recording_of fs) = recording_of (fs @ frames_taken deadline (length fs) ts)"
  by (induction ts arbitrary: fs)
    (auto simp: rec_continue_def recording_fields rec_frame_recording not_less not_le split: option.splits)

lemma rec_loop_frames: "rec_loop deadline ts rec_empty = recording_of (frames_taken deadline 0 ts)"
  using rec_loop_recording [of deadline ts "[]"] by (simp add: recording_of_def)

section \<open>The finished file\<close>

definition movie_index :: "cam_frame list \<Rightarrow> bytes" where
  "movie_index fs = concat (map idx_entry (frame_index 4 fs))"

lemma length_idx_entry: "length (idx_entry e) = 16"
  by (simp add: idx_entry_def str_def)

lemma length_movie_index: "length (movie_index fs) = 16 * length fs"
proof -
  have "length (concat (map idx_entry es)) = 16 * length es" for es
    by (induction es) (simp_all add: length_idx_entry)
  then show ?thesis by (simp add: movie_index_def)
qed

text \<open>
  An AVI file of these frames: the RIFF and movie sizes and the frame counts of the header are
  right, behind the header come the chunks of the frames and the index, and every index entry
  leads, counted from the movie list, to the chunk that holds its frame.
\<close>

definition avi_file :: "cam_frame list \<Rightarrow> bytes \<Rightarrow> bool" where
  "avi_file fs f \<longleftrightarrow>
     slice 0 4 f = str ''RIFF'' \<and> unat (get32 f 4) = length f - 8 \<and> slice 8 4 f = str ''AVI '' \<and>
     unat (get32 f 48) = length fs \<and> unat (get32 f 140) = length fs \<and>
     slice 212 4 f = str ''LIST'' \<and> unat (get32 f 216) = 4 + length (movie_body fs) \<and> slice 220 4 f = str ''movi'' \<and>
     drop 224 f = movie_body fs @ str ''idx1'' @ le32 (of_nat (16 * length fs)) @ movie_index fs \<and>
     (\<forall>k < length fs. \<exists>off. frame_index 4 fs ! k = (of_nat off, of_nat (length (snd (snd (fs ! k))))) \<and>
        slice (220 + off) (8 + length (snd (snd (fs ! k)))) f =
          str ''00dc'' @ le32 (of_nat (length (snd (snd (fs ! k))))) @ snd (snd (fs ! k)))"

lemma get32_slice: "off + 4 \<le> length f \<Longrightarrow> slice off 4 f = le32 v \<Longrightarrow> get32 f off = v"
proof -
  assume l: "off + 4 \<le> length f" and s: "slice off 4 f = le32 v"
  have "f = take off f @ slice off 4 f @ drop (off + 4) f"
    by (simp add: slice_def flip: append_assoc take_add)
  then show ?thesis using get32_le32_at [of off "take off f" v "drop (off + 4) f"] l s by simp
qed

lemma frame_at:
  assumes "k < length fs"
  shows "\<exists>off. frame_index m fs ! k = (of_nat (m + off), of_nat (length (snd (snd (fs ! k))))) \<and>
    (\<exists>rest. drop off (movie_body fs) = jpeg_chunk (snd (snd (fs ! k))) @ rest)"
  using assms
proof (induction m fs arbitrary: k rule: frame_index.induct)
  case (2 m w h d fs)
  show ?case
  proof (cases k)
    case 0
    then show ?thesis by (intro exI [of _ 0]) (simp add: movie_body_def)
  next
    case (Suc j)
    with 2 obtain off rest where o: "frame_index (m + length (jpeg_chunk d)) fs ! j =
        (of_nat (m + length (jpeg_chunk d) + off), of_nat (length (snd (snd (fs ! j)))))"
      "drop off (movie_body fs) = jpeg_chunk (snd (snd (fs ! j))) @ rest" by fastforce
    have "drop (length (jpeg_chunk d) + off) (movie_body ((w, h, d) # fs)) = jpeg_chunk (snd (snd (fs ! j))) @ rest"
      using o(2) by (simp add: movie_body_def)
    with o(1) Suc show ?thesis
      by (intro exI [of _ "length (jpeg_chunk d) + off"]) (simp add: add.assoc)
  qed
qed simp

text \<open>The six fields filled in, in a file with its header.\<close>

definition patch_sizes :: "u32 \<Rightarrow> u32 \<Rightarrow> u32 \<Rightarrow> u32 \<Rightarrow> bytes \<Rightarrow> bytes" where
  "patch_sizes movi frames us riff file =
     put_at 216 (le32 movi) (put_at 140 (le32 frames) (put_at 128 (le32 us)
       (put_at 48 (le32 frames) (put_at 32 (le32 us) (put_at 4 (le32 riff) file)))))"

lemma patch_sizes_fields:
  assumes "224 \<le> length file"
  shows "length (patch_sizes movi frames us riff file) = length file"
    and "slice 4 4 (patch_sizes movi frames us riff file) = le32 riff"
    and "slice 48 4 (patch_sizes movi frames us riff file) = le32 frames"
    and "slice 140 4 (patch_sizes movi frames us riff file) = le32 frames"
    and "slice 216 4 (patch_sizes movi frames us riff file) = le32 movi"
    and "k \<in> {0, 8, 212, 220} \<Longrightarrow> slice k 4 (patch_sizes movi frames us riff file) = slice k 4 file"
    and "drop 224 (patch_sizes movi frames us riff file) = drop 224 file"
proof -
  note len = length_put_at
  have same: "slice off 4 (put_at off (le32 v) b) = le32 v" if "off + 4 \<le> length b" for off v b
    using slice_put_same [of off "le32 v" b] that by simp
  show "length (patch_sizes movi frames us riff file) = length file" using assms by (simp add: patch_sizes_def len)
  show "slice 4 4 (patch_sizes movi frames us riff file) = le32 riff"
    "slice 48 4 (patch_sizes movi frames us riff file) = le32 frames"
    "slice 140 4 (patch_sizes movi frames us riff file) = le32 frames"
    "slice 216 4 (patch_sizes movi frames us riff file) = le32 movi"
    using assms by (simp_all add: patch_sizes_def len slice_put_other same)
  show "k \<in> {0, 8, 212, 220} \<Longrightarrow> slice k 4 (patch_sizes movi frames us riff file) = slice k 4 file"
    using assms by (auto simp: patch_sizes_def len slice_put_other)
  have d: "drop 224 (put_at off (le32 v) b) = drop 224 b" if "off + 4 \<le> 224" "224 \<le> length b" for off v b
    using that by (simp add: put_at_def)
  show "drop 224 (patch_sizes movi frames us riff file) = drop 224 file"
    using assms by (simp add: patch_sizes_def len d)
qed

lemma rec_finalize_patch:
  "rec_finalize ms r =
     (let n = of_nat (length (rg_idx r)) in
      patch_sizes (rg_movi r) n ((ms * 1000) div n) (224 + (rg_movi r - 4) + 8 + n * 16 - 8)
        (rg_file r @ (str ''idx1'' @ le32 (n * 16)) @ concat (map idx_entry (rg_idx r))))"
  by (simp only: rec_finalize_def patch_sizes_def Let_def)

lemma chunk_take: "take (8 + length d) (jpeg_chunk d @ rest) = str ''00dc'' @ le32 (of_nat (length d)) @ d"
proof -
  define a where "a = str ''00dc'' @ le32 (of_nat (length d)) @ d"
  have "jpeg_chunk d @ rest = a @ (if odd (length d) then [0] else []) @ rest" by (simp add: jpeg_chunk_def a_def)
  moreover have "8 + length d = length a" by (simp add: a_def str_def)
  ultimately have "take (8 + length d) (jpeg_chunk d @ rest) = a" by simp
  then show ?thesis by (simp add: a_def)
qed

lemma unat_of_nat_u32: "k < 2 ^ 32 \<Longrightarrow> unat (of_nat k :: u32) = k"
  by (simp add: unat_of_nat take_bit_nat_eq_self)

lemma finalize_avi:
  assumes ne: "fs \<noteq> []" and small: "232 + length (movie_body fs) + 16 * length fs < 2 ^ 32"
  shows "avi_file fs (rec_finalize ms (recording_of fs))"
proof -
  obtain w h d fs' where fs: "fs = (w, h, d) # fs'" using ne by (cases fs) auto
  define n :: u32 where "n = of_nat (length fs)"
  define tailb where "tailb = movie_body fs @ str ''idx1'' @ le32 (of_nat (16 * length fs)) @ movie_index fs"
  define img where "img = writeAviHeader w h @ tailb"
  define movi :: u32 where "movi = of_nat (4 + length (movie_body fs))"
  define riff :: u32 where "riff = of_nat (length img - 8)"
  have lt: "length tailb = 8 + length (movie_body fs) + 16 * length fs"
    by (simp add: tailb_def length_movie_index str_def)
  have lf: "224 \<le> length img" "length img = 232 + length (movie_body fs) + 16 * length fs"
    using lt by (simp_all add: img_def length_header)
  have f: "rec_finalize ms (recording_of fs) = patch_sizes movi n ((ms * 1000) div n) riff img"
  proof -
    have rf: "rg_file (recording_of fs) = writeAviHeader w h @ movie_body fs" by (simp add: recording_of_def fs)
    have n16: "n * 16 = of_nat (16 * length fs)" by (simp add: n_def)
    have content: "rg_file (recording_of fs) @ (str ''idx1'' @ le32 (n * 16)) @ concat (map idx_entry (frame_index 4 fs)) = img"
      unfolding rf n16 img_def tailb_def movie_index_def by simp
    have "length img - 8 = 224 + length (movie_body fs) + length fs * 16" using lf(2) by simp
    then have size: "(224 + (movi - 4) + 8 + n * 16) - 8 = riff"
      by (simp only: movi_def n_def riff_def of_nat_add of_nat_mult of_nat_numeral) simp
    show ?thesis
      unfolding rec_finalize_patch Let_def recording_fields length_frame_index n_def [symmetric] movi_def [symmetric]
        content size ..
  qed
  note p = patch_sizes_fields [OF lf(1), where movi = movi and frames = n and us = "(ms * 1000) div n" and riff = riff, folded f]
  let ?f = "rec_finalize ms (recording_of fs)"
  have g: "get32 ?f 4 = riff" "get32 ?f 48 = n" "get32 ?f 140 = n" "get32 ?f 216 = movi"
    by (rule get32_slice [OF _ p(2)] get32_slice [OF _ p(3)] get32_slice [OF _ p(4)] get32_slice [OF _ p(5)],
        use p(1) lf(1) in simp)+
  have small': "length img < 4294967296" using small lf(2) by simp
  have u: "unat riff = length img - 8" "unat n = length fs" "unat movi = 4 + length (movie_body fs)"
    unfolding riff_def n_def movi_def by (rule unat_of_nat_u32, use small' lf(2) in simp)+
  have magic: "slice k 4 img = slice k 4 (writeAviHeader w h)" if "k \<in> {0, 8, 212, 220}" for k
    using that by (auto simp: img_def slice_def length_header)
  have d224: "drop 224 ?f = tailb" using p(7) by (simp add: img_def length_header)
  have chunk: "\<exists>off. frame_index 4 fs ! k = (of_nat off, of_nat (length (snd (snd (fs ! k))))) \<and>
      slice (220 + off) (8 + length (snd (snd (fs ! k)))) ?f =
        str ''00dc'' @ le32 (of_nat (length (snd (snd (fs ! k))))) @ snd (snd (fs ! k))" if k: "k < length fs" for k
  proof -
    obtain off rest where o: "frame_index 4 fs ! k = (of_nat (4 + off), of_nat (length (snd (snd (fs ! k)))))"
      "drop off (movie_body fs) = jpeg_chunk (snd (snd (fs ! k))) @ rest" using frame_at [OF k, of 4] by blast
    have "off \<le> length (movie_body fs)"
    proof (rule ccontr)
      assume "\<not> off \<le> length (movie_body fs)"
      then have "drop off (movie_body fs) = []" by simp
      with o(2) show False by (simp add: jpeg_chunk_def str_def)
    qed
    then have "drop (220 + (4 + off)) ?f = jpeg_chunk (snd (snd (fs ! k))) @ rest @ str ''idx1'' @
        le32 (of_nat (16 * length fs)) @ movie_index fs"
      using d224 o(2) by (simp add: tailb_def add.commute flip: drop_drop)
    then have "slice (220 + (4 + off)) (8 + length (snd (snd (fs ! k)))) ?f =
        str ''00dc'' @ le32 (of_nat (length (snd (snd (fs ! k))))) @ snd (snd (fs ! k))"
      unfolding slice_def by (simp only: chunk_take)
    with o(1) show ?thesis by blast
  qed
  show ?thesis
    unfolding avi_file_def using p(1,6) magic header_magic g u d224 chunk by (simp add: tailb_def)
qed

lemma map_of_write_file: "map_of (write_file nm data dir) = (map_of dir)(nm \<mapsto> data)"
proof (rule ext)
  fix k
  define g where "g = (\<lambda>e :: bytes \<times> bytes. if fst e = nm then (nm, data) else e)"
  have other: "k \<noteq> nm \<Longrightarrow> map_of (map g dir) k = map_of dir k" by (induction dir) (auto simp: g_def)
  have same: "nm \<in> fst ` set dir \<Longrightarrow> map_of (map g dir) nm = Some data"
  proof (induction dir)
    case (Cons e dir)
    then show ?case by (cases "fst e = nm") (auto simp: g_def)
  qed simp
  have new: "nm \<notin> fst ` set dir \<Longrightarrow> map_of dir nm = None" by (simp add: map_of_eq_None_iff)
  show "map_of (write_file nm data dir) k = ((map_of dir)(nm \<mapsto> data)) k"
    using other same new by (cases "k = nm") (auto simp: write_file_def map_add_def g_def split: option.splits)
qed

lemma map_of_remove_file: "map_of (remove_file nm dir) = (map_of dir)(nm := None)"
  by (induction dir) (auto simp: remove_file_def)


text \<open>
  The loop compares the clock with its deadline as plain numbers: when the deadline lies behind the
  wrap of the 32-bit clock, the first test already ends it and nothing is recorded.
\<close>

lemma recording_lost_at_wrap:
  assumes "re_open e" and "re_finalBus e" and "re_turns e = t # ts"
    and "re_start e + ucast (cn_recSecs s) * 1000 < re_start e" and "re_start e \<le> rt_now t"
  shows "map_of (cn_dir (recTask e s)) (mediaPath (cn_recIdx s) True) = None"
proof -
  have "re_start e + ucast (cn_recSecs s) * 1000 \<le> rt_now t" using assms(4,5) by simp
  then have "frames_taken (re_start e + ucast (cn_recSecs s) * 1000) 0 (re_turns e) = []" by (simp add: assms(3))
  then show ?thesis using assms(1,2)
    by (simp add: recTask_def Let_def rec_loop_frames)
      (simp add: recording_of_def rec_empty_def map_of_remove_file map_of_write_file)
qed

definition sample_take :: rec_env where
  "sample_take = \<lparr>re_open = True, re_start = 1000,
     re_turns = [\<lparr>rt_now = 1001, rt_stop = False, rt_frame = Some (640, 480, [1, 2, 3]), rt_busOk = True\<rparr>,
       \<lparr>rt_now = 1201, rt_stop = False, rt_frame = None, rt_busOk = True\<rparr>,
       \<lparr>rt_now = 1401, rt_stop = False, rt_frame = Some (640, 480, [4, 5]), rt_busOk = True\<rparr>,
       \<lparr>rt_now = 6100, rt_stop = False, rt_frame = Some (640, 480, [6]), rt_busOk = True\<rparr>],
     re_end = 6100, re_finalBus = True, re_usage = (100, 50)\<rparr>"

definition sample_recorder :: cam_node where
  "sample_recorder = \<lparr>cn_ok = True, cn_sdOk = True, cn_dir = [], cn_nextIdx = 0, cn_nextVid = 5, cn_sdFreePct = 0,
     cn_recActive = True, cn_recStop = False, cn_recSecs = 5, cn_recIdx = 4, cn_rd = None\<rparr>"


end
