(* ===== verification/CameraMedia.thy ===== *)
theory CameraMedia
  imports CameraSafety "HOL-Library.Multiset"
begin

text \<open>
  The media directory: the names the firmware writes are the names it reads back, a new number is
  never one that is on the card, and the list shown is the newest media in order.
\<close>

section \<open>Names and numbers\<close>

lemma digit_byte:
  assumes "n < 10"
  shows "is_digit_c (48 + of_nat n)" and "unat (of_nat n :: u8) = n"
proof -
  have "\<forall>n \<in> {0..<10 :: nat}. is_digit_c (48 + of_nat n) \<and> unat (of_nat n :: u8) = n"
    by (simp add: is_digit_c_def atLeastLessThan_nat_numeral)
  then show "is_digit_c (48 + of_nat n)" "unat (of_nat n :: u8) = n" using assms by auto
qed

lemma digits_value: "foldl digit_val 0 (fmt_u n) = n \<and> list_all is_digit_c (fmt_u n) \<and> fmt_u n \<noteq> []"
proof (induction n rule: fmt_u.induct)
  case (1 n)
  show ?case
  proof (cases "n < 10")
    case True
    then show ?thesis by (simp add: fmt_u.simps [of n] digit_byte digit_val_def)
  next
    case False
    have r: "n mod 10 < 10" by simp
    show ?thesis
      using False 1 digit_byte [OF r] by (simp add: fmt_u.simps [of n] digit_val_def del: of_nat_mod)
  qed
qed

lemma padded_value: "foldl digit_val 0 (fmt_05u n) = unat n \<and> list_all is_digit_c (fmt_05u n) \<and> fmt_05u n \<noteq> []"
proof -
  have z: "foldl digit_val 0 (replicate m 48) = 0" for m
    by (induction m) (simp_all add: digit_val_def)
  have "is_digit_c 48" by (simp add: is_digit_c_def)
  then show ?thesis
    using digits_value [of "unat n"] by (auto simp: fmt_05u_def zero_pad_def z list_all_iff)
qed

lemma not_digit: "is_digit_c c \<Longrightarrow> c \<noteq> of_char CHR ''-'' \<and> c \<noteq> of_char CHR ''+'' \<and> \<not> is_space_c c \<and> c \<noteq> of_char CHR ''/''"
  by (auto simp: is_digit_c_def is_space_c_def word_le_nat_alt)

lemma scan_digits:
  assumes "list_all is_digit_c ds" and "ds \<noteq> []" and "rest \<noteq> []" and "\<not> is_digit_c (hd rest)" and "foldl digit_val 0 ds = unat n"
  shows "scan_u (ds @ rest) = Some n"
proof -
  obtain c cs where ds: "ds = c # cs" using assms(2) by (cases ds) auto
  then have c: "is_digit_c c" using assms(1) by simp
  obtain r rs where r: "rest = r # rs" "\<not> is_digit_c r" using assms(3,4) by (cases rest) auto
  have tw: "takeWhile is_digit_c (ds @ rest) = ds"
    using assms(1) r by (simp add: takeWhile_append2 list_all_iff)
  have "unat n < 2 ^ 32" using unsigned_less [of n] by simp
  then show ?thesis
    using tw not_digit [OF c] assms(5) unfolding ds by (simp add: scan_u_def Let_def)
qed

lemma scan_mediaPath:
  "scan_name ''IMG_'' (mediaPath n False) = Some n" "scan_name ''VID_'' (mediaPath n True) = Some n"
  using padded_value [of n]
  by (auto simp: scan_name_def mediaPath_def str_def is_digit_c_def intro!: scan_digits)

lemma base_mediaPath: "base_name (mediaPath n vid) = mediaPath n vid"
proof -
  have "\<forall>b \<in> set (fmt_05u n). b \<noteq> of_char CHR ''/''" using padded_value [of n] not_digit by (auto simp: list_all_iff)
  then have "\<forall>b \<in> set (rev (mediaPath n vid)). b \<noteq> of_char CHR ''/''"
    by (auto simp: mediaPath_def str_def)
  then have "takeWhile (\<lambda>b. b \<noteq> of_char CHR ''/'') (rev (mediaPath n vid)) = rev (mediaPath n vid)"
    by (simp only: takeWhile_eq_all_conv)
  then show ?thesis by (simp only: base_name_def rev_rev_ident)
qed

section \<open>Numbers on the card lie below the next ones\<close>

definition below :: "u32 \<times> u32 \<Rightarrow> bytes \<Rightarrow> bool" where
  "below n nm \<longleftrightarrow>
     (case scan_name ''IMG_'' (base_name nm) of Some i \<Rightarrow> i < fst n | None \<Rightarrow> True) \<and>
     (case scan_name ''VID_'' (base_name nm) of Some i \<Rightarrow> i < snd n | None \<Rightarrow> True)"

definition numbered :: "cam_node \<Rightarrow> bool" where
  "numbered s \<longleftrightarrow> (\<forall>e \<in> set (cn_dir s). below (cn_nextIdx s, cn_nextVid s) (fst e))"

text \<open>The last number of 32 bits, behind which the numbering wraps.\<close>

definition not_last :: "bytes \<Rightarrow> bool" where
  "not_last nm \<longleftrightarrow> scan_name ''IMG_'' (base_name nm) \<noteq> Some 0xFFFFFFFF \<and> scan_name ''VID_'' (base_name nm) \<noteq> Some 0xFFFFFFFF"

lemma below_mono: "below n nm \<Longrightarrow> fst n \<le> fst m \<Longrightarrow> snd n \<le> snd m \<Longrightarrow> below m nm"
  by (auto simp: below_def split: option.splits intro: less_le_trans)

lemma word_less_Suc: "i \<noteq> 0xFFFFFFFF \<Longrightarrow> (i :: u32) < i + 1"
proof -
  assume "i \<noteq> 0xFFFFFFFF"
  then have "unat i \<noteq> 4294967295" by (simp add: word_unat_eq_iff)
  moreover have "unat i < 4294967296" using unsigned_less [of i] by simp
  ultimately show ?thesis by (simp add: word_less_nat_alt unat_word_ariths)
qed

lemma resume_entry_below:
  assumes "not_last nm"
  shows "below (resume_entry n nm) nm" and "fst n \<le> fst (resume_entry n nm)" and "snd n \<le> snd (resume_entry n nm)"
proof -
  have ex: "scan_name ''VID_'' b = None" if "scan_name ''IMG_'' b = Some i" for b i
    using that by (auto simp: scan_name_def str_def split: if_splits)
  have up: "i < i + 1" if "scan_name ''IMG_'' (base_name nm) = Some i \<or> scan_name ''VID_'' (base_name nm) = Some i" for i
    using assms that by (intro word_less_Suc) (auto simp: not_last_def)
  show "below (resume_entry n nm) nm"
    using ex up by (auto simp: below_def resume_entry_def Let_def not_le split: option.splits)
  show "fst n \<le> fst (resume_entry n nm)" "snd n \<le> snd (resume_entry n nm)"
    using up by (auto simp: resume_entry_def Let_def split: option.splits intro: le_less_trans less_imp_le)
qed

lemma resume_below:
  assumes "\<forall>nm \<in> set nms. not_last nm"
  shows "(\<forall>nm \<in> set nms. below (foldl resume_entry n nms) nm) \<and> fst n \<le> fst (foldl resume_entry n nms) \<and>
    snd n \<le> snd (foldl resume_entry n nms)"
  using assms
proof (induction nms arbitrary: n)
  case (Cons nm nms)
  let ?m = "resume_entry n nm"
  have e: "below ?m nm" "fst n \<le> fst ?m" "snd n \<le> snd ?m"
    using Cons.prems by (auto intro: resume_entry_below)
  have ih: "\<forall>x \<in> set nms. below (foldl resume_entry ?m nms) x" "fst ?m \<le> fst (foldl resume_entry ?m nms)"
    "snd ?m \<le> snd (foldl resume_entry ?m nms)" using Cons.IH [of ?m] Cons.prems by auto
  show ?case
    using below_mono [OF e(1) ih(2,3)] ih(1) order_trans [OF e(2) ih(2)] order_trans [OF e(3) ih(3)] by simp
qed simp

lemma mounted_numbered:
  assumes "\<forall>e \<in> set dir. not_last (fst e)"
  shows "numbered (beginStorage True True dir u s)"
  using resume_below [of "map fst dir" "(cn_nextIdx s, cn_nextVid s)"] assms
  by (simp add: numbered_def beginStorage_def refreshFreePct_def Let_def)

section \<open>A snapshot takes a new name\<close>

lemma next_is_new:
  assumes "numbered s"
  shows "mediaPath (cn_nextIdx s) False \<notin> fst ` set (cn_dir s)"
proof
  assume "mediaPath (cn_nextIdx s) False \<in> fst ` set (cn_dir s)"
  then have "below (cn_nextIdx s, cn_nextVid s) (mediaPath (cn_nextIdx s) False)" using assms by (auto simp: numbered_def)
  then show False by (simp add: below_def base_mediaPath scan_mediaPath)
qed

lemma snap_cases:
  assumes "numbered s"
  obtains (same) "cn_dir (fst (snap e cap s)) = cn_dir s" "cn_nextIdx (fst (snap e cap s)) = cn_nextIdx s"
      "cn_nextVid (fst (snap e cap s)) = cn_nextVid s"
    | (saved) d where "cn_dir (fst (snap e cap s)) = cn_dir s @ [(mediaPath (cn_nextIdx s) False, d)]"
      "cn_nextIdx (fst (snap e cap s)) = cn_nextIdx s + 1" "cn_nextVid (fst (snap e cap s)) = cn_nextVid s"
proof -
  let ?nm = "mediaPath (cn_nextIdx s) False"
  have r: "remove_file ?nm (cn_dir s) = cn_dir s"
    using next_is_new [OF assms] by (auto simp: remove_file_def filter_id_conv image_iff)
  have w: "write_file ?nm d (cn_dir s) = cn_dir s @ [(?nm, d)]" for d
    using next_is_new [OF assms] by (simp add: write_file_def)
  show ?thesis
  proof (cases "cn_ok s \<and> sn_lock e \<and> cn_sdOk s \<and> sn_busOk e \<and> sn_openOk e \<and>
      (\<exists>x y d. sn_frame e = Some (x, y, d) \<and> sn_written e = length d)")
    case True
    then show ?thesis
      by (intro saved [of "snd (snd (the (sn_frame e)))"]) (auto simp: snap_def Let_def refreshFreePct_def w)
  next
    case False
    then show ?thesis
      by (intro same) (auto simp: snap_def Let_def r split: option.splits prod.splits)
  qed
qed

lemma snap_numbered:
  assumes "numbered s" and "cn_nextIdx s \<noteq> 0xFFFFFFFF"
  shows "numbered (fst (snap e cap s))"
  using assms(1)
proof (cases rule: snap_cases [where e = e and cap = cap])
  case same
  then show ?thesis using assms(1) by (simp add: numbered_def)
next
  case (saved d)
  have up: "cn_nextIdx s < cn_nextIdx s + 1" by (rule word_less_Suc [OF assms(2)])
  have "scan_name ''VID_'' (mediaPath i False) = None" for i by (simp add: scan_name_def mediaPath_def str_def)
  then have "below (cn_nextIdx s + 1, cn_nextVid s) (mediaPath (cn_nextIdx s) False)"
    using up by (simp add: below_def base_mediaPath scan_mediaPath)
  then show ?thesis
    using assms(1) saved up below_mono [of "(cn_nextIdx s, cn_nextVid s)" _ "(cn_nextIdx s + 1, cn_nextVid s)"]
    by (auto simp: numbered_def less_imp_le)
qed

definition snaps :: "nat \<Rightarrow> snap_env list \<Rightarrow> cam_node \<Rightarrow> cam_node" where
  "snaps cap es s = foldl (\<lambda>s e. fst (snap e cap s)) s es"

lemma snaps_keep:
  assumes "numbered s" and "unat (cn_nextIdx s) + length es < 2 ^ 32"
  shows "numbered (snaps cap es s) \<and> (map_of (cn_dir s) k = Some d \<longrightarrow> map_of (cn_dir (snaps cap es s)) k = Some d) \<and>
    unat (cn_nextIdx (snaps cap es s)) \<le> unat (cn_nextIdx s) + length es"
  using assms
proof (induction es arbitrary: s)
  case (Cons e es)
  define t where "t = fst (snap e cap s)"
  have last: "cn_nextIdx s \<noteq> 0xFFFFFFFF" using Cons.prems(2) by auto
  have n: "numbered t" unfolding t_def by (rule snap_numbered [OF Cons.prems(1) last])
  have st: "(map_of (cn_dir s) k = Some d \<longrightarrow> map_of (cn_dir t) k = Some d) \<and> unat (cn_nextIdx t) \<le> unat (cn_nextIdx s) + 1"
    using Cons.prems(1)
  proof (cases rule: snap_cases [where e = e and cap = cap])
    case (saved d')
    have "unat (cn_nextIdx s + 1) \<le> unat (cn_nextIdx s) + 1" by (simp add: unat_word_ariths)
    with saved show ?thesis by (auto simp: t_def map_add_def split: option.splits)
  qed (simp add: t_def)
  have "numbered (snaps cap es t) \<and> (map_of (cn_dir t) k = Some d \<longrightarrow> map_of (cn_dir (snaps cap es t)) k = Some d) \<and>
      unat (cn_nextIdx (snaps cap es t)) \<le> unat (cn_nextIdx t) + length es"
    by (rule Cons.IH [OF n]) (use st Cons.prems(2) in auto)
  then show ?case using st by (auto simp: snaps_def t_def)
qed (simp add: snaps_def)

text \<open>
  C34: No capture overwrites a file: after the card is mounted with whatever is on it (no number
  being the last of 32 bits), every file that is on it at any moment, from before the mount or from
  an earlier snapshot, is still there with its content after any further snapshots, whether they
  are written, fail to open, are cut short, or find the camera busy.
\<close>

theorem media_never_overwritten:
  assumes "\<forall>e \<in> set dir. not_last (fst e)" and "s = beginStorage True True dir u s0"
    and "unat (cn_nextIdx s) + length (es @ es2) < 2 ^ 32"
    and "map_of (cn_dir (snaps cap es s)) k = Some d"
  shows "map_of (cn_dir (snaps cap (es @ es2) s)) k = Some d"
proof -
  have "numbered s" unfolding assms(2) by (rule mounted_numbered [OF assms(1)])
  then have "numbered (snaps cap es s) \<and> unat (cn_nextIdx (snaps cap es s)) \<le> unat (cn_nextIdx s) + length es"
    using snaps_keep [of s es cap] assms(3) by simp
  then have "map_of (cn_dir (snaps cap es2 (snaps cap es s))) k = Some d"
    using snaps_keep [of "snaps cap es s" es2 cap k d] assms(3,4) by simp
  then show ?thesis by (simp add: snaps_def)
qed

definition sample_card :: sd_dir where
  "sample_card = [(mediaPath 7 False, [1]), (mediaPath 2 True, [2]), (str ''notes.txt'', [3])]"

definition sample_camera :: cam_node where
  "sample_camera = \<lparr>cn_ok = True, cn_sdOk = False, cn_dir = [], cn_nextIdx = 1, cn_nextVid = 1, cn_sdFreePct = 0xFF,
     cn_recActive = False, cn_recStop = False, cn_recSecs = 30, cn_recIdx = 0, cn_rd = None\<rparr>"

definition sample_shot :: snap_env where
  "sample_shot = \<lparr>sn_lock = True, sn_frame = Some (640, 480, [9, 9]), sn_busOk = True, sn_openOk = True,
     sn_written = 2, sn_usage = (100, 50)\<rparr>"

lemma sample_card_numbers:
  "\<forall>e \<in> set sample_card. not_last (fst e)"
  "foldl resume_entry (1, 1) (map fst sample_card) = (8, 3)"
proof -
  have b: "base_name (str ''notes.txt'') = str ''notes.txt''" by code_simp
  have x: "scan_name ''VID_'' (mediaPath i False) = None" "scan_name ''IMG_'' (mediaPath i True) = None" for i
    by (simp_all add: scan_name_def mediaPath_def str_def)
  have y: "scan_name ''IMG_'' (str ''notes.txt'') = None" "scan_name ''VID_'' (str ''notes.txt'') = None" by code_simp+
  show "\<forall>e \<in> set sample_card. not_last (fst e)"
    by (simp add: sample_card_def not_last_def base_mediaPath scan_mediaPath b x y)
  show "foldl resume_entry (1, 1) (map fst sample_card) = (8, 3)"
    by (simp add: sample_card_def resume_entry_def base_mediaPath scan_mediaPath b x y)
qed

lemma media_never_overwritten_witness:
  "map_of (cn_dir (snaps 32 ([sample_shot] @ [sample_shot, sample_shot]) (beginStorage True True sample_card (100, 50) sample_camera)))
     (mediaPath 8 False) = Some [9, 9]"
proof (rule media_never_overwritten [OF sample_card_numbers(1) refl])
  let ?s = "beginStorage True True sample_card (100, 50) sample_camera"
  have n: "cn_nextIdx ?s = 8"
    using sample_card_numbers(2) by (simp add: beginStorage_def refreshFreePct_def Let_def sample_camera_def)
  then show "unat (cn_nextIdx ?s) + length ([sample_shot] @ [sample_shot, sample_shot]) < 2 ^ 32" by simp
  have new: "mediaPath 8 False \<notin> fst ` set (cn_dir ?s)"
    using next_is_new [OF mounted_numbered [OF sample_card_numbers(1), of "(100, 50)" sample_camera]] n by simp
  have ok: "cn_ok ?s" "cn_sdOk ?s"
    by (simp_all add: beginStorage_def refreshFreePct_def Let_def sample_camera_def)
  show "map_of (cn_dir (snaps 32 [sample_shot] ?s)) (mediaPath 8 False) = Some [9, 9]"
    using ok n new by (simp add: snaps_def snap_def Let_def refreshFreePct_def sample_shot_def map_of_write_file)
qed

section \<open>The list shows the newest media\<close>

lemma min_pos_min:
  "min_pos xs is' mn \<in> insert mn (set is') \<and> (\<forall>i \<in> insert mn (set is'). ph_idx (xs ! min_pos xs is' mn) \<le> ph_idx (xs ! i))"
proof (induction is' arbitrary: mn)
  case (Cons i is')
  show ?case
    using Cons [of i] Cons [of mn] by (cases "ph_idx (xs ! i) < ph_idx (xs ! mn)") (auto intro: order_trans)
qed simp

text \<open>
  What is kept of the media seen so far: all of them, or a full list none of whose entries is
  older than one that was dropped.
\<close>

definition newest :: "nat \<Rightarrow> photo_info list \<Rightarrow> photo_info multiset \<Rightarrow> bool" where
  "newest cap out seen \<longleftrightarrow> length out \<le> cap \<and> (\<exists>dropped. seen = mset out + dropped \<and>
     (dropped \<noteq> {#} \<longrightarrow> length out = cap \<and> (\<forall>d \<in># dropped. \<forall>p \<in> set out. ph_idx d \<le> ph_idx p)))"

lemma add_photo_newest:
  assumes "newest cap out seen" and "0 < cap"
  shows "newest cap (add_photo cap out p) (add_mset p seen)"
proof -
  obtain dropped where d: "length out \<le> cap" "seen = mset out + dropped"
    "dropped \<noteq> {#} \<longrightarrow> length out = cap \<and> (\<forall>d \<in># dropped. \<forall>p \<in> set out. ph_idx d \<le> ph_idx p)"
    using assms(1) by (auto simp: newest_def)
  show ?thesis
  proof (cases "length out < cap")
    case True
    then have "dropped = {#}" using d(3) by auto
    with True d(2) show ?thesis by (auto simp: newest_def add_photo_def)
  next
    case False
    then have full: "length out = cap" using d(1) by simp
    define mn where "mn = min_pos out [1..<length out] 0"
    have "insert 0 (set [1..<length out]) = {0..<length out}" using full assms(2) by auto
    then have "mn \<in> {0..<length out}" "\<forall>i \<in> {0..<length out}. ph_idx (out ! mn) \<le> ph_idx (out ! i)"
      using min_pos_min [of out "[1..<length out]" 0] unfolding mn_def by simp_all
    then have m: "mn < length out" "\<forall>q \<in> set out. ph_idx (out ! mn) \<le> ph_idx q" by (auto simp: in_set_conv_nth)
    have a: "add_photo cap out p = (if ph_idx (out ! mn) < ph_idx p then out[mn := p] else out)"
      using False by (simp only: add_photo_def mn_def Let_def) simp
    show ?thesis
    proof (cases "ph_idx (out ! mn) < ph_idx p")
      case True
      have old: "\<forall>d \<in># dropped. ph_idx d \<le> ph_idx (out ! mn)" using d(3) m(1) by auto
      have "add_mset p seen = mset (out[mn := p]) + add_mset (out ! mn) dropped"
        using m(1) by (simp add: d(2) mset_update)
      moreover have "\<forall>d \<in># add_mset (out ! mn) dropped. \<forall>q \<in> set (out[mn := p]). ph_idx d \<le> ph_idx q"
        using old m(2) True by (auto dest!: set_update_subset_insert [THEN subsetD] intro: order_trans less_imp_le)
      ultimately show ?thesis
        unfolding newest_def a using full True by (intro conjI exI [of _ "add_mset (out ! mn) dropped"]) simp_all
    next
      case 2: False
      have "\<forall>d \<in># add_mset p dropped. \<forall>q \<in> set out. ph_idx d \<le> ph_idx q" using 2 m(2) d(3) by (auto intro: order_trans)
      then show ?thesis
        unfolding newest_def a using full 2 d(2) by (intro conjI exI [of _ "add_mset p dropped"]) simp_all
    qed
  qed
qed

lemma add_photos_newest:
  "newest cap out seen \<Longrightarrow> 0 < cap \<Longrightarrow> newest cap (foldl (add_photo cap) out ps) (seen + mset ps)"
proof (induction ps arbitrary: out seen)
  case (Cons p ps)
  then show ?case using Cons.IH [OF add_photo_newest [OF Cons.prems, of p] Cons.prems(2)] by simp
qed simp

abbreviation newest_first :: "photo_info list \<Rightarrow> bool" where
  "newest_first ps \<equiv> sorted_wrt (\<lambda>p q. ph_idx q \<le> ph_idx p) ps"

lemma insert_back_sorts:
  assumes "newest_first xs"
  shows "newest_first (insert_back xs k) \<and> mset (insert_back xs k) = add_mset k (mset xs)"
proof -
  define small where "small = rev (takeWhile (\<lambda>p. ph_idx p < ph_idx k) (rev xs))"
  define big where "big = rev (dropWhile (\<lambda>p. ph_idx p < ph_idx k) (rev xs))"
  have xs: "xs = big @ small"
    unfolding big_def small_def by (simp flip: rev_append)
  have s: "\<forall>p \<in> set small. ph_idx p < ph_idx k" by (auto simp: small_def dest: set_takeWhileD)
  have b: "\<forall>p \<in> set big. ph_idx k \<le> ph_idx p"
  proof (cases "dropWhile (\<lambda>p. ph_idx p < ph_idx k) (rev xs)")
    case (Cons q qs)
    then have q: "ph_idx k \<le> ph_idx q" using hd_dropWhile [of "\<lambda>p. ph_idx p < ph_idx k" "rev xs"] by auto
    have "newest_first big" using assms xs by (simp add: sorted_wrt_append)
    moreover have "big = rev qs @ [q]" using Cons by (simp add: big_def)
    ultimately show ?thesis using q by (auto simp: sorted_wrt_append intro: order_trans)
  next
    case Nil
    then have "big = []" by (simp only: big_def) simp
    then show ?thesis by simp
  qed
  have "take (length xs - length small) xs = big" by (simp add: xs)
  then have "insert_back xs k = big @ k # small" by (simp only: insert_back_def Let_def small_def [symmetric])
  then show ?thesis using assms b s by (auto simp: xs sorted_wrt_append intro: order_trans less_imp_le)
qed

lemma insert_sort_sorts:
  "newest_first xs \<Longrightarrow> newest_first (foldl insert_back xs ps) \<and> mset (foldl insert_back xs ps) = mset xs + mset ps"
proof (induction ps arbitrary: xs)
  case (Cons p ps)
  then show ?case using Cons.IH [of "insert_back xs p"] insert_back_sorts [OF Cons.prems, of p] by simp
qed simp

text \<open>
  The photo list is the newest media in order: highest number first, at most as many as asked
  for, every entry a media file of the card with its size and kind, and when some are left out the
  list is full and none of them is newer than one that is shown.
\<close>

theorem photo_list_newest:
  assumes "cn_sdOk s" and "0 < cap"
  shows "newest_first (photoList True cap s) \<and> newest cap (photoList True cap s) (mset (List.map_filter photo_of (cn_dir s)))"
proof -
  let ?ps = "List.map_filter photo_of (cn_dir s)"
  let ?out = "foldl (add_photo cap) [] ?ps"
  have l: "photoList True cap s = foldl insert_back [] ?out" using assms by (simp add: photoList_def)
  have srt: "newest_first (photoList True cap s)" "mset (photoList True cap s) = mset ?out"
    using insert_sort_sorts [of "[]" ?out] by (simp_all add: l)
  have "newest cap ?out (mset ?ps)" using add_photos_newest [of cap "[]" "{#}" ?ps] assms(2) by (simp add: newest_def)
  then have "newest cap (photoList True cap s) (mset ?ps)"
    using srt(2) mset_eq_setD [OF srt(2)] mset_eq_length [OF srt(2)] by (simp add: newest_def)
  with srt(1) show ?thesis by blast
qed

lemma photo_list_newest_witness:
  "newest_first (photoList True 1 (beginStorage True True sample_card (100, 50) sample_camera)) \<and>
   newest 1 (photoList True 1 (beginStorage True True sample_card (100, 50) sample_camera))
     (mset (List.map_filter photo_of (cn_dir (beginStorage True True sample_card (100, 50) sample_camera))))"
  by (rule photo_list_newest) (simp_all add: beginStorage_def Let_def)

end
