(* ===== verification/FloatFacts.thy ===== *)
theory FloatFacts
  imports Complex_Main Floats
begin

text \<open>
  The real value of a single precision number and the exactness of the operations of
  \<open>Floats\<close>: an operation whose mathematical result is representable returns that result.
  The region arithmetic of the firmware stays within that case.
\<close>

definition f_val :: "fval \<Rightarrow> real" where
  "f_val x = (case x of Fin s m e \<Rightarrow> of_int (signed s m) * 2 powi e | _ \<Rightarrow> 0)"

definition finite_f :: "fval \<Rightarrow> bool" where
  "finite_f x \<longleftrightarrow> (case x of Fin s m e \<Rightarrow> 0 \<le> m | _ \<Rightarrow> False)"

lemma finite_fE:
  assumes "finite_f x"
  obtains s m e where "x = Fin s m e" and "0 \<le> m"
  using assms by (cases x) (auto simp: finite_f_def)

section \<open>The operations the region tables add\<close>

definition f_neg :: "fval \<Rightarrow> fval" where
  "f_neg x = (case x of Fin s m e \<Rightarrow> Fin (\<not> s) m e | Inf s \<Rightarrow> Inf (\<not> s) | Not_a_number \<Rightarrow> Not_a_number)"

definition f32_sub :: "fval \<Rightarrow> fval \<Rightarrow> fval" where
  "f32_sub x y = f32_add x (f_neg y)"

definition f_abs :: "fval \<Rightarrow> fval" where
  "f_abs x = (case x of Fin s m e \<Rightarrow> Fin False m e | Inf s \<Rightarrow> Inf False | Not_a_number \<Rightarrow> Not_a_number)"

text \<open>\<open>floorf\<close>, exact.\<close>

definition f_floor :: "fval \<Rightarrow> fval" where
  "f_floor x =
     (case x of
        Fin s m e \<Rightarrow>
          if 0 \<le> e then x
          else (let v = signed s m div 2 ^ nat (- e) in Fin (if v = 0 then s else v < 0) \<bar>v\<bar> 0)
      | _ \<Rightarrow> x)"

text \<open>A decimal literal \<open>n / d\<close> with the suffix \<open>f\<close>: the nearest single.\<close>

definition f32_lit :: "int \<Rightarrow> int \<Rightarrow> fval" where
  "f32_lit n d = round_f32 (n < 0) \<bar>n\<bar> d"

section \<open>Rounding a representable value\<close>

lemma bitlen_bounds:
  assumes "0 < n"
  shows "1 \<le> bitlen n" and "2 ^ nat (bitlen n - 1) \<le> n" and "n < 2 ^ nat (bitlen n)"
proof -
  have "1 \<le> bitlen n \<and> 2 ^ nat (bitlen n - 1) \<le> n \<and> n < 2 ^ nat (bitlen n)"
    using assms
  proof (induction n rule: bitlen.induct)
    case (1 n)
    show ?case
    proof (cases "n = 1")
      case True
      then show ?thesis by (simp add: bitlen.simps [of 1] bitlen.simps [of 0])
    next
      case False
      with 1 have h: "1 \<le> bitlen (n div 2)" "2 ^ nat (bitlen (n div 2) - 1) \<le> n div 2"
        "n div 2 < 2 ^ nat (bitlen (n div 2))" by auto
      have b: "bitlen n = 1 + bitlen (n div 2)" using 1 by (simp add: bitlen.simps [of n])
      obtain k where k: "bitlen (n div 2) = 1 + int k" using h(1) by (metis add.commute zle_iff_zadd)
      have "2 * 2 ^ k \<le> n \<and> n < 4 * 2 ^ k" using h k by (simp add: nat_add_distrib) linarith
      then show ?thesis using b k by (simp add: nat_add_distrib)
    qed
  qed
  then show "1 \<le> bitlen n" "2 ^ nat (bitlen n - 1) \<le> n" "n < 2 ^ nat (bitlen n)" by auto
qed

lemma powi_nat: "0 \<le> k \<Longrightarrow> (2 :: real) powi k = of_int (2 ^ nat k)"
  by (simp add: power_int_def)

lemma powi_pos [simp]: "0 < (2 :: real) powi k"
  by simp

lemma powi_le_iff: "(2 :: real) powi a \<le> 2 powi b \<longleftrightarrow> a \<le> b"
  using power_int_increasing [of a b "2 :: real"] power_int_strict_increasing [of b a "2 :: real"] by force

lemma powi_less_iff: "(2 :: real) powi a < 2 powi b \<longleftrightarrow> a < b"
  using power_int_increasing [of b a "2 :: real"] power_int_strict_increasing [of a b "2 :: real"] by force

lemma bitlen_powi:
  assumes "0 < n"
  shows "2 powi (bitlen n - 1) \<le> real_of_int n" and "real_of_int n < 2 powi bitlen n"
  using bitlen_bounds [OF assms] by (simp_all add: powi_nat del: of_int_power)

lemma scaled_ratio:
  assumes "0 < den" and "scaled num den e = (a, b)"
  shows "0 < b" and "real_of_int a = of_int num / of_int den / 2 powi e * of_int b"
proof -
  show "0 < b" using assms by (auto simp: scaled_def split: if_splits)
  show "real_of_int a = of_int num / of_int den / 2 powi e * of_int b"
  proof (cases "0 \<le> e")
    case True
    then have "a = num" "b = den * 2 ^ nat e" using assms(2) by (simp_all add: scaled_def)
    with True assms(1) show ?thesis by (simp add: power_int_def)
  next
    case False
    then have "a = num * 2 ^ nat (- e)" "b = den" using assms(2) by (simp_all add: scaled_def)
    with False assms(1) show ?thesis by (simp add: power_int_def power_one_over)
  qed
qed

lemma ratio_log_bounds:
  assumes "0 < num" and "0 < den"
  shows "2 powi (ratio_log num den) \<le> real_of_int num / of_int den"
    and "real_of_int num / of_int den < 2 powi (ratio_log num den + 1)"
proof -
  define l where "l = bitlen num - bitlen den"
  obtain a b where s: "scaled num den l = (a, b)" by fastforce
  note sc = scaled_ratio [OF assms(2) s]
  have p: "2 powi bitlen num = (2 :: real) powi l * 2 powi bitlen den"
    by (simp add: l_def power_int_diff)
  have hi: "real_of_int num / of_int den < 2 powi (l + 1)"
  proof -
    have "real_of_int num < 2 powi (l + 1) * 2 powi (bitlen den - 1)"
      using bitlen_powi(2) [OF assms(1)] p by (simp add: power_int_add power_int_diff)
    also have "\<dots> \<le> 2 powi (l + 1) * real_of_int den"
      using bitlen_powi(1) [OF assms(2)] by (intro mult_left_mono) auto
    finally show ?thesis using assms(2) by (simp add: divide_less_eq)
  qed
  have lo: "2 powi (l - 1) \<le> real_of_int num / of_int den"
  proof -
    have "2 powi (l - 1) * real_of_int den \<le> 2 powi (l - 1) * 2 powi bitlen den"
      using bitlen_powi(2) [OF assms(2)] by (intro mult_left_mono) auto
    also have "\<dots> = 2 powi (bitlen num - 1)" using p by (simp add: power_int_diff)
    also have "\<dots> \<le> real_of_int num" by (rule bitlen_powi(1) [OF assms(1)])
    finally show ?thesis using assms(2) by (simp add: le_divide_eq)
  qed
  have "a < b \<longleftrightarrow> real_of_int a < of_int b" by simp
  also have "\<dots> \<longleftrightarrow> real_of_int num / of_int den / 2 powi l * of_int b < 1 * of_int b" using sc(2) by simp
  also have "\<dots> \<longleftrightarrow> real_of_int num / of_int den / 2 powi l < 1"
    by (rule mult_less_cancel_right_pos) (use sc(1) in simp)
  also have "\<dots> \<longleftrightarrow> real_of_int num / of_int den < 2 powi l"
    by (rule divide_less_eq_1_pos) simp
  finally have ab: "a < b \<longleftrightarrow> real_of_int num / of_int den < 2 powi l" .
  have r: "ratio_log num den = (if a < b then l - 1 else l)"
    using s by (simp add: ratio_log_def Let_def l_def)
  show "2 powi (ratio_log num den) \<le> real_of_int num / of_int den" using lo ab by (auto simp: r)
  show "real_of_int num / of_int den < 2 powi (ratio_log num den + 1)" using hi ab by (auto simp: r)
qed

lemma nearest_multiple: "0 < b \<Longrightarrow> nearest (k * b) b = k"
  by (simp add: nearest_def Let_def)

lemma round_to_exact:
  assumes "0 < num" and "0 < den" and "0 < m" and "m < 2 ^ nat p" and "0 \<le> p" and "emin \<le> e"
    and v: "real_of_int num / of_int den = of_int m * 2 powi e" and "real_of_int num / of_int den < 2 powi emax"
  shows "\<exists>q x. round_to p emin emax s num den = Fin s q x \<and> 0 \<le> q \<and> of_int q * 2 powi x = real_of_int num / of_int den"
proof -
  let ?r = "ratio_log num den"
  define x where "x = max emin (?r - p + 1)"
  have "(2 :: real) powi ?r < 2 powi (p + e)"
  proof -
    have "2 powi ?r \<le> of_int m * (2 :: real) powi e" using ratio_log_bounds(1) [OF assms(1,2)] v by simp
    also have "\<dots> < 2 powi p * 2 powi e"
      using assms(4,5) by (intro mult_strict_right_mono) (simp_all add: powi_nat del: of_int_power)
    finally show ?thesis by (simp add: power_int_add)
  qed
  then have "?r < p + e" by (simp only: powi_less_iff)
  with assms(6) have xe: "x \<le> e" by (simp add: x_def)
  obtain a b where s: "scaled num den x = (a, b)" by fastforce
  note sc = scaled_ratio [OF assms(2) s]
  define k where "k = m * 2 ^ nat (e - x)"
  have ev: "(2 :: real) powi e = of_int (2 ^ nat (e - x)) * 2 powi x"
    using powi_nat [of "e - x"] power_int_add [of "2 :: real" "e - x" x] xe by simp
  have kv: "of_int k * 2 powi x = real_of_int num / of_int den"
    unfolding v ev k_def by simp
  have "real_of_int a = of_int (k * b)"
    unfolding sc(2) kv [symmetric] by simp
  then have a: "a = k * b" by (simp only: of_int_eq_iff)
  have q: "nearest a b = k" unfolding a by (rule nearest_multiple [OF sc(1)])
  have "0 < k" using assms(3) by (simp add: k_def)
  have "2 powi (x + bitlen k - 1) < (2 :: real) powi emax"
  proof -
    have "2 powi (x + bitlen k - 1) = 2 powi (bitlen k - 1) * (2 :: real) powi x"
      by (simp add: power_int_add [symmetric] algebra_simps)
    also have "\<dots> \<le> of_int k * 2 powi x"
      using bitlen_powi(1) [OF \<open>0 < k\<close>] by (intro mult_right_mono) auto
    also have "\<dots> < 2 powi emax" using assms(8) kv by simp
    finally show ?thesis .
  qed
  then have "x + bitlen k - 1 < emax" by (simp only: powi_less_iff)
  then have "round_to p emin emax s num den = Fin s k x"
    using assms(1) s q by (simp add: round_to_def x_def [symmetric] Let_def)
  then show ?thesis using kv \<open>0 < k\<close> by auto
qed

section \<open>Exact operations\<close>

text \<open>The reals a single holds without rounding.\<close>

definition representable :: "real \<Rightarrow> bool" where
  "representable r \<longleftrightarrow> (\<exists>m e. r = of_int m * 2 powi e \<and> \<bar>m\<bar> < 2 ^ 24 \<and> -149 \<le> e \<and> \<bar>r\<bar> < 2 powi 128)"

definition exact_f :: "fval \<Rightarrow> real \<Rightarrow> bool" where
  "exact_f x r \<longleftrightarrow> finite_f x \<and> f_val x = r"

lemma exact_fD: "exact_f x r \<Longrightarrow> finite_f x" "exact_f x r \<Longrightarrow> f_val x = r"
  by (simp_all add: exact_f_def)

lemma exact_fE:
  assumes "exact_f x r"
  obtains s m e where "x = Fin s m e" and "0 \<le> m" and "r = of_int (signed s m) * 2 powi e"
  using assms by (auto simp: exact_f_def f_val_def elim: finite_fE)

lemma round_f32_exact:
  assumes "0 \<le> num" and "0 < den" and "representable (of_int num / of_int den)"
  shows "exact_f (round_f32 s num den) ((if s then -1 else 1) * (of_int num / of_int den))"
proof (cases "num = 0")
  case True
  then show ?thesis by (simp add: exact_f_def round_f32_def round_to_def finite_f_def f_val_def signed_def)
next
  case False
  obtain m e where r: "of_int num / of_int den = real_of_int m * 2 powi e" "\<bar>m\<bar> < 2 ^ 24" "-149 \<le> e"
    "\<bar>of_int num / real_of_int den\<bar> < 2 powi 128"
    using assms(3) unfolding representable_def by blast
  have "0 < of_int num / real_of_int den" using False assms by simp
  then have "0 < real_of_int m * 2 powi e" by (simp only: r(1))
  then have m: "0 < m" using powi_pos [of e] by (metis zero_less_mult_pos2 of_int_0_less_iff)
  have "\<exists>q x. round_to 24 (-149) 128 s num den = Fin s q x \<and> 0 \<le> q \<and>
      of_int q * 2 powi x = of_int num / real_of_int den"
    by (rule round_to_exact [OF _ _ m]) (use r m False assms in auto)
  then obtain q x where q: "round_to 24 (-149) 128 s num den = Fin s q x" "0 \<le> q"
      "of_int q * 2 powi x = of_int num / real_of_int den" by blast
  then show ?thesis
    by (simp add: exact_f_def round_f32_def finite_f_def f_val_def signed_def flip: q(3))
qed

lemma pow_ratio_val:
  assumes "pow_ratio m e = (a, b)"
  shows "0 < b" and "of_int a / of_int b = real_of_int m * 2 powi e" and "0 \<le> m \<Longrightarrow> 0 \<le> a"
proof -
  have ab: "(a, b) = (if 0 \<le> e then (m * 2 ^ nat e, 1) else (m, 2 ^ nat (- e)))"
    using assms by (simp add: pow_ratio_def)
  then show "0 < b" by (cases "0 \<le> e") simp_all
  show "of_int a / of_int b = real_of_int m * 2 powi e"
  proof (cases "0 \<le> e")
    case True
    then have "a = m * 2 ^ nat e" "b = 1" using ab by simp_all
    then show ?thesis using powi_nat [OF True] by simp
  next
    case False
    then have "a = m" "b = 2 ^ nat (- e)" using ab by simp_all
    moreover have "(2 :: real) powi e = 1 / 2 ^ nat (- e)" using False by (simp add: power_int_def power_one_over)
    ultimately show ?thesis by simp
  qed
  show "0 \<le> m \<Longrightarrow> 0 \<le> a" using ab by (cases "0 \<le> e") simp_all
qed

lemma representable_minus: "representable (- r) \<longleftrightarrow> representable r"
proof -
  have "representable (- r)" if "representable r" for r
  proof -
    from that obtain m e where "r = of_int m * 2 powi e" "\<bar>m\<bar> < 2 ^ 24" "-149 \<le> e" "\<bar>r\<bar> < 2 powi 128"
      unfolding representable_def by blast
    then show ?thesis unfolding representable_def by (intro exI [of _ "- m"] exI [of _ e]) simp
  qed
  from this [of r] this [of "- r"] show ?thesis by auto
qed

lemma representable_abs: "representable r \<Longrightarrow> representable \<bar>r\<bar>"
  by (cases "0 \<le> r") (simp_all add: representable_minus)

lemma exact_add:
  assumes "exact_f x r" and "exact_f y q" and "representable (r + q)"
  shows "exact_f (f32_add x y) (r + q)"
proof -
  obtain s m e where x: "x = Fin s m e" "0 \<le> m" "r = of_int (signed s m) * 2 powi e" by (rule exact_fE [OF assms(1)])
  obtain t n f where y: "y = Fin t n f" "0 \<le> n" "q = of_int (signed t n) * 2 powi f" by (rule exact_fE [OF assms(2)])
  define k where "k = min e f"
  define v where "v = signed s m * 2 ^ nat (e - k) + signed t n * 2 ^ nat (f - k)"
  define neg where "neg = (if v = 0 then s \<and> t else v < 0)"
  obtain a b where p: "pow_ratio \<bar>v\<bar> k = (a, b)" by fastforce
  note pr = pow_ratio_val [OF p]
  have sh: "(2 :: real) powi e = 2 ^ nat (e - k) * 2 powi k" "(2 :: real) powi f = 2 ^ nat (f - k) * 2 powi k"
    using powi_nat [of "e - k"] powi_nat [of "f - k"] power_int_add [of "2 :: real" "e - k" k]
      power_int_add [of "2 :: real" "f - k" k] by (simp_all add: k_def)
  have v: "r + q = of_int v * 2 powi k" unfolding x(3) y(3) sh v_def by (simp add: algebra_simps)
  have "of_int a / real_of_int b = \<bar>r + q\<bar>" using pr(2) v by (simp add: abs_mult)
  then have "exact_f (round_f32 neg a b) ((if neg then -1 else 1) * \<bar>r + q\<bar>)"
    using round_f32_exact [of a b neg] pr representable_abs [OF assms(3)] by simp
  moreover have "(if neg then -1 else 1) * \<bar>r + q\<bar> = r + q"
    using v by (auto simp: neg_def abs_if mult_less_0_iff not_less)
  moreover have "f32_add x y = round_f32 neg a b"
    using p by (simp add: f32_add_def x(1) y(1) Let_def k_def v_def neg_def)
  ultimately show ?thesis by simp
qed

lemma exact_neg: "exact_f x r \<Longrightarrow> exact_f (f_neg x) (- r)"
  by (auto simp: exact_f_def f_neg_def finite_f_def f_val_def signed_def split: fval.splits)

lemma exact_sub:
  assumes "exact_f x r" and "exact_f y q" and "representable (r - q)"
  shows "exact_f (f32_sub x y) (r - q)"
  using exact_add [OF assms(1) exact_neg [OF assms(2)]] assms(3) by (simp add: f32_sub_def)

lemma signed_mult: "of_int (signed s m) * (of_int (signed t n) :: real) = (if s \<noteq> t then -1 else 1) * of_int (m * n)"
  by (simp add: signed_def)

lemma exact_mul:
  assumes "exact_f x r" and "exact_f y q" and "representable (r * q)"
  shows "exact_f (f32_mul x y) (r * q)"
proof -
  obtain s m e where x: "x = Fin s m e" "0 \<le> m" "r = of_int (signed s m) * 2 powi e" by (rule exact_fE [OF assms(1)])
  obtain t n f where y: "y = Fin t n f" "0 \<le> n" "q = of_int (signed t n) * 2 powi f" by (rule exact_fE [OF assms(2)])
  obtain a b where p: "pow_ratio (m * n) (e + f) = (a, b)" by fastforce
  note pr = pow_ratio_val [OF p]
  have v: "r * q = (if s \<noteq> t then -1 else 1) * (of_int (m * n) * 2 powi (e + f))"
    unfolding x(3) y(3) by (simp add: signed_def power_int_add)
  have "of_int a / real_of_int b = \<bar>r * q\<bar>" using pr(2) v x(2) y(2) by (simp add: abs_mult)
  then have "exact_f (round_f32 (s \<noteq> t) a b) ((if s \<noteq> t then -1 else 1) * \<bar>r * q\<bar>)"
    using round_f32_exact [of a b "s \<noteq> t"] pr x(2) y(2) representable_abs [OF assms(3)] by simp
  moreover have "(if s \<noteq> t then -1 else 1) * \<bar>r * q\<bar> = r * q"
    unfolding v using x(2) y(2) by (simp add: abs_mult)
  moreover have "f32_mul x y = round_f32 (s \<noteq> t) a b" using p by (simp add: f32_mul_def x(1) y(1))
  ultimately show ?thesis by simp
qed

lemma exact_div:
  assumes "exact_f x r" and "exact_f y q" and "q \<noteq> 0" and "representable (r / q)"
  shows "exact_f (f32_div x y) (r / q)"
proof -
  obtain s m e where x: "x = Fin s m e" "0 \<le> m" "r = of_int (signed s m) * 2 powi e" by (rule exact_fE [OF assms(1)])
  obtain t n f where y: "y = Fin t n f" "0 \<le> n" "q = of_int (signed t n) * 2 powi f" by (rule exact_fE [OF assms(2)])
  have n: "n \<noteq> 0" using assms(3) y(3) by (cases t) (simp_all add: signed_def)
  then have n: "0 < n" using y(2) by simp
  obtain a b where p: "pow_ratio m (e - f) = (a, b)" by fastforce
  note pr = pow_ratio_val [OF p]
  have v: "r / q = (if s \<noteq> t then -1 else 1) * (of_int m * 2 powi (e - f) / of_int n)"
    unfolding x(3) y(3) by (simp add: signed_def power_int_diff)
  have "of_int a / real_of_int (b * n) = (of_int a / of_int b) / of_int n" by simp
  then have "of_int a / real_of_int (b * n) = \<bar>r / q\<bar>"
    using pr(2) v x(2) n by (simp add: abs_mult)
  then have "exact_f (round_f32 (s \<noteq> t) a (b * n)) ((if s \<noteq> t then -1 else 1) * \<bar>r / q\<bar>)"
    using round_f32_exact [of a "b * n" "s \<noteq> t"] pr x(2) n representable_abs [OF assms(4)] by simp
  moreover have "(if s \<noteq> t then -1 else 1) * \<bar>r / q\<bar> = r / q"
    unfolding v using x(2) n by (simp add: abs_mult)
  moreover have "f32_div x y = round_f32 (s \<noteq> t) a (b * n)" using p n by (simp add: f32_div_def x(1) y(1))
  ultimately show ?thesis by simp
qed

lemma representable_int_times:
  "\<bar>m\<bar> < 2 ^ 24 \<Longrightarrow> -149 \<le> e \<Longrightarrow> e \<le> 104 \<Longrightarrow> representable (of_int m * 2 powi e)"
proof -
  assume m: "\<bar>m\<bar> < 2 ^ 24" and e: "-149 \<le> e" "e \<le> 104"
  have "\<bar>real_of_int m * 2 powi e\<bar> < 2 ^ 24 * 2 powi e"
    using m by (simp add: abs_mult flip: of_int_abs)
  also have "\<dots> = 2 powi (24 + e)" by (simp add: power_int_add)
  also have "\<dots> \<le> 2 powi 128" using e(2) unfolding powi_le_iff by simp
  finally show ?thesis using m e(1) unfolding representable_def by blast
qed

lemma representable_int: "\<bar>m\<bar> < 2 ^ 24 \<Longrightarrow> representable (of_int m)"
  using representable_int_times [of m 0] by simp

lemma exact_of_int: "\<bar>i\<bar> < 2 ^ 24 \<Longrightarrow> exact_f (f32_of_int i) (of_int i)"
  using round_f32_exact [of "\<bar>i\<bar>" 1 "i < 0"] representable_int [of "\<bar>i\<bar>"]
  by (cases "i < 0") (simp_all add: f32_of_int_def)

lemma exact_f_le:
  assumes "exact_f x r" and "exact_f y q"
  shows "f_le x y \<longleftrightarrow> r \<le> q"
proof -
  obtain s m e where x: "x = Fin s m e" "0 \<le> m" "r = of_int (signed s m) * 2 powi e" by (rule exact_fE [OF assms(1)])
  obtain t n f where y: "y = Fin t n f" "0 \<le> n" "q = of_int (signed t n) * 2 powi f" by (rule exact_fE [OF assms(2)])
  define k where "k = min e f"
  have sh: "(2 :: real) powi e = 2 ^ nat (e - k) * 2 powi k" "(2 :: real) powi f = 2 ^ nat (f - k) * 2 powi k"
    using powi_nat [of "e - k"] powi_nat [of "f - k"] power_int_add [of "2 :: real" "e - k" k]
      power_int_add [of "2 :: real" "f - k" k] by (simp_all add: k_def)
  have rq: "r = of_int (signed s m * 2 ^ nat (e - k)) * 2 powi k" "q = of_int (signed t n * 2 ^ nat (f - k)) * 2 powi k"
    unfolding x(3) y(3) sh by simp_all
  have "r \<le> q \<longleftrightarrow> real_of_int (signed s m * 2 ^ nat (e - k)) \<le> of_int (signed t n * 2 ^ nat (f - k))"
    unfolding rq by (rule mult_le_cancel_right_pos) simp
  then show ?thesis unfolding of_int_le_iff by (simp add: f_le_def x(1) y(1) Let_def k_def)
qed

lemma exact_f_less: "exact_f x r \<Longrightarrow> exact_f y q \<Longrightarrow> f_less x y \<longleftrightarrow> r < q"
  by (auto simp: f_less_def exact_f_le)

lemma exact_floor:
  assumes "exact_f x r"
  shows "exact_f (f_floor x) (of_int \<lfloor>r\<rfloor>)"
proof -
  obtain s m e where x: "x = Fin s m e" "0 \<le> m" "r = of_int (signed s m) * 2 powi e" by (rule exact_fE [OF assms])
  show ?thesis
  proof (cases "0 \<le> e")
    case True
    then have "r = of_int (signed s m * 2 ^ nat e)" using x(3) powi_nat [OF True] by simp
    then have "of_int \<lfloor>r\<rfloor> = r" by (simp only: floor_of_int)
    then show ?thesis using assms True by (simp only: f_floor_def x(1) fval.case if_True)
  next
    case False
    then have "(2 :: real) powi e = 1 / of_int (2 ^ nat (- e))" by (simp add: power_int_def power_one_over)
    then have "r = of_int (signed s m) / of_int (2 ^ nat (- e))" using x(3) by simp
    then have "\<lfloor>r\<rfloor> = signed s m div 2 ^ nat (- e)" by (simp only: floor_divide_of_int_eq)
    then show ?thesis
      using False by (auto simp: f_floor_def x(1) Let_def exact_f_def finite_f_def f_val_def signed_def)
  qed
qed

lemma exact_to_u32:
  assumes "exact_f x (of_int k)" and "0 \<le> k" and "k < 2 ^ 32"
  shows "f_to_u32 x = Some (word_of_int k)"
proof -
  obtain s m e where x: "x = Fin s m e" "0 \<le> m" "real_of_int k = of_int (signed s m) * 2 powi e"
    by (rule exact_fE [OF assms(1)])
  obtain a b where p: "pow_ratio m e = (a, b)" by fastforce
  note pr = pow_ratio_val [OF p]
  have v: "real_of_int k = (if s then -1 else 1) * (of_int a / of_int b)"
    using x(3) pr(2) by (simp add: signed_def split: if_splits)
  have "0 \<le> of_int a / real_of_int b" using pr(1) pr(3) [OF x(2)] by simp
  moreover have "0 \<le> real_of_int k" using assms(2) by simp
  ultimately have z: "of_int a / real_of_int b = of_int k"
    using v by (cases s) simp_all
  then have d: "a div b = k" using floor_divide_of_int_eq [of a b, where ?'a = real] by simp
  have "s \<Longrightarrow> k = 0" using v z assms(2) by simp
  then have "signed s (a div b) = k" using d by (auto simp: signed_def)
  then show ?thesis using assms p by (simp add: f_to_u32_def f_trunc_def x(1))
qed

end
