(* ===== verification/BridgeConfig.thy ===== *)
theory BridgeConfig
  imports Counters LoRaWANConfig
begin

text \<open>
  The persisted bridge configuration (\<open>src/src/BridgeConfig.cpp\<close>, \<open>BridgeConfig.h\<close>): build-flag
  defaults, load with migration of the older schemas, save, reset and the accessors. A stored
  string is the content of its character array; a float is its IEEE bit pattern.
\<close>

definition NUM_RADIOS :: nat where "NUM_RADIOS = 4"
definition MT_NODE_ID_STR_MAX :: nat where "MT_NODE_ID_STR_MAX = 15"
definition MT_LONG_NAME_MAX :: nat where "MT_LONG_NAME_MAX = 39"
definition MT_SHORT_NAME_MAX :: nat where "MT_SHORT_NAME_MAX = 8"
definition RADIO_CHANNEL_NAME_MAX :: nat where "RADIO_CHANNEL_NAME_MAX = 23"
definition RADIO_CHANNEL_KEY_MAX :: nat where "RADIO_CHANNEL_KEY_MAX = 47"
definition PROTO_NONE :: u8 where "PROTO_NONE = 0"
definition REGION_US :: u8 where "REGION_US = 1"
definition LW_REGION_UNSET :: u8 where "LW_REGION_UNSET = 0"
definition SCHEMA_VERSION :: u8 where "SCHEMA_VERSION = 5"

lemmas bc_caps = MT_NODE_ID_STR_MAX_def MT_LONG_NAME_MAX_def MT_SHORT_NAME_MAX_def
  RADIO_CHANNEL_NAME_MAX_def RADIO_CHANNEL_KEY_MAX_def

record radio_slot =
  rs_protocol :: u8
  rs_sf :: u8
  rs_cr :: u8
  rs_syncWord :: u8
  rs_txPower :: u8
  rs_lwRegion :: u8
  rs_routeMask :: u8
  rs_frequency :: u32
  rs_bandwidth :: u32
  rs_channelName :: bytes
  rs_channelKey :: bytes

record bridge_cfg =
  bc_version :: u8
  bc_configured :: u8
  bc_positionEnabled :: u8
  bc_telemetryEnabled :: u8
  bc_region :: u8
  bc_mtNodeId :: u32
  bc_mtNodeIdStr :: bytes
  bc_mtLongName :: bytes
  bc_mtShortName :: bytes
  bc_radio :: "radio_slot list"

text \<open>The older schemas: identity, then the channels of version 2, 3 and the radios of version 4.\<close>

record pv_identity =
  pv_version :: u8
  pv_configured :: u8
  pv_positionEnabled :: u8
  pv_telemetryEnabled :: u8
  pv_mtNodeId :: u32
  pv_mtNodeIdStr :: bytes
  pv_mtLongName :: bytes
  pv_mtShortName :: bytes

record persisted_v2 = pv_identity +
  pv_mcKeyHex :: bytes
  pv_mcChannelName :: bytes
  pv_mtChannelName :: bytes
  pv_mtPskBase64 :: bytes

record persisted_v3 = pv_identity +
  pv_r1ChannelName :: bytes
  pv_r1ChannelKey :: bytes
  pv_r2ChannelName :: bytes
  pv_r2ChannelKey :: bytes

record radio_rf_v4 =
  r4_protocol :: u8
  r4_sf :: u8
  r4_cr :: u8
  r4_syncWord :: u8
  r4_txPower :: u8
  r4_lwRegion :: u8
  r4_frequency :: u32
  r4_bandwidth :: u32

record persisted_v4 = persisted_v3 +
  pv_region :: u8
  pv_radio1 :: radio_rf_v4
  pv_radio2 :: radio_rf_v4

datatype cfg_blob = NoBlob | BlobV5 bridge_cfg | BlobV4 persisted_v4 | BlobV3 persisted_v3
  | BlobV2 persisted_v2 | BlobOtherSize

text \<open>The build flags: one group per radio and the shared ones.\<close>

record radio_flags =
  rf_sync :: u8
  rf_freq :: u32
  rf_bw :: u32
  rf_sf :: u8
  rf_cr :: u8
  rf_txp :: u8
  rf_enable :: bool
  rf_disable :: bool
  rf_channelName :: "bytes option"
  rf_channelKey :: "bytes option"
  rf_routeMask :: "u8 option"

record config_flags =
  cf_nodeId :: u32
  cf_nodeIdStr :: bytes
  cf_longName :: bytes
  cf_shortName :: bytes
  cf_mcKeyHex :: bytes
  cf_mcName :: bytes
  cf_mtName :: bytes
  cf_mtPsk :: bytes
  cf_position :: bool
  cf_telemetry :: bool
  cf_region :: u8
  cf_radio1 :: radio_flags
  cf_radio2 :: radio_flags
  cf_radio3 :: radio_flags
  cf_radio4 :: radio_flags

record config_state =
  cs_cfg :: bridge_cfg
  cs_blob :: cfg_blob

text \<open>\<open>copyStr\<close> into an array of \<open>cap\<close> characters, of a source that is itself a character array.\<close>

definition copyStr :: "nat \<Rightarrow> bytes \<Rightarrow> bytes" where
  "copyStr cap src = take (cap - 1) (cstr_of src)"

definition protocolFromSync :: "u8 \<Rightarrow> u8" where
  "protocolFromSync sync =
     (if sync = 0x2B then PROTO_MT
      else if sync = 0x12 then PROTO_MC
      else if sync = 0x42 then PROTO_RNS
      else if sync = 0x34 then PROTO_LORAWAN
      else PROTO_CUSTOM)"

definition name_cap :: nat where "name_cap = RADIO_CHANNEL_NAME_MAX + 1"
definition key_cap :: nat where "key_cap = RADIO_CHANNEL_KEY_MAX + 1"

definition radioDefaultChannel :: "config_flags \<Rightarrow> u8 \<Rightarrow> bytes \<times> bytes" where
  "radioDefaultChannel fl sync =
     (if sync = 0x2B then (copyStr name_cap (cf_mtName fl), copyStr key_cap (cf_mtPsk fl))
      else if sync = 0x12 then (copyStr name_cap (cf_mcName fl), copyStr key_cap (cf_mcKeyHex fl))
      else ([], []))"

definition seedRadio :: "config_flags \<Rightarrow> radio_flags \<Rightarrow> u8 \<Rightarrow> radio_slot" where
  "seedRadio fl rf proto =
     \<lparr>rs_protocol = proto, rs_sf = rf_sf rf, rs_cr = rf_cr rf, rs_syncWord = rf_sync rf, rs_txPower = rf_txp rf,
      rs_lwRegion = LW_REGION_UNSET, rs_routeMask = 0, rs_frequency = rf_freq rf, rs_bandwidth = rf_bw rf,
      rs_channelName = fst (radioDefaultChannel fl (rf_sync rf)),
      rs_channelKey = snd (radioDefaultChannel fl (rf_sync rf))\<rparr>"

text \<open>The per-radio overrides after the seed: channel, then the route mask.\<close>

definition override_radio :: "radio_flags \<Rightarrow> u8 \<Rightarrow> radio_slot \<Rightarrow> radio_slot" where
  "override_radio rf route r =
     r\<lparr>rs_channelName := (case rf_channelName rf of None \<Rightarrow> rs_channelName r | Some n \<Rightarrow> copyStr name_cap n),
       rs_channelKey := (case rf_channelKey rf of None \<Rightarrow> rs_channelKey r | Some k \<Rightarrow> copyStr key_cap k),
       rs_routeMask := (case rf_routeMask rf of None \<Rightarrow> route | Some m \<Rightarrow> m)\<rparr>"

text \<open>The local slots honour a build-flag disable, the remote ones a build-flag enable.\<close>

definition local_protocol :: "radio_flags \<Rightarrow> u8" where
  "local_protocol rf = (if rf_disable rf then PROTO_NONE else protocolFromSync (rf_sync rf))"

definition remote_protocol :: "radio_flags \<Rightarrow> u8" where
  "remote_protocol rf = (if rf_enable rf then protocolFromSync (rf_sync rf) else PROTO_NONE)"

definition loadDefaults :: "config_flags \<Rightarrow> bridge_cfg" where
  "loadDefaults fl =
     \<lparr>bc_version = SCHEMA_VERSION, bc_configured = 0,
      bc_positionEnabled = (if cf_position fl then 1 else 0),
      bc_telemetryEnabled = (if cf_telemetry fl then 1 else 0), bc_region = cf_region fl,
      bc_mtNodeId = cf_nodeId fl,
      bc_mtNodeIdStr = copyStr (MT_NODE_ID_STR_MAX + 1) (cf_nodeIdStr fl),
      bc_mtLongName = copyStr (MT_LONG_NAME_MAX + 1) (cf_longName fl),
      bc_mtShortName = copyStr (MT_SHORT_NAME_MAX + 1) (cf_shortName fl),
      bc_radio =
        [override_radio (cf_radio1 fl) (push_bit 1 1) (seedRadio fl (cf_radio1 fl) (local_protocol (cf_radio1 fl))),
         override_radio (cf_radio2 fl) (push_bit 0 1) (seedRadio fl (cf_radio2 fl) (local_protocol (cf_radio2 fl))),
         override_radio (cf_radio3 fl) 0 (seedRadio fl (cf_radio3 fl) (remote_protocol (cf_radio3 fl))),
         override_radio (cf_radio4 fl) 0 (seedRadio fl (cf_radio4 fl) (remote_protocol (cf_radio4 fl)))]\<rparr>"

text \<open>\<open>terminateAll\<close>: each array gets a NUL in its last character.\<close>

definition terminated :: "nat \<Rightarrow> bytes \<Rightarrow> bytes" where
  "terminated cap arr = cstr_of (take (cap - 1) arr)"

definition terminate_radio :: "radio_slot \<Rightarrow> radio_slot" where
  "terminate_radio r = r\<lparr>rs_channelName := terminated name_cap (rs_channelName r),
     rs_channelKey := terminated key_cap (rs_channelKey r)\<rparr>"

definition terminateAll :: "bridge_cfg \<Rightarrow> bridge_cfg" where
  "terminateAll c = c\<lparr>bc_mtNodeIdStr := terminated (MT_NODE_ID_STR_MAX + 1) (bc_mtNodeIdStr c),
     bc_mtLongName := terminated (MT_LONG_NAME_MAX + 1) (bc_mtLongName c),
     bc_mtShortName := terminated (MT_SHORT_NAME_MAX + 1) (bc_mtShortName c),
     bc_radio := map terminate_radio (bc_radio c)\<rparr>"

section \<open>Migration\<close>

text \<open>The fields every migration takes over.\<close>

definition migrate_identity :: "'a pv_identity_scheme \<Rightarrow> bridge_cfg \<Rightarrow> bridge_cfg" where
  "migrate_identity p c = c\<lparr>bc_configured := pv_configured p, bc_positionEnabled := pv_positionEnabled p,
     bc_telemetryEnabled := pv_telemetryEnabled p, bc_mtNodeId := pv_mtNodeId p,
     bc_mtNodeIdStr := copyStr (MT_NODE_ID_STR_MAX + 1) (pv_mtNodeIdStr p),
     bc_mtLongName := copyStr (MT_LONG_NAME_MAX + 1) (pv_mtLongName p),
     bc_mtShortName := copyStr (MT_SHORT_NAME_MAX + 1) (pv_mtShortName p)\<rparr>"

definition set_channel :: "bytes \<times> bytes \<Rightarrow> radio_slot \<Rightarrow> radio_slot" where
  "set_channel ch r = r\<lparr>rs_channelName := fst ch, rs_channelKey := snd ch\<rparr>"

definition migrateV2Channel :: "u8 \<Rightarrow> persisted_v2 \<Rightarrow> bytes \<times> bytes" where
  "migrateV2Channel sync v2 =
     (if sync = 0x2B then (copyStr name_cap (pv_mtChannelName v2), copyStr key_cap (pv_mtPskBase64 v2))
      else if sync = 0x12 then (copyStr name_cap (pv_mcChannelName v2), copyStr key_cap (pv_mcKeyHex v2))
      else ([], []))"

definition migrate_rf :: "radio_rf_v4 \<Rightarrow> radio_slot \<Rightarrow> radio_slot" where
  "migrate_rf s d = d\<lparr>rs_protocol := r4_protocol s, rs_sf := r4_sf s, rs_cr := r4_cr s,
     rs_syncWord := r4_syncWord s, rs_txPower := r4_txPower s, rs_lwRegion := r4_lwRegion s,
     rs_frequency := r4_frequency s, rs_bandwidth := r4_bandwidth s\<rparr>"

text \<open>The channel fields of the version 3 and 4 blobs, copied into the first two slots.\<close>

definition r1_channel :: "'a persisted_v3_scheme \<Rightarrow> bytes \<times> bytes" where
  "r1_channel p = (copyStr name_cap (pv_r1ChannelName p), copyStr key_cap (pv_r1ChannelKey p))"

definition r2_channel :: "'a persisted_v3_scheme \<Rightarrow> bytes \<times> bytes" where
  "r2_channel p = (copyStr name_cap (pv_r2ChannelName p), copyStr key_cap (pv_r2ChannelKey p))"

definition update_first_two :: "(radio_slot \<Rightarrow> radio_slot) \<Rightarrow> (radio_slot \<Rightarrow> radio_slot) \<Rightarrow> bridge_cfg \<Rightarrow> bridge_cfg" where
  "update_first_two f g c = c\<lparr>bc_radio := (bc_radio c)[0 := f (bc_radio c ! 0), 1 := g (bc_radio c ! 1)]\<rparr>"

definition migrateV4toV5 :: "persisted_v4 \<Rightarrow> bridge_cfg \<Rightarrow> bridge_cfg" where
  "migrateV4toV5 v4 c =
     update_first_two
       (\<lambda>r. set_channel (r1_channel v4) (migrate_rf (pv_radio1 v4) r)\<lparr>rs_routeMask := push_bit 1 1\<rparr>)
       (\<lambda>r. set_channel (r2_channel v4) (migrate_rf (pv_radio2 v4) r)\<lparr>rs_routeMask := push_bit 0 1\<rparr>)
       ((migrate_identity v4 c)\<lparr>bc_region := pv_region v4\<rparr>)"

definition applyBuildDisables :: "config_flags \<Rightarrow> bridge_cfg \<Rightarrow> bridge_cfg" where
  "applyBuildDisables fl c =
     update_first_two (\<lambda>r. if rf_disable (cf_radio1 fl) then r\<lparr>rs_protocol := PROTO_NONE\<rparr> else r)
       (\<lambda>r. if rf_disable (cf_radio2 fl) then r\<lparr>rs_protocol := PROTO_NONE\<rparr> else r) c"

text \<open>What the stored blob makes of the defaults, and whether the result is written back.\<close>

definition load_blob :: "config_flags \<Rightarrow> cfg_blob \<Rightarrow> bridge_cfg \<Rightarrow> bridge_cfg \<times> bool" where
  "load_blob fl blob c =
     (case blob of
        BlobV5 tmp \<Rightarrow> if bc_version tmp = 5 then (terminateAll tmp, False) else (c, False)
      | BlobV4 v4 \<Rightarrow> if pv_version v4 = 4
          then ((terminateAll (migrateV4toV5 v4 c))\<lparr>bc_version := SCHEMA_VERSION\<rparr>, True) else (c, False)
      | BlobV3 v3 \<Rightarrow> if pv_version v3 = 3
          then ((terminateAll (update_first_two (set_channel (r1_channel v3)) (set_channel (r2_channel v3))
                  (migrate_identity v3 c)))\<lparr>bc_version := SCHEMA_VERSION\<rparr>, True) else (c, False)
      | BlobV2 v2 \<Rightarrow> if pv_version v2 = 2
          then ((terminateAll (update_first_two
                  (set_channel (migrateV2Channel (rf_sync (cf_radio1 fl)) v2))
                  (set_channel (migrateV2Channel (rf_sync (cf_radio2 fl)) v2))
                  (migrate_identity v2 c)))\<lparr>bc_version := SCHEMA_VERSION\<rparr>, True) else (c, False)
      | NoBlob \<Rightarrow> (c, False)
      | BlobOtherSize \<Rightarrow> (c, False))"

definition store_blob :: "nvs_write \<Rightarrow> bridge_cfg \<Rightarrow> cfg_blob \<Rightarrow> cfg_blob" where
  "store_blob w c old = (if w = Write_lost then old else BlobV5 c)"

definition bc_begin :: "config_flags \<Rightarrow> bool \<Rightarrow> nvs_write \<Rightarrow> config_state \<Rightarrow> config_state" where
  "bc_begin fl opens w s =
     (let c = loadDefaults fl in
      if \<not> opens then s\<lparr>cs_cfg := c\<rparr>
      else (case load_blob fl (cs_blob s) c of (c2, upgraded) \<Rightarrow>
        s\<lparr>cs_cfg := applyBuildDisables fl c2,
          cs_blob := (if upgraded then store_blob w c2 (cs_blob s) else cs_blob s)\<rparr>))"

definition bc_save :: "config_flags \<Rightarrow> bool \<Rightarrow> nvs_write \<Rightarrow> config_state \<Rightarrow> config_state" where
  "bc_save fl opens w s =
     (let c = (applyBuildDisables fl (cs_cfg s))\<lparr>bc_version := SCHEMA_VERSION, bc_configured := 1\<rparr> in
      if \<not> opens then s\<lparr>cs_cfg := c\<rparr>
      else s\<lparr>cs_cfg := c, cs_blob := store_blob w c (cs_blob s)\<rparr>)"

definition bc_reset :: "config_flags \<Rightarrow> bool \<Rightarrow> config_state \<Rightarrow> config_state" where
  "bc_reset fl opens s = s\<lparr>cs_blob := (if opens then NoBlob else cs_blob s), cs_cfg := loadDefaults fl\<rparr>"

section \<open>Accessors and setters\<close>

definition clampRadio :: "int \<Rightarrow> nat" where
  "clampRadio radio = (if radio < 0 then 0 else if int NUM_RADIOS \<le> radio then NUM_RADIOS - 1 else nat radio)"

definition bc_slot :: "bridge_cfg \<Rightarrow> int \<Rightarrow> radio_slot" where
  "bc_slot c radio = bc_radio c ! clampRadio radio"

definition set_slot :: "(radio_slot \<Rightarrow> radio_slot) \<Rightarrow> int \<Rightarrow> bridge_cfg \<Rightarrow> bridge_cfg" where
  "set_slot f radio c = c\<lparr>bc_radio := (bc_radio c)[clampRadio radio := f (bc_slot c radio)]\<rparr>"

definition setRadioChannelName :: "int \<Rightarrow> bytes \<Rightarrow> bridge_cfg \<Rightarrow> bridge_cfg" where
  "setRadioChannelName radio s = set_slot (\<lambda>r. r\<lparr>rs_channelName := copyStr name_cap s\<rparr>) radio"

definition setRadioChannelKey :: "int \<Rightarrow> bytes \<Rightarrow> bridge_cfg \<Rightarrow> bridge_cfg" where
  "setRadioChannelKey radio s = set_slot (\<lambda>r. r\<lparr>rs_channelKey := copyStr key_cap s\<rparr>) radio"

definition setRadioProtocol :: "int \<Rightarrow> u8 \<Rightarrow> bridge_cfg \<Rightarrow> bridge_cfg" where
  "setRadioProtocol radio v = set_slot (\<lambda>r. r\<lparr>rs_protocol := v\<rparr>) radio"

definition setRadioRouteMask :: "int \<Rightarrow> u8 \<Rightarrow> bridge_cfg \<Rightarrow> bridge_cfg" where
  "setRadioRouteMask radio v = set_slot (\<lambda>r. r\<lparr>rs_routeMask := v\<rparr>) radio"

definition setMtNodeIdStr :: "bytes \<Rightarrow> bridge_cfg \<Rightarrow> bridge_cfg" where
  "setMtNodeIdStr s c = c\<lparr>bc_mtNodeIdStr := copyStr (MT_NODE_ID_STR_MAX + 1) s\<rparr>"

definition setMtLongName :: "bytes \<Rightarrow> bridge_cfg \<Rightarrow> bridge_cfg" where
  "setMtLongName s c = c\<lparr>bc_mtLongName := copyStr (MT_LONG_NAME_MAX + 1) s\<rparr>"

definition setMtShortName :: "bytes \<Rightarrow> bridge_cfg \<Rightarrow> bridge_cfg" where
  "setMtShortName s c = c\<lparr>bc_mtShortName := copyStr (MT_SHORT_NAME_MAX + 1) s\<rparr>"

definition setMtNodeId :: "u32 \<Rightarrow> bridge_cfg \<Rightarrow> bridge_cfg" where
  "setMtNodeId v c = c\<lparr>bc_mtNodeId := v\<rparr>"

definition setPositionEnabled :: "bool \<Rightarrow> bridge_cfg \<Rightarrow> bridge_cfg" where
  "setPositionEnabled v c = c\<lparr>bc_positionEnabled := (if v then 1 else 0)\<rparr>"

definition setTelemetryEnabled :: "bool \<Rightarrow> bridge_cfg \<Rightarrow> bridge_cfg" where
  "setTelemetryEnabled v c = c\<lparr>bc_telemetryEnabled := (if v then 1 else 0)\<rparr>"

definition setRegion :: "u8 \<Rightarrow> bridge_cfg \<Rightarrow> bridge_cfg" where
  "setRegion v c = c\<lparr>bc_region := v\<rparr>"

definition setRadioFrequency :: "int \<Rightarrow> u32 \<Rightarrow> bridge_cfg \<Rightarrow> bridge_cfg" where
  "setRadioFrequency radio v = set_slot (\<lambda>r. r\<lparr>rs_frequency := v\<rparr>) radio"

definition setRadioBandwidth :: "int \<Rightarrow> u32 \<Rightarrow> bridge_cfg \<Rightarrow> bridge_cfg" where
  "setRadioBandwidth radio v = set_slot (\<lambda>r. r\<lparr>rs_bandwidth := v\<rparr>) radio"

definition setRadioSf :: "int \<Rightarrow> u8 \<Rightarrow> bridge_cfg \<Rightarrow> bridge_cfg" where
  "setRadioSf radio v = set_slot (\<lambda>r. r\<lparr>rs_sf := v\<rparr>) radio"

definition setRadioCr :: "int \<Rightarrow> u8 \<Rightarrow> bridge_cfg \<Rightarrow> bridge_cfg" where
  "setRadioCr radio v = set_slot (\<lambda>r. r\<lparr>rs_cr := v\<rparr>) radio"

definition setRadioSyncWord :: "int \<Rightarrow> u8 \<Rightarrow> bridge_cfg \<Rightarrow> bridge_cfg" where
  "setRadioSyncWord radio v = set_slot (\<lambda>r. r\<lparr>rs_syncWord := v\<rparr>) radio"

definition setRadioTxPower :: "int \<Rightarrow> u8 \<Rightarrow> bridge_cfg \<Rightarrow> bridge_cfg" where
  "setRadioTxPower radio v = set_slot (\<lambda>r. r\<lparr>rs_txPower := v\<rparr>) radio"

definition setRadioLwRegion :: "int \<Rightarrow> u8 \<Rightarrow> bridge_cfg \<Rightarrow> bridge_cfg" where
  "setRadioLwRegion radio v = set_slot (\<lambda>r. r\<lparr>rs_lwRegion := v\<rparr>) radio"

lemmas radio_setters = setRadioChannelName_def setRadioChannelKey_def setRadioProtocol_def setRadioRouteMask_def
  setRadioFrequency_def setRadioBandwidth_def setRadioSf_def setRadioCr_def setRadioSyncWord_def
  setRadioTxPower_def setRadioLwRegion_def

lemmas identity_setters = setMtNodeId_def setMtNodeIdStr_def setMtLongName_def setMtShortName_def setRegion_def
  setPositionEnabled_def setTelemetryEnabled_def

section \<open>Well-formed configurations\<close>

text \<open>Every string is terminated inside its array and there is a slot for every radio.\<close>

definition fits :: "nat \<Rightarrow> bytes \<Rightarrow> bool" where
  "fits cap s \<longleftrightarrow> cstr_ok s \<and> length s \<le> cap - 1"

definition slot_ok :: "radio_slot \<Rightarrow> bool" where
  "slot_ok r \<longleftrightarrow> fits name_cap (rs_channelName r) \<and> fits key_cap (rs_channelKey r)"

definition cfg_ok :: "bridge_cfg \<Rightarrow> bool" where
  "cfg_ok c \<longleftrightarrow> fits (MT_NODE_ID_STR_MAX + 1) (bc_mtNodeIdStr c) \<and> fits (MT_LONG_NAME_MAX + 1) (bc_mtLongName c) \<and>
     fits (MT_SHORT_NAME_MAX + 1) (bc_mtShortName c) \<and> length (bc_radio c) = NUM_RADIOS \<and>
     (\<forall>r \<in> set (bc_radio c). slot_ok r)"

lemma fits_copyStr: "fits cap (copyStr cap s)"
  by (simp add: fits_def copyStr_def cstr_ok_take cstr_of_ok)

lemma fits_Nil: "fits cap []"
  by (simp add: fits_def)

lemma clampRadio_less: "clampRadio i < NUM_RADIOS"
  by (simp add: clampRadio_def NUM_RADIOS_def) linarith

lemma clampRadio_of_nat [simp]: "i < NUM_RADIOS \<Longrightarrow> clampRadio (int i) = i"
  by (simp add: clampRadio_def)

lemma bc_slot_set_slot: "length (bc_radio c) = NUM_RADIOS \<Longrightarrow>
    bc_slot (set_slot f i c) j = (if clampRadio i = clampRadio j then f (bc_slot c i) else bc_slot c j)"
  by (simp add: bc_slot_def set_slot_def clampRadio_less)

lemma set_slot_shape [simp]: "length (bc_radio (set_slot f i c)) = length (bc_radio c)"
  by (simp add: set_slot_def)

lemma set_slot_ok:
  assumes "cfg_ok c" and "\<And>r. slot_ok r \<Longrightarrow> slot_ok (f r)"
  shows "cfg_ok (set_slot f i c)"
proof -
  have l: "length (bc_radio c) = NUM_RADIOS" using assms(1) by (simp add: cfg_ok_def)
  then have "slot_ok (bc_slot c i)" using assms(1) clampRadio_less [of i] by (simp add: cfg_ok_def bc_slot_def)
  then have "\<forall>r \<in> set ((bc_radio c)[clampRadio i := f (bc_slot c i)]). slot_ok r"
    using assms set_update_subset_insert [of "bc_radio c" "clampRadio i" "f (bc_slot c i)"] by (auto simp: cfg_ok_def)
  then show ?thesis using assms(1) by (simp add: cfg_ok_def set_slot_def)
qed

lemma length_cstr_of: "length (cstr_of s) \<le> length s"
  by (simp add: cstr_of_def length_takeWhile_le)

lemma fits_terminated: "fits cap (terminated cap s)"
  using length_cstr_of [of "take (cap - 1) s"] by (simp add: fits_def terminated_def cstr_of_ok)

lemma terminated_id: "fits cap s \<Longrightarrow> terminated cap s = s"
  by (simp add: terminated_def fits_def cstr_of_id)

lemma terminateAll_id: "cfg_ok c \<Longrightarrow> terminateAll c = c"
proof -
  assume c: "cfg_ok c"
  then have "map terminate_radio (bc_radio c) = bc_radio c"
    by (intro map_idI) (auto simp: cfg_ok_def slot_ok_def terminate_radio_def terminated_id)
  with c show ?thesis by (simp add: terminateAll_def cfg_ok_def terminated_id)
qed

lemma cfg_ok_terminateAll: "length (bc_radio c) = NUM_RADIOS \<Longrightarrow> cfg_ok (terminateAll c)"
  by (auto simp: cfg_ok_def terminateAll_def fits_terminated terminate_radio_def slot_ok_def)

definition blob_ok :: "cfg_blob \<Rightarrow> bool" where
  "blob_ok b \<longleftrightarrow> (case b of BlobV5 c \<Rightarrow> length (bc_radio c) = NUM_RADIOS | _ \<Rightarrow> True)"

lemma loadDefaults_ok: "cfg_ok (loadDefaults fl)"
proof -
  have s: "slot_ok (override_radio rf m (seedRadio fl rf2 p))" for rf m rf2 p
    by (auto simp: slot_ok_def override_radio_def seedRadio_def radioDefaultChannel_def fits_copyStr fits_Nil
        split: option.splits)
  show ?thesis by (simp add: cfg_ok_def loadDefaults_def fits_copyStr NUM_RADIOS_def s)
qed

lemma length_update_first_two: "length (bc_radio (update_first_two f g c)) = length (bc_radio c)"
  by (simp add: update_first_two_def)

lemma load_blob_ok:
  assumes "blob_ok blob" and "cfg_ok c"
  shows "cfg_ok (fst (load_blob fl blob c))"
proof -
  have v: "cfg_ok (x\<lparr>bc_version := v\<rparr>) = cfg_ok x" for x v by (simp add: cfg_ok_def)
  have l: "length (bc_radio c) = NUM_RADIOS" using assms(2) by (simp add: cfg_ok_def)
  have m: "length (bc_radio (migrate_identity p c)) = NUM_RADIOS" for p :: "'x pv_identity_scheme"
    using l by (simp add: migrate_identity_def)
  show ?thesis
    using assms l
    by (auto simp: load_blob_def v blob_ok_def cfg_ok_terminateAll length_update_first_two migrateV4toV5_def
        migrate_identity_def split: cfg_blob.splits)
qed

lemma first_two_ok:
  assumes "cfg_ok c" and "\<And>r. slot_ok r \<Longrightarrow> slot_ok (f r)" and "\<And>r. slot_ok r \<Longrightarrow> slot_ok (g r)"
  shows "cfg_ok (update_first_two f g c)"
proof -
  have l: "length (bc_radio c) = 4" using assms(1) by (simp add: cfg_ok_def NUM_RADIOS_def)
  have m: "slot_ok (bc_radio c ! 0)" "slot_ok (bc_radio c ! 1)"
    using assms(1) l by (simp_all add: cfg_ok_def)
  have "slot_ok r" if "r \<in> set ((bc_radio c)[0 := f (bc_radio c ! 0), 1 := g (bc_radio c ! 1)])" for r
  proof -
    have "set ((bc_radio c)[0 := f (bc_radio c ! 0), 1 := g (bc_radio c ! 1)])
        \<subseteq> insert (g (bc_radio c ! 1)) (insert (f (bc_radio c ! 0)) (set (bc_radio c)))"
      by (metis (no_types) insert_mono order_trans set_update_subset_insert)
    with that m assms show ?thesis by (auto simp: cfg_ok_def)
  qed
  then show ?thesis using assms(1) by (simp add: cfg_ok_def update_first_two_def)
qed

lemma disables_ok: "cfg_ok c \<Longrightarrow> cfg_ok (applyBuildDisables fl c)"
  unfolding applyBuildDisables_def by (rule first_two_ok) (auto simp: slot_ok_def)

lemma list_upd_two: "i \<noteq> j \<Longrightarrow> i < length xs \<Longrightarrow> j < length xs \<Longrightarrow>
    xs[i := a, j := b, i := c, j := d] = xs[i := c, j := d]"
  by (metis list_update_overwrite list_update_swap)

lemma disables_idem:
  assumes "length (bc_radio c) = NUM_RADIOS"
  shows "applyBuildDisables fl (applyBuildDisables fl c) = applyBuildDisables fl c"
proof -
  have n: "0 < length (bc_radio c)" "1 < length (bc_radio c)" using assms by (simp_all add: NUM_RADIOS_def)
  have e: "(if P then (if P then r\<lparr>rs_protocol := v\<rparr> else r)\<lparr>rs_protocol := v\<rparr> else (if P then r\<lparr>rs_protocol := v\<rparr> else r)) =
      (if P then r\<lparr>rs_protocol := v\<rparr> else r)" for P v and r :: radio_slot by simp
  show ?thesis
    unfolding applyBuildDisables_def update_first_two_def
    using n by (simp add: list_upd_two nth_list_update e del: One_nat_def)
qed

lemma disables_marked: "applyBuildDisables fl (c\<lparr>bc_version := v, bc_configured := q\<rparr>) =
    (applyBuildDisables fl c)\<lparr>bc_version := v, bc_configured := q\<rparr>"
  unfolding applyBuildDisables_def update_first_two_def by simp

lemma disables_fields: "bc_version (applyBuildDisables fl c) = bc_version c"
  "length (bc_radio (applyBuildDisables fl c)) = length (bc_radio c)"
  by (simp_all add: applyBuildDisables_def update_first_two_def)

text \<open>What a build-flag disable promises of a configuration.\<close>

definition disabled_off :: "config_flags \<Rightarrow> bridge_cfg \<Rightarrow> bool" where
  "disabled_off fl c \<longleftrightarrow> (if rf_disable (cf_radio1 fl) then rs_protocol (bc_slot c 0) = PROTO_NONE else True) \<and>
     (if rf_disable (cf_radio2 fl) then rs_protocol (bc_slot c 1) = PROTO_NONE else True)"

lemma disabled_off_applied:
  assumes "length (bc_radio c) = NUM_RADIOS"
  shows "disabled_off fl (applyBuildDisables fl c)"
proof -
  have n: "0 < length (bc_radio c)" "1 < length (bc_radio c)" using assms by (simp_all add: NUM_RADIOS_def)
  then show ?thesis
    by (simp add: disabled_off_def applyBuildDisables_def update_first_two_def bc_slot_def clampRadio_def
        NUM_RADIOS_def nth_list_update)
qed

section \<open>Properties\<close>

text \<open>
  C23: Saved is loaded: a configuration saved with a confirmed write is, after a reboot, exactly
  the configuration that was saved (now marked configured and of the current schema), whatever
  the build-flag defaults; and the camera build's hardware disable holds in it.
\<close>

theorem config_save_reload:
  assumes "cfg_ok (cs_cfg s)"
  shows "cs_cfg (bc_begin fl True w (bc_save fl True Write_ok s)) =
      (applyBuildDisables fl (cs_cfg s))\<lparr>bc_version := SCHEMA_VERSION, bc_configured := 1\<rparr> \<and>
    disabled_off fl (cs_cfg (bc_begin fl True w (bc_save fl True Write_ok s)))"
proof -
  define c where "c = (applyBuildDisables fl (cs_cfg s))\<lparr>bc_version := SCHEMA_VERSION, bc_configured := 1\<rparr>"
  have l: "length (bc_radio (cs_cfg s)) = NUM_RADIOS" using assms by (simp add: cfg_ok_def)
  have ok: "cfg_ok c" using disables_ok [OF assms] by (simp add: c_def cfg_ok_def)
  have same: "applyBuildDisables fl c = c"
    by (simp add: c_def disables_marked disables_idem [OF l])
  have "cs_cfg (bc_begin fl True w (bc_save fl True Write_ok s)) = c"
    using terminateAll_id [OF ok] same
    by (simp add: bc_begin_def bc_save_def store_blob_def load_blob_def Let_def c_def SCHEMA_VERSION_def)
  moreover have "disabled_off fl c"
    using disabled_off_applied [of c fl] same ok by (simp add: cfg_ok_def)
  ultimately show ?thesis by (simp add: c_def)
qed

text \<open>
  Loading is total and safe: whatever blob is stored, of any schema or size, with
  unterminated strings or a wrong version, the configuration the firmware starts with has a
  slot for every radio, every string terminated inside its array, and every hardware-disabled
  radio off.
\<close>

theorem config_load_well_formed:
  assumes "blob_ok (cs_blob s)"
  shows "cfg_ok (cs_cfg (bc_begin fl True w s)) \<and> disabled_off fl (cs_cfg (bc_begin fl True w s))"
proof -
  have "cfg_ok (fst (load_blob fl (cs_blob s) (loadDefaults fl)))"
    by (rule load_blob_ok [OF assms loadDefaults_ok])
  moreover have "cs_cfg (bc_begin fl True w s) = applyBuildDisables fl (fst (load_blob fl (cs_blob s) (loadDefaults fl)))"
    by (simp add: bc_begin_def Let_def split: prod.splits)
  ultimately show ?thesis
    using disables_ok disabled_off_applied [of "fst (load_blob fl (cs_blob s) (loadDefaults fl))" fl] by (simp add: cfg_ok_def)
qed

text \<open>
  Migration from schema 4 loses nothing: both radios keep their protocol, RF plan and
  channel, the identity is kept, the two radios are cross-routed as before and the new remote
  slots start as the build flags say; the upgraded blob is written back, so the next boot loads
  the same configuration.
\<close>

theorem migration_v4_preserves:
  assumes "pv_version v4 = 4" and "cs_blob s = BlobV4 v4"
    and "\<not> rf_disable (cf_radio1 fl)" and "\<not> rf_disable (cf_radio2 fl)"
  shows "let c = cs_cfg (bc_begin fl True Write_ok s); r1 = bc_slot c 0; r2 = bc_slot c 1 in
      bc_mtNodeId c = pv_mtNodeId v4 \<and> bc_region c = pv_region v4 \<and> bc_configured c = pv_configured v4 \<and>
      rs_protocol r1 = r4_protocol (pv_radio1 v4) \<and> rs_syncWord r1 = r4_syncWord (pv_radio1 v4) \<and>
      rs_frequency r1 = r4_frequency (pv_radio1 v4) \<and> rs_bandwidth r1 = r4_bandwidth (pv_radio1 v4) \<and>
      (rs_channelName r1, rs_channelKey r1) = r1_channel v4 \<and>
      rs_protocol r2 = r4_protocol (pv_radio2 v4) \<and> rs_syncWord r2 = r4_syncWord (pv_radio2 v4) \<and>
      rs_frequency r2 = r4_frequency (pv_radio2 v4) \<and> rs_bandwidth r2 = r4_bandwidth (pv_radio2 v4) \<and>
      (rs_channelName r2, rs_channelKey r2) = r2_channel v4 \<and>
      rs_routeMask r1 = 2 \<and> rs_routeMask r2 = 1 \<and>
      cs_cfg (bc_begin fl True w (bc_begin fl True Write_ok s)) = c"
proof -
  define m where "m = (terminateAll (migrateV4toV5 v4 (loadDefaults fl)))\<lparr>bc_version := SCHEMA_VERSION\<rparr>"
  have nd: "applyBuildDisables fl x = x" if "length (bc_radio x) = NUM_RADIOS" for x
    using assms(3,4) by (simp add: applyBuildDisables_def update_first_two_def)
  have ok: "cfg_ok m"
    using load_blob_ok [of "BlobV4 v4" "loadDefaults fl" fl] loadDefaults_ok assms(1)
    by (simp add: load_blob_def blob_ok_def m_def)
  then have lm: "length (bc_radio m) = NUM_RADIOS" by (simp add: cfg_ok_def)
  have b: "bc_begin fl True Write_ok s = s\<lparr>cs_cfg := m, cs_blob := BlobV5 m\<rparr>"
    using assms(1,2) nd [OF lm] by (simp add: bc_begin_def load_blob_def Let_def store_blob_def m_def)
  have v: "bc_version m = 5" by (simp add: m_def SCHEMA_VERSION_def)
  have again: "cs_cfg (bc_begin fl True w (bc_begin fl True Write_ok s)) = m"
    unfolding b using v terminateAll_id [OF ok] nd [OF lm] by (simp add: bc_begin_def load_blob_def Let_def)
  have t: "terminated name_cap (copyStr name_cap x) = copyStr name_cap x"
    "terminated key_cap (copyStr key_cap x) = copyStr key_cap x" for x
    by (simp_all add: terminated_id fits_copyStr)
  obtain d0 d1 ds where d: "bc_radio (loadDefaults fl) = d0 # d1 # ds" by (simp add: loadDefaults_def)
  show ?thesis
    unfolding Let_def again unfolding b
    by (simp add: m_def bc_slot_def clampRadio_def NUM_RADIOS_def terminateAll_def migrateV4toV5_def
        update_first_two_def migrate_identity_def d set_channel_def migrate_rf_def terminate_radio_def
        r1_channel_def r2_channel_def t)
qed

definition sample_rf :: radio_flags where
  "sample_rf = \<lparr>rf_sync = 0x2B, rf_freq = 0, rf_bw = 0, rf_sf = 11, rf_cr = 5, rf_txp = 20, rf_enable = False,
     rf_disable = False, rf_channelName = None, rf_channelKey = None, rf_routeMask = None\<rparr>"

definition sample_flags :: config_flags where
  "sample_flags = \<lparr>cf_nodeId = 0xB16B00B5, cf_nodeIdStr = str ''!b16b00b5'', cf_longName = str ''LoRa Bridge'',
     cf_shortName = str ''BR'', cf_mcKeyHex = [], cf_mcName = str ''public'', cf_mtName = str ''LongFast'', cf_mtPsk = [],
     cf_position = True, cf_telemetry = True, cf_region = 0, cf_radio1 = sample_rf, cf_radio2 = sample_rf\<lparr>rf_sync := 0x12\<rparr>,
     cf_radio3 = sample_rf, cf_radio4 = sample_rf\<rparr>"

definition sample_v4 :: persisted_v4 where
  "sample_v4 = \<lparr>pv_version = 4, pv_configured = 1, pv_positionEnabled = 1, pv_telemetryEnabled = 0, pv_mtNodeId = 7,
     pv_mtNodeIdStr = str ''!7'', pv_mtLongName = str ''a'', pv_mtShortName = str ''b'', pv_r1ChannelName = str ''one'',
     pv_r1ChannelKey = [], pv_r2ChannelName = str ''two'', pv_r2ChannelKey = [], pv_region = 1,
     pv_radio1 = \<lparr>r4_protocol = 1, r4_sf = 7, r4_cr = 5, r4_syncWord = 0x2B, r4_txPower = 20, r4_lwRegion = 0,
       r4_frequency = 1, r4_bandwidth = 2\<rparr>,
     pv_radio2 = \<lparr>r4_protocol = 2, r4_sf = 8, r4_cr = 5, r4_syncWord = 0x12, r4_txPower = 20, r4_lwRegion = 0,
       r4_frequency = 3, r4_bandwidth = 4\<rparr>\<rparr>"

lemma config_save_reload_witness:
  "disabled_off sample_flags (cs_cfg (bc_begin sample_flags True Write_ok (bc_save sample_flags True Write_ok
     \<lparr>cs_cfg = loadDefaults sample_flags, cs_blob = NoBlob\<rparr>)))"
proof -
  have "cfg_ok (cs_cfg \<lparr>cs_cfg = loadDefaults sample_flags, cs_blob = NoBlob\<rparr>)" by (simp add: loadDefaults_ok)
  from conjunct2 [OF config_save_reload [OF this]] show ?thesis .
qed

lemma config_load_witness:
  "cfg_ok (cs_cfg (bc_begin sample_flags True Write_ok \<lparr>cs_cfg = loadDefaults sample_flags,
     cs_blob = BlobV5 ((loadDefaults sample_flags)\<lparr>bc_mtShortName := replicate 9 65\<rparr>)\<rparr>))"
proof -
  have "blob_ok (BlobV5 ((loadDefaults sample_flags)\<lparr>bc_mtShortName := replicate 9 65\<rparr>))"
    using loadDefaults_ok [of sample_flags] by (simp add: blob_ok_def cfg_ok_def)
  with config_load_well_formed [of "\<lparr>cs_cfg = loadDefaults sample_flags,
     cs_blob = BlobV5 ((loadDefaults sample_flags)\<lparr>bc_mtShortName := replicate 9 65\<rparr>)\<rparr>" sample_flags Write_ok]
  show ?thesis by simp
qed

lemma migration_v4_witness:
  "rs_routeMask (bc_slot (cs_cfg (bc_begin sample_flags True Write_ok
     \<lparr>cs_cfg = loadDefaults sample_flags, cs_blob = BlobV4 sample_v4\<rparr>)) 0) = 2"
  using migration_v4_preserves [of sample_v4 "\<lparr>cs_cfg = loadDefaults sample_flags, cs_blob = BlobV4 sample_v4\<rparr>" sample_flags]
  by (simp add: sample_v4_def sample_flags_def sample_rf_def Let_def)

end
