(* ===== verification/RegionPreset.thy ===== *)
theory RegionPreset
  imports FloatFacts BridgeConfig
begin

text \<open>
  The region table, the modem presets and the channel-slot frequency
  (\<open>src/src/RegionPreset.h\<close>). A float literal is the nearest single; a null channel name is
  the empty one, as the hash treats it.
\<close>

record region_info =
  ri_name :: bytes
  ri_freqStart :: fval
  ri_freqEnd :: fval
  ri_powerLimit :: u8
  ri_dutyCyclePct :: u8

definition REGION_UNSET :: u8 where "REGION_UNSET = 0"

definition region_row :: "string \<Rightarrow> fval \<Rightarrow> fval \<Rightarrow> u8 \<Rightarrow> u8 \<Rightarrow> region_info" where
  "region_row n s e p d = \<lparr>ri_name = str n, ri_freqStart = s, ri_freqEnd = e, ri_powerLimit = p, ri_dutyCyclePct = d\<rparr>"

definition kRegions :: "region_info list" where
  "kRegions =
     [region_row ''UNSET'' (f32_lit 0 1) (f32_lit 0 1) 0 0,
      region_row ''US'' (f32_lit 902 1) (f32_lit 928 1) 30 100,
      region_row ''EU_868'' (f32_lit 8694 10) (f32_lit 86965 100) 27 10,
      region_row ''EU_433'' (f32_lit 433 1) (f32_lit 434 1) 10 10,
      region_row ''ANZ'' (f32_lit 915 1) (f32_lit 928 1) 30 100,
      region_row ''CN'' (f32_lit 470 1) (f32_lit 510 1) 19 100,
      region_row ''JP'' (f32_lit 9205 10) (f32_lit 9235 10) 13 100,
      region_row ''IN'' (f32_lit 865 1) (f32_lit 867 1) 30 100,
      region_row ''KR'' (f32_lit 920 1) (f32_lit 923 1) 23 100,
      region_row ''RU'' (f32_lit 8687 10) (f32_lit 8692 10) 20 100,
      region_row ''Custom'' (f32_lit 0 1) (f32_lit 0 1) 0 0]"

text \<open>The table with its literals rounded, which evaluation uses.\<close>

lemma kRegions_code [code]:
  "kRegions =
     [region_row ''UNSET'' (Fin False 0 (-149)) (Fin False 0 (-149)) 0 0,
      region_row ''US'' (Fin False 14778368 (-14)) (Fin False 15204352 (-14)) 30 100,
      region_row ''EU_868'' (Fin False 14244250 (-14)) (Fin False 14248346 (-14)) 27 10,
      region_row ''EU_433'' (Fin False 14188544 (-15)) (Fin False 14221312 (-15)) 10 10,
      region_row ''ANZ'' (Fin False 14991360 (-14)) (Fin False 15204352 (-14)) 30 100,
      region_row ''CN'' (Fin False 15400960 (-15)) (Fin False 16711680 (-15)) 19 100,
      region_row ''JP'' (Fin False 15081472 (-14)) (Fin False 15130624 (-14)) 13 100,
      region_row ''IN'' (Fin False 14172160 (-14)) (Fin False 14204928 (-14)) 30 100,
      region_row ''KR'' (Fin False 15073280 (-14)) (Fin False 15122432 (-14)) 23 100,
      region_row ''RU'' (Fin False 14232781 (-14)) (Fin False 14240973 (-14)) 20 100,
      region_row ''Custom'' (Fin False 0 (-149)) (Fin False 0 (-149)) 0 0]"
  by code_simp

definition kRegionCount :: u8 where "kRegionCount = 11"

definition regionInfo :: "u8 \<Rightarrow> region_info" where
  "regionInfo region = kRegions ! unat (if kRegionCount \<le> region then REGION_UNSET else region)"

definition regionHasBand :: "u8 \<Rightarrow> bool" where
  "regionHasBand region = (let r = regionInfo region in f_less (ri_freqStart r) (ri_freqEnd r))"

text \<open>The bandwidth in kHz, the spreading factor and the coding rate of a preset.\<close>

definition modemPresetParams :: "u8 \<Rightarrow> fval \<times> u8 \<times> u8" where
  "modemPresetParams preset =
     (if preset = 0 then (f32_lit 500 1, 7, 5)
      else if preset = 1 then (f32_lit 250 1, 7, 5)
      else if preset = 2 then (f32_lit 250 1, 8, 5)
      else if preset = 3 then (f32_lit 250 1, 9, 5)
      else if preset = 4 then (f32_lit 250 1, 10, 5)
      else if preset = 6 then (f32_lit 125 1, 11, 8)
      else if preset = 7 then (f32_lit 125 1, 12, 8)
      else if preset = 8 then (f32_lit 500 1, 11, 8)
      else (f32_lit 250 1, 11, 5))"

definition modemPresetName :: "u8 \<Rightarrow> bytes" where
  "modemPresetName preset =
     (if preset = 0 then str ''ShortTurbo''
      else if preset = 1 then str ''ShortFast''
      else if preset = 2 then str ''ShortSlow''
      else if preset = 3 then str ''MediumFast''
      else if preset = 4 then str ''MediumSlow''
      else if preset = 6 then str ''LongModerate''
      else if preset = 7 then str ''LongSlow''
      else if preset = 8 then str ''LongTurbo''
      else str ''LongFast'')"

definition djb2_step :: "u32 \<Rightarrow> u8 \<Rightarrow> u32" where
  "djb2_step h c = (push_bit 5 h + h) + ucast c"

definition djb2 :: "bytes \<Rightarrow> u32" where
  "djb2 s = foldl djb2_step 5381 s"

text \<open>\<open>None\<close>: a slot count beyond the integer type, whose conversion is undefined in C.\<close>

definition slotFrequencyMHz :: "u8 \<Rightarrow> bytes \<Rightarrow> fval \<Rightarrow> fval option" where
  "slotFrequencyMHz region channelName bwKHz =
     (let r = regionInfo region in
      if f_le (ri_freqEnd r) (ri_freqStart r) \<or> f_le bwKHz (f32_lit 0 1) then Some (f32_lit 0 1)
      else (let bwMHz = f32_div bwKHz (f32_lit 1000 1) in
        case f_to_u32 (f_floor (f32_div (f32_sub (ri_freqEnd r) (ri_freqStart r)) bwMHz)) of
          None \<Rightarrow> None
        | Some numChannels \<Rightarrow>
            if numChannels = 0 then Some (f32_lit 0 1)
            else (let channelNum = djb2 channelName mod numChannels in
              Some (f32_add (f32_add (ri_freqStart r) (f32_div bwMHz (f32_lit 2 1)))
                     (f32_mul (f32_of_int (uint channelNum)) bwMHz)))))"

definition bandCenterMHz :: "u8 \<Rightarrow> fval" where
  "bandCenterMHz region =
     (let r = regionInfo region in
      if f_le (ri_freqEnd r) (ri_freqStart r) then f32_lit 0 1
      else f32_add (ri_freqStart r) (f32_div (f32_sub (ri_freqEnd r) (ri_freqStart r)) (f32_lit 2 1)))"

text \<open>The frequency with the preset's plan, and whether there is one.\<close>

definition resolveMeshtasticRf :: "u8 \<Rightarrow> bytes \<Rightarrow> u8 \<Rightarrow> (fval \<times> (fval \<times> u8 \<times> u8) \<times> bool) option" where
  "resolveMeshtasticRf region channelName modemPreset =
     (let plan = modemPresetParams modemPreset in
      case slotFrequencyMHz region channelName (fst plan) of
        None \<Rightarrow> None
      | Some f \<Rightarrow> Some (f, plan, f_less (f32_lit 0 1) f))"

section \<open>Every slot lies in its band\<close>

text \<open>Every bound of the table is a multiple of \<open>2 ^ -14\<close> MHz below 1024 MHz.\<close>

definition gridded :: "fval \<Rightarrow> int \<Rightarrow> bool" where
  "gridded x k \<longleftrightarrow> exact_f x (of_int k * 2 powi -14)"

definition grid_of :: "fval \<Rightarrow> int" where
  "grid_of x = (case x of Fin s m e \<Rightarrow> if e = -14 then m else m div 2 | _ \<Rightarrow> 0)"

definition grid_ok :: "fval \<Rightarrow> bool" where
  "grid_ok x \<longleftrightarrow> (case x of Fin s m e \<Rightarrow> \<not> s \<and> 0 < m \<and> m < 2 ^ 24 \<and> (e = -14 \<or> e = -15 \<and> even m) | _ \<Rightarrow> False)"

lemma grid_okD:
  assumes "grid_ok x"
  shows "gridded x (grid_of x)" and "0 < grid_of x" and "grid_of x < 2 ^ 24"
proof -
  obtain m e where x: "x = Fin False m e" "0 < m" "m < 2 ^ 24" "e = -14 \<or> e = -15 \<and> even m"
    using assms by (auto simp: grid_ok_def split: fval.splits)
  have "exact_f x (of_int m * 2 powi e)" using x by (simp add: exact_f_def finite_f_def f_val_def signed_def)
  moreover have "real_of_int m * 2 powi -15 = of_int (m div 2) * 2 powi -14" if "even m"
    using that by (auto elim!: evenE)
  ultimately show "gridded x (grid_of x)" using x(4) by (auto simp: gridded_def grid_of_def x(1))
  show "0 < grid_of x" using x by (auto simp: grid_of_def elim!: evenE)
  show "grid_of x < 2 ^ 24" using x by (auto simp: grid_of_def)
qed

definition row_ok :: "region_info \<Rightarrow> bool" where
  "row_ok r \<longleftrightarrow> (if f_less (ri_freqStart r) (ri_freqEnd r) then grid_ok (ri_freqStart r) \<and> grid_ok (ri_freqEnd r) else True)"

lemma table_ok: "list_all row_ok kRegions"
  by code_simp

lemma length_kRegions: "length kRegions = 11"
  by (simp add: kRegions_def)

lemma region_row_ok: "row_ok (regionInfo region)"
proof -
  have "unat (if kRegionCount \<le> region then REGION_UNSET else region) < length kRegions"
    by (simp add: length_kRegions kRegionCount_def REGION_UNSET_def not_le word_less_nat_alt)
  with table_ok show ?thesis unfolding regionInfo_def list_all_length by blast
qed

lemma band_grid:
  assumes "regionHasBand region"
  obtains S E where "gridded (ri_freqStart (regionInfo region)) S" and "gridded (ri_freqEnd (regionInfo region)) E"
    and "0 < S" and "S < E" and "E < 2 ^ 24"
proof -
  have b: "f_less (ri_freqStart (regionInfo region)) (ri_freqEnd (regionInfo region))"
    using assms by (simp add: regionHasBand_def Let_def)
  with region_row_ok [of region]
  have g: "grid_ok (ri_freqStart (regionInfo region))" "grid_ok (ri_freqEnd (regionInfo region))"
    by (simp_all add: row_ok_def)
  from b have "grid_of (ri_freqStart (regionInfo region)) < grid_of (ri_freqEnd (regionInfo region))"
    using grid_okD(1) [OF g(1)] grid_okD(1) [OF g(2)] by (simp add: gridded_def exact_f_less)
  with that grid_okD [OF g(1)] grid_okD [OF g(2)] show ?thesis by blast
qed

text \<open>The bandwidths of the presets in MHz are powers of two.\<close>

lemma lit_exact: "\<bar>n\<bar> < 2 ^ 24 \<Longrightarrow> exact_f (f32_lit n 1) (of_int n)"
  using exact_of_int [of n] by (simp add: f32_lit_def f32_of_int_def)

lemma preset_bw:
  obtains j :: nat where "j \<in> {1, 2, 3}" and "exact_f (f32_div (fst (modemPresetParams p)) (f32_lit 1000 1)) (2 powi - int j)"
    and "exact_f (fst (modemPresetParams p)) (1000 * 2 powi - int j)"
proof -
  have d: "exact_f (f32_div (f32_lit n 1) (f32_lit 1000 1)) (of_int n / 1000)"
    if "\<bar>n\<bar> < 2 ^ 24" "representable (of_int n / 1000)" for n
    using exact_div [OF lit_exact [of n] lit_exact [of 1000]] that by simp
  have r: "representable (1 * 2 powi - int j)" if "j \<in> {1, 2, 3}" for j
    using representable_int_times [of 1 "- int j"] that by auto
  have "fst (modemPresetParams p) \<in> {f32_lit 500 1, f32_lit 250 1, f32_lit 125 1}"
    by (simp add: modemPresetParams_def)
  then consider "fst (modemPresetParams p) = f32_lit 500 1" | "fst (modemPresetParams p) = f32_lit 250 1"
    | "fst (modemPresetParams p) = f32_lit 125 1"
    by blast
  then show ?thesis
  proof cases
    case 1
    show ?thesis by (rule that [of 1]) (use d [of 500] r [of 1] lit_exact [of 500] in \<open>simp_all add: 1 power_int_minus\<close>)
  next
    case 2
    show ?thesis by (rule that [of 2]) (use d [of 250] r [of 2] lit_exact [of 250] in \<open>simp_all add: 2 power_int_minus\<close>)
  next
    case 3
    show ?thesis by (rule that [of 3]) (use d [of 125] r [of 3] lit_exact [of 125] in \<open>simp_all add: 3 power_int_minus\<close>)
  qed
qed

lemma int_div_mult_le: "0 < b \<Longrightarrow> a div b * b \<le> (a :: int)"
  by (metis le_add_same_cancel1 div_mult_mod_eq pos_mod_sign)

text \<open>The slot arithmetic on the grid: \<open>B\<close> grid steps to a channel, \<open>n\<close> channels in the band.\<close>

lemma slot_on_grid:
  fixes S E :: int and j :: nat
  assumes r: "gridded (ri_freqStart (regionInfo region)) S" "gridded (ri_freqEnd (regionInfo region)) E"
    and SE: "0 < S" "S < E" "E < 2 ^ 24" and j: "j \<in> {1, 2, 3}"
    and bw: "exact_f bwKHz (1000 * 2 powi - int j)" and mhz: "exact_f (f32_div bwKHz (f32_lit 1000 1)) (2 powi - int j)"
  defines "B \<equiv> 2 ^ (14 - j)" and "n \<equiv> (E - S) div 2 ^ (14 - j)"
  shows "if n = 0 then slotFrequencyMHz region name bwKHz = Some (f32_lit 0 1)
    else \<exists>f. slotFrequencyMHz region name bwKHz = Some f \<and>
      exact_f f (of_int (S + B div 2 + uint (djb2 name) mod n * B) * 2 powi -14)"
proof -
  let ?R = "regionInfo region" and ?w = "f32_div bwKHz (f32_lit 1000 1)"
  note ex = r [unfolded gridded_def]
  have zero: "exact_f (f32_lit 0 1) 0" using lit_exact [of 0] by simp
  have guard: "\<not> f_le (ri_freqEnd ?R) (ri_freqStart ?R)" "\<not> f_le bwKHz (f32_lit 0 1)"
    using SE by (simp_all add: exact_f_le [OF ex(2) ex(1)] exact_f_le [OF bw zero] not_le)
  have B: "real_of_int B * 2 powi -14 = 2 powi - int j" and B2: "real_of_int (B div 2) * 2 powi -14 = 2 powi - int j / 2"
    and B0: "2 \<le> B" "B \<le> 2 ^ 13" "even B"
    using j by (auto simp: B_def power_int_minus)
  have n0: "0 \<le> n" "n * B \<le> E - S" "n < 2 ^ 24"
  proof -
    show "0 \<le> n" using SE by (simp add: n_def pos_imp_zdiv_nonneg_iff)
    show le: "n * B \<le> E - S" unfolding n_def B_def by (rule int_div_mult_le) simp
    have "n * 1 \<le> n * B" using B0 \<open>0 \<le> n\<close> by (intro mult_left_mono) auto
    with le SE show "n < 2 ^ 24" by linarith
  qed
  have diff: "exact_f (f32_sub (ri_freqEnd ?R) (ri_freqStart ?R)) (of_int (E - S) * 2 powi -14)"
    using exact_sub [OF ex(2) ex(1)] representable_int_times [of "E - S" "-14"] SE by (simp add: diff_divide_distrib)
  have quot: "exact_f (f32_div (f32_sub (ri_freqEnd ?R) (ri_freqStart ?R)) ?w) (of_int (E - S) / of_int B)"
  proof -
    have e: "of_int (E - S) * 2 powi -14 / 2 powi - int j = real_of_int (E - S) / of_int B"
      unfolding B [symmetric] by (subst mult_divide_mult_cancel_right) simp_all
    have "real_of_int (E - S) / of_int B = of_int (E - S) * 2 powi (int j - 14)"
      using j by (auto simp: B_def power_int_minus)
    then have "representable (of_int (E - S) / of_int B)"
      using representable_int_times [of "E - S" "int j - 14"] SE j by auto
    then show ?thesis using exact_div [OF diff mhz] unfolding e by simp
  qed
  have cnt: "f_to_u32 (f_floor (f32_div (f32_sub (ri_freqEnd ?R) (ri_freqStart ?R)) ?w)) = Some (word_of_int n)"
  proof -
    have "\<lfloor>real_of_int (E - S) / of_int B\<rfloor> = n" unfolding floor_divide_of_int_eq by (simp add: n_def B_def)
    with exact_floor [OF quot] show ?thesis using exact_to_u32 [of _ n] n0 by simp
  qed
  have un: "uint (word_of_int n :: u32) = n" using n0 by (simp add: uint_word_of_int)
  show ?thesis
  proof (cases "n = 0")
    case True
    then show ?thesis using guard cnt by (simp add: slotFrequencyMHz_def Let_def)
  next
    case False
    define c where "c = uint (djb2 name) mod n"
    have c: "0 \<le> c" "c < n" using False n0(1) by (simp_all add: c_def)
    have uc: "uint (djb2 name mod word_of_int n) = c" by (simp add: uint_mod un c_def)
    have top: "S + B div 2 + c * B < 2 ^ 24"
    proof -
      have "(c + 1) * B \<le> n * B" using c B0 by (intro mult_right_mono) auto
      then have "c * B + B \<le> E - S" using n0(2) by (simp add: distrib_right)
      then show ?thesis using SE B0 by linarith
    qed
    have cB: "0 \<le> c * B" using c B0 by simp
    have half: "exact_f (f32_div ?w (f32_lit 2 1)) (of_int (B div 2) * 2 powi -14)"
    proof -
      have "representable (of_int (B div 2) * 2 powi -14)" using representable_int_times [of "B div 2" "-14"] B0 by simp
      then show ?thesis using exact_div [OF mhz lit_exact [of 2]] unfolding B2 by simp
    qed
    have low: "exact_f (f32_add (ri_freqStart ?R) (f32_div ?w (f32_lit 2 1))) (of_int (S + B div 2) * 2 powi -14)"
      using exact_add [OF ex(1) half] representable_int_times [of "S + B div 2" "-14"] SE B0 top cB
      by (simp add: add_divide_distrib)
    have off: "exact_f (f32_mul (f32_of_int c) ?w) (of_int (c * B) * 2 powi -14)"
    proof -
      have "representable (of_int (c * B) * 2 powi -14)"
        using representable_int_times [of "c * B" "-14"] SE B0 top cB by simp
      moreover have "real_of_int c * 2 powi - int j = of_int (c * B) * 2 powi -14" unfolding B [symmetric] by simp
      moreover have "exact_f (f32_of_int c) (of_int c)" by (rule exact_of_int) (use c n0 in simp)
      ultimately show ?thesis using exact_mul [OF _ mhz] by metis
    qed
    have "exact_f (f32_add (f32_add (ri_freqStart ?R) (f32_div ?w (f32_lit 2 1))) (f32_mul (f32_of_int c) ?w))
        (of_int (S + B div 2 + c * B) * 2 powi -14)"
      using exact_add [OF low off] representable_int_times [of "S + B div 2 + c * B" "-14"] SE B0 top cB
      by (simp add: add_divide_distrib)
    moreover have "(word_of_int n :: u32) \<noteq> 0" using un False by (auto simp: unsigned_0)
    ultimately show ?thesis
      using False guard cnt by (simp add: slotFrequencyMHz_def Let_def uc flip: c_def)
  qed
qed

text \<open>
  C20: Slot frequency: in every region with a band, for every modem preset and every channel
  name, the computed centre frequency is exactly \<open>start + bw / 2 + slot * bw\<close> with the slot the
  hash of the name modulo the number of slots (no rounding error at all), so the whole channel
  lies inside the band; a band narrower than one channel gives 0.
\<close>

theorem slot_frequency_in_band:
  assumes "regionHasBand region"
  shows "let bw = fst (modemPresetParams preset); w = f_val bw / 1000;
      lo = f_val (ri_freqStart (regionInfo region)); hi = f_val (ri_freqEnd (regionInfo region));
      n = \<lfloor>(hi - lo) / w\<rfloor> in
    if n = 0 then slotFrequencyMHz region name bw = Some (f32_lit 0 1)
    else \<exists>f. slotFrequencyMHz region name bw = Some f \<and> f_val f = lo + w / 2 + of_int (uint (djb2 name) mod n) * w \<and>
      lo + w / 2 \<le> f_val f \<and> f_val f \<le> hi - w / 2"
proof -
  obtain S E where g: "gridded (ri_freqStart (regionInfo region)) S" "gridded (ri_freqEnd (regionInfo region)) E"
    and SE: "0 < S" "S < E" "E < 2 ^ 24" by (rule band_grid [OF assms])
  obtain j where j: "j \<in> {1, 2, 3}" and mhz: "exact_f (f32_div (fst (modemPresetParams preset)) (f32_lit 1000 1)) (2 powi - int j)"
    and bw: "exact_f (fst (modemPresetParams preset)) (1000 * 2 powi - int j)" by (rule preset_bw)
  define B :: int where "B = 2 ^ (14 - j)"
  have B: "2 powi - int j = real_of_int B * 2 powi -14" "0 < B" "even B" using j by (auto simp: B_def power_int_minus)
  have lohi: "f_val (ri_freqStart (regionInfo region)) = of_int S * 2 powi -14"
    "f_val (ri_freqEnd (regionInfo region)) = of_int E * 2 powi -14"
    using g by (simp_all add: gridded_def exact_f_def)
  have w: "f_val (fst (modemPresetParams preset)) / 1000 = of_int B * 2 powi -14"
    using bw B(1) by (simp add: exact_f_def)
  have "(of_int E * 2 powi -14 - of_int S * 2 powi -14) / (of_int B * 2 powi -14) = real_of_int (E - S) / of_int B"
    unfolding left_diff_distrib [symmetric] by (subst mult_divide_mult_cancel_right) simp_all
  then have n: "\<lfloor>(of_int E * 2 powi -14 - of_int S * 2 powi -14) / (of_int B * 2 powi -14 :: real)\<rfloor> = (E - S) div B"
    by (simp only: floor_divide_of_int_eq)
  define c where "c = uint (djb2 name) mod ((E - S) div B)"
  have fv: "real_of_int (S + B div 2 + c * B) = of_int S + of_int B / 2 + of_int c * of_int B"
    using B(3) by (auto elim!: evenE)
  have in_band: "0 \<le> c \<and> (c + 1) * B \<le> E - S" if "(E - S) div B \<noteq> 0"
  proof -
    have "0 < (E - S) div B" using that SE B(2) by (simp add: pos_imp_zdiv_nonneg_iff order_neq_le_trans)
    then have c: "0 \<le> c" "c + 1 \<le> (E - S) div B" by (simp_all add: c_def zless_imp_add1_zle)
    have "(c + 1) * B \<le> (E - S) div B * B" using c(2) B(2) by (intro mult_right_mono) auto
    then show ?thesis using c(1) int_div_mult_le [OF B(2), of "E - S"] by linarith
  qed
  show ?thesis
  proof (cases "(E - S) div B = 0")
    case True
    then show ?thesis
      using slot_on_grid [OF g SE j bw mhz, of name] unfolding Let_def lohi w n by (simp add: B_def [symmetric])
  next
    case False
    then obtain f where f: "slotFrequencyMHz region name (fst (modemPresetParams preset)) = Some f"
      "exact_f f (of_int (S + B div 2 + c * B) * 2 powi -14)"
      using slot_on_grid [OF g SE j bw mhz, of name] unfolding B_def [symmetric] c_def [symmetric] by auto
    have f2: "f_val f = (of_int S + of_int B / 2 + of_int c * of_int B) / 16384"
      using exact_fD(2) [OF f(2)] fv by simp
    have "real_of_int ((c + 1) * B) \<le> of_int (E - S)" using in_band [OF False] by (simp only: of_int_le_iff)
    then have "of_int c * of_int B + of_int B \<le> real_of_int E - of_int S" by (simp add: distrib_right)
    moreover have "0 \<le> of_int c * real_of_int B" using in_band [OF False] B(2) by simp
    ultimately show ?thesis
      using False unfolding Let_def lohi w n c_def [symmetric] f(1) by (simp add: f2 field_simps)
  qed
qed

lemma us_longfast:
  "slotFrequencyMHz 1 (str ''LongFast'') (fst (modemPresetParams 5)) = Some (Fin False 14858240 (-14))"
  by code_simp

text \<open>The default channel of the US region: slot 19 of 104, at 906.875 MHz.\<close>

lemma slot_frequency_witness:
  "\<exists>f. slotFrequencyMHz 1 (str ''LongFast'') (fst (modemPresetParams 5)) = Some f \<and> f_val f = 906.875 \<and> f_val f \<le> 928"
proof -
  have band: "regionHasBand 1" by code_simp
  have plan: "fst (modemPresetParams 5) = Fin False 16384000 (-16)" "ri_freqStart (regionInfo 1) = Fin False 14778368 (-14)"
    "ri_freqEnd (regionInfo 1) = Fin False 15204352 (-14)" by code_simp+
  show ?thesis
    using slot_frequency_in_band [OF band, of 5 "str ''LongFast''"] us_longfast
    by (simp add: plan f_val_def signed_def Let_def power_int_minus split: if_splits)
qed

end
