(* ===== verification/Portal.thy ===== *)
theory Portal
  imports RegionPreset
begin

text \<open>
  The configuration form (\<open>src/src/CaptivePortal.cpp\<close>): validation of a posted form and its
  commit into the configuration and the LoRaWAN device table. A posted form maps a field name to
  its value, empty when the field is missing, as the web server returns it. The page that shows
  the form is in \<open>PortalForm\<close> and \<open>PortalScript\<close>.
\<close>

text \<open>
  What the platform's string class computes: \<open>trim\<close>, \<open>toInt\<close> and \<open>toFloat\<close> (a bit pattern); and
  the base64 decoder of the cryptographic library.
\<close>

record platform =
  pf_trim :: "bytes \<Rightarrow> bytes"
  pf_toInt :: "bytes \<Rightarrow> int"
  pf_toFloat :: "bytes \<Rightarrow> u32"
  pf_crypto :: crypto

type_synonym form = "bytes \<Rightarrow> bytes"

text \<open>The error strings of the form.\<close>

datatype save_error =
    Node_id_hex | Node_str_form | Node_mismatch | Name_empty
  | Freq_range | Bw_invalid | Sf_range | Cr_range | Sync_hex | Mt_name_empty | Mt_psk | Mc_name_empty | Mc_key_hex
  | All_none | Self_bridge nat nat
  | Abp_node_hex | Abp_proto_range | Abp_addr_hex | Abp_nwk_hex | Abp_app_hex | Abp_port_range

section \<open>Helpers\<close>

definition SX1262_FREQ_MIN :: fval where "SX1262_FREQ_MIN = f32_lit 150 1"
definition SX1262_FREQ_MAX :: fval where "SX1262_FREQ_MAX = f32_lit 960 1"
definition SX1262_TX_MIN :: int where "SX1262_TX_MIN = -9"
definition SX1262_TX_MAX :: int where "SX1262_TX_MAX = 22"

definition ALLOWED_BW :: "fval list" where
  "ALLOWED_BW = [f32_lit 78 10, f32_lit 104 10, f32_lit 156 10, f32_lit 208 10, f32_lit 3125 100,
     f32_lit 417 10, f32_lit 625 10, f32_lit 125 1, f32_lit 250 1, f32_lit 500 1]"

lemma ALLOWED_BW_code [code]:
  "ALLOWED_BW = [Fin False 16357786 (-21), Fin False 10905190 (-20), Fin False 16357786 (-20), Fin False 10905190 (-19),
     Fin False 16384000 (-19), Fin False 10931405 (-18), Fin False 16384000 (-18), Fin False 16384000 (-17),
     Fin False 16384000 (-16), Fin False 16384000 (-15)]"
  by code_simp

definition tolower_c :: "u8 \<Rightarrow> u8" where
  "tolower_c c = (if of_char CHR ''A'' \<le> c \<and> c \<le> of_char CHR ''Z'' then c + 32 else c)"

definition toLower :: "bytes \<Rightarrow> bytes" where
  "toLower s = map tolower_c s"

definition is_hex_char :: "u8 \<Rightarrow> bool" where
  "is_hex_char c \<longleftrightarrow> of_char CHR ''0'' \<le> c \<and> c \<le> of_char CHR ''9'' \<or>
     of_char CHR ''a'' \<le> c \<and> c \<le> of_char CHR ''f'' \<or> of_char CHR ''A'' \<le> c \<and> c \<le> of_char CHR ''F''"

definition isHexString :: "bytes \<Rightarrow> nat \<Rightarrow> bool" where
  "isHexString s len \<longleftrightarrow> length s = len \<and> list_all is_hex_char s"

text \<open>\<open>strtoul(s, nullptr, 16)\<close> of a string of at most 8 hex digits.\<close>

definition hex_value :: "bytes \<Rightarrow> u32" where
  "hex_value s = foldl (\<lambda>v c. push_bit 4 v + word_of_int (hexNibble c)) 0 s"

definition bwAllowed :: "fval \<Rightarrow> bool" where
  "bwAllowed bw = list_ex (\<lambda>v. f_less (f_abs (f32_sub bw v)) (f32_lit 5 100)) ALLOWED_BW"

definition presetFromParams :: "fval \<Rightarrow> u8 \<Rightarrow> u8 \<Rightarrow> u8" where
  "presetFromParams bw sf cr =
     (case first_match (\<lambda>p. case modemPresetParams p of (pbw, psf, pcr) \<Rightarrow>
             f_less (f_abs (f32_sub pbw bw)) (f32_lit 5 100) \<and> psf = sf \<and> pcr = cr) 0 [0, 1, 2, 3, 4, 5, 6, 7, 8] of
        Some i \<Rightarrow> of_nat i
      | None \<Rightarrow> 5)"

text \<open>A leading \<open>0x\<close> or \<open>0X\<close> is dropped.\<close>

definition strip_0x :: "bytes \<Rightarrow> bytes" where
  "strip_0x s = (if take 2 s = str ''0x'' \<or> take 2 s = str ''0X'' then drop 2 s else s)"

text \<open>The bit pattern of a rounded single.\<close>

definition f32_bits :: "fval \<Rightarrow> u32" where
  "f32_bits x =
     (case x of
        Fin s m e \<Rightarrow> (if s then push_bit 31 1 else 0) OR
          (if m < 2 ^ 23 then word_of_int m else word_of_int ((e + 150) * 2 ^ 23 + (m - 2 ^ 23)))
      | Inf s \<Rightarrow> (if s then push_bit 31 1 else 0) OR 0x7F800000
      | Not_a_number \<Rightarrow> 0x7FC00000)"

lemma preset_bits: "f32_of_bits (f32_bits (fst (modemPresetParams p))) = fst (modemPresetParams p)"
proof -
  have "f32_of_bits (f32_bits x) = x" if "x \<in> {f32_lit 500 1, f32_lit 250 1, f32_lit 125 1}" for x
    using that by (elim insertE emptyE; hypsubst; code_simp)
  then show ?thesis by (simp add: modemPresetParams_def)
qed

section \<open>One radio\<close>

text \<open>The field \<open>r<n><name>\<close>.\<close>

definition radio_field :: "form \<Rightarrow> nat \<Rightarrow> string \<Rightarrow> bytes" where
  "radio_field f n name = f (str ''r'' @ fmt_u n @ str name)"

record rf_plan =
  pl_bw :: u32
  pl_sf :: u8
  pl_cr :: u8

definition default_plan :: rf_plan where
  "default_plan = \<lparr>pl_bw = f32_bits (f32_lit 250 1), pl_sf = 11, pl_cr = 5\<rparr>"

definition typed_plan :: "platform \<Rightarrow> form \<Rightarrow> nat \<Rightarrow> save_error + rf_plan" where
  "typed_plan pf f n =
     (let bw = pf_toFloat pf (radio_field f n ''Bw'');
          sf = word_of_int (pf_toInt pf (radio_field f n ''Sf''));
          cr = word_of_int (pf_toInt pf (radio_field f n ''Cr''))
      in if \<not> bwAllowed (f32_of_bits bw) then Inl Bw_invalid
         else if sf < 5 \<or> 12 < sf then Inl Sf_range
         else if cr < 5 \<or> 8 < cr then Inl Cr_range
         else Inr \<lparr>pl_bw = bw, pl_sf = sf, pl_cr = cr\<rparr>)"

definition read_plan :: "platform \<Rightarrow> form \<Rightarrow> nat \<Rightarrow> u8 \<Rightarrow> save_error + rf_plan" where
  "read_plan pf f n proto =
     (if proto = PROTO_CUSTOM \<or> proto = PROTO_MC \<or> proto = PROTO_LORAWAN \<or> proto = PROTO_RNS
      then typed_plan pf f n else Inr default_plan)"

definition preset_plan :: "platform \<Rightarrow> form \<Rightarrow> nat \<Rightarrow> rf_plan" where
  "preset_plan pf f n =
     (case modemPresetParams (word_of_int (pf_toInt pf (radio_field f n ''preset''))) of
        (bw, sf, cr) \<Rightarrow> \<lparr>pl_bw = f32_bits bw, pl_sf = sf, pl_cr = cr\<rparr>)"

text \<open>The plan, the sync word, the stored key and, for LoRaWAN, the region that is stored.\<close>

record radio_choice =
  rc_plan :: rf_plan
  rc_sync :: u8
  rc_key :: bytes
  rc_lwRegion :: "u8 option"

definition psk_ok :: "platform \<Rightarrow> bytes \<Rightarrow> bool" where
  "psk_ok pf key =
     (case base64_decode (pf_crypto pf) key of
        None \<Rightarrow> False
      | Some dec \<Rightarrow> length dec \<le> 48 \<and> (length dec = 1 \<or> length dec = 16 \<or> length dec = 32))"

definition choose_protocol :: "platform \<Rightarrow> form \<Rightarrow> nat \<Rightarrow> u8 \<Rightarrow> bytes \<Rightarrow> bytes \<Rightarrow> rf_plan \<Rightarrow> save_error + radio_choice" where
  "choose_protocol pf f n proto chName chKey plan =
     (if proto = PROTO_CUSTOM then
        (let syncStr = pf_trim pf (radio_field f n ''Sync'') in
         if \<not> isHexString syncStr 2 then Inl Sync_hex
         else Inr \<lparr>rc_plan = plan, rc_sync = ucast (hex_value syncStr), rc_key = chKey, rc_lwRegion = None\<rparr>)
      else if proto = PROTO_MT then
        (if chName = [] then Inl Mt_name_empty
         else if chKey \<noteq> [] \<and> \<not> psk_ok pf chKey then Inl Mt_psk
         else Inr \<lparr>rc_plan = preset_plan pf f n, rc_sync = 0x2B, rc_key = chKey, rc_lwRegion = None\<rparr>)
      else if proto = PROTO_MC then
        (let key = toLower chKey in
         if chName = [] then Inl Mc_name_empty
         else if \<not> isHexString key 32 then Inl Mc_key_hex
         else Inr \<lparr>rc_plan = plan, rc_sync = 0x12, rc_key = key, rc_lwRegion = None\<rparr>)
      else if proto = PROTO_LORAWAN then
        (let lwReg = word_of_int (pf_toInt pf (radio_field f n ''lwreg''));
             lwReg = (if 4 < lwReg then LW_REGION_UNSET else lwReg)
         in Inr \<lparr>rc_plan = plan, rc_sync = 0x34, rc_key = [], rc_lwRegion = Some lwReg\<rparr>)
      else Inr \<lparr>rc_plan = plan, rc_sync = 0x42, rc_key = chKey, rc_lwRegion = None\<rparr>)"

definition tx_cap :: "u8 \<Rightarrow> int" where
  "tx_cap region =
     (if regionHasBand region \<and> sint (ri_powerLimit (regionInfo region)) < SX1262_TX_MAX
      then sint (ri_powerLimit (regionInfo region)) else SX1262_TX_MAX)"

definition clamp_tx :: "u8 \<Rightarrow> int \<Rightarrow> int" where
  "clamp_tx region txp =
     (let txp = (if tx_cap region < txp then tx_cap region else txp) in
      if txp < SX1262_TX_MIN then SX1262_TX_MIN else txp)"

definition route_mask :: "form \<Rightarrow> nat \<Rightarrow> u8" where
  "route_mask f n =
     foldl (\<lambda>m j. if j \<noteq> n \<and> f (str ''r'' @ fmt_u n @ str ''routeTo'' @ fmt_u j) = str ''1''
        then m OR push_bit (j - 1) 1 else m) 0 [1..<Suc NUM_RADIOS]"

definition freq_out_of_range :: "fval \<Rightarrow> bool" where
  "freq_out_of_range freq \<longleftrightarrow> f_less freq SX1262_FREQ_MIN \<or> f_less SX1262_FREQ_MAX freq"

definition commit_radio ::
  "form \<Rightarrow> nat \<Rightarrow> u8 \<Rightarrow> u32 \<Rightarrow> int \<Rightarrow> bytes \<Rightarrow> radio_choice \<Rightarrow> bridge_cfg \<Rightarrow> bridge_cfg" where
  "commit_radio f n proto freq txp chName ch c =
     (let i = int n - 1;
          c = (case rc_lwRegion ch of None \<Rightarrow> c | Some r \<Rightarrow> setRadioLwRegion i r c);
          c = setRadioProtocol i proto c;
          c = setRadioFrequency i freq c;
          c = setRadioBandwidth i (pl_bw (rc_plan ch)) c;
          c = setRadioSf i (pl_sf (rc_plan ch)) c;
          c = setRadioCr i (pl_cr (rc_plan ch)) c;
          c = setRadioSyncWord i (rc_sync ch) c;
          c = setRadioTxPower i (word_of_int txp) c;
          c = setRadioChannelName i chName c;
          c = setRadioChannelKey i (rc_key ch) c
      in setRadioRouteMask i (route_mask f n) c)"

text \<open>
  \<open>applyRadio\<close>: the configuration afterwards and the error. The checks that can fail all come
  before the first setter.
\<close>

definition applyRadio :: "platform \<Rightarrow> form \<Rightarrow> nat \<Rightarrow> u8 \<Rightarrow> bridge_cfg \<Rightarrow> bridge_cfg \<times> save_error option" where
  "applyRadio pf f n region c =
     (let proto = word_of_int (pf_toInt pf (radio_field f n ''proto'')) in
      if proto = PROTO_NONE then (setRadioProtocol (int n - 1) PROTO_NONE c, None)
      else (let chName = pf_trim pf (radio_field f n ''ChannelName'');
                chKey = pf_trim pf (radio_field f n ''ChannelKey'');
                freq = pf_toFloat pf (radio_field f n ''Freq'');
                txp = pf_toInt pf (radio_field f n ''Tx'')
        in if freq_out_of_range (f32_of_bits freq) then (c, Some Freq_range)
           else (case read_plan pf f n proto of
               Inl e \<Rightarrow> (c, Some e)
             | Inr plan \<Rightarrow> (case choose_protocol pf f n proto chName chKey plan of
                   Inl e \<Rightarrow> (c, Some e)
                 | Inr ch \<Rightarrow> (commit_radio f n proto freq (clamp_tx region txp) chName ch c, None)))))"

section \<open>The LoRaWAN device form\<close>

definition lwHexToBytes :: "bytes \<Rightarrow> nat \<Rightarrow> bytes option" where
  "lwHexToBytes s n = (if length s \<noteq> n * 2 then None else parse_hex_from s 0 n [])"

text \<open>The field \<open>lw<i><name>\<close>.\<close>

definition device_field :: "form \<Rightarrow> nat \<Rightarrow> string \<Rightarrow> bytes" where
  "device_field f i name = f (str ''lw'' @ fmt_u i @ str name)"

definition device_match :: "platform \<Rightarrow> form \<Rightarrow> nat \<Rightarrow> u8 \<Rightarrow> save_error + u32" where
  "device_match pf f i sel =
     (let mv = pf_trim pf (device_field f i ''match'') in
      if sel = SRC_MT_NODE then
        (let mv = strip_0x mv in if \<not> isHexString mv 8 then Inl Abp_node_hex else Inr (hex_value mv))
      else if sel = SRC_PROTO then
        (let m = word_of_int (pf_toInt pf mv) in if m < 1 \<or> 4 < m then Inl Abp_proto_range else Inr m)
      else Inr 0)"

definition read_device :: "platform \<Rightarrow> form \<Rightarrow> nat \<Rightarrow> save_error + lw_device" where
  "read_device pf f i =
     (let sel = word_of_int (pf_toInt pf (device_field f i ''sel'')) in
      case device_match pf f i sel of
        Inl e \<Rightarrow> Inl e
      | Inr m \<Rightarrow>
          (let addr = strip_0x (pf_trim pf (device_field f i ''addr'')) in
           if \<not> isHexString addr 8 then Inl Abp_addr_hex
           else (case lwHexToBytes (pf_trim pf (device_field f i ''nwk'')) 16 of
               None \<Rightarrow> Inl Abp_nwk_hex
             | Some nwk \<Rightarrow> (case lwHexToBytes (pf_trim pf (device_field f i ''app'')) 16 of
                   None \<Rightarrow> Inl Abp_app_hex
                 | Some app \<Rightarrow>
                     (let fp = pf_toInt pf (device_field f i ''port'') in
                      if fp < 1 \<or> 223 < fp then Inl Abp_port_range
                      else Inr \<lparr>dev_inUse = 1, dev_srcSel = sel, dev_fport = word_of_int fp,
                        dev_flags = (if device_field f i ''tag'' = str ''1'' then FLAG_TAG_SRC else 0),
                        dev_srcMatch = m, dev_devAddr = hex_value addr, dev_nwkSKey = nwk, dev_appSKey = app\<rparr>)))))"

text \<open>\<open>applyLoRaWANDevices\<close>: slot after slot, up to the first error; then the table is stored.\<close>

fun apply_slots :: "platform \<Rightarrow> form \<Rightarrow> bool \<Rightarrow> nat list \<Rightarrow> lw_state \<Rightarrow> lw_state \<times> save_error option" where
  "apply_slots pf f readable [] s = (s, None)"
| "apply_slots pf f readable (i # is') s =
     (if device_field f i ''en'' \<noteq> str ''1'' then apply_slots pf f readable is' (clearDevice (int i) s)
      else (case read_device pf f i of
          Inl e \<Rightarrow> (s, Some e)
        | Inr d \<Rightarrow> apply_slots pf f readable is' (setDevice readable (int i) d s)))"

definition applyLoRaWANDevices ::
  "platform \<Rightarrow> form \<Rightarrow> bool \<Rightarrow> nvs_write \<Rightarrow> lw_state \<Rightarrow> lw_state \<times> save_error option" where
  "applyLoRaWANDevices pf f readable w s =
     (case apply_slots pf f readable [0..<MAX_DEVICES] s of
        (s, Some e) \<Rightarrow> (s, Some e)
      | (s, None) \<Rightarrow> (lw_saveTable w s, None))"

section \<open>The whole form\<close>

text \<open>\<open>save_env\<close>: whether the build has the encoder, and what storage does.\<close>

record save_env =
  se_encode :: bool
  se_readable :: bool
  se_tableWrite :: nvs_write
  se_opens :: bool
  se_write :: nvs_write

record portal_state =
  ps_config :: config_state
  ps_lw :: lw_state
  ps_restart :: bool

definition read_identity :: "platform \<Rightarrow> form \<Rightarrow> save_error + u32 \<times> bytes" where
  "read_identity pf f =
     (let raw = strip_0x (pf_trim pf (f (str ''mtNodeId''))); idStr = pf_trim pf (f (str ''mtNodeIdStr'')) in
      if \<not> isHexString raw 8 then Inl Node_id_hex
      else if length idStr \<noteq> 9 \<or> hd idStr \<noteq> of_char CHR ''!'' \<or> \<not> isHexString (drop 1 idStr) 8 then Inl Node_str_form
      else if hex_value (drop 1 idStr) \<noteq> hex_value raw then Inl Node_mismatch
      else if f (str ''mtLongName'') = [] \<or> f (str ''mtShortName'') = [] then Inl Name_empty
      else Inr (hex_value raw, idStr))"

definition read_region :: "platform \<Rightarrow> form \<Rightarrow> u8" where
  "read_region pf f =
     (let region = word_of_int (pf_toInt pf (f (str ''region''))) in
      if kRegionCount \<le> region then REGION_UNSET else region)"

fun apply_radios :: "platform \<Rightarrow> form \<Rightarrow> u8 \<Rightarrow> nat list \<Rightarrow> bridge_cfg \<Rightarrow> bridge_cfg \<times> save_error option" where
  "apply_radios pf f region [] c = (c, None)"
| "apply_radios pf f region (n # ns) c =
     (case applyRadio pf f n region c of
        (c, Some e) \<Rightarrow> (c, Some e)
      | (c, None) \<Rightarrow> apply_radios pf f region ns c)"

definition active_count :: "bridge_cfg \<Rightarrow> nat" where
  "active_count c = length (filter (\<lambda>i. rs_protocol (bc_slot c (int i)) \<noteq> PROTO_NONE) [0..<NUM_RADIOS])"

text \<open>A routed pair of radios on one channel and one frequency.\<close>

definition same_frequency :: "u32 \<Rightarrow> u32 \<Rightarrow> bool" where
  "same_frequency a b =
     (let df = f32_sub (f32_of_bits a) (f32_of_bits b);
          df = (if f_less df (f32_lit 0 1) then f_neg df else df)
      in f_less df (f32_lit 1 1000))"

definition self_bridged :: "bridge_cfg \<Rightarrow> nat \<times> nat \<Rightarrow> bool" where
  "self_bridged c ij =
     (let a = bc_slot c (int (fst ij)); b = bc_slot c (int (snd ij)) in
      (rs_protocol a = PROTO_MT \<or> rs_protocol a = PROTO_MC) \<and> snd ij \<noteq> fst ij \<and> bit (rs_routeMask a) (snd ij) \<and>
      rs_protocol b = rs_protocol a \<and> same_frequency (rs_frequency a) (rs_frequency b) \<and>
      rs_channelName a = rs_channelName b \<and> rs_channelKey a = rs_channelKey b)"

lemma self_bridged_code [code]:
  "self_bridged c ij =
     (let a = bc_slot c (int (fst ij)); b = bc_slot c (int (snd ij)) in
      if rs_protocol a \<noteq> PROTO_MT \<and> rs_protocol a \<noteq> PROTO_MC then False
      else if snd ij = fst ij \<or> \<not> bit (rs_routeMask a) (snd ij) \<or> rs_protocol b \<noteq> rs_protocol a then False
      else if rs_channelName a = rs_channelName b \<and> rs_channelKey a = rs_channelKey b
        then same_frequency (rs_frequency a) (rs_frequency b) else False)"
  by (auto simp: self_bridged_def Let_def)

definition self_bridge :: "bridge_cfg \<Rightarrow> (nat \<times> nat) option" where
  "self_bridge c = find (self_bridged c) (List.product [0..<NUM_RADIOS] [0..<NUM_RADIOS])"

definition commit_identity :: "form \<Rightarrow> u32 \<Rightarrow> bytes \<Rightarrow> u8 \<Rightarrow> bridge_cfg \<Rightarrow> bridge_cfg" where
  "commit_identity f nodeId idStr region c =
     setTelemetryEnabled (f (str ''telemetryEnabled'') = str ''1'')
       (setPositionEnabled (f (str ''positionEnabled'') = str ''1'')
         (setRegion region
           (setMtShortName (f (str ''mtShortName''))
             (setMtLongName (f (str ''mtLongName'')) (setMtNodeIdStr idStr (setMtNodeId nodeId c))))))"

text \<open>The configuration after the form, before anything is stored, and the error.\<close>

definition apply_form :: "platform \<Rightarrow> form \<Rightarrow> bridge_cfg \<Rightarrow> bridge_cfg \<times> save_error option" where
  "apply_form pf f c =
     (case read_identity pf f of
        Inl e \<Rightarrow> (c, Some e)
      | Inr (nodeId, idStr) \<Rightarrow>
          (case apply_radios pf f (read_region pf f) [1..<Suc NUM_RADIOS] c of
             (c, Some e) \<Rightarrow> (c, Some e)
           | (c, None) \<Rightarrow>
               if active_count c = 0 then (c, Some All_none)
               else (case self_bridge c of
                   Some (i, j) \<Rightarrow> (c, Some (Self_bridge i j))
                 | None \<Rightarrow> (commit_identity f nodeId idStr (read_region pf f) c, None))))"

text \<open>\<open>handleSave\<close>: no error means saved, and the firmware restarts.\<close>

definition handleSave ::
  "platform \<Rightarrow> config_flags \<Rightarrow> save_env \<Rightarrow> form \<Rightarrow> portal_state \<Rightarrow> portal_state \<times> save_error option" where
  "handleSave pf fl e f s =
     (case apply_form pf f (cs_cfg (ps_config s)) of
        (c, Some err) \<Rightarrow> (s\<lparr>ps_config := (ps_config s)\<lparr>cs_cfg := c\<rparr>\<rparr>, Some err)
      | (c, None) \<Rightarrow>
          (let s = s\<lparr>ps_config := (ps_config s)\<lparr>cs_cfg := c\<rparr>\<rparr> in
           case (if se_encode e then applyLoRaWANDevices pf f (se_readable e) (se_tableWrite e) (ps_lw s) else (ps_lw s, None)) of
             (lw, Some err) \<Rightarrow> (s\<lparr>ps_lw := lw\<rparr>, Some err)
           | (lw, None) \<Rightarrow>
               (s\<lparr>ps_lw := lw, ps_config := bc_save fl (se_opens e) (se_write e) (ps_config s), ps_restart := True\<rparr>, None)))"

end
