(* ===== verification/CamPortal.thy ===== *)
theory CamPortal
  imports CamPortalConfig CameraNode Portal
begin

text \<open>
  The camera's web portal (\<open>src/src/CamPortal.cpp\<close>, \<open>CamPortal.h\<close>) and its video server
  (\<open>src/src/CamStream.cpp\<close>): sessions and login, the routes and what each does to the camera, the
  command channel, the pairing table, the credentials and the configuration. A request gives the
  cookie header and the form fields, as the web server library parses them; strings hold no zero
  byte. A reply tells the page and the data it shows; the controls of the pairing page are in
  \<open>PairingPage\<close>, the fixed HTML and script around the others are not modelled.
\<close>

definition C2_RADIO :: int where "C2_RADIO = 1"
definition SESS_TTL :: u32 where "SESS_TTL = 1800"
definition SESSIONS :: nat where "SESSIONS = 2"

section \<open>Sessions\<close>

record session =
  ss_tok :: bytes
  ss_expSec :: u32
  ss_used :: bool

definition nowSec :: "u32 \<Rightarrow> u32" where
  "nowSec ms = ms div 1000"

definition hexToBytes :: "bytes \<Rightarrow> nat \<Rightarrow> bytes option" where
  "hexToBytes s n = (if length s \<noteq> n * 2 then None else parse_hex_from s 0 n [])"

definition bytesToHex :: "bytes \<Rightarrow> bytes" where
  "bytesToHex b = hex_of b"

definition session_live :: "u32 \<Rightarrow> bytes \<Rightarrow> session \<Rightarrow> bool" where
  "session_live now tok s \<longleftrightarrow> ss_used s \<and> now < ss_expSec s \<and> ctEqual (ss_tok s) tok 16"

text \<open>The first live session of the token, its expiry refreshed.\<close>

definition findSession :: "u32 \<Rightarrow> bytes \<Rightarrow> session list \<Rightarrow> session list \<times> nat option" where
  "findSession ms hextok ss =
     (case hexToBytes hextok 16 of None \<Rightarrow> (ss, None)
      | Some tok \<Rightarrow>
          (case find (\<lambda>i. session_live (nowSec ms) tok (ss ! i)) [0..<length ss] of None \<Rightarrow> (ss, None)
           | Some i \<Rightarrow> (ss[i := (ss ! i)\<lparr>ss_expSec := nowSec ms + SESS_TTL\<rparr>], Some i)))"

text \<open>A free or expired slot, else the one that expires first.\<close>

definition pickSlot :: "u32 \<Rightarrow> session list \<Rightarrow> nat" where
  "pickSlot ms ss =
     (case find (\<lambda>i. \<not> ss_used (ss ! i) \<or> ss_expSec (ss ! i) \<le> nowSec ms) [0..<length ss] of
        Some i \<Rightarrow> i
      | None \<Rightarrow> foldl (\<lambda>oldest i. if ss_expSec (ss ! i) < ss_expSec (ss ! oldest) then i else oldest) 0 [0..<length ss])"

section \<open>State, requests and replies\<close>

record web_state =
  ws_sess :: "session list"
  ws_c2 :: c2_state
  ws_cam :: cam_node
  ws_creds :: portal_creds
  ws_portal :: portal_state
  ws_restart :: bool

text \<open>
  What one request meets: the string class, the clock, random bytes, what the camera and the card
  answer, the outcomes of the storage writes and of the bus locks in their order.
\<close>

record web_env =
  we_pf :: platform
  we_millis :: u32
  we_token :: bytes
  we_salt :: bytes
  we_c2 :: c2_env
  we_snap :: snap_env
  we_spawned :: bool
  we_bus :: "nat \<Rightarrow> bool"
  we_bufOk :: bool
  we_usage :: sd_usage
  we_flags :: config_flags
  we_save :: save_env
  we_c2readable :: bool
  we_c2write :: nvs_write
  we_credOpens :: bool
  we_credWrite :: nvs_write

record request =
  rq_cookie :: bytes
  rq_arg :: form

datatype peers_error = Id_length | Id_zero | Key_missing | Key_hex

datatype sec_error = Sec_cred cred_error | Sec_nothing

datatype page =
    Pg_login bool
  | Pg_home bytes bool bool bytes bytes
  | Pg_messages bytes
  | Pg_no_card
  | Pg_photos bytes u8 "photo_info list"
  | Pg_config
  | Pg_config_saved "save_error option"
  | Pg_peers "c2_peer list"
  | Pg_peers_saved "peers_error option"
  | Pg_sec bool bytes
  | Pg_sec_saved "sec_error option"
  | Pg_rebooting

text \<open>\<open>Redirect\<close> carries the location and the cookie set; \<open>File\<close> the name, the length announced and the bytes sent.\<close>

datatype reply =
    Page page
  | Plain nat bytes
  | Redirect bytes "bytes option"
  | File bytes nat bytes

section \<open>Authentication\<close>

definition index_of :: "bytes \<Rightarrow> bytes \<Rightarrow> nat option" where
  "index_of pat s = find (\<lambda>i. take (length pat) (drop i s) = pat) [0..<Suc (length s - length pat)]"

text \<open>The value behind \<open>sid=\<close> up to the next semicolon.\<close>

definition cookieSid :: "platform \<Rightarrow> request \<Rightarrow> bytes" where
  "cookieSid pf rq =
     (case index_of (str ''sid='') (rq_cookie rq) of None \<Rightarrow> []
      | Some i \<Rightarrow> pf_trim pf (takeWhile (\<lambda>b. b \<noteq> of_char CHR '';'') (drop (i + 4) (rq_cookie rq))))"

definition currentSession :: "web_env \<Rightarrow> request \<Rightarrow> web_state \<Rightarrow> web_state \<times> nat option" where
  "currentSession e rq w =
     (let hx = cookieSid (we_pf e) rq in
      if length hx \<noteq> 32 then (w, None)
      else (case findSession (we_millis e) hx (ws_sess w) of (ss, r) \<Rightarrow> (w\<lparr>ws_sess := ss\<rparr>, r)))"

definition sessionValid :: "web_env \<Rightarrow> bytes \<Rightarrow> web_state \<Rightarrow> web_state \<times> bool" where
  "sessionValid e hx w = (case findSession (we_millis e) hx (ws_sess w) of (ss, r) \<Rightarrow> (w\<lparr>ws_sess := ss\<rparr>, r \<noteq> None))"

text \<open>A protected handler runs with a live session only; without one the reply leads to the login.\<close>

definition requireAuth :: "web_env \<Rightarrow> request \<Rightarrow> (web_state \<Rightarrow> web_state \<times> reply) \<Rightarrow> web_state \<Rightarrow> web_state \<times> reply" where
  "requireAuth e rq h w =
     (case currentSession e rq w of
        (w, Some _) \<Rightarrow> h w
      | (w, None) \<Rightarrow> (w, Redirect (str ''/login'') None))"

definition requireAuthMedia :: "web_env \<Rightarrow> request \<Rightarrow> (web_state \<Rightarrow> web_state \<times> reply) \<Rightarrow> web_state \<Rightarrow> web_state \<times> reply" where
  "requireAuthMedia e rq h w =
     (case currentSession e rq w of
        (w, Some _) \<Rightarrow> h w
      | (w, None) \<Rightarrow>
          (let q = rq_arg rq (str ''sid'') in
           if length q \<noteq> 32 then (w, Plain 401 (str ''login required''))
           else (case sessionValid e q w of
               (w, True) \<Rightarrow> h w
             | (w, False) \<Rightarrow> (w, Plain 401 (str ''login required'')))))"

section \<open>Login\<close>

definition handleLoginForm :: "web_state \<Rightarrow> web_state \<times> reply" where
  "handleLoginForm w = (w, Page (Pg_login False))"

definition session_cookie :: "bytes \<Rightarrow> bytes" where
  "session_cookie tok = str ''sid='' @ bytesToHex tok @ str ''; Path=/; Max-Age='' @ fmt_u (unat SESS_TTL)"

definition handleLoginPost :: "web_env \<Rightarrow> request \<Rightarrow> web_state \<Rightarrow> web_state \<times> reply" where
  "handleLoginPost e rq w =
     (if \<not> checkLogin (pf_crypto (we_pf e)) (rq_arg rq (str ''user'')) (rq_arg rq (str ''pass'')) (ws_creds w)
      then (w, Page (Pg_login True))
      else (let i = pickSlot (we_millis e) (ws_sess w) in
        (w\<lparr>ws_sess := (ws_sess w)[i := \<lparr>ss_tok = we_token e, ss_expSec = nowSec (we_millis e) + SESS_TTL, ss_used = True\<rparr>]\<rparr>,
         Redirect (str ''/'') (Some (session_cookie (we_token e))))))"

definition handleLogout :: "web_env \<Rightarrow> request \<Rightarrow> web_state \<Rightarrow> web_state \<times> reply" where
  "handleLogout e rq w =
     (case currentSession e rq w of (w, r) \<Rightarrow>
        (case r of None \<Rightarrow> w | Some i \<Rightarrow> w\<lparr>ws_sess := (ws_sess w)[i := (ws_sess w ! i)\<lparr>ss_used := False\<rparr>]\<rparr>,
         Redirect (str ''/login'') (Some (str ''sid=; Path=/; Max-Age=0''))))"

section \<open>Home page and messages\<close>

definition esc_char :: "u8 \<Rightarrow> bytes" where
  "esc_char c =
     (if c = of_char CHR ''&'' then str ''&amp;''
      else if c = of_char CHR ''<'' then str ''&lt;''
      else if c = of_char CHR ''>'' then str ''&gt;''
      else if c = 34 then str ''&quot;''
      else if c = 39 then str ''&#39;''
      else [c])"

definition htmlEsc :: "bytes \<Rightarrow> bytes" where
  "htmlEsc s = concat (map esc_char s)"

definition dquote :: bytes where
  "dquote = [34]"

definition message_row :: "c2_message \<Rightarrow> bytes" where
  "message_row m =
     str ''<div class='' @ dquote @ str ''msg'' @ dquote @ str ''><span class='' @ dquote @ str ''t'' @ dquote @ str ''>'' @
     str ''0x'' @ fmt_08lx (me_fromId m) @ str '' @'' @ fmt_u (unat (me_atSec m)) @ str ''s</span><br>'' @
     htmlEsc (cstr_of (me_text m)) @ str ''</div>''"

definition messagesFragment :: "c2_state \<Rightarrow> bytes" where
  "messagesFragment s =
     (if c2_msgCount s = 0 then str ''<div class='' @ dquote @ str ''t'' @ dquote @ str ''>No messages yet.</div>''
      else concat (map (\<lambda>i. message_row (c2_message_at i s)) [0..<c2_msgCount s]))"

definition peer_option :: "c2_peer \<Rightarrow> bytes" where
  "peer_option pr =
     (if pr_inUse pr = 0 \<or> pr_peerId pr = 0 then []
      else str ''<option value='' @ dquote @ fmt_08lx (pr_peerId pr) @ dquote @ str ''>0x'' @ fmt_08lx (pr_peerId pr) @
        (if pr_flags pr AND FLAG_PRIMARY_MASTER \<noteq> 0 then str '' (primary)'' else []) @ str ''</option>'')"

definition peerOptions :: "c2_state \<Rightarrow> bytes" where
  "peerOptions s = concat (map peer_option (cc_peer (c2_cfg s)))"

definition handleHome :: "web_env \<Rightarrow> request \<Rightarrow> web_state \<Rightarrow> web_state \<times> reply" where
  "handleHome e rq = requireAuth e rq (\<lambda>w.
     (w, Page (Pg_home (cookieSid (we_pf e) rq) (pc_defaults (ws_creds w)) (cn_ok (ws_cam w))
       (messagesFragment (ws_c2 w)) (peerOptions (ws_c2 w)))))"

definition handleMsgGet :: "web_env \<Rightarrow> request \<Rightarrow> web_state \<Rightarrow> web_state \<times> reply" where
  "handleMsgGet e rq = requireAuth e rq (\<lambda>w. (w, Page (Pg_messages (messagesFragment (ws_c2 w)))))"

text \<open>\<open>strtoul\<close> in base 16: blanks, a sign, an optional \<open>0x\<close>, digits; beyond 32 bits it saturates.\<close>

definition strtoul16 :: "bytes \<Rightarrow> u32" where
  "strtoul16 s =
     (let s = dropWhile is_space_c s;
          neg = (s \<noteq> [] \<and> hd s = of_char CHR ''-'');
          s = (if s \<noteq> [] \<and> (hd s = of_char CHR ''-'' \<or> hd s = of_char CHR ''+'') then tl s else s);
          v = foldl (\<lambda>v c. v * 16 + nat (hexNibble c)) 0 (takeWhile is_hex_char (strip_0x s))
      in if 2 ^ 32 \<le> v then 0xFFFFFFFF else if neg then - of_nat v else of_nat v)"

text \<open>The camera as the command channel sees it during one request.\<close>

definition portal_c2_env :: "web_env \<Rightarrow> u16 \<Rightarrow> cam_node \<Rightarrow> c2_env" where
  "portal_c2_env e dur cam =
     (case snap (we_snap e) FILE_NAME_CAP cam of (_, len, nm) \<Rightarrow>
       (we_c2 e)\<lparr>env_camera := True, env_now := we_millis e, env_camReady := cn_ok cam, env_snap := (nm, len),
         env_sdPresent := cn_sdOk cam, env_sdFreePct := cn_sdFreePct cam, env_recActive := cn_recActive cam,
         env_recStart := snd (recordStart (we_spawned e) dur FILE_NAME_CAP cam)\<rparr>)"

fun perform :: "web_env \<Rightarrow> cam_action \<Rightarrow> cam_node \<Rightarrow> cam_node" where
  "perform e CamSnap cam = fst (snap (we_snap e) FILE_NAME_CAP cam)"
| "perform e (CamRecordStart dur) cam = fst (recordStart (we_spawned e) dur FILE_NAME_CAP cam)"
| "perform e CamRecordStop cam = recordStop cam"

definition handleMsgPost :: "web_env \<Rightarrow> request \<Rightarrow> web_state \<Rightarrow> web_state \<times> reply" where
  "handleMsgPost e rq = requireAuth e rq (\<lambda>w.
     let to = strtoul16 (pf_trim (we_pf e) (rq_arg rq (str ''to''))); txt = rq_arg rq (str ''text'') in
     if to = 0 \<or> txt = [] then (w, Plain 400 (str ''bad msg''))
     else (case sendMessage (aes_enc (pf_crypto (we_pf e))) (we_c2 e) C2_RADIO to txt (ws_c2 w) of
         (s, ok) \<Rightarrow> (w\<lparr>ws_c2 := s\<rparr>, if ok then Plain 200 (str ''sent'') else Plain 500 (str ''send-failed''))))"

section \<open>Camera commands\<close>

definition portal_command :: "bytes \<Rightarrow> (u8 \<times> bytes) option" where
  "portal_command a =
     (if a = str ''snap'' then Some (CMD_START_CAPTURE, [])
      else if a = str ''record'' then Some (CMD_RECORD, [30, 0])
      else if a = str ''stop'' then Some (CMD_STOP, [])
      else if a = str ''status'' then Some (CMD_GET_STATUS, [])
      else None)"

definition command_reply :: "u8 \<Rightarrow> u8 \<Rightarrow> bytes \<Rightarrow> bytes" where
  "command_reply cmd res ack =
     str ''result='' @ fmt_u (unat res) @ (if res = 0 then str '' (ok)'' else str '' (error)'') @
     (if (cmd = CMD_START_CAPTURE \<or> cmd = CMD_RECORD \<or> cmd = CMD_STOP) \<and> res = 0 \<and> 1 < length ack then
        10 # (if cmd = CMD_STOP then str ''state='' else str ''file='') @ drop 1 ack @
        (if cmd = CMD_RECORD then 10 # str ''(recording in the background '' @ [0xE2, 0x80, 0x94] @ str '' see Photos when done)'' else [])
      else if cmd = CMD_GET_STATUS \<and> 8 \<le> length ack then
        10 # str ''battery='' @ fmt_u (unat (ack ! 1)) @ str ''%  sd='' @
        (if ack ! 2 = 0xFF then str ''none'' else fmt_u (unat (ack ! 2)) @ str ''% free'') @
        str ''  uptime='' @ fmt_u (unat (get32 ack 3)) @ str ''s  lastCmd='' @ fmt_u (unat (ack ! 7))
      else [])"

definition handleCmd :: "web_env \<Rightarrow> request \<Rightarrow> web_state \<Rightarrow> web_state \<times> reply" where
  "handleCmd e rq = requireAuth e rq (\<lambda>w.
     case portal_command (rq_arg rq (str ''action'')) of None \<Rightarrow> (w, Plain 400 (str ''bad action''))
     | Some (cmd, args) \<Rightarrow>
         (let ce = portal_c2_env e 30 (ws_cam w); acts = fst (run_command ce (ws_c2 w) cmd args C2_MAX_PAYLOAD) in
          case executeCommand ce cmd args C2_MAX_PAYLOAD (ws_c2 w) of (s, ack, res) \<Rightarrow>
            (w\<lparr>ws_c2 := s, ws_cam := fold (perform e) acts (ws_cam w)\<rparr>, Plain 200 (command_reply cmd res ack))))"

section \<open>Photos\<close>

definition PHOTOS_CAP :: nat where "PHOTOS_CAP = 48"
definition CHUNK :: nat where "CHUNK = 8192"

definition handlePhotosGet :: "web_env \<Rightarrow> request \<Rightarrow> web_state \<Rightarrow> web_state \<times> reply" where
  "handlePhotosGet e rq = requireAuth e rq (\<lambda>w.
     if \<not> cn_sdOk (ws_cam w) then (w, Page Pg_no_card)
     else (w, Page (Pg_photos (cookieSid (we_pf e) rq) (cn_sdFreePct (ws_cam w)) (photoList (we_bus e 0) PHOTOS_CAP (ws_cam w)))))"

definition media_number :: "web_env \<Rightarrow> request \<Rightarrow> u32 \<times> bool" where
  "media_number e rq = (word_of_int (pf_toInt (we_pf e) (rq_arg rq (str ''i''))), rq_arg rq (str ''v'') = str ''1'')"

text \<open>
  The send loop: \<open>bus k\<close> is the \<open>k\<close>-th attempt to take the bus; eleven empty reads in a row end
  it, every other read shortens what is left.
\<close>

function send_chunks :: "(nat \<Rightarrow> bool) \<Rightarrow> nat \<Rightarrow> nat \<Rightarrow> nat \<Rightarrow> cam_node \<Rightarrow> cam_node \<times> bytes" where
  "send_chunks bus k left stall cam =
     (if left = 0 \<or> 10 < stall then (cam, [])
      else (case photoReadChunk (bus k) CHUNK cam of (cam, bs) \<Rightarrow>
        if bs = [] then send_chunks bus (k + 1) left (stall + 1) cam
        else (case send_chunks bus (k + 1) (left - length bs) 0 cam of (cam, rest) \<Rightarrow> (cam, bs @ rest))))"
  by pat_completeness auto
termination
  by (relation "measures [\<lambda>(bus, k, left, stall, cam). left, \<lambda>(bus, k, left, stall, cam). 11 - stall]") auto

declare send_chunks.simps [simp del]

definition handlePhotoGet :: "web_env \<Rightarrow> request \<Rightarrow> web_state \<Rightarrow> web_state \<times> reply" where
  "handlePhotoGet e rq = requireAuthMedia e rq (\<lambda>w.
     case media_number e rq of (idx, vid) \<Rightarrow>
       (case photoOpen (we_bus e 0) idx vid (ws_cam w) of (cam, len) \<Rightarrow>
          if len = 0 then (w\<lparr>ws_cam := cam\<rparr>, Plain 404 (str ''no such file''))
          else (case (if we_bufOk e then send_chunks (we_bus e) 2 len 0 cam else (cam, [])) of (cam, body) \<Rightarrow>
            (w\<lparr>ws_cam := photoClose (we_bus e 1) cam\<rparr>, File (mediaPath idx vid) len body))))"

definition handlePhotoDelete :: "web_env \<Rightarrow> request \<Rightarrow> web_state \<Rightarrow> web_state \<times> reply" where
  "handlePhotoDelete e rq = requireAuth e rq (\<lambda>w.
     case media_number e rq of (idx, vid) \<Rightarrow>
       (w\<lparr>ws_cam := fst (photoDelete (we_bus e 0) (we_usage e) idx vid (ws_cam w))\<rparr>, Redirect (str ''/photos'') None))"

section \<open>Configuration, pairing and credentials\<close>

definition handleConfigGet :: "web_env \<Rightarrow> request \<Rightarrow> web_state \<Rightarrow> web_state \<times> reply" where
  "handleConfigGet e rq = requireAuth e rq (\<lambda>w. (w, Page Pg_config))"

definition handleConfigPost :: "web_env \<Rightarrow> request \<Rightarrow> web_state \<Rightarrow> web_state \<times> reply" where
  "handleConfigPost e rq = requireAuth e rq (\<lambda>w.
     case handleSave (we_pf e) (we_flags e) (we_save e) (rq_arg rq) (ws_portal w) of (p, err) \<Rightarrow>
       (w\<lparr>ws_portal := p\<rparr>, Page (Pg_config_saved err)))"

definition handlePeersGet :: "web_env \<Rightarrow> request \<Rightarrow> web_state \<Rightarrow> web_state \<times> reply" where
  "handlePeersGet e rq = requireAuth e rq (\<lambda>w. (w, Page (Pg_peers (cc_peer (c2_cfg (ws_c2 w))))))"

definition peer_field :: "request \<Rightarrow> nat \<Rightarrow> string \<Rightarrow> bytes" where
  "peer_field rq i name = rq_arg rq (str ''p'' @ fmt_u i @ str name)"

text \<open>An enabled slot of the form, from what the slot holds now.\<close>

definition read_peer :: "platform \<Rightarrow> request \<Rightarrow> nat \<Rightarrow> c2_peer \<Rightarrow> peers_error + c2_peer" where
  "read_peer pf rq i cur =
     (let idStr = strip_0x (pf_trim pf (peer_field rq i ''id'')); pid = strtoul16 idStr in
      if length idStr \<noteq> 8 then Inl Id_length
      else if pid = 0 then Inl Id_zero
      else (let same = (pr_inUse cur \<noteq> 0 \<and> pr_peerId cur = pid);
                p = cur\<lparr>pr_inUse := 1, pr_peerId := pid,
                      pr_flags := (if peer_field rq i ''pri'' = str ''1'' then FLAG_PRIMARY_MASTER else 0),
                      pr_rxHighWater := (if same then pr_rxHighWater cur else 0)\<rparr>;
                keyStr = pf_trim pf (peer_field rq i ''key'')
        in if keyStr = [] then (if same then Inr p else Inl Key_missing)
           else (case hexToBytes keyStr 16 of None \<Rightarrow> Inl Key_hex | Some key \<Rightarrow> Inr (p\<lparr>pr_psk := key\<rparr>))))"

fun apply_peers :: "web_env \<Rightarrow> request \<Rightarrow> nat list \<Rightarrow> c2_config \<Rightarrow> c2_config \<times> peers_error option" where
  "apply_peers e rq [] c = (c, None)"
| "apply_peers e rq (i # ns) c =
     (if peer_field rq i ''en'' \<noteq> str ''1'' then apply_peers e rq ns (clearPeer (int i) c)
      else (case read_peer (we_pf e) rq i (cc_peerAt (int i) c) of
          Inl err \<Rightarrow> (c, Some err)
        | Inr p \<Rightarrow> apply_peers e rq ns (setPeer (we_c2readable e) (int i) p c)))"

definition handlePeersPost :: "web_env \<Rightarrow> request \<Rightarrow> web_state \<Rightarrow> web_state \<times> reply" where
  "handlePeersPost e rq = requireAuth e rq (\<lambda>w.
     case apply_peers e rq [0..<MAX_PEERS] (c2_cfg (ws_c2 w)) of
       (c, Some err) \<Rightarrow> (w\<lparr>ws_c2 := (ws_c2 w)\<lparr>c2_cfg := c\<rparr>\<rparr>, Page (Pg_peers_saved (Some err)))
     | (c, None) \<Rightarrow> (w\<lparr>ws_c2 := (ws_c2 w)\<lparr>c2_cfg := cc_saveTable (we_c2write e) c\<rparr>\<rparr>, Page (Pg_peers_saved None)))"

definition handleSecGet :: "web_env \<Rightarrow> request \<Rightarrow> web_state \<Rightarrow> web_state \<times> reply" where
  "handleSecGet e rq = requireAuth e rq (\<lambda>w.
     (w, Page (Pg_sec (pc_defaults (ws_creds w)) (htmlEsc (pp_user (pc_cfg (ws_creds w)))))))"

definition handleSecPost :: "web_env \<Rightarrow> request \<Rightarrow> web_state \<Rightarrow> web_state \<times> reply" where
  "handleSecPost e rq = requireAuth e rq (\<lambda>w.
     let appass = rq_arg rq (str ''appass''); user = rq_arg rq (str ''user''); pass = rq_arg rq (str ''pass'') in
     if appass \<noteq> [] then
       (case setApPass (we_credOpens e) (we_credWrite e) appass (ws_creds w) of
          (c, Some err) \<Rightarrow> (w\<lparr>ws_creds := c\<rparr>, Page (Pg_sec_saved (Some (Sec_cred err))))
        | (c, None) \<Rightarrow> (w\<lparr>ws_creds := c, ws_restart := True\<rparr>, Page Pg_rebooting))
     else if user \<noteq> [] \<and> pass \<noteq> [] then
       (case setLogin (pf_crypto (we_pf e)) (we_credOpens e) (we_credWrite e) (we_salt e) user pass (ws_creds w) of
          (c, err) \<Rightarrow> (w\<lparr>ws_creds := c\<rparr>, Page (Pg_sec_saved (map_option Sec_cred err))))
     else (w, Page (Pg_sec_saved (Some Sec_nothing))))"

section \<open>Routes\<close>

datatype http_method = Get | Post

definition handleNotFound :: "web_state \<Rightarrow> web_state \<times> reply" where
  "handleNotFound w = (w, Redirect (str ''/'') None)"

definition portal_request :: "web_env \<Rightarrow> http_method \<Rightarrow> bytes \<Rightarrow> request \<Rightarrow> web_state \<Rightarrow> web_state \<times> reply" where
  "portal_request e m path rq =
     (case m of
        Get \<Rightarrow>
          if path = str ''/'' then handleHome e rq
          else if path = str ''/login'' then handleLoginForm
          else if path = str ''/logout'' then handleLogout e rq
          else if path = str ''/config'' then handleConfigGet e rq
          else if path = str ''/msg'' then handleMsgGet e rq
          else if path = str ''/peers'' then handlePeersGet e rq
          else if path = str ''/photos'' then handlePhotosGet e rq
          else if path = str ''/photo'' then handlePhotoGet e rq
          else if path = str ''/sec'' then handleSecGet e rq
          else handleNotFound
      | Post \<Rightarrow>
          if path = str ''/login'' then handleLoginPost e rq
          else if path = str ''/save'' then handleConfigPost e rq
          else if path = str ''/cmd'' then handleCmd e rq
          else if path = str ''/msg'' then handleMsgPost e rq
          else if path = str ''/peers'' then handlePeersPost e rq
          else if path = str ''/photodel'' then handlePhotoDelete e rq
          else if path = str ''/sec'' then handleSecPost e rq
          else handleNotFound)"

section \<open>The video server\<close>

text \<open>
  One turn of the stream: the camera lock, the frame, whether the client took it. The query's
  \<open>sid\<close> is what the server library extracts, or nothing.
\<close>

record stream_turn =
  sm_lock :: bool
  sm_frame :: "bytes option"
  sm_sent :: bool

datatype stream_reply =
    Unauthorized
  | Server_error bytes
  | Stream "bytes list"
  | Jpeg bytes

definition stream_authed :: "web_env \<Rightarrow> bytes option \<Rightarrow> web_state \<Rightarrow> web_state \<times> bool" where
  "stream_authed e sid w = (case sid of None \<Rightarrow> (w, False) | Some hx \<Rightarrow> sessionValid e hx w)"

definition stream_part :: "bytes \<Rightarrow> bytes" where
  "stream_part fb = [13, 10] @ str ''--lcframe'' @ [13, 10] @ str ''Content-Type: image/jpeg'' @ [13, 10] @
     str ''Content-Length: '' @ fmt_u (length fb) @ [13, 10, 13, 10] @ fb"

text \<open>The parts sent; thirty frames missed in a row or a client that is gone end the stream.\<close>

fun stream_loop :: "nat \<Rightarrow> stream_turn list \<Rightarrow> bytes list" where
  "stream_loop streak [] = []"
| "stream_loop streak (t # ts) =
     (if \<not> sm_lock t then stream_loop streak ts
      else (case sm_frame t of
          None \<Rightarrow> if 30 \<le> streak + 1 then [] else stream_loop (streak + 1) ts
        | Some fb \<Rightarrow> if sm_sent t then stream_part fb # stream_loop 0 ts else []))"

definition streamHandler :: "web_env \<Rightarrow> bytes option \<Rightarrow> stream_turn list \<Rightarrow> web_state \<Rightarrow> web_state \<times> stream_reply" where
  "streamHandler e sid ts w =
     (case stream_authed e sid w of
        (w, False) \<Rightarrow> (w, Unauthorized)
      | (w, True) \<Rightarrow> (w, Stream (stream_loop 0 ts)))"

definition jpgHandler :: "web_env \<Rightarrow> bytes option \<Rightarrow> bool \<Rightarrow> bytes option \<Rightarrow> web_state \<Rightarrow> web_state \<times> stream_reply" where
  "jpgHandler e sid lock frame w =
     (case stream_authed e sid w of
        (w, False) \<Rightarrow> (w, Unauthorized)
      | (w, True) \<Rightarrow>
          if \<not> lock then (w, Server_error (str ''camera busy''))
          else (case frame of None \<Rightarrow> (w, Server_error (str ''capture failed'')) | Some fb \<Rightarrow> (w, Jpeg fb)))"

end
