(* ===== verification/CamPortalSafety.thy ===== *)
theory CamPortalSafety
  imports CamPortal CameraMedia
begin

text \<open>
  What the camera's portal guarantees: without a live session nothing is shown and nothing changes,
  the cookie of a login opens the session it names, a stored file reaches the browser whole, and a
  snapshot ordered in the browser lands on the card; and where its sessions and its pairing form
  fall short.
\<close>

section \<open>Sessions\<close>

text \<open>The token string opens a session of the table.\<close>

definition opens :: "u32 \<Rightarrow> bytes \<Rightarrow> session list \<Rightarrow> bool" where
  "opens ms hx ss \<longleftrightarrow> (case hexToBytes hx 16 of None \<Rightarrow> False | Some tok \<Rightarrow> list_ex (session_live (nowSec ms) tok) ss)"

lemma find_index_None: "find (\<lambda>i. P (xs ! i)) [0..<length xs] = None \<longleftrightarrow> \<not> list_ex P xs"
  by (auto simp: find_None_iff list_ex_iff in_set_conv_nth dest: nth_mem)

lemma findSession_opens:
  "snd (findSession ms hx ss) \<noteq> None \<longleftrightarrow> opens ms hx ss"
  "\<not> opens ms hx ss \<Longrightarrow> findSession ms hx ss = (ss, None)"
  by (auto simp: findSession_def opens_def find_index_None split: option.splits)
    (metis find_index_None option.distinct(1))+

lemma currentSession_closed:
  assumes "\<not> opens (we_millis e) (cookieSid (we_pf e) rq) (ws_sess w)"
  shows "currentSession e rq w = (w, None)"
  using findSession_opens(2) [OF assms] by (simp add: currentSession_def Let_def)

text \<open>A request of someone who neither holds a session nor logs in.\<close>

definition outsider :: "web_env \<times> http_method \<times> bytes \<times> request \<Rightarrow> web_state \<Rightarrow> bool" where
  "outsider r w = (case r of (e, m, path, rq) \<Rightarrow>
     \<not> opens (we_millis e) (cookieSid (we_pf e) rq) (ws_sess w) \<and>
     \<not> opens (we_millis e) (rq_arg rq (str ''sid'')) (ws_sess w) \<and>
     \<not> (m = Post \<and> path = str ''/login'' \<and>
        checkLogin (pf_crypto (we_pf e)) (rq_arg rq (str ''user'')) (rq_arg rq (str ''pass'')) (ws_creds w)))"

text \<open>The login page, a redirect that sets no session cookie, or a refusal.\<close>

fun public_reply :: "reply \<Rightarrow> bool" where
  "public_reply (Page p) = (case p of Pg_login b \<Rightarrow> True | _ \<Rightarrow> False)"
| "public_reply (Plain status body) = (status = 401)"
| "public_reply (Redirect loc c) = (c = None \<or> c = Some (str ''sid=; Path=/; Max-Age=0''))"
| "public_reply (File nm n bs) = False"

lemma requireAuth_closed:
  assumes "\<not> opens (we_millis e) (cookieSid (we_pf e) rq) (ws_sess w)"
  shows "requireAuth e rq h w = (w, Redirect (str ''/login'') None)"
  by (simp add: requireAuth_def currentSession_closed [OF assms])

lemma requireAuthMedia_closed:
  assumes "\<not> opens (we_millis e) (cookieSid (we_pf e) rq) (ws_sess w)"
    and "\<not> opens (we_millis e) (rq_arg rq (str ''sid'')) (ws_sess w)"
  shows "requireAuthMedia e rq h w = (w, Plain 401 (str ''login required''))"
  using findSession_opens(2) [OF assms(2)]
  by (simp add: requireAuthMedia_def currentSession_closed [OF assms(1)] sessionValid_def Let_def)

lemmas protected_handlers = handleHome_def handleConfigGet_def handleMsgGet_def handlePeersGet_def handlePhotosGet_def
  handlePhotoGet_def handleSecGet_def handleConfigPost_def handleCmd_def handleMsgPost_def handlePeersPost_def
  handlePhotoDelete_def handleSecPost_def

lemma outsider_request:
  assumes "outsider (e, m, path, rq) w"
  shows "fst (portal_request e m path rq w) = w \<and> public_reply (snd (portal_request e m path rq w))"
proof -
  have c: "\<not> opens (we_millis e) (cookieSid (we_pf e) rq) (ws_sess w)"
    "\<not> opens (we_millis e) (rq_arg rq (str ''sid'')) (ws_sess w)" using assms by (simp_all add: outsider_def)
  note closed = requireAuth_closed [OF c(1)] requireAuthMedia_closed [OF c] currentSession_closed [OF c(1)]
  have login: "fst (handleLoginPost e rq w) = w \<and> public_reply (snd (handleLoginPost e rq w))"
    if "m = Post" "path = str ''/login''"
    using assms that by (simp add: outsider_def handleLoginPost_def)
  have p: "fst (h e rq w) = w \<and> public_reply (snd (h e rq w))"
    if "h \<in> {handleHome, handleConfigGet, handleMsgGet, handlePeersGet, handlePhotosGet, handlePhotoGet, handleSecGet,
      handleConfigPost, handleCmd, handleMsgPost, handlePeersPost, handlePhotoDelete, handleSecPost}" for h
    using that by (elim insertE emptyE) (simp_all add: protected_handlers closed)
  have o: "fst (handleLoginForm w) = w \<and> public_reply (snd (handleLoginForm w))"
    "fst (handleNotFound w) = w \<and> public_reply (snd (handleNotFound w))"
    "fst (handleLogout e rq w) = w \<and> public_reply (snd (handleLogout e rq w))"
    by (simp_all add: handleLoginForm_def handleNotFound_def handleLogout_def closed)
  show ?thesis
  proof (cases m)
    case Get
    show ?thesis unfolding portal_request_def Get http_method.case using p o by (simp split: if_split)
  next
    case Post
    show ?thesis unfolding portal_request_def Post http_method.case using p o login [OF Post] by (simp split: if_split)
  qed
qed

text \<open>A run of requests with its replies.\<close>

fun portal_run :: "(web_env \<times> http_method \<times> bytes \<times> request) list \<Rightarrow> web_state \<Rightarrow> web_state \<times> reply list" where
  "portal_run [] w = (w, [])"
| "portal_run ((e, m, path, rq) # rs) w =
     (case portal_request e m path rq w of (w, r) \<Rightarrow> (case portal_run rs w of (w, rest) \<Rightarrow> (w, r # rest)))"

text \<open>
  C36: The portal is closed to an outsider: whatever requests, in whatever order, come from someone
  who holds no live session and never gives the right login, the sessions, the camera, its card,
  the pairing table, the credentials and the configuration stay as they are, and every reply is the
  login page, a redirect without a session cookie, or a refusal.
\<close>

theorem outsider_changes_nothing:
  assumes "\<forall>r \<in> set rs. outsider r w"
  shows "fst (portal_run rs w) = w \<and> list_all public_reply (snd (portal_run rs w))"
  using assms
proof (induction rs)
  case (Cons r rs)
  obtain e m path rq where r: "r = (e, m, path, rq)" by (cases r) auto
  then have "fst (portal_request e m path rq w) = w \<and> public_reply (snd (portal_request e m path rq w))"
    using outsider_request Cons.prems by simp
  then obtain rep where "portal_request e m path rq w = (w, rep)" "public_reply rep" by (cases "portal_request e m path rq w") auto
  moreover obtain w2 rest where "portal_run rs w = (w2, rest)" by (cases "portal_run rs w")
  ultimately show ?case using Cons r by simp
qed simp

text \<open>The video server is closed as well.\<close>

lemma stream_closed:
  assumes "\<forall>hx. sid = Some hx \<longrightarrow> \<not> opens (we_millis e) hx (ws_sess w)"
  shows "streamHandler e sid ts w = (w, Unauthorized)" and "jpgHandler e sid lock frame w = (w, Unauthorized)"
  using assms findSession_opens(2)
  by (auto simp: streamHandler_def jpgHandler_def stream_authed_def sessionValid_def split: option.splits)

section \<open>Login\<close>

lemma pickSlot_less:
  assumes "ss \<noteq> []"
  shows "pickSlot ms ss < length ss"
proof -
  have "foldl (\<lambda>o' i. if ss_expSec (ss ! i) < ss_expSec (ss ! o') then i else o') k ns < length ss"
    if "k < length ss" "\<forall>i \<in> set ns. i < length ss" for k ns
    using that by (induction ns arbitrary: k) simp_all
  from this [of 0 "[0..<length ss]"] show ?thesis
    using assms by (auto simp: pickSlot_def find_Some_iff split: option.splits)
qed

lemma ctEqual_refl [simp]: "ctEqual a a n"
  by (simp add: ctEqual_iff)

lemma bytesToHex_back: "length tok = 16 \<Longrightarrow> hexToBytes (bytesToHex tok) 16 = Some tok"
  using parse_hex_of [of 0 16 tok "[]"] by (simp add: hexToBytes_def bytesToHex_def length_hex_of)

lemma hex_no_semicolon: "of_char CHR '';'' \<notin> set (bytesToHex tok)"
proof -
  have "hex_digit d \<noteq> 59" if "d < 16" for d
  proof
    assume "hex_digit d = 59"
    then have "uint d = -1" using hexNibble_digit [OF that] by (simp add: hexNibble_def)
    then show False using uint_ge_0 [of d] by linarith
  qed
  then have "hex_digit (drop_bit 4 b) \<noteq> 59 \<and> hex_digit (b AND 0x0F) \<noteq> 59" for b :: u8
    using nibbles(1,2) [of b] by blast
  then show ?thesis by (auto simp: bytesToHex_def hex_of_def)
qed

text \<open>The pair a browser sends back.\<close>

definition browser_cookie :: "bytes \<Rightarrow> bytes" where
  "browser_cookie set_cookie = takeWhile (\<lambda>b. b \<noteq> of_char CHR '';'') set_cookie"

lemma browser_session_cookie: "browser_cookie (session_cookie tok) = str ''sid='' @ bytesToHex tok"
proof -
  have t: "takeWhile (\<lambda>b. b \<noteq> 59) (bytesToHex tok @ 59 # rest) = bytesToHex tok" for rest
    using hex_no_semicolon [of tok] by (subst takeWhile_append2) auto
  show ?thesis by (simp add: browser_cookie_def session_cookie_def str_def t)
qed

lemma cookieSid_sid:
  assumes "rq_cookie rq = str ''sid='' @ bytesToHex tok" and "pf_trim pf (bytesToHex tok) = bytesToHex tok"
  shows "cookieSid pf rq = bytesToHex tok"
proof -
  have "index_of (str ''sid='') (str ''sid='' @ bytesToHex tok) = Some 0"
    by (simp add: index_of_def str_def upt_rec)
  moreover have "takeWhile (\<lambda>b. b \<noteq> 59) (bytesToHex tok) = bytesToHex tok"
    using hex_no_semicolon [of tok] by (subst takeWhile_eq_all_conv) auto
  ultimately show ?thesis using assms by (simp add: cookieSid_def str_def del: takeWhile_eq_all_conv)
qed


text \<open>The other session of the table is kept.\<close>

lemma login_keeps_other:
  assumes "handleLoginPost e rq w = (w2, r)" and "j \<noteq> pickSlot (we_millis e) (ws_sess w)"
  shows "ws_sess w2 ! j = ws_sess w ! j"
  using assms by (auto simp: handleLoginPost_def Let_def split: if_splits)

text \<open>
  The clock of seconds returns to 0 after 4294967 seconds: a session that had expired, and whose
  slot was not taken since, is live again.
\<close>

lemma expired_session_revived:
  assumes "ss_used s" and "ss_tok s = tok" and "0 < ss_expSec s" and "ss_expSec s \<le> nowSec 0xFFFFFFFF"
  shows "\<not> session_live (nowSec 0xFFFFFFFF) tok s" and "session_live (nowSec (0xFFFFFFFF + 1)) tok s"
  using assms by (simp_all add: session_live_def nowSec_def)

section \<open>Photos\<close>

lemma send_chunks_whole:
  assumes "cn_rd cam = Some d" and "left = length d" and "\<exists>j. stall + j \<le> 10 \<and> bus (k + j)"
    and "\<forall>i. \<exists>j \<le> 10. bus (i + j)"
  shows "snd (send_chunks bus k left stall cam) = d"
  using assms
proof (induction bus k left stall cam arbitrary: d rule: send_chunks.induct)
  case (1 bus k left stall cam)
  show ?case
  proof (cases "left = 0")
    case True
    then show ?thesis using 1 by (simp add: send_chunks.simps)
  next
    case False
    obtain j where j: "stall + j \<le> 10" "bus (k + j)" using "1.prems"(3) by blast
    show ?thesis
    proof (cases "bus k")
      case True
      define cam2 where "cam2 = cam\<lparr>cn_rd := Some (drop CHUNK d)\<rparr>"
      have r: "photoReadChunk (bus k) CHUNK cam = (cam2, take CHUNK d)"
        using True "1.prems"(1) by (simp add: photoReadChunk_def cam2_def)
      have m: "length d - min (length d) CHUNK = length d - CHUNK" by (simp add: min_def)
      have ne: "take CHUNK d \<noteq> []" using False "1.prems"(2) by (auto simp: CHUNK_def)
      have "\<exists>j. 0 + j \<le> 10 \<and> bus (k + 1 + j)" using "1.prems"(4) [rule_format, of "k + 1"] by simp
      then have "snd (send_chunks bus (k + 1) (left - length (take CHUNK d)) 0 cam2) = drop CHUNK d"
        using "1.IH"(2) [OF _ r [symmetric]] False j ne r "1.prems" m by (simp add: cam2_def)
      then show ?thesis using False j ne r
        by (cases "send_chunks bus (k + 1) (left - length (take CHUNK d)) 0 cam2") (simp add: send_chunks.simps [of bus k])
    next
      case miss: False
      have r: "photoReadChunk (bus k) CHUNK cam = (cam, [])" using miss "1.prems"(1) by (simp add: photoReadChunk_def)
      have "j \<noteq> 0" using j(2) miss by (metis add.right_neutral)
      then have "\<exists>i. Suc stall + i \<le> 10 \<and> bus (k + 1 + i)" using j by (intro exI [of _ "j - 1"]) simp
      then have "snd (send_chunks bus (k + 1) left (stall + 1) cam) = d"
        using "1.IH"(1) [OF _ r [symmetric]] False j r "1.prems" by simp
      then show ?thesis using False j r by (simp add: send_chunks.simps [of bus k])
    qed
  qed
qed

text \<open>
  A stored file reaches the browser whole: with a live session, a media file of the card that
  is not empty is sent under its name with its true length and byte for byte, however often the
  radios hold the shared bus, as long as they never hold it for eleven attempts in a row.
\<close>

theorem photo_served_whole:
  assumes "snd (currentSession e rq w) \<noteq> None" and "media_number e rq = (idx, vid)"
    and "cn_sdOk (ws_cam w)" and "map_of (cn_dir (ws_cam w)) (mediaPath idx vid) = Some d" and "d \<noteq> []"
    and "we_bus e 0" and "we_bufOk e" and "\<forall>i. \<exists>j \<le> 10. we_bus e (i + j)"
  shows "snd (portal_request e Get (str ''/photo'') rq w) = File (mediaPath idx vid) (length d) d"
proof -
  obtain w2 i where c: "currentSession e rq w = (w2, Some i)" using assms(1) by (cases "currentSession e rq w") auto
  have cam: "ws_cam w2 = ws_cam w" using c by (auto simp: currentSession_def Let_def split: if_splits prod.splits)
  define cam2 where "cam2 = (ws_cam w)\<lparr>cn_rd := Some d\<rparr>"
  have o: "photoOpen True idx vid (ws_cam w) = (cam2, length d)"
    using assms(3,4) by (simp add: photoOpen_def cam2_def)
  have "\<exists>j. 0 + j \<le> 10 \<and> we_bus e (2 + j)" using assms(8) [rule_format, of 2] by simp
  then have "snd (send_chunks (we_bus e) 2 (length d) 0 cam2) = d"
    by (intro send_chunks_whole [OF _ refl _ assms(8)]) (simp_all add: cam2_def)
  moreover have "portal_request e Get (str ''/photo'') rq w = handlePhotoGet e rq w"
    unfolding portal_request_def http_method.case by (simp add: str_def)
  ultimately show ?thesis
    using c cam o assms(2,5,6,7)
    by (cases "send_chunks (we_bus e) 2 (length d) 0 cam2") (simp add: handlePhotoGet_def requireAuthMedia_def)
qed

section \<open>Camera commands\<close>

lemma length_fmt_u: "n < 10 ^ k \<Longrightarrow> 0 < k \<Longrightarrow> length (fmt_u n) \<le> k"
proof (induction n arbitrary: k rule: fmt_u.induct)
  case (1 n)
  show ?case
  proof (cases "n < 10")
    case False
    then obtain j where k: "k = Suc j" "0 < j" using 1(2,3) by (cases k) (simp_all, metis gr0I mult.right_neutral power_0)
    then have "n div 10 < 10 ^ j" using 1(2) by (simp add: div_less_iff_less_mult mult.commute)
    then show ?thesis using 1(1) [OF False _ k(2)] False k by (simp add: fmt_u.simps [of n])
  qed (use 1 in \<open>simp add: fmt_u.simps [of n]\<close>)
qed

lemma length_mediaPath: "length (mediaPath n vid) \<le> 18"
proof -
  have "unat n < 4294967296" using unsigned_less [of n] by simp
  then have "unat n < 10 ^ 10" by simp
  then have "length (fmt_u (unat n)) \<le> 10" by (rule length_fmt_u) simp
  then show ?thesis by (simp add: mediaPath_def fmt_05u_def zero_pad_def str_def)
qed

text \<open>
  A snapshot ordered in the browser lands on the card: with a live session, a camera and a card
  that answer, the picture is on the card under the next number, the number moves on, no other file
  changes, and the reply reports success and names the file.
\<close>

theorem portal_snap_saved:
  assumes "snd (currentSession e rq w) \<noteq> None" and "rq_arg rq (str ''action'') = str ''snap''"
    and "cn_ok (ws_cam w)" and "cn_sdOk (ws_cam w)"
    and "sn_lock (we_snap e)" and "sn_frame (we_snap e) = Some (x, y, d)" and "d \<noteq> []"
    and "sn_busOk (we_snap e)" and "sn_openOk (we_snap e)" and "sn_written (we_snap e) = length d"
    and "r = portal_request e Post (str ''/cmd'') rq w"
  shows "map_of (cn_dir (ws_cam (fst r))) = (map_of (cn_dir (ws_cam w)))(mediaPath (cn_nextIdx (ws_cam w)) False \<mapsto> d) \<and>
    cn_nextIdx (ws_cam (fst r)) = cn_nextIdx (ws_cam w) + 1 \<and>
    snd r = Plain 200 (str ''result=0 (ok)'' @ 10 # str ''file=/loracam/'' @ mediaPath (cn_nextIdx (ws_cam w)) False)"
proof -
  obtain w2 i where c: "currentSession e rq w = (w2, Some i)" using assms(1) by (cases "currentSession e rq w") auto
  have cam: "ws_cam w2 = ws_cam w" using c by (auto simp: currentSession_def Let_def split: if_splits prod.splits)
  let ?nm = "mediaPath (cn_nextIdx (ws_cam w)) False"
  let ?cam = "refreshFreePct (sn_usage (we_snap e)) ((ws_cam w)\<lparr>cn_dir := write_file ?nm d (cn_dir (ws_cam w)),
    cn_nextIdx := cn_nextIdx (ws_cam w) + 1\<rparr>)"
  have len: "length (str ''/loracam/'' @ ?nm) < FILE_NAME_CAP"
    using length_mediaPath [of "cn_nextIdx (ws_cam w)" False] by (simp add: FILE_NAME_CAP_def str_def)
  have s: "snap (we_snap e) FILE_NAME_CAP (ws_cam w) = (?cam, length d, str ''/loracam/'' @ ?nm)"
    using assms len by (simp add: snap_def Let_def bounded_copy_id)
  have p: "portal_request e Post (str ''/cmd'') rq w = handleCmd e rq w"
    unfolding portal_request_def http_method.case by (simp add: str_def)
  have pc: "portal_command (rq_arg rq (str ''action'')) = Some (CMD_START_CAPTURE, [])"
    by (simp add: assms(2) portal_command_def)
  let ?ce = "portal_c2_env e 30 (ws_cam w)"
  have ce: "env_camReady ?ce" "env_snap ?ce = (str ''/loracam/'' @ ?nm, length d)"
    using assms(3) by (simp_all add: portal_c2_env_def s)
  have run: "run_command ?ce cs CMD_START_CAPTURE [] C2_MAX_PAYLOAD = ([CamSnap], RES_OK, str ''/loracam/'' @ ?nm)" for cs
    using ce assms(7) len bounded_copy_id [OF len]
    by (simp add: run_command_def c2_codes ack_note_def FILE_NAME_CAP_def C2_MAX_PAYLOAD_def Let_def)
  have reply: "command_reply CMD_START_CAPTURE RES_OK (RES_OK # str ''/loracam/'' @ ?nm) =
      str ''result=0 (ok)'' @ 10 # str ''file=/loracam/'' @ ?nm"
    by (simp add: command_reply_def RES_OK_def CMD_START_CAPTURE_def CMD_STOP_def CMD_RECORD_def fmt_u.simps str_def)
  have h: "handleCmd e rq w = (w2\<lparr>ws_c2 := (ws_c2 w2)\<lparr>c2_actions := c2_actions (ws_c2 w2) @ [CamSnap], c2_lastCmd := CMD_START_CAPTURE,
      c2_lastRes := RES_OK\<rparr>, ws_cam := ?cam\<rparr>, Plain 200 (str ''result=0 (ok)'' @ 10 # str ''file=/loracam/'' @ ?nm))"
    using run by (simp add: handleCmd_def requireAuth_def c pc cam executeCommand_def reply s C2_MAX_PAYLOAD_def Let_def)
  show ?thesis unfolding assms(11) p h by (simp add: map_of_write_file refreshFreePct_def)
qed

section \<open>Concrete portals\<close>

definition plain_platform :: platform where
  "plain_platform = \<lparr>pf_trim = \<lambda>s. s, pf_toInt = \<lambda>s. foldl (\<lambda>v c. 10 * v + (uint c - 48)) 0 s, pf_toFloat = \<lambda>s. 0, pf_crypto = toy_crypto\<rparr>"

definition web_c2 :: c2_state where
  "web_c2 = \<lparr>c2_cfg = sample_cc, c2_emit = True, c2_ok = True, c2_lastCmd = 0, c2_lastRes = 0,
     c2_msgs = replicate MSG_RING \<lparr>me_fromId = 0, me_atSec = 0, me_text = []\<rparr>, c2_msgCount = 0, c2_msgHead = 0,
     c2_outbox = [], c2_actions = []\<rparr>"

definition web_c2_env :: c2_env where
  "web_c2_env = \<lparr>env_camera = True, env_now = 0, env_myId = 1, env_rxWrite = Write_ok, env_txWrite = \<lambda>k. Write_ok,
     env_emitOk = True, env_camReady = True, env_snap = ([], 0), env_sdPresent = True, env_sdFreePct = 50,
     env_recActive = False, env_recStart = None\<rparr>"

definition web_env_at :: "u32 \<Rightarrow> web_env" where
  "web_env_at ms = \<lparr>we_pf = plain_platform, we_millis = ms, we_token = replicate 16 7, we_salt = [1], we_c2 = web_c2_env,
     we_snap = sample_shot, we_spawned = True, we_bus = even, we_bufOk = True, we_usage = (100, 50), we_flags = sample_flags,
     we_save = \<lparr>se_encode = False, se_readable = True, se_tableWrite = Write_ok, se_opens = True, se_write = Write_ok\<rparr>,
     we_c2readable = True, we_c2write = Write_ok, we_credOpens = True, we_credWrite = Write_ok\<rparr>"

text \<open>The camera after its card was mounted, the login \<open>eve\<close> / \<open>secret\<close>, and one session.\<close>

definition sample_web :: web_state where
  "sample_web = \<lparr>ws_sess = [\<lparr>ss_tok = replicate 16 7, ss_expSec = 1000, ss_used = True\<rparr>, \<lparr>ss_tok = [], ss_expSec = 0, ss_used = False\<rparr>],
     ws_c2 = web_c2, ws_cam = beginStorage True True sample_card (100, 50) sample_camera,
     ws_creds = fst (setLogin toy_crypto True Write_ok [1] (str ''eve'') (str ''secret'') fresh_creds),
     ws_portal = \<lparr>ps_config = \<lparr>cs_cfg = loadDefaults sample_flags, cs_blob = NoBlob\<rparr>,
       ps_lw = \<lparr>lw_dev = replicate 4 zero_device, lw_fcnt = replicate 4 0, lw_reserved = replicate 4 0,
         lw_persisted = replicate 4 0, lw_extDevAddr = 0, lw_extFcnt = 0, lw_extReserved = 0, lw_table = LwAbsent, lw_uints = Map.empty\<rparr>,
       ps_restart = False\<rparr>,
     ws_restart = False\<rparr>"

text \<open>A request with a field, and with or without the session's cookie.\<close>

definition ask :: "bool \<Rightarrow> string \<Rightarrow> string \<Rightarrow> request" where
  "ask known k v = \<lparr>rq_cookie = (if known then str ''sid='' @ bytesToHex (replicate 16 7) else []),
     rq_arg = (\<lambda>x. if x = str k then str v else [])\<rparr>"

lemma stranger_no_sid: "cookieSid plain_platform (ask False k v) = []"
  by (simp add: cookieSid_def ask_def index_of_def str_def upt_rec)

lemma opens_short: "length hx \<noteq> 32 \<Longrightarrow> \<not> opens ms hx ss"
  by (simp add: opens_def hexToBytes_def)

lemma ask_arg: "rq_arg (ask b k v) x = (if x = str k then str v else [])"
  by (simp add: ask_def)

lemma length_str: "length (str s) = length s"
  by (simp add: str_def)

lemma sample_camera_mounted:
  "cn_ok (ws_cam sample_web)" "cn_sdOk (ws_cam sample_web)" "cn_nextIdx (ws_cam sample_web) = 8"
  "cn_dir (ws_cam sample_web) = sample_card"
  using sample_card_numbers(2)
  by (simp_all add: sample_web_def beginStorage_def refreshFreePct_def Let_def sample_camera_def)

lemma outsider_changes_nothing_witness:
  "fst (portal_run [(web_env_at 5000, Post, str ''/cmd'', ask False ''action'' ''snap''), (web_env_at 6000, Get, str ''/photo'', ask False ''i'' ''7''),
     (web_env_at 7000, Post, str ''/photodel'', ask False ''i'' ''7''), (web_env_at 8000, Get, str ''/'', ask False ''sid'' ''0000'')] sample_web) = sample_web"
proof (rule outsider_changes_nothing [THEN conjunct1])
  have "str ''/cmd'' \<noteq> str ''/login''" "str ''/photodel'' \<noteq> str ''/login''" by (simp_all add: str_def)
  then show "\<forall>r \<in> set [(web_env_at 5000, Post, str ''/cmd'', ask False ''action'' ''snap''), (web_env_at 6000, Get, str ''/photo'', ask False ''i'' ''7''),
      (web_env_at 7000, Post, str ''/photodel'', ask False ''i'' ''7''), (web_env_at 8000, Get, str ''/'', ask False ''sid'' ''0000'')].
      outsider r sample_web"
    by (simp add: outsider_def web_env_at_def stranger_no_sid opens_short ask_arg length_str)
qed

lemma ask_known: "cookieSid plain_platform (ask True k v) = bytesToHex (replicate 16 7)"
  by (rule cookieSid_sid) (simp_all add: ask_def plain_platform_def)

lemma ask_known_session: "snd (currentSession (web_env_at 5000) (ask True k v) sample_web) \<noteq> None"
proof -
  have "opens 5000 (bytesToHex (replicate 16 7)) (ws_sess sample_web)"
    by (simp add: opens_def bytesToHex_back sample_web_def session_live_def nowSec_def)
  then show ?thesis
    using findSession_opens(1) [of 5000 "bytesToHex (replicate 16 7)" "ws_sess sample_web"]
    by (auto simp: currentSession_def web_env_at_def ask_known bytesToHex_def length_hex_of split: prod.splits)
qed

lemma photo_served_whole_witness:
  "snd (portal_request (web_env_at 5000) Get (str ''/photo'') (ask True ''i'' ''7'') sample_web) = File (mediaPath 7 False) 1 [1]"
proof -
  have "media_number (web_env_at 5000) (ask True ''i'' ''7'') = (7, False)"
    by (simp add: media_number_def web_env_at_def plain_platform_def ask_def str_def)
  moreover have "map_of (cn_dir (ws_cam sample_web)) (mediaPath 7 False) = Some [1]"
    by (simp add: sample_camera_mounted sample_card_def)
  moreover have "\<exists>j \<le> 10. even (i + j)" for i :: nat by (cases "even i") (auto intro: exI [of _ 0] exI [of _ 1])
  ultimately show ?thesis
    using photo_served_whole [OF ask_known_session, of "''i''" "''7''" 7 False "[1]"]
    by (simp add: sample_camera_mounted web_env_at_def)
qed

lemma portal_snap_saved_witness:
  "map_of (cn_dir (ws_cam (fst (portal_request (web_env_at 5000) Post (str ''/cmd'') (ask True ''action'' ''snap'') sample_web))))
     (mediaPath 8 False) = Some [9, 9]"
  using portal_snap_saved [OF ask_known_session, of "''action''" "''snap''" 640 480 "[9, 9]"]
  by (simp add: sample_camera_mounted web_env_at_def sample_shot_def ask_arg)


section \<open>Pairing\<close>

text \<open>The pairing form is a run of the table's own operations.\<close>

lemma apply_peers_events:
  "\<exists>evs. fst (apply_peers e rq ns c) = foldl (\<lambda>c ev. fst (c2_tx_step ev c)) c evs \<and>
    (\<forall>ev \<in> set evs. (\<exists>i. ev = C2Clear i) \<or> (\<exists>r i p. ev = C2Set r i p))"
proof (induction ns arbitrary: c)
  case Nil
  show ?case by (intro exI [of _ "[]"]) simp
next
  case (Cons i ns)
  let ?rd = "read_peer (we_pf e) rq i (cc_peerAt (int i) c)"
  consider (off) "peer_field rq i ''en'' \<noteq> str ''1''" | (bad) err where "peer_field rq i ''en'' = str ''1''" "?rd = Inl err"
    | (on) p where "peer_field rq i ''en'' = str ''1''" "?rd = Inr p" by (cases ?rd) blast+
  then show ?case
  proof cases
    case off
    obtain evs where "fst (apply_peers e rq ns (clearPeer (int i) c)) = foldl (\<lambda>c ev. fst (c2_tx_step ev c)) (clearPeer (int i) c) evs"
      "\<forall>ev \<in> set evs. (\<exists>i. ev = C2Clear i) \<or> (\<exists>r i p. ev = C2Set r i p)" using Cons.IH by blast
    with off show ?thesis by (intro exI [of _ "C2Clear (int i) # evs"]) simp
  next
    case bad
    then show ?thesis by (intro exI [of _ "[]"]) simp
  next
    case (on p)
    let ?c = "setPeer (we_c2readable e) (int i) p c"
    obtain evs where "fst (apply_peers e rq ns ?c) = foldl (\<lambda>c ev. fst (c2_tx_step ev c)) ?c evs"
      "\<forall>ev \<in> set evs. (\<exists>i. ev = C2Clear i) \<or> (\<exists>r i p. ev = C2Set r i p)" using Cons.IH by blast
    with on show ?thesis by (intro exI [of _ "C2Set (we_c2readable e) (int i) p # evs"]) simp
  qed
qed

text \<open>What the form makes of one slot.\<close>

definition slot_after :: "web_env \<Rightarrow> request \<Rightarrow> nat \<Rightarrow> c2_config \<Rightarrow> c2_peer" where
  "slot_after e rq i c =
     (if peer_field rq i ''en'' \<noteq> str ''1'' then zero_peer
      else (case read_peer (we_pf e) rq i (cc_peer c ! i) of Inl _ \<Rightarrow> cc_peer c ! i
        | Inr p \<Rightarrow> if pr_peerId p \<noteq> pr_peerId (cc_peer c ! i)
            then p\<lparr>pr_rxHighWater := loadRxForPeer (we_c2readable e) (pr_peerId p) (cc_uints c)\<rparr> else p))"

lemma apply_peers_slot:
  assumes "apply_peers e rq ns c = (c2, None)" and "distinct ns" and "\<forall>i \<in> set ns. i < MAX_PEERS" and "length (cc_peer c) = MAX_PEERS"
  shows "cc_uints c2 = cc_uints c \<and> length (cc_peer c2) = MAX_PEERS \<and> (\<forall>i. cc_peer c2 ! i = (if i \<in> set ns then slot_after e rq i c else cc_peer c ! i))"
  using assms
proof (induction ns arbitrary: c)
  case (Cons i ns)
  define c1 where "c1 = c\<lparr>cc_peer := (cc_peer c)[i := slot_after e rq i c]\<rparr>"
  have i: "i < MAX_PEERS" "i \<notin> set ns" using Cons.prems(2,3) by simp_all
  have "apply_peers e rq ns c1 = (c2, None)"
    using Cons.prems(1) i(1)
    by (auto simp: c1_def slot_after_def clearPeer_def setPeer_def cc_peerAt_def Let_def split: if_splits sum.splits)
  then have ih: "cc_uints c2 = cc_uints c1 \<and> length (cc_peer c2) = MAX_PEERS \<and>
      (\<forall>j. cc_peer c2 ! j = (if j \<in> set ns then slot_after e rq j c1 else cc_peer c1 ! j))"
    using Cons.prems(2-4) by (intro Cons.IH) (auto simp: c1_def)
  have "slot_after e rq j c1 = slot_after e rq j c" if "j \<in> set ns" for j
  proof -
    have "j \<noteq> i" using that i(2) by blast
    then have q: "cc_peer c1 ! j = cc_peer c ! j" "cc_uints c1 = cc_uints c" by (simp_all add: c1_def)
    show ?thesis by (simp only: slot_after_def q)
  qed
  then show ?case using ih i Cons.prems(4) by (auto simp: c1_def)
qed simp

text \<open>Saving the form again, or editing a paired master, keeps its replay floor.\<close>

lemma pairing_keeps_floor:
  assumes "apply_peers e rq [0..<MAX_PEERS] c = (c2, None)" and "length (cc_peer c) = MAX_PEERS" and "i < MAX_PEERS"
    and "pr_inUse (cc_peer c ! i) \<noteq> 0" and "pr_inUse (cc_peer c2 ! i) \<noteq> 0" and "pr_peerId (cc_peer c2 ! i) = pr_peerId (cc_peer c ! i)"
  shows "pr_rxHighWater (cc_peer c2 ! i) = pr_rxHighWater (cc_peer c ! i)"
proof -
  have s: "cc_peer c2 ! i = slot_after e rq i c" using apply_peers_slot [OF assms(1) _ _ assms(2)] assms(3) by simp
  show ?thesis
    using assms(4-6) unfolding s
    by (auto simp: slot_after_def read_peer_def Let_def zero_peer_def split: if_splits sum.splits option.splits)
qed

text \<open>
  An id of eight characters is taken as far as it is hexadecimal; a form whose second slot is wrong
  has already cleared the first in memory; nothing refuses two slots with one id.
\<close>

lemma id_not_hex_accepted:
  assumes "pf_trim pf (peer_field rq i ''id'') = str ''12zzzzzz''" and "pf_trim pf (peer_field rq i ''key'') = []"
    and "pr_inUse cur \<noteq> 0" and "pr_peerId cur = 0x12"
  shows "\<exists>p. read_peer pf rq i cur = Inr p \<and> pr_peerId p = 0x12"
proof -
  have "strip_0x (str ''12zzzzzz'') = str ''12zzzzzz''" by (simp add: strip_0x_def str_def)
  moreover from this have "strtoul16 (str ''12zzzzzz'') = 0x12"
    by (simp add: strtoul16_def str_def is_space_c_def is_hex_char_def hexNibble_def)
  ultimately show ?thesis using assms by (simp add: read_peer_def str_def)
qed

lemma rejected_pairing_stays:
  assumes "peer_field rq i ''en'' \<noteq> str ''1''" and "peer_field rq j ''en'' = str ''1''"
    and "read_peer (we_pf e) rq j (cc_peerAt (int j) (clearPeer (int i) c)) = Inl err"
  shows "apply_peers e rq (i # j # ns) c = (clearPeer (int i) c, Some err)"
  using assms by simp

section \<open>Text on the pages\<close>

text \<open>No text of a message can open or close a tag or an attribute.\<close>

lemma htmlEsc_inert: "set (htmlEsc s) \<inter> {of_char CHR ''<'', of_char CHR ''>'', 34, 39} = {}"
proof -
  have "set (esc_char c) \<inter> {of_char CHR ''<'', of_char CHR ''>'', 34, 39} = {}" for c
    by (auto simp: esc_char_def str_def)
  then show ?thesis by (induction s) (auto simp: htmlEsc_def)
qed

end
