(* ===== verification/PortalSafety.thy ===== *)
theory PortalSafety
  imports Portal
begin

text \<open>
  What the configuration form promises: whatever is posted, a saved configuration is legal for
  the radios and the region, a rejected form stores nothing, and the configuration stays
  well-formed. And where the form's checks are weaker than they read.
\<close>

section \<open>A legal radio\<close>

text \<open>The sync word each protocol is given; an unknown protocol byte takes the Reticulum branch.\<close>

definition sync_legal :: "radio_slot \<Rightarrow> bool" where
  "sync_legal r \<longleftrightarrow>
     (if rs_protocol r = PROTO_CUSTOM then True
      else rs_syncWord r = (if rs_protocol r = PROTO_MT then 0x2B else if rs_protocol r = PROTO_MC then 0x12
        else if rs_protocol r = PROTO_LORAWAN then 0x34 else 0x42))"

definition plan_legal :: "radio_slot \<Rightarrow> bool" where
  "plan_legal r \<longleftrightarrow> \<not> freq_out_of_range (f32_of_bits (rs_frequency r)) \<and> bwAllowed (f32_of_bits (rs_bandwidth r)) \<and>
     5 \<le> rs_sf r \<and> rs_sf r \<le> 12 \<and> 5 \<le> rs_cr r \<and> rs_cr r \<le> 8"

definition power_legal :: "u8 \<Rightarrow> radio_slot \<Rightarrow> bool" where
  "power_legal region r \<longleftrightarrow> -9 \<le> sint (rs_txPower r) \<and> sint (rs_txPower r) \<le> tx_cap region"

text \<open>Slot \<open>i\<close> is off, or legal, with routes to other radios of the bridge only.\<close>

definition slot_legal :: "u8 \<Rightarrow> nat \<Rightarrow> radio_slot \<Rightarrow> bool" where
  "slot_legal region i r \<longleftrightarrow> rs_protocol r = PROTO_NONE \<or>
     plan_legal r \<and> power_legal region r \<and> sync_legal r \<and> \<not> bit (rs_routeMask r) i \<and> rs_routeMask r < 16"

lemma tx_cap_range: "-9 \<le> tx_cap region \<and> tx_cap region \<le> 22"
proof -
  have t: "list_all (\<lambda>r. 0 \<le> sint (ri_powerLimit r)) kRegions" by code_simp
  have "unat (if kRegionCount \<le> region then REGION_UNSET else region) < length kRegions"
    by (simp add: length_kRegions kRegionCount_def REGION_UNSET_def not_le word_less_nat_alt)
  with t have "0 \<le> sint (ri_powerLimit (regionInfo region))" unfolding regionInfo_def list_all_length by blast
  then show ?thesis by (simp add: tx_cap_def SX1262_TX_MAX_def)
qed

lemma clamp_tx_range: "-9 \<le> clamp_tx region txp \<and> clamp_tx region txp \<le> tx_cap region"
  using tx_cap_range [of region] by (simp add: clamp_tx_def Let_def SX1262_TX_MIN_def)

lemma clamp_tx_byte: "sint (word_of_int (clamp_tx region txp) :: u8) = clamp_tx region txp"
  using clamp_tx_range [of region txp] tx_cap_range [of region]
  by (simp add: signed_of_int signed_take_bit_int_eq_self)

lemma route_mask_legal: "n \<in> {1, 2, 3, 4} \<Longrightarrow> \<not> bit (route_mask f n) (n - 1) \<and> route_mask f n < 16"
proof -
  have l: "[1..<Suc NUM_RADIOS] = [1, 2, 3, 4]" by (simp add: NUM_RADIOS_def upt_rec)
  define g where "g m j = (if j \<noteq> n \<and> f (str ''r'' @ fmt_u n @ str ''routeTo'' @ fmt_u j) = str ''1''
        then m OR push_bit (j - 1) 1 else m)" for m :: u8 and j :: nat
  define P where "P m \<longleftrightarrow> \<not> bit m (n - 1) \<and> m AND 0xF0 = 0" for m :: u8
  have step: "P (g m j)" if "P m" "j \<in> {1, 2, 3, 4}" "n \<in> {1, 2, 3, 4}" for m j
  proof -
    have "push_bit (j - 1) 1 AND 0xF0 = (0 :: u8)" using that(2) by auto
    moreover have "j \<noteq> n \<Longrightarrow> \<not> bit (push_bit (j - 1) 1 :: u8) (n - 1)" using that(2,3) by auto
    ultimately show ?thesis using that(1) by (auto simp: g_def P_def bit_or_iff bit.conj_disj_distrib2)
  qed
  assume n: "n \<in> {1, 2, 3, 4}"
  have "P (g (g (g (g 0 1) 2) 3) 4)" by (intro step n) (simp_all add: P_def)
  moreover have "route_mask f n = g (g (g (g 0 1) 2) 3) 4"
    unfolding route_mask_def l g_def by simp
  ultimately have P: "P (route_mask f n)" by simp
  have "m < 16" if "m AND 0xF0 = 0" for m :: u8
  proof -
    have "m = m AND mask 4"
    proof (rule bit_word_eqI)
      fix k assume k: "k < LENGTH(8)"
      have "\<not> bit (m AND 0xF0) k" using that by simp
      moreover have "bit (0xF0 :: u8) k" if "4 \<le> k"
      proof -
        have "k \<in> {4, 5, 6, 7}" using that k by auto
        then show ?thesis by auto
      qed
      ultimately show "bit m k = bit (m AND mask 4) k" using k by (cases "4 \<le> k") (auto simp: bit_and_iff bit_mask_iff)
    qed
    then show ?thesis using and_mask_less' [of 4 m] by simp
  qed
  then show ?thesis using P by (simp add: P_def)
qed

section \<open>What one radio's form does\<close>

lemma commit_radio_slot:
  assumes "n \<in> {1, 2, 3, 4}" and "length (bc_radio c) = NUM_RADIOS" and "j < NUM_RADIOS"
  shows "bc_slot (commit_radio f n proto freq txp chName ch c) (int j) =
    (if j = n - 1 then (bc_slot c (int j))\<lparr>rs_protocol := proto, rs_frequency := freq, rs_bandwidth := pl_bw (rc_plan ch),
       rs_sf := pl_sf (rc_plan ch), rs_cr := pl_cr (rc_plan ch), rs_syncWord := rc_sync ch, rs_txPower := word_of_int txp,
       rs_channelName := copyStr name_cap chName, rs_channelKey := copyStr key_cap (rc_key ch), rs_routeMask := route_mask f n,
       rs_lwRegion := (case rc_lwRegion ch of None \<Rightarrow> rs_lwRegion (bc_slot c (int j)) | Some r \<Rightarrow> r)\<rparr>
     else bc_slot c (int j))"
proof -
  have n: "clampRadio (int n - 1) = n - 1" using assms(1) by (auto simp: clampRadio_def NUM_RADIOS_def)
  then have same: "bc_slot c (int n - 1) = bc_slot c (int (n - 1))" using assms(1)
    by (auto simp: bc_slot_def clampRadio_def NUM_RADIOS_def)
  show ?thesis
    using assms(2,3) n by (cases "rc_lwRegion ch")
      (auto simp: commit_radio_def radio_setters bc_slot_set_slot Let_def same)
qed

lemma length_commit_radio: "length (bc_radio (commit_radio f n proto freq txp chName ch c)) = length (bc_radio c)"
  by (simp add: commit_radio_def radio_setters Let_def split: option.splits)

lemma preset_plan_legal: "bwAllowed (f32_of_bits (pl_bw (preset_plan pf f n))) \<and> 5 \<le> pl_sf (preset_plan pf f n) \<and>
    pl_sf (preset_plan pf f n) \<le> 12 \<and> 5 \<le> pl_cr (preset_plan pf f n) \<and> pl_cr (preset_plan pf f n) \<le> 8"
proof -
  define p :: u8 where "p = word_of_int (pf_toInt pf (radio_field f n ''preset''))"
  have b: "bwAllowed (f32_lit 500 1)" "bwAllowed (f32_lit 250 1)" "bwAllowed (f32_lit 125 1)" by code_simp+
  have "pl_bw (preset_plan pf f n) = f32_bits (fst (modemPresetParams p))"
    by (simp add: preset_plan_def p_def split: prod.splits)
  then have "f32_of_bits (pl_bw (preset_plan pf f n)) = fst (modemPresetParams p)" by (simp only: preset_bits)
  moreover have "bwAllowed (fst (modemPresetParams p))" using b by (simp add: modemPresetParams_def)
  moreover have "pl_sf (preset_plan pf f n) = fst (snd (modemPresetParams p))" "pl_cr (preset_plan pf f n) = snd (snd (modemPresetParams p))"
    by (simp_all add: preset_plan_def p_def split: prod.splits)
  moreover have "5 \<le> fst (snd (modemPresetParams p)) \<and> fst (snd (modemPresetParams p)) \<le> 12 \<and>
      5 \<le> snd (snd (modemPresetParams p)) \<and> snd (snd (modemPresetParams p)) \<le> 8"
    by (simp add: modemPresetParams_def)
  ultimately show ?thesis by simp
qed

lemma typed_plan_legal: "typed_plan pf f n = Inr p \<Longrightarrow>
    bwAllowed (f32_of_bits (pl_bw p)) \<and> 5 \<le> pl_sf p \<and> pl_sf p \<le> 12 \<and> 5 \<le> pl_cr p \<and> pl_cr p \<le> 8"
  by (auto simp: typed_plan_def Let_def not_less split: if_splits)

lemma read_plan_legal:
  assumes "read_plan pf f n proto = Inr p"
  shows "bwAllowed (f32_of_bits (pl_bw p)) \<and> 5 \<le> pl_sf p \<and> pl_sf p \<le> 12 \<and> 5 \<le> pl_cr p \<and> pl_cr p \<le> 8"
proof (cases "p = default_plan")
  case True
  moreover have "bwAllowed (f32_of_bits (pl_bw default_plan))" by code_simp
  ultimately show ?thesis by (simp add: default_plan_def)
next
  case False
  with assms have "typed_plan pf f n = Inr p" by (simp add: read_plan_def split: if_splits)
  then show ?thesis by (rule typed_plan_legal)
qed

lemma choose_protocol_plan:
  "choose_protocol pf f n proto chName chKey plan = Inr ch \<Longrightarrow> rc_plan ch = (if proto = PROTO_MT then preset_plan pf f n else plan)"
  by (auto simp: choose_protocol_def Let_def lw_consts split: if_splits)

lemma choose_protocol_sync:
  "choose_protocol pf f n proto chName chKey plan = Inr ch \<Longrightarrow> proto \<noteq> PROTO_CUSTOM \<Longrightarrow>
    rc_sync ch = (if proto = PROTO_MT then 0x2B else if proto = PROTO_MC then 0x12 else if proto = PROTO_LORAWAN then 0x34 else 0x42)"
  by (auto simp: choose_protocol_def Let_def lw_consts split: if_splits)

text \<open>A radio whose form is accepted is legal, and no other radio is touched.\<close>

lemma applyRadio_legal:
  assumes a: "applyRadio pf f n region c = (c2, None)" and n: "n \<in> {1, 2, 3, 4}" and l: "length (bc_radio c) = NUM_RADIOS"
  shows "slot_legal region (n - 1) (bc_slot c2 (int (n - 1)))" and "length (bc_radio c2) = NUM_RADIOS"
    and "j < NUM_RADIOS \<Longrightarrow> j \<noteq> n - 1 \<Longrightarrow> bc_slot c2 (int j) = bc_slot c (int j)"
proof -
  define proto :: u8 where "proto = word_of_int (pf_toInt pf (radio_field f n ''proto''))"
  have m: "n - 1 < NUM_RADIOS" "clampRadio (int n - 1) = n - 1" "int (n - 1) = int n - 1"
    using n by (auto simp: NUM_RADIOS_def clampRadio_def)
  have "slot_legal region (n - 1) (bc_slot c2 (int (n - 1))) \<and> length (bc_radio c2) = NUM_RADIOS \<and>
      (j < NUM_RADIOS \<longrightarrow> j \<noteq> n - 1 \<longrightarrow> bc_slot c2 (int j) = bc_slot c (int j))"
  proof (cases "proto = PROTO_NONE")
    case True
    then have "c2 = setRadioProtocol (int n - 1) PROTO_NONE c" using a by (simp add: applyRadio_def proto_def)
    then show ?thesis using l m by (auto simp: radio_setters bc_slot_set_slot slot_legal_def simp del: of_nat_diff)
  next
    case False
    then obtain chName chKey freq txp plan ch where h: "\<not> freq_out_of_range (f32_of_bits freq)"
      "read_plan pf f n proto = Inr plan" "choose_protocol pf f n proto chName chKey plan = Inr ch"
      "c2 = commit_radio f n proto freq (clamp_tx region txp) chName ch c"
      using a by (auto simp: applyRadio_def Let_def proto_def split: if_splits sum.splits)
    have pl: "bwAllowed (f32_of_bits (pl_bw (rc_plan ch))) \<and> 5 \<le> pl_sf (rc_plan ch) \<and> pl_sf (rc_plan ch) \<le> 12 \<and>
        5 \<le> pl_cr (rc_plan ch) \<and> pl_cr (rc_plan ch) \<le> 8"
      using choose_protocol_plan [OF h(3)] read_plan_legal [OF h(2)] preset_plan_legal by auto
    note cs = commit_radio_slot [OF n l, of _ f proto freq "clamp_tx region txp" chName ch, folded h(4)]
    have "slot_legal region (n - 1) (bc_slot c2 (int (n - 1)))"
      using pl h(1) choose_protocol_sync [OF h(3)] clamp_tx_range [of region txp] route_mask_legal [OF n, of f]
      unfolding cs [OF m(1)] slot_legal_def plan_legal_def power_legal_def sync_legal_def
      by (simp add: clamp_tx_byte del: of_nat_diff One_nat_def)
    then show ?thesis using l cs h(4) length_commit_radio by auto
  qed
  then show "slot_legal region (n - 1) (bc_slot c2 (int (n - 1)))" "length (bc_radio c2) = NUM_RADIOS"
    "j < NUM_RADIOS \<Longrightarrow> j \<noteq> n - 1 \<Longrightarrow> bc_slot c2 (int j) = bc_slot c (int j)" by blast+
qed

lemma apply_radios_legal:
  assumes "apply_radios pf f region ns c = (c2, None)" and "set ns \<subseteq> {1, 2, 3, 4}" and "distinct ns"
    and "length (bc_radio c) = NUM_RADIOS"
  shows "length (bc_radio c2) = NUM_RADIOS \<and>
    (\<forall>n \<in> set ns. slot_legal region (n - 1) (bc_slot c2 (int (n - 1)))) \<and>
    (\<forall>j < NUM_RADIOS. Suc j \<notin> set ns \<longrightarrow> bc_slot c2 (int j) = bc_slot c (int j))"
  using assms
proof (induction ns arbitrary: c)
  case (Cons n ns)
  obtain c1 where a: "applyRadio pf f n region c = (c1, None)" and r: "apply_radios pf f region ns c1 = (c2, None)"
    using Cons.prems(1) by (auto split: prod.splits option.splits)
  have n: "n \<in> {1, 2, 3, 4}" using Cons.prems(2) by simp
  note one = applyRadio_legal [OF a n Cons.prems(4)]
  have ih: "length (bc_radio c2) = NUM_RADIOS \<and>
    (\<forall>n \<in> set ns. slot_legal region (n - 1) (bc_slot c2 (int (n - 1)))) \<and>
    (\<forall>j < NUM_RADIOS. Suc j \<notin> set ns \<longrightarrow> bc_slot c2 (int j) = bc_slot c1 (int j))"
    by (rule Cons.IH [OF r _ _ one(2)]) (use Cons.prems in auto)
  have "Suc (n - 1) = n" "n - 1 < NUM_RADIOS" using n by (auto simp: NUM_RADIOS_def)
  then have "bc_slot c2 (int (n - 1)) = bc_slot c1 (int (n - 1))" using ih Cons.prems(3) by (metis distinct.simps(2))
  moreover have "j \<noteq> n - 1" if "Suc j \<noteq> n" for j using that n by auto
  ultimately show ?case using ih one by (auto simp del: of_nat_diff One_nat_def)
qed simp

section \<open>The stored configuration\<close>

lemma form_shape:
  assumes "apply_form pf f c = (c2, None)"
  obtains nodeId idStr c1 where "read_identity pf f = Inr (nodeId, idStr)"
    and "apply_radios pf f (read_region pf f) [1..<Suc NUM_RADIOS] c = (c1, None)" and "active_count c1 \<noteq> 0"
    and "self_bridge c1 = None" and "c2 = commit_identity f nodeId idStr (read_region pf f) c1"
  using assms by (auto simp: apply_form_def split: sum.splits prod.splits option.splits if_splits)

lemma all_four: "[1..<Suc NUM_RADIOS] = [1, 2, 3, 4]"
  by (simp add: NUM_RADIOS_def upt_rec)

lemma bc_slot_commit_identity [simp]: "bc_slot (commit_identity f nodeId idStr region c) i = bc_slot c i"
  by (simp add: commit_identity_def identity_setters bc_slot_def)

lemma bc_radio_commit_identity [simp]: "bc_radio (commit_identity f nodeId idStr region c) = bc_radio c"
  by (simp add: commit_identity_def identity_setters)

text \<open>The build-flag disables only switch radios off.\<close>

lemma bc_slot_disables:
  assumes "length (bc_radio c) = NUM_RADIOS" and "i < NUM_RADIOS"
  shows "bc_slot (applyBuildDisables fl c) (int i) =
    (if i = 0 \<and> rf_disable (cf_radio1 fl) \<or> i = 1 \<and> rf_disable (cf_radio2 fl)
     then (bc_slot c (int i))\<lparr>rs_protocol := PROTO_NONE\<rparr> else bc_slot c (int i))"
  using assms by (simp add: bc_slot_def applyBuildDisables_def update_first_two_def NUM_RADIOS_def nth_list_update)

lemma bc_slot_marks: "bc_slot (c\<lparr>bc_version := v, bc_configured := q\<rparr>) i = bc_slot c i"
  by (simp add: bc_slot_def)

lemma slot_legal_off: "slot_legal region i (r\<lparr>rs_protocol := PROTO_NONE\<rparr>)"
  by (simp add: slot_legal_def)

lemma self_bridge_None:
  "self_bridge c = None \<longleftrightarrow> (\<forall>i < NUM_RADIOS. \<forall>j < NUM_RADIOS. \<not> self_bridged c (i, j))"
  by (auto simp: self_bridge_def find_None_iff)

lemma self_bridged_disables:
  assumes "length (bc_radio c) = NUM_RADIOS" and "i < NUM_RADIOS" and "j < NUM_RADIOS"
    and "self_bridged (applyBuildDisables fl c) (i, j)"
  shows "self_bridged c (i, j)"
  using assms(4) bc_slot_disables [OF assms(1,2), of fl] bc_slot_disables [OF assms(1,3), of fl]
  by (auto simp: self_bridged_def Let_def lw_consts PROTO_NONE_def split: if_splits)

text \<open>What the identity of a saved form satisfies.\<close>

definition identity_consistent :: "bridge_cfg \<Rightarrow> bool" where
  "identity_consistent c \<longleftrightarrow> length (bc_mtNodeIdStr c) = 9 \<and> hd (bc_mtNodeIdStr c) = of_char CHR ''!'' \<and>
     isHexString (drop 1 (bc_mtNodeIdStr c)) 8 \<and> hex_value (drop 1 (bc_mtNodeIdStr c)) = bc_mtNodeId c"

lemma is_hex_char_nonzero: "is_hex_char c \<Longrightarrow> c \<noteq> 0"
  by (auto simp: is_hex_char_def)

lemma identity_committed:
  assumes "read_identity pf f = Inr (nodeId, idStr)"
  shows "identity_consistent (commit_identity f nodeId idStr region c)"
proof -
  have h: "length idStr = 9" "hd idStr = of_char CHR ''!''" "isHexString (drop 1 idStr) 8" "hex_value (drop 1 idStr) = nodeId"
    using assms by (auto simp: read_identity_def Let_def split: if_splits)
  obtain a rest where i: "idStr = a # rest" using h(1) by (cases idStr) auto
  have "cstr_ok rest" using h(3) is_hex_char_nonzero by (auto simp: i isHexString_def cstr_ok_def list_all_iff)
  then have "cstr_ok idStr" using h(2) by (simp add: i)
  then have "copyStr (MT_NODE_ID_STR_MAX + 1) idStr = idStr" using h(1) by (simp add: copyStr_def cstr_of_id bc_caps)
  then show ?thesis using h by (simp add: identity_consistent_def commit_identity_def identity_setters)
qed


section \<open>Rejected forms\<close>

lemma apply_slots_storage:
  "lw_table (fst (apply_slots pf f readable is s)) = lw_table s \<and> lw_uints (fst (apply_slots pf f readable is s)) = lw_uints s"
  by (induction "is" arbitrary: s) (auto simp: setDevice_def clearDevice_def Let_def split: sum.splits)

text \<open>
  C16: A rejected form stores nothing: whichever check fails, the stored configuration, the
  stored device table and the stored frame counters are the ones before, and the firmware does
  not restart.
\<close>

theorem rejected_form_stores_nothing:
  assumes "handleSave pf fl e f s = (s2, Some err)"
  shows "cs_blob (ps_config s2) = cs_blob (ps_config s) \<and> lw_table (ps_lw s2) = lw_table (ps_lw s) \<and>
    lw_uints (ps_lw s2) = lw_uints (ps_lw s) \<and> ps_restart s2 = ps_restart s"
proof (cases "apply_form pf f (cs_cfg (ps_config s))")
  case (Pair c r)
  show ?thesis
  proof (cases r)
    case None
    then obtain lw where lw: "applyLoRaWANDevices pf f (se_readable e) (se_tableWrite e) (ps_lw s) = (lw, Some err)"
      and s2: "s2 = s\<lparr>ps_config := (ps_config s)\<lparr>cs_cfg := c\<rparr>, ps_lw := lw\<rparr>"
      using assms Pair by (auto simp: handleSave_def Let_def split: prod.splits option.splits if_splits)
    then have "lw = fst (apply_slots pf f (se_readable e) [0..<MAX_DEVICES] (ps_lw s))"
      by (auto simp: applyLoRaWANDevices_def split: prod.splits option.splits)
    then show ?thesis using apply_slots_storage s2 by simp
  next
    case (Some x)
    with assms Pair show ?thesis by (auto simp: handleSave_def)
  qed
qed

section \<open>Well-formedness\<close>

lemma slot_setters_ok: "slot_ok r \<Longrightarrow> slot_ok (r\<lparr>rs_channelName := copyStr name_cap n\<rparr>)"
  "slot_ok r \<Longrightarrow> slot_ok (r\<lparr>rs_channelKey := copyStr key_cap k\<rparr>)"
  "slot_ok (r\<lparr>rs_protocol := a\<rparr>) = slot_ok r" "slot_ok (r\<lparr>rs_frequency := w\<rparr>) = slot_ok r"
  "slot_ok (r\<lparr>rs_bandwidth := w\<rparr>) = slot_ok r" "slot_ok (r\<lparr>rs_sf := a\<rparr>) = slot_ok r"
  "slot_ok (r\<lparr>rs_cr := a\<rparr>) = slot_ok r" "slot_ok (r\<lparr>rs_syncWord := a\<rparr>) = slot_ok r"
  "slot_ok (r\<lparr>rs_txPower := a\<rparr>) = slot_ok r" "slot_ok (r\<lparr>rs_routeMask := a\<rparr>) = slot_ok r"
  "slot_ok (r\<lparr>rs_lwRegion := a\<rparr>) = slot_ok r"
  by (simp_all add: slot_ok_def fits_copyStr)

lemma commit_radio_ok: "cfg_ok c \<Longrightarrow> cfg_ok (commit_radio f n proto freq txp chName ch c)"
  unfolding commit_radio_def radio_setters Let_def
  by (cases "rc_lwRegion ch") (auto intro!: set_slot_ok simp: slot_setters_ok)

lemma applyRadio_ok: "cfg_ok c \<Longrightarrow> cfg_ok (fst (applyRadio pf f n region c))"
  by (auto simp: applyRadio_def Let_def commit_radio_ok radio_setters slot_setters_ok intro!: set_slot_ok split: sum.splits)

lemma apply_radios_ok: "cfg_ok c \<Longrightarrow> cfg_ok (fst (apply_radios pf f region ns c))"
proof (induction ns arbitrary: c)
  case (Cons n ns)
  obtain c1 r where a: "applyRadio pf f n region c = (c1, r)" by fastforce
  with applyRadio_ok [OF Cons.prems, of pf f n region] have "cfg_ok c1" by simp
  with Cons.IH a show ?case by (cases r) auto
qed simp

lemma commit_identity_ok: "cfg_ok c \<Longrightarrow> cfg_ok (commit_identity f nodeId idStr region c)"
  by (simp add: cfg_ok_def commit_identity_def identity_setters fits_copyStr)

lemma apply_form_ok:
  assumes "cfg_ok c"
  shows "cfg_ok (fst (apply_form pf f c))"
proof (cases "read_identity pf f")
  case (Inr x)
  obtain c1 r where a: "apply_radios pf f (read_region pf f) [1..<Suc NUM_RADIOS] c = (c1, r)" by fastforce
  with apply_radios_ok [OF assms, of pf f "read_region pf f" "[1..<Suc NUM_RADIOS]"] have "cfg_ok c1" by simp
  then show ?thesis using Inr a by (cases x; cases r) (auto simp: apply_form_def commit_identity_ok split: option.splits)
qed (simp add: apply_form_def assms)

text \<open>Four slots, each with keys of 16 bytes, and a counter triple for each.\<close>

definition devices_wf :: "lw_state \<Rightarrow> bool" where
  "devices_wf s \<longleftrightarrow> length (lw_dev s) = MAX_DEVICES \<and> length (lw_fcnt s) = MAX_DEVICES \<and>
     length (lw_reserved s) = MAX_DEVICES \<and> length (lw_persisted s) = MAX_DEVICES \<and>
     (\<forall>d \<in> set (lw_dev s). length (dev_nwkSKey d) = 16 \<and> length (dev_appSKey d) = 16)"

definition device_keys :: "lw_device \<Rightarrow> bool" where
  "device_keys d \<longleftrightarrow> length (dev_nwkSKey d) = 16 \<and> length (dev_appSKey d) = 16"

lemma devices_wf_slot:
  assumes "devices_wf s" and "device_keys d"
  shows "devices_wf (s\<lparr>lw_dev := (lw_dev s)[k := d]\<rparr>)"
  using assms by (auto simp: devices_wf_def device_keys_def dest: set_update_subset_insert [THEN subsetD])

lemma clearDevice_wf: "devices_wf s \<Longrightarrow> devices_wf (clearDevice i s)"
  using devices_wf_slot [of s zero_device "nat i"] by (auto simp: clearDevice_def Let_def devices_wf_def device_keys_def zero_device_def)

lemma setDevice_wf: "devices_wf s \<Longrightarrow> device_keys d \<Longrightarrow> devices_wf (setDevice readable i d s)"
  using devices_wf_slot [of s d "nat i"] by (auto simp: setDevice_def Let_def devices_wf_def)

lemma lwHexToBytes_length: "lwHexToBytes s n = Some b \<Longrightarrow> length b = n"
  by (auto simp: lwHexToBytes_def dest: length_parse_hex split: if_splits)

text \<open>What the form accepts as a device.\<close>

lemma read_device_legal:
  assumes "read_device pf f i = Inr d"
  shows "device_keys d" and "dev_inUse d = 1" and "1 \<le> uint (dev_fport d)" and "uint (dev_fport d) \<le> 223"
    and "dev_srcSel d = SRC_PROTO \<Longrightarrow> dev_srcMatch d \<noteq> 0 \<and> dev_srcMatch d \<le> 4"
proof -
  obtain sel m nwk app fp where h: "device_match pf f i sel = Inr m"
    "lwHexToBytes (pf_trim pf (device_field f i ''nwk'')) 16 = Some nwk"
    "lwHexToBytes (pf_trim pf (device_field f i ''app'')) 16 = Some app" "1 \<le> fp" "fp \<le> 223"
    "dev_nwkSKey d = nwk" "dev_appSKey d = app" "dev_inUse d = 1" "dev_fport d = word_of_int fp"
    "dev_srcSel d = sel" "dev_srcMatch d = m"
    using assms by (auto simp: read_device_def Let_def not_less split: sum.splits option.splits if_splits)
  show "device_keys d" using lwHexToBytes_length h by (auto simp: device_keys_def)
  show "dev_inUse d = 1" by (fact h)
  show "1 \<le> uint (dev_fport d)" "uint (dev_fport d) \<le> 223" using h by (simp_all add: uint_word_of_int)
  show "dev_srcSel d = SRC_PROTO \<Longrightarrow> dev_srcMatch d \<noteq> 0 \<and> dev_srcMatch d \<le> 4"
    using h by (auto simp: device_match_def Let_def not_less SRC_PROTO_def SRC_MT_NODE_def split: if_splits)
qed

lemma apply_slots_wf: "devices_wf s \<Longrightarrow> devices_wf (fst (apply_slots pf f readable is s))"
proof (induction "is" arbitrary: s)
  case (Cons i "is")
  show ?case
  proof (cases "device_field f i ''en'' = str ''1''")
    case True
    then show ?thesis using Cons read_device_legal(1) setDevice_wf
      by (cases "read_device pf f i") auto
  next
    case False
    then show ?thesis using Cons clearDevice_wf by simp
  qed
qed simp

lemma lw_saveTable_wf: "devices_wf (lw_saveTable w s) = devices_wf s"
  by (simp add: lw_saveTable_def devices_wf_def)

text \<open>
  C17: The configuration and the device table are well-formed after every form, saved or
  rejected: a slot for every radio, every string terminated inside its array, four devices with
  16-byte keys and a counter for each.
\<close>

theorem portal_keeps_well_formed:
  assumes "cfg_ok (cs_cfg (ps_config s))" and "devices_wf (ps_lw s)"
  shows "cfg_ok (cs_cfg (ps_config (fst (handleSave pf fl e f s)))) \<and> devices_wf (ps_lw (fst (handleSave pf fl e f s)))"
proof (cases "apply_form pf f (cs_cfg (ps_config s))")
  case (Pair c r)
  with apply_form_ok [OF assms(1), of pf f] have c: "cfg_ok c" by simp
  have lw: "devices_wf (fst (applyLoRaWANDevices pf f (se_readable e) (se_tableWrite e) (ps_lw s)))"
    using apply_slots_wf [OF assms(2), of pf f "se_readable e" "[0..<MAX_DEVICES]"]
    by (auto simp: applyLoRaWANDevices_def lw_saveTable_wf split: prod.splits option.splits)
  have m: "cfg_ok ((applyBuildDisables fl c)\<lparr>bc_version := v, bc_configured := q\<rparr>)" for v q
    using disables_ok [OF c, of fl] by (simp add: cfg_ok_def)
  show ?thesis
  proof (cases r)
    case None
    then show ?thesis using c m lw assms(2) Pair
      by (cases "applyLoRaWANDevices pf f (se_readable e) (se_tableWrite e) (ps_lw s)")
        (auto simp: handleSave_def Let_def bc_save_def split: option.splits)
  qed (use c assms(2) Pair in \<open>simp add: handleSave_def\<close>)
qed

text \<open>What the device form makes of a slot.\<close>

definition form_device :: "platform \<Rightarrow> form \<Rightarrow> nat \<Rightarrow> lw_device \<Rightarrow> bool" where
  "form_device pf f i d \<longleftrightarrow>
     (if device_field f i ''en'' = str ''1'' then read_device pf f i = Inr d else d = zero_device)"

lemma apply_slots_exact:
  assumes "apply_slots pf f readable is s = (s2, None)" and "distinct is" and "set is \<subseteq> {..<MAX_DEVICES}"
    and "length (lw_dev s) = MAX_DEVICES"
  shows "length (lw_dev s2) = MAX_DEVICES \<and> (\<forall>i \<in> set is. form_device pf f i (lw_dev s2 ! i)) \<and>
    (\<forall>i < MAX_DEVICES. i \<notin> set is \<longrightarrow> lw_dev s2 ! i = lw_dev s ! i)"
  using assms
proof (induction "is" arbitrary: s)
  case (Cons i "is")
  have i: "i < MAX_DEVICES" using Cons.prems(3) by simp
  obtain s1 d where r: "apply_slots pf f readable is s1 = (s2, None)" and d: "form_device pf f i d"
    and s1: "lw_dev s1 = (lw_dev s)[i := d]"
  proof (cases "device_field f i ''en'' = str ''1''")
    case True
    with Cons.prems(1) obtain d where e: "read_device pf f i = Inr d"
      "apply_slots pf f readable is (setDevice readable (int i) d s) = (s2, None)" by (auto split: sum.splits)
    show thesis by (rule that [OF e(2), of d]) (use True e(1) i in \<open>simp_all add: form_device_def setDevice_def Let_def\<close>)
  next
    case False
    with Cons.prems(1) have e: "apply_slots pf f readable is (clearDevice (int i) s) = (s2, None)" by simp
    show thesis by (rule that [OF e, of zero_device]) (use False i in \<open>simp_all add: form_device_def clearDevice_def Let_def\<close>)
  qed
  have "length (lw_dev s2) = MAX_DEVICES \<and> (\<forall>i \<in> set is. form_device pf f i (lw_dev s2 ! i)) \<and>
    (\<forall>i < MAX_DEVICES. i \<notin> set is \<longrightarrow> lw_dev s2 ! i = lw_dev s1 ! i)"
    by (rule Cons.IH [OF r]) (use Cons.prems s1 in auto)
  then show ?case using Cons.prems(2,4) i d s1 by (auto simp: nth_list_update)
qed simp

text \<open>
  The device table after a saved form is the one that was posted: an unticked slot is
  empty, a ticked one holds the device of its fields; and it is in storage unless the write was
  lost.
\<close>

theorem saved_devices_exact:
  assumes "handleSave pf fl e f s = (s2, None)" and "se_encode e" and "devices_wf (ps_lw s)"
  shows "(\<forall>i < MAX_DEVICES. form_device pf f i (lw_dev (ps_lw s2) ! i)) \<and>
    (se_tableWrite e \<noteq> Write_lost \<longrightarrow> lw_table (ps_lw s2) = LwTable (lw_dev (ps_lw s2)))"
proof -
  obtain lw where a: "applyLoRaWANDevices pf f (se_readable e) (se_tableWrite e) (ps_lw s) = (lw, None)" and l: "ps_lw s2 = lw"
    using assms(1,2) by (auto simp: handleSave_def Let_def split: prod.splits option.splits)
  then obtain s1 where s1: "apply_slots pf f (se_readable e) [0..<MAX_DEVICES] (ps_lw s) = (s1, None)"
    "lw = lw_saveTable (se_tableWrite e) s1"
    by (auto simp: applyLoRaWANDevices_def split: prod.splits option.splits)
  have "length (lw_dev (ps_lw s)) = MAX_DEVICES" using assms(3) by (simp add: devices_wf_def)
  from apply_slots_exact [OF s1(1) _ _ this] show ?thesis using l s1(2) by (auto simp: lw_saveTable_def atLeast0LessThan)
qed

section \<open>Where the checks are weaker than they read\<close>

text \<open>A NaN is not outside the range.\<close>

lemma nan_frequency_accepted: "\<not> freq_out_of_range Not_a_number"
  by (simp add: freq_out_of_range_def f_less_def f_le_def SX1262_FREQ_MIN_def SX1262_FREQ_MAX_def split: fval.splits)

text \<open>
  The self-bridge guard compares the keys as typed. The blank key and the key \<open>AQ==\<close>, which the
  form offers for the default channel, are the same channel key but different strings.
\<close>

lemma default_key_alias:
  assumes "base64_decode k (str ''AQ=='') = Some [1]"
  shows "mt_resolve k (str ''AQ=='') name = mt_resolve k [] name"
proof -
  have "str ''AQ=='' \<noteq> []" by (simp add: str_def)
  then show ?thesis using assms by (simp add: mt_resolve_def mt_raw_psk_def Let_def DEFAULT_PSK_def)
qed

lemma alias_not_self_bridged:
  assumes "rs_channelKey (bc_slot c (int i)) = []" and "rs_channelKey (bc_slot c (int j)) = str ''AQ==''"
  shows "\<not> self_bridged c (i, j) \<and> \<not> self_bridged c (j, i)"
  using assms by (simp add: self_bridged_def Let_def str_def)

text \<open>
  A form rejected at one radio has already changed the radios before it in memory; only
  storage is untouched.
\<close>

lemma rejected_form_leaves_earlier_radios:
  assumes "read_identity pf f = Inr idn" and "applyRadio pf f 1 (read_region pf f) c = (c1, None)"
    and "applyRadio pf f 2 (read_region pf f) c1 = (c2, Some err)"
  shows "apply_form pf f c = (c2, Some err)" and "c2 = c1"
proof -
  show "apply_form pf f c = (c2, Some err)" using assms by (cases idn) (simp add: apply_form_def [unfolded all_four] del: One_nat_def)
  show "c2 = c1" using assms(3) by (auto simp: applyRadio_def Let_def split: if_splits sum.splits)
qed

text \<open>
  The check for an active radio comes before the build's disables: a form that leaves only a
  disabled radio on is saved with every radio off.
\<close>

lemma only_disabled_radio_saved_off:
  assumes "length (bc_radio c) = NUM_RADIOS" and "rf_disable (cf_radio1 fl)"
    and "rs_protocol (bc_slot c 0) \<noteq> PROTO_NONE" and "\<forall>i \<in> {1, 2, 3}. rs_protocol (bc_slot c i) = PROTO_NONE"
  shows "active_count c = 1" and "active_count (applyBuildDisables fl c) = 0"
proof -
  have u: "[0..<NUM_RADIOS] = [0, 1, 2, 3]" by (simp add: NUM_RADIOS_def upt_rec)
  show "active_count c = 1" using assms by (simp add: active_count_def u)
  have off: "rs_protocol (bc_slot (applyBuildDisables fl c) (int i)) = PROTO_NONE" if "i < NUM_RADIOS" for i
  proof -
    have "i = 0 \<or> int i \<in> {1, 2, 3}" using that by (auto simp: NUM_RADIOS_def)
    then show ?thesis using assms bc_slot_disables [OF assms(1) that, of fl] by auto
  qed
  then have "filter (\<lambda>i. rs_protocol (bc_slot (applyBuildDisables fl c) (int i)) \<noteq> PROTO_NONE) [0..<NUM_RADIOS] = []"
    by (simp add: filter_empty_conv)
  then show "active_count (applyBuildDisables fl c) = 0" by (simp add: active_count_def)
qed

end
