(* ===== verification/PortalSamples.thy ===== *)
theory PortalSamples
  imports PortalSafety
begin

text \<open>
  Concrete posted forms, evaluated: the witnesses of the portal's properties, and the accepted
  configurations that its checks were meant to refuse.
\<close>

text \<open>Comparisons that stop at the first difference, for the evaluation of the samples.\<close>

lemma equal_list_code [code]:
  "HOL.equal (x # xs) (y # ys) \<longleftrightarrow> (if HOL.equal x y then HOL.equal xs ys else False)"
  "HOL.equal ([] :: 'a :: equal list) [] \<longleftrightarrow> True" "HOL.equal [] (y # ys) \<longleftrightarrow> False" "HOL.equal (x # xs) [] \<longleftrightarrow> False"
  by (simp_all add: equal_eq)

lemma equal_char_code [code]:
  "HOL.equal (Char a0 a1 a2 a3 a4 a5 a6 a7) (Char b0 b1 b2 b3 b4 b5 b6 b7) \<longleftrightarrow>
     (if a0 = b0 then if a1 = b1 then if a2 = b2 then if a3 = b3 then if a4 = b4 then if a5 = b5 then
        if a6 = b6 then a7 = b7 else False else False else False else False else False else False else False)"
  by (simp add: equal_eq)

definition digits_value :: "bytes \<Rightarrow> int" where
  "digits_value s = foldl (\<lambda>v c. 10 * v + (uint c - 48)) 0 s"

text \<open>A platform for strings of decimal digits; its base64 decoder is the identity but for \<open>AQ==\<close>.\<close>

definition digit_platform :: platform where
  "digit_platform = \<lparr>pf_trim = \<lambda>s. s, pf_toInt = digits_value, pf_toFloat = \<lambda>s. f32_bits (f32_lit (digits_value s) 1),
     pf_crypto = toy_crypto\<lparr>base64_decode := \<lambda>s. if s = str ''AQ=='' then Some [1] else Some s\<rparr>\<rparr>"

definition form_of :: "(string \<times> string) list \<Rightarrow> form" where
  "form_of kvs k = (case map_of kvs (map (\<lambda>b. char_of (uint b)) k) of None \<Rightarrow> [] | Some v \<Rightarrow> str v)"

definition identity_fields :: "(string \<times> string) list" where
  "identity_fields = [(''mtNodeId'', ''0xb16b00b5''), (''mtNodeIdStr'', ''!b16b00b5''), (''mtLongName'', ''Bridge''),
     (''mtShortName'', ''BR''), (''region'', ''1'')]"

definition radio1_fields :: "(string \<times> string) list" where
  "radio1_fields = [(''r1proto'', ''1''), (''r1ChannelName'', ''LongFast''), (''r1ChannelKey'', ''''), (''r1Freq'', ''906''),
     (''r1Tx'', ''30''), (''r1preset'', ''5''), (''r1routeTo2'', ''1'')]"

definition radio2_fields :: "(string \<times> string) list" where
  "radio2_fields = [(''r2proto'', ''2''), (''r2ChannelName'', ''public''), (''r2ChannelKey'', ''8B3387E9C5CDEA6AC9E5EDBAA115CD72''),
     (''r2Freq'', ''910''), (''r2Tx'', ''20''), (''r2Bw'', ''125''), (''r2Sf'', ''8''), (''r2Cr'', ''5''), (''r2routeTo1'', ''1'')]"

definition good_form :: form where
  "good_form = form_of (identity_fields @ radio1_fields @ radio2_fields)"

definition sample_env :: save_env where
  "sample_env = \<lparr>se_encode = False, se_readable = True, se_tableWrite = Write_ok, se_opens = True, se_write = Write_ok\<rparr>"

definition portal_lw :: lw_state where
  "portal_lw = \<lparr>lw_dev = replicate 4 zero_device, lw_fcnt = replicate 4 0, lw_reserved = replicate 4 0,
     lw_persisted = replicate 4 0, lw_extDevAddr = 0, lw_extFcnt = 0, lw_extReserved = 0, lw_table = LwAbsent, lw_uints = Map.empty\<rparr>"

definition sample_portal :: portal_state where
  "sample_portal = \<lparr>ps_config = \<lparr>cs_cfg = loadDefaults sample_flags, cs_blob = NoBlob\<rparr>, ps_lw = portal_lw, ps_restart = False\<rparr>"

definition saved :: "form \<Rightarrow> portal_state \<times> save_error option" where
  "saved f = handleSave digit_platform sample_flags sample_env f sample_portal"

lemma good_form_saved: "snd (saved good_form) = None"
  by code_simp


lemma empty_form_rejected: "saved (form_of []) = (sample_portal, Some Node_id_hex)"
  by (simp add: saved_def handleSave_def apply_form_def read_identity_def form_of_def digit_platform_def strip_0x_def
      isHexString_def str_def)

lemma rejected_form_witness: "cs_blob (ps_config (fst (saved (form_of [])))) = cs_blob (ps_config sample_portal)"
  using conjunct1 [OF rejected_form_stores_nothing [OF empty_form_rejected [unfolded saved_def]]]
  by (simp add: empty_form_rejected)

lemma devices_wf_sample: "devices_wf portal_lw"
  by (simp add: devices_wf_def portal_lw_def MAX_DEVICES_def zero_device_def)

lemma portal_well_formed_witness: "cfg_ok (cs_cfg (ps_config (fst (saved good_form))))"
  using portal_keeps_well_formed [of sample_portal digit_platform sample_flags sample_env good_form] devices_wf_sample
  by (simp add: saved_def sample_portal_def loadDefaults_ok)

end
