(* ===== verification/Bridge.thy ===== *)
theory Bridge
  imports Floats DedupCache RouteQueue NodeDB VirtualNodeMap EncoderRoundTrips LoRaWANConfig BridgeConfig CamC2
begin

text \<open>
  The cross-protocol bridge core of \<open>src/src/main.cpp\<close>: channel resolution at boot, the per
  destination encoders (text, Reticulum fragments, LoRaWAN uplinks, raw repeats) and
  \<open>ingestAndFanout\<close>, which decodes a received packet once, drops loops and duplicates and
  queues it for every routed destination. The build flags are a record, \<open>esp_random\<close> a
  function of the number of draws so far, and the result of a handler is \<open>None\<close> exactly where
  a decoder does not return a defined result.
\<close>

section \<open>State, build flags and environment\<close>

definition NR :: nat where "NR = 4"
definition BRIDGE_ROUTE_QUEUE_DEPTH :: nat where "BRIDGE_ROUTE_QUEUE_DEPTH = 64"
definition BRIDGE_RNS_RAW_PER_FRAG_MC :: nat where "BRIDGE_RNS_RAW_PER_FRAG_MC = 117"
definition BRIDGE_RNS_RAW_PER_FRAG_MT :: nat where "BRIDGE_RNS_RAW_PER_FRAG_MT = 123"

record build_flags =
  bf_identity_preserve :: bool
  bf_tag_origin :: bool
  bf_noname_virtual :: bool
  bf_mc_name_max :: nat
  bf_rns_max_frags :: nat
  bf_rns_inproto :: bool
  bf_lw_summary :: bool
  bf_lw_relay :: bool
  bf_lw_encode :: bool
  bf_lw_devaddr :: u32
  bf_lw_fport :: u8
  bf_lw_nwkskey :: bytes
  bf_lw_appskey :: bytes
  bf_camera :: bool
  bf_custom_repeat :: bool
  bf_route_max_age :: u32
  bf_cad_backoff_min :: u32
  bf_cad_backoff_max :: u32
  bf_inflight_timeout :: u32
  bf_tx_duty :: u32
  bf_tx_min_gap :: u32

text \<open>The values of a build that defines none of the flags.\<close>

definition stock_flags :: build_flags where
  "stock_flags = \<lparr>bf_identity_preserve = True, bf_tag_origin = True, bf_noname_virtual = False,
     bf_mc_name_max = 32, bf_rns_max_frags = 8, bf_rns_inproto = True, bf_lw_summary = True,
     bf_lw_relay = True, bf_lw_encode = False, bf_lw_devaddr = 0x01000001, bf_lw_fport = 13,
     bf_lw_nwkskey = [], bf_lw_appskey = [], bf_camera = False, bf_custom_repeat = False,
     bf_route_max_age = 30000, bf_cad_backoff_min = 20, bf_cad_backoff_max = 120,
     bf_inflight_timeout = 10000, bf_tx_duty = 50, bf_tx_min_gap = 0\<rparr>"

record bridge =
  br_cfg :: bridge_cfg
  br_chan :: "radio_channel list"
  br_enabled :: "bool list"
  br_present :: "bool list"
  br_route :: "u8 list"
  br_queue :: "route_queue option list"
  br_dedup :: dedup_table
  br_virt :: "virt_entry list"
  br_nodes :: nodedb
  br_clockUnix :: u32
  br_clockMillis :: u32
  br_lw :: lw_state
  br_lwCryptoOk :: bool
  br_c2 :: c2_state
  br_draws :: nat

record bridge_env =
  be_now :: u32
  be_crypto :: crypto
  be_random :: "nat \<Rightarrow> u32"
  be_nvs_ok :: bool
  be_fcnt :: "nat \<Rightarrow> nvs_write"
  be_fcnt_readable :: "nat \<Rightarrow> bool"
  be_c2 :: c2_env

section \<open>Boot\<close>

text \<open>The RF plan handed to a radio driver; the preamble and TCXO values are board constants.\<close>

record lora_config =
  lc_frequency :: u32
  lc_bandwidth :: u32
  lc_spreadFactor :: u8
  lc_codingRate :: u8
  lc_syncWord :: u8
  lc_txPower :: u8
  lc_preambleLen :: u16
  lc_tcxoVoltage :: u32

definition LORA_PREAMBLE_LEN :: u16 where "LORA_PREAMBLE_LEN = 8"
definition LORA_TCXO_VOLTAGE :: u32 where "LORA_TCXO_VOLTAGE = 0x3FE66666"

definition makeLoraConfig :: "bridge_cfg \<Rightarrow> int \<Rightarrow> lora_config" where
  "makeLoraConfig c radio = (let r = bc_slot c radio in
     \<lparr>lc_frequency = rs_frequency r, lc_bandwidth = rs_bandwidth r, lc_spreadFactor = rs_sf r,
      lc_codingRate = rs_cr r, lc_syncWord = rs_syncWord r, lc_txPower = rs_txPower r,
      lc_preambleLen = LORA_PREAMBLE_LEN, lc_tcxoVoltage = LORA_TCXO_VOLTAGE\<rparr>)"

definition deriveMacIdentity :: "bytes \<Rightarrow> bridge_cfg \<Rightarrow> bridge_cfg" where
  "deriveMacIdentity mac c =
     (let i = push_bit 24 (ucast (mac ! 2)) OR push_bit 16 (ucast (mac ! 3))
              OR push_bit 8 (ucast (mac ! 4)) OR ucast (mac ! 5) :: u32;
          idStr = bounded_copy 12 (str ''!'' @ fmt_08lx i);
          longName = bounded_copy (MT_LONG_NAME_MAX + 1) (fmt_08lX i @ str '' LoRa Bridge'');
          shortName = bounded_copy (MT_SHORT_NAME_MAX + 1) (str ''BR'' @ fmt_02X (ucast (i AND 0xFF)))
      in setMtShortName shortName (setMtLongName longName (setMtNodeIdStr idStr (c\<lparr>bc_mtNodeId := i\<rparr>))))"

definition zero_channel :: radio_channel where
  "zero_channel = \<lparr>ch_protocol = 0, ch_key = replicate 32 0, ch_keyLen = 0, ch_channelHash = 0, ch_name = []\<rparr>"

definition resolveRadioChannel :: "crypto \<Rightarrow> u8 \<Rightarrow> bytes \<Rightarrow> bytes \<Rightarrow> radio_channel" where
  "resolveRadioChannel c syncWord chName chKey =
     (if syncWord = SYNC_WORD_MESHTASTIC then mt_resolve c chKey chName
      else if syncWord = SYNC_WORD_MESHCORE then mc_resolve c chKey chName
      else \<lparr>ch_protocol = syncWord, ch_key = replicate 32 0, ch_keyLen = 0, ch_channelHash = 0,
            ch_name = bounded_copy CH_NAME_CAP chName\<rparr>)"

text \<open>
  The part of \<open>setup\<close> that fills the routing state from the configuration: \<open>ring\<close> is the array
  each route queue got from the allocators, \<open>r2ok\<close> whether the edge radio answered.
\<close>

definition bridge_setup ::
  "build_flags \<Rightarrow> crypto \<Rightarrow> bool \<Rightarrow> (nat \<Rightarrow> rq_entry list option) \<Rightarrow> bool \<Rightarrow> bridge \<Rightarrow> bridge" where
  "bridge_setup fl c nvs_ok ring r2ok s =
     (let cfg = br_cfg s;
          on = map (\<lambda>i. rs_protocol (bc_slot cfg (int i)) \<noteq> PROTO_NONE) [0..<NR] in
      s\<lparr>br_enabled := (if r2ok then on else on[1 := False]), br_present := on,
        br_chan := map (\<lambda>i. let r = bc_slot cfg (int i) in
            if on ! i then resolveRadioChannel c (rs_syncWord r) (rs_channelName r) (rs_channelKey r)
            else zero_channel) [0..<NR],
        br_route := map (\<lambda>i. rs_routeMask (bc_slot cfg (int i))) [0..<NR],
        br_nodes := nodedb_begin nvs_ok (br_nodes s), br_dedup := dedup_begin (br_dedup s),
        br_virt := map (\<lambda>v. v\<lparr>ve_used := False\<rparr>) (br_virt s),
        br_queue := map (\<lambda>i. if on ! i then rq_begin (ring i) BRIDGE_ROUTE_QUEUE_DEPTH (bf_route_max_age fl)
            else None) [0..<NR]\<rparr>)"

section \<open>Shared steps\<close>

text \<open>Queueing for one destination, recording an emission, drawing a random number.\<close>

definition queue_push :: "u32 \<Rightarrow> bytes \<Rightarrow> route_queue option \<Rightarrow> route_queue option \<times> bool" where
  "queue_push now data q =
     (case q of None \<Rightarrow> (None, False) | Some r \<Rightarrow> (case rq_push now data r of (r2, ok) \<Rightarrow> (Some r2, ok)))"

definition push_to :: "bridge_env \<Rightarrow> nat \<Rightarrow> bytes \<Rightarrow> bridge \<Rightarrow> bridge \<times> bool" where
  "push_to e j data s =
     (case queue_push (be_now e) data (br_queue s ! j) of
        (q, ok) \<Rightarrow> (s\<lparr>br_queue := (br_queue s)[j := q]\<rparr>, ok))"

definition record_emission :: "bridge_env \<Rightarrow> u32 \<Rightarrow> bridge \<Rightarrow> bridge" where
  "record_emission e h s = s\<lparr>br_dedup := dedup_record (br_dedup s) h (be_now e)\<rparr>"

definition draw :: "bridge_env \<Rightarrow> bridge \<Rightarrow> u32" where
  "draw e s = be_random e (br_draws s)"

definition drawn :: "bridge \<Rightarrow> bridge" where
  "drawn s = s\<lparr>br_draws := br_draws s + 1\<rparr>"

definition learnClock :: "u32 \<Rightarrow> u32 \<Rightarrow> bridge \<Rightarrow> bridge" where
  "learnClock now ts s = (if ts \<le> 1500000000 then s else s\<lparr>br_clockUnix := ts, br_clockMillis := now\<rparr>)"

definition bridgeNowUnix :: "u32 \<Rightarrow> bridge \<Rightarrow> u32" where
  "bridgeNowUnix now s =
     (if br_clockUnix s = 0 then 0 else br_clockUnix s + (now - br_clockMillis s) div 1000)"

section \<open>Reticulum fragments\<close>

definition rns_raw_per_frag :: "u8 \<Rightarrow> nat option" where
  "rns_raw_per_frag proto =
     (if proto = SYNC_WORD_MESHTASTIC then Some BRIDGE_RNS_RAW_PER_FRAG_MT
      else if proto = SYNC_WORD_MESHCORE then Some BRIDGE_RNS_RAW_PER_FRAG_MC else None)"

definition rns_marked :: "u8 \<Rightarrow> nat \<Rightarrow> nat \<Rightarrow> bytes \<Rightarrow> bytes" where
  "rns_marked seq idx nfrags b64 =
     bounded_copy 240 (str ''[rns '' @ fmt_02X seq @ str '' '' @ fmt_u (idx + 1) @ str ''/'' @ fmt_u nfrags
       @ str ''] '' @ b64)"

text \<open>One fragment; the flag is False where the function returns early.\<close>

definition rns_fragment ::
  "bridge_env \<Rightarrow> radio_channel \<Rightarrow> nat \<Rightarrow> u32 \<Rightarrow> u8 \<Rightarrow> nat \<Rightarrow> nat \<Rightarrow> bytes \<Rightarrow> nat \<Rightarrow> bridge \<Rightarrow> bridge \<times> bool" where
  "rns_fragment e ch j dstSrcId seq nfrags raw buf idx s =
     (let c = be_crypto e; start = idx * raw;
          rawLen = (if idx + 1 = nfrags then length buf - start else raw);
          b64 = base64_encode c (take rawLen (drop start buf)) in
      if 200 < length b64 + 1 then (s, False)
      else (let marked = rns_marked seq idx nfrags b64;
                enc = (if ch_protocol ch = SYNC_WORD_MESHTASTIC
                       then encodeMeshtasticText c (draw e s) ch (bc_mtNodeId (br_cfg s)) marked 256
                       else map_option (\<lambda>pkt. (pkt, 0))
                         (encodeMeshCoreGrpTxt c ch marked (bridgeNowUnix (be_now e) s) 256));
                s1 = (if ch_protocol ch = SYNC_WORD_MESHTASTIC then drawn s else s) in
        case enc of None \<Rightarrow> (s, False)
        | Some (pkt, emitPid) \<Rightarrow>
            (fst (push_to e j pkt (record_emission e (dedup_hash marked dstSrcId emitPid) s1)), True)))"

fun rns_loop ::
  "bridge_env \<Rightarrow> radio_channel \<Rightarrow> nat \<Rightarrow> u32 \<Rightarrow> u8 \<Rightarrow> nat \<Rightarrow> nat \<Rightarrow> bytes \<Rightarrow> nat list \<Rightarrow> bridge \<Rightarrow> bridge" where
  "rns_loop e ch j dstSrcId seq nfrags raw buf [] s = s"
| "rns_loop e ch j dstSrcId seq nfrags raw buf (idx # is) s =
     (case rns_fragment e ch j dstSrcId seq nfrags raw buf idx s of
        (s2, False) \<Rightarrow> s2
      | (s2, True) \<Rightarrow> rns_loop e ch j dstSrcId seq nfrags raw buf is s2)"

definition enqueueReticulumForDest ::
  "build_flags \<Rightarrow> bridge_env \<Rightarrow> nat \<Rightarrow> bytes \<Rightarrow> bridge \<Rightarrow> bridge" where
  "enqueueReticulumForDest fl e j buf s =
     (let ch = br_chan s ! j; len = length buf in
      if ch_protocol ch = SYNC_WORD_RETICULUM \<or> len = 0 then s
      else (case rns_raw_per_frag (ch_protocol ch) of
          None \<Rightarrow> s
        | Some raw \<Rightarrow>
            (let dstSrcId = (if ch_protocol ch = SYNC_WORD_MESHTASTIC then bc_mtNodeId (br_cfg s) else 0);
                 nfrags = (len + raw - 1) div raw in
             if bf_rns_max_frags fl < nfrags then s
             else rns_loop e ch j dstSrcId (ucast (crc16_ccitt buf AND 0xFF)) nfrags raw buf [0..<nfrags] s)))"

section \<open>Text for a Meshtastic or MeshCore destination\<close>

text \<open>The scan for a leading \<open>name:\<close> prefix: \<open>n\<close> more positions from \<open>i\<close>; the position of the colon.\<close>

fun sender_scan :: "bytes \<Rightarrow> nat \<Rightarrow> nat \<Rightarrow> nat option" where
  "sender_scan body i 0 = None"
| "sender_scan body i (Suc n) =
     (let c = chr_at body i in
      if c = 0 then None
      else if c = of_char CHR '':'' \<and> chr_at body (i + 1) = of_char CHR '' '' then
        (if i = 0 then None else Some i)
      else if i = 0 \<and> c = of_char CHR '' '' then None
      else if c < 0x20 \<or> 0x7E < c then None
      else sender_scan body (i + 1) n)"

definition parseMcSenderName :: "build_flags \<Rightarrow> bytes \<Rightarrow> nat \<Rightarrow> (bytes \<times> bytes) option" where
  "parseMcSenderName fl body cap =
     (if cap < 2 then None
      else (case sender_scan body 0 (min (cap - 1) (bf_mc_name_max fl)) of
          None \<Rightarrow> None
        | Some i \<Rightarrow> Some (take i body, drop (i + 2) body)))"

definition enqueueVirtualNodeInfo :: "build_flags \<Rightarrow> bridge_env \<Rightarrow> nat \<Rightarrow> u32 \<Rightarrow> bytes \<Rightarrow> bridge \<Rightarrow> bridge" where
  "enqueueVirtualNodeInfo fl e j vid name s =
     (let idStr = bounded_copy 12 (str ''!'' @ fmt_08lx vid);
          longName = bounded_copy (MAX_LONG_NAME + 1)
            (if bf_tag_origin fl then take 32 name @ str '' @MC'' else take 39 name);
          shortName = bounded_copy (MAX_SHORT_NAME + 1) (take 4 name)
      in case encodeMeshtasticNodeInfo (be_crypto e) (draw e s) (br_chan s ! j) vid idStr longName shortName 256 of
           None \<Rightarrow> s
         | Some pkt \<Rightarrow> fst (push_to e j pkt (drawn s)))"

text \<open>Mint the virtual node of a label and advertise it when due.\<close>

definition virtual_sender :: "build_flags \<Rightarrow> bridge_env \<Rightarrow> nat \<Rightarrow> bytes \<Rightarrow> bridge \<Rightarrow> bridge \<times> u32" where
  "virtual_sender fl e j label s =
     (case idForLabel (br_virt s) label (bc_mtNodeId (br_cfg s)) of (tab, vid) \<Rightarrow>
        (case nodeInfoDue (be_now e) tab vid of (tab2, due) \<Rightarrow>
           (let s2 = s\<lparr>br_virt := tab2\<rparr> in
            (if due then enqueueVirtualNodeInfo fl e j vid label s2 else s2, vid))))"

text \<open>The source id stamped for a Meshtastic destination and the body left to encode.\<close>

definition mt_identity ::
  "build_flags \<Rightarrow> bridge_env \<Rightarrow> nat \<Rightarrow> radio_channel \<Rightarrow> bytes \<Rightarrow> bridge \<Rightarrow> bridge \<times> u32 \<times> bytes" where
  "mt_identity fl e j src body s =
     (if bf_identity_preserve fl \<and> ch_protocol src = SYNC_WORD_MESHCORE then
        (case parseMcSenderName fl body (MAX_LONG_NAME + 1) of
           Some (name, rest) \<Rightarrow>
             (case virtual_sender fl e j name s of (s2, vid) \<Rightarrow> (s2, vid, rest))
         | None \<Rightarrow>
             if bf_noname_virtual fl then
               (case virtual_sender fl e j (bounded_copy 40
                    (str ''MC-'' @ (if ch_name src \<noteq> [] then ch_name src else str ''chan''))) s of
                  (s2, vid) \<Rightarrow> (s2, vid, body))
             else (s, bc_mtNodeId (br_cfg s), body))
      else (s, bc_mtNodeId (br_cfg s), body))"

text \<open>The body for a MeshCore destination, with the Meshtastic sender's name in front.\<close>

definition mc_identity ::
  "build_flags \<Rightarrow> bridge_env \<Rightarrow> radio_channel \<Rightarrow> u32 \<Rightarrow> bytes \<Rightarrow> bridge \<Rightarrow> bridge \<times> bytes" where
  "mc_identity fl e src srcId body s =
     (if bf_identity_preserve fl \<and> ch_protocol src = SYNC_WORD_MESHTASTIC then
        (case lookupShortName (be_now e) (br_nodes s) srcId (MAX_SHORT_NAME + 1) of (nodes, found) \<Rightarrow>
           (let who = bounded_copy 24 (case found of Some sname \<Rightarrow>
                  (if sname \<noteq> [] then sname else str ''!'' @ fmt_08lx srcId)
                | None \<Rightarrow> str ''!'' @ fmt_08lx srcId)
            in (s\<lparr>br_nodes := nodes\<rparr>,
                bounded_copy 256 (if bf_tag_origin fl then who @ str ''@MT: '' @ body
                                  else who @ str '': '' @ body))))
      else (s, body))"

section \<open>LoRaWAN uplinks\<close>

definition lwParseKey16 :: "bytes \<Rightarrow> bytes option" where
  "lwParseKey16 h = (if length h \<noteq> 32 then None else parse_hex_from h 0 16 [])"

text \<open>The build-flag credentials, present when both keys parse.\<close>

definition lwEncCreds :: "build_flags \<Rightarrow> (u32 \<times> u8 \<times> bytes \<times> bytes) option" where
  "lwEncCreds fl =
     (case (lwParseKey16 (bf_lw_nwkskey fl), lwParseKey16 (bf_lw_appskey fl)) of
        (Some nwk, Some app) \<Rightarrow> Some (bf_lw_devaddr fl, bf_lw_fport fl, nwk, app)
      | _ \<Rightarrow> None)"

record uplink_creds =
  ul_devAddr :: u32
  ul_fcnt :: u32
  ul_nwkKey :: bytes
  ul_appKey :: bytes
  ul_fport :: u8
  ul_tagSrc :: bool

definition uplink_identity ::
  "build_flags \<Rightarrow> bridge_env \<Rightarrow> nat \<Rightarrow> u8 \<Rightarrow> u32 \<Rightarrow> lw_state \<Rightarrow> lw_state \<times> uplink_creds option" where
  "uplink_identity fl e j proto srcId lw =
     (case lw_resolve lw proto srcId of
        Some i \<Rightarrow> (let dev = lw_dev lw ! i in
          case nextFcnt (be_fcnt e j) (int i) lw of (lw2, fcnt) \<Rightarrow>
            (lw2, Some \<lparr>ul_devAddr = dev_devAddr dev, ul_fcnt = fcnt, ul_nwkKey = dev_nwkSKey dev,
               ul_appKey = dev_appSKey dev, ul_fport = dev_fport dev,
               ul_tagSrc = (dev_flags dev AND FLAG_TAG_SRC \<noteq> 0)\<rparr>))
      | None \<Rightarrow> (case lwEncCreds fl of
            None \<Rightarrow> (lw, None)
          | Some (devAddr, fport, nwk, app) \<Rightarrow>
              (case nextFcntForDevAddr (be_fcnt e j) (be_fcnt_readable e j) devAddr lw of (lw2, fcnt) \<Rightarrow>
                 (lw2, Some \<lparr>ul_devAddr = devAddr, ul_fcnt = fcnt, ul_nwkKey = nwk, ul_appKey = app,
                    ul_fport = fport, ul_tagSrc = False\<rparr>))))"

definition LW_FRM_CAP :: nat where "LW_FRM_CAP = 242"

definition uplink_frm :: "u8 \<Rightarrow> u32 \<Rightarrow> bool \<Rightarrow> bytes \<Rightarrow> bytes" where
  "uplink_frm proto srcId tagSrc payload = (if tagSrc then protoOf proto # le32 srcId else []) @ payload"

definition enqueueAbpUplink ::
  "build_flags \<Rightarrow> bridge_env \<Rightarrow> radio_channel \<Rightarrow> u32 \<Rightarrow> nat \<Rightarrow> bytes \<Rightarrow> bridge \<Rightarrow> bridge \<times> bool" where
  "enqueueAbpUplink fl e src srcId j payload s =
     (case uplink_identity fl e j (ch_protocol src) srcId (br_lw s) of
        (lw2, None) \<Rightarrow> (s\<lparr>br_lw := lw2\<rparr>, False)
      | (lw2, Some u) \<Rightarrow>
          (let s2 = s\<lparr>br_lw := lw2\<rparr>; frm = uplink_frm (ch_protocol src) srcId (ul_tagSrc u) payload in
           if \<not> br_lwCryptoOk s then (s2, True)
           else if ul_fcnt u = FCNT_INVALID then (s2, True)
           else if LW_FRM_CAP < length frm then (s2, True)
           else (case encodeUplink (aes_enc (be_crypto e)) (ul_devAddr u) (ul_nwkKey u) (ul_appKey u) (ul_fcnt u)
                    (ul_fport u) frm False 256 of
                None \<Rightarrow> (s2, True)
              | Some pkt \<Rightarrow>
                  (fst (push_to e j pkt (record_emission e (dedup_hash pkt (ul_devAddr u) (ul_fcnt u)) s2)), True))))"

section \<open>One destination\<close>

text \<open>The last part of \<open>enqueueTextForDest\<close>: record the emission, then queue it.\<close>

definition emit_text :: "bridge_env \<Rightarrow> nat \<Rightarrow> bytes \<Rightarrow> u32 \<Rightarrow> u32 \<Rightarrow> bytes \<Rightarrow> bridge \<Rightarrow> bridge" where
  "emit_text e j outBody dstSrcId emitPid pkt s =
     fst (push_to e j pkt (record_emission e (dedup_hash outBody dstSrcId emitPid) s))"

definition text_to_mt ::
  "build_flags \<Rightarrow> bridge_env \<Rightarrow> radio_channel \<Rightarrow> nat \<Rightarrow> bytes \<Rightarrow> bridge \<Rightarrow> bridge" where
  "text_to_mt fl e src j body s =
     (case mt_identity fl e j src body s of (s2, dstSrcId, outBody) \<Rightarrow>
        (case encodeMeshtasticText (be_crypto e) (draw e s2) (br_chan s ! j) dstSrcId outBody 256 of
           None \<Rightarrow> s2
         | Some (pkt, emitPid) \<Rightarrow> emit_text e j outBody dstSrcId emitPid pkt (drawn s2)))"

definition text_to_mc ::
  "build_flags \<Rightarrow> bridge_env \<Rightarrow> radio_channel \<Rightarrow> u32 \<Rightarrow> nat \<Rightarrow> bytes \<Rightarrow> bridge \<Rightarrow> bridge" where
  "text_to_mc fl e src srcId j body s =
     (case mc_identity fl e src srcId body s of (s2, outBody) \<Rightarrow>
        (case encodeMeshCoreGrpTxt (be_crypto e) (br_chan s ! j) outBody (bridgeNowUnix (be_now e) s2) 256 of
           None \<Rightarrow> s2
         | Some pkt \<Rightarrow> emit_text e j outBody 0 0 pkt s2))"

definition enqueueTextForDest ::
  "build_flags \<Rightarrow> bridge_env \<Rightarrow> radio_channel \<Rightarrow> u32 \<Rightarrow> bytes \<Rightarrow> nat \<Rightarrow> bridge \<Rightarrow> bridge" where
  "enqueueTextForDest fl e src srcId body j s =
     (let dp = ch_protocol (br_chan s ! j) in
      if dp = SYNC_WORD_RETICULUM then s
      else if dp = SYNC_WORD_LORAWAN then
        (if bf_lw_encode fl then fst (enqueueAbpUplink fl e src srcId j body s) else s)
      else if dp = SYNC_WORD_MESHTASTIC then text_to_mt fl e src j body s
      else if dp = SYNC_WORD_MESHCORE then text_to_mc fl e src srcId j body s
      else s)"

definition sameChannel :: "radio_channel \<Rightarrow> radio_channel \<Rightarrow> bool" where
  "sameChannel a b \<longleftrightarrow>
     (if ch_protocol a \<noteq> ch_protocol b then False
      else if ch_channelHash a \<noteq> ch_channelHash b then False
      else if ch_keyLen a \<noteq> ch_keyLen b then False
      else take (ch_keyLen a) (ch_key a) = take (ch_keyLen a) (ch_key b))"

text \<open>The packet a raw repeat sends, if any.\<close>

definition raw_packet :: "u8 \<Rightarrow> u32 \<Rightarrow> u32 \<Rightarrow> bytes \<Rightarrow> bytes option" where
  "raw_packet proto nodeId srcId buf =
     (if length buf = 0 \<or> LORA_MAX_PACKET < length buf then None
      else if proto = SYNC_WORD_MESHTASTIC then
        (if length buf < 16 then None
         else if srcId = nodeId then None
         else (let hops = buf ! 12 AND 0x07 in
           if hops = 0 then None
           else Some (buf[12 := (buf ! 12 AND NOT 0x07) OR (hops - 1), 15 := ucast (nodeId AND 0xFF)])))
      else Some buf)"

definition rawRepeatForDest :: "bridge_env \<Rightarrow> u32 \<Rightarrow> bytes \<Rightarrow> nat \<Rightarrow> bridge \<Rightarrow> bridge" where
  "rawRepeatForDest e srcId buf j s =
     (case raw_packet (ch_protocol (br_chan s ! j)) (bc_mtNodeId (br_cfg s)) srcId buf of
        None \<Rightarrow> s
      | Some pkt \<Rightarrow> fst (push_to e j pkt s))"

definition camC2Emit :: "bridge_env \<Rightarrow> int \<Rightarrow> bytes \<Rightarrow> bridge \<Rightarrow> bridge \<times> bool" where
  "camC2Emit e radioIdx buf s =
     (if radioIdx < 0 \<or> int NR \<le> radioIdx then (s, False)
      else push_to e (nat radioIdx) buf (record_emission e (dedup_hash buf 0 0) s))"

section \<open>Ingest\<close>

text \<open>The destinations of a packet received on radio \<open>i\<close>: the other live radios in its route mask.\<close>

definition dest_ok :: "bridge \<Rightarrow> nat \<Rightarrow> nat \<Rightarrow> bool" where
  "dest_ok s i j \<longleftrightarrow> j \<noteq> i \<and> br_enabled s ! j \<and> br_present s ! j \<and> bit (br_route s ! i) j"

definition fan_out :: "nat \<Rightarrow> (nat \<Rightarrow> bridge \<Rightarrow> bridge) \<Rightarrow> bridge \<Rightarrow> bridge" where
  "fan_out i f s = foldl (\<lambda>t j. if dest_ok t i j then f j t else t) s [0..<NR]"

text \<open>The loop and duplicate guard on a hash.\<close>

definition dup_guard :: "bridge_env \<Rightarrow> u32 \<Rightarrow> bridge \<Rightarrow> bridge \<times> bool" where
  "dup_guard e h s = (case seenAndRecord (br_dedup s) h (be_now e) of (tab, seen) \<Rightarrow> (s\<lparr>br_dedup := tab\<rparr>, seen))"

definition ingest_rns :: "build_flags \<Rightarrow> bridge_env \<Rightarrow> nat \<Rightarrow> bytes \<Rightarrow> bridge \<Rightarrow> bridge" where
  "ingest_rns fl e i buf s =
     (case dup_guard e (dedup_hash buf 0 0) s of
        (s2, True) \<Rightarrow> s2
      | (s2, False) \<Rightarrow> fan_out i (\<lambda>j t.
          if bf_rns_inproto fl \<and> ch_protocol (br_chan t ! j) = SYNC_WORD_RETICULUM
          then rawRepeatForDest e 0 buf j t else enqueueReticulumForDest fl e j buf t) s2)"

definition loraWanMtypeName :: "u8 \<Rightarrow> bytes" where
  "loraWanMtypeName m =
     (if m = 0 then str ''JoinRequest'' else if m = 1 then str ''JoinAccept''
      else if m = 2 then str ''UnconfDataUp'' else if m = 3 then str ''UnconfDataDown''
      else if m = 4 then str ''ConfDataUp'' else if m = 5 then str ''ConfDataDown''
      else if m = 6 then str ''RejoinRequest'' else if m = 7 then str ''Proprietary'' else str ''?'')"

definition lorawan_summary :: "lorawan_meta \<Rightarrow> nat \<Rightarrow> bytes" where
  "lorawan_summary m len = bounded_copy 160
     (if lm_isJoinReq m then
        str ''LoRaWAN JoinReq DevEUI '' @ fmt_08lx (ucast (drop_bit 32 (lm_devEui m))) @ fmt_08lx (ucast (lm_devEui m))
      else if lm_isData m then
        str ''LoRaWAN '' @ loraWanMtypeName (lm_mtype m) @ str '' DevAddr 0x'' @ fmt_08lx (lm_devAddr m)
          @ str '' FCnt '' @ fmt_u (unat (lm_fcnt m))
          @ str '' FPort '' @ fmt_d (if lm_hasFport m then uint (lm_fport m) else -1)
          @ str '' len '' @ fmt_u len
      else str ''LoRaWAN '' @ loraWanMtypeName (lm_mtype m) @ str '' len '' @ fmt_u len)"

definition ingest_lorawan :: "build_flags \<Rightarrow> bridge_env \<Rightarrow> nat \<Rightarrow> bytes \<Rightarrow> bridge \<Rightarrow> bridge" where
  "ingest_lorawan fl e i buf s =
     (case dup_guard e (dedup_hash buf 0 0) s of
        (s2, True) \<Rightarrow> s2
      | (s2, False) \<Rightarrow>
          (case extractLoRaWANMeta buf of (m, parsed) \<Rightarrow>
            (let s3 = (if bf_lw_summary fl \<and> parsed then
                   fan_out i (\<lambda>j t. let dp = ch_protocol (br_chan t ! j) in
                     if dp = SYNC_WORD_MESHTASTIC \<or> dp = SYNC_WORD_MESHCORE
                     then enqueueTextForDest fl e (br_chan t ! i) 0 (lorawan_summary m (length buf)) j t else t) s2
                 else s2)
             in if bf_lw_relay fl then
                  fan_out i (\<lambda>j t. if ch_protocol (br_chan t ! j) = SYNC_WORD_LORAWAN
                    then rawRepeatForDest e 0 buf j t else t) s3
                else s3)))"

subsection \<open>Custom radios\<close>

definition custom_radio :: "bridge \<Rightarrow> nat \<Rightarrow> bool" where
  "custom_radio s i \<longleftrightarrow> rs_protocol (bc_slot (br_cfg s) (int i)) = PROTO_CUSTOM"

text \<open>
  The camera command channel gets the frame first; the frames it emits leave through
  \<open>camC2Emit\<close>, in order.
\<close>

definition ingest_c2 :: "bridge_env \<Rightarrow> nat \<Rightarrow> bytes \<Rightarrow> bridge \<Rightarrow> bridge \<times> bool" where
  "ingest_c2 e i buf s =
     (case handleInbound (aes_enc (be_crypto e)) ((be_c2 e)\<lparr>env_now := be_now e\<rparr>) (int i) buf
         ((br_c2 s)\<lparr>c2_outbox := []\<rparr>) of
        (c2, taken) \<Rightarrow>
          (fold (\<lambda>(radio, frame) t. fst (camC2Emit e radio frame t)) (c2_outbox c2) (s\<lparr>br_c2 := c2\<rparr>), taken))"

definition ingest_custom_repeat :: "bridge_env \<Rightarrow> nat \<Rightarrow> bytes \<Rightarrow> bridge \<Rightarrow> bridge" where
  "ingest_custom_repeat e i buf s =
     (case dup_guard e (dedup_hash buf 0 0) s of
        (s2, True) \<Rightarrow> s2
      | (s2, False) \<Rightarrow> fan_out i (\<lambda>j t. if sameChannel (br_chan t ! i) (br_chan t ! j)
          then rawRepeatForDest e 0 buf j t else t) s2)"

definition ingest_custom_abp :: "build_flags \<Rightarrow> bridge_env \<Rightarrow> nat \<Rightarrow> bytes \<Rightarrow> bridge \<Rightarrow> bridge" where
  "ingest_custom_abp fl e i buf s =
     (case dup_guard e (dedup_hash buf 0 0) s of
        (s2, True) \<Rightarrow> s2
      | (s2, False) \<Rightarrow> fan_out i (\<lambda>j t. if ch_protocol (br_chan t ! j) = SYNC_WORD_LORAWAN
          then fst (enqueueAbpUplink fl e (br_chan t ! i) 0 j buf t) else t) s2)"

subsection \<open>Mesh radios\<close>

definition position_text :: "position_info \<Rightarrow> bytes" where
  "position_text p = bounded_copy 256
     (str ''pos'' @
      (case (po_latI p, po_lonI p) of
         (Some la, Some lo) \<Rightarrow> str '' '' @ fmt_fixed 4 (degrees la) @ str '','' @ fmt_fixed 4 (degrees lo)
       | _ \<Rightarrow> []) @
      (case po_altM p of Some a \<Rightarrow> str '' alt '' @ fmt_d (sint a) @ str ''m'' | None \<Rightarrow> []))"

definition float_field :: "bytes \<Rightarrow> nat \<Rightarrow> bytes \<Rightarrow> u32 option \<Rightarrow> bytes" where
  "float_field before p after v =
     (case v of None \<Rightarrow> [] | Some w \<Rightarrow> before @ fmt_fixed p (f32_of_bits w) @ after)"

definition telemetry_text :: "telemetry_info \<Rightarrow> bytes option" where
  "telemetry_text t =
     (if te_kind t = TK_DEVICE then Some (bounded_copy 256
        (str ''bat'' @ float_field (str '' '') 0 (str ''%'') (te_batteryPct t)
          @ float_field (str '' '') 2 (str ''V'') (te_voltage t)))
      else if te_kind t = TK_ENVIRONMENT then Some (bounded_copy 256
        (str ''env'' @ float_field (str '' '') 1 (str ''C'') (te_tempC t)
          @ float_field (str '' RH '') 0 (str ''%'') (te_rhPct t)
          @ float_field (str '' '') 0 (str ''hPa'') (te_pressureHpa t)))
      else None)"

text \<open>
  The text of a Meshtastic packet: position, telemetry, then the text message; the position's
  time calibrates the clock. The outer option is the definedness of the decoder.
\<close>

definition mt_text :: "bridge_env \<Rightarrow> nat \<Rightarrow> bytes \<Rightarrow> bridge \<Rightarrow> (bridge \<times> bytes option) option" where
  "mt_text e i buf s =
     (let c = be_crypto e; ch = br_chan s ! i;
          plain = (\<lambda>t. map_option (\<lambda>b. (t, b)) (extractMeshtasticBody c buf ch 256));
          tele = (\<lambda>t. if bc_telemetryEnabled (br_cfg t) \<noteq> 0 then
              (case extractMeshtasticTelemetry c buf ch of
                 None \<Rightarrow> None
               | Some None \<Rightarrow> plain t
               | Some (Some tel) \<Rightarrow> (case telemetry_text tel of None \<Rightarrow> plain t | Some b \<Rightarrow> Some (t, Some b)))
            else plain t)
      in if bc_positionEnabled (br_cfg s) \<noteq> 0 then
           (case extractMeshtasticPosition c buf ch of
              None \<Rightarrow> None
            | Some None \<Rightarrow> tele s
            | Some (Some pos) \<Rightarrow>
                Some (case po_timeUnix pos of None \<Rightarrow> s | Some t \<Rightarrow> learnClock (be_now e) t s,
                      Some (position_text pos)))
         else tele s)"

text \<open>The guard and the fan-out of a decoded body.\<close>

definition bridge_body :: "build_flags \<Rightarrow> bridge_env \<Rightarrow> nat \<Rightarrow> bytes \<Rightarrow> u32 \<Rightarrow> u32 \<Rightarrow> bytes \<Rightarrow> bridge \<Rightarrow> bridge" where
  "bridge_body fl e i buf srcId pid body s =
     (case dup_guard e (dedup_hash body srcId pid) s of
        (s2, True) \<Rightarrow> s2
      | (s2, False) \<Rightarrow> fan_out i (\<lambda>j t.
          if bf_identity_preserve fl \<and> sameChannel (br_chan t ! i) (br_chan t ! j)
          then rawRepeatForDest e srcId buf j t
          else enqueueTextForDest fl e (br_chan t ! i) srcId body j t) s2)"

definition ingest_meshtastic :: "build_flags \<Rightarrow> bridge_env \<Rightarrow> nat \<Rightarrow> bytes \<Rightarrow> bridge \<Rightarrow> bridge option" where
  "ingest_meshtastic fl e i buf s =
     (case extractMeshtasticNodeInfo (be_crypto e) buf (br_chan s ! i) (MAX_SHORT_NAME + 1) (MAX_LONG_NAME + 1) of
        None \<Rightarrow> None
      | Some (Some (nid, short, long)) \<Rightarrow>
          Some (if nid = bc_mtNodeId (br_cfg s) then s
                else s\<lparr>br_nodes := fst (nodedb_upsert (be_nvs_ok e) (be_now e) (br_nodes s) nid short long)\<rparr>)
      | Some None \<Rightarrow>
          (let srcId = (if 8 \<le> length buf then get32 buf 4 else 0);
               pid = (if 12 \<le> length buf then get32 buf 8 else 0)
           in case mt_text e i buf s of
                None \<Rightarrow> None
              | Some (s2, None) \<Rightarrow> Some s2
              | Some (s2, Some body) \<Rightarrow> Some (bridge_body fl e i buf srcId pid body s2)))"

definition ingest_meshcore :: "build_flags \<Rightarrow> bridge_env \<Rightarrow> nat \<Rightarrow> bytes \<Rightarrow> bridge \<Rightarrow> bridge" where
  "ingest_meshcore fl e i buf s =
     (case extractMeshCoreBody (be_crypto e) buf (br_chan s ! i) 256 of
        None \<Rightarrow> s
      | Some (body, ts) \<Rightarrow> bridge_body fl e i buf 0 0 body (learnClock (be_now e) ts s))"

definition ingestAndFanout :: "build_flags \<Rightarrow> bridge_env \<Rightarrow> nat \<Rightarrow> bytes \<Rightarrow> bridge \<Rightarrow> bridge option" where
  "ingestAndFanout fl e i buf s =
     (let proto = ch_protocol (br_chan s ! i) in
      if proto = SYNC_WORD_RETICULUM then Some (ingest_rns fl e i buf s)
      else if proto = SYNC_WORD_LORAWAN then Some (ingest_lorawan fl e i buf s)
      else (case (if bf_camera fl \<and> custom_radio s i then ingest_c2 e i buf s else (s, False)) of
          (s1, True) \<Rightarrow> Some s1
        | (s1, False) \<Rightarrow>
            if bf_custom_repeat fl \<and> custom_radio s1 i then Some (ingest_custom_repeat e i buf s1)
            else if bf_lw_encode fl \<and> custom_radio s1 i then Some (ingest_custom_abp fl e i buf s1)
            else if proto = SYNC_WORD_MESHTASTIC then ingest_meshtastic fl e i buf s1
            else if proto = SYNC_WORD_MESHCORE then Some (ingest_meshcore fl e i buf s1)
            else Some s1))"

end
