(* ===== verification/BridgeRouting.thy ===== *)
theory BridgeRouting
  imports Bridge CamC2Safety
begin

text \<open>
  What a received packet may change: the routing matrix decides which queues a fan-out touches,
  the configuration is never touched, and a hash the duplicate cache holds stops a packet.
\<close>

section \<open>The footprint of a handler\<close>

definition br_static :: "bridge \<Rightarrow> bridge \<Rightarrow> bool" where
  "br_static s t \<longleftrightarrow> br_cfg t = br_cfg s \<and> br_chan t = br_chan s \<and> br_enabled t = br_enabled s \<and>
     br_present t = br_present s \<and> br_route t = br_route s \<and> length (br_queue t) = length (br_queue s)"

text \<open>Only the queues of \<open>J\<close> may differ, and the routing state does not.\<close>

definition touches :: "nat set \<Rightarrow> bridge \<Rightarrow> bridge \<Rightarrow> bool" where
  "touches J s t \<longleftrightarrow> br_static s t \<and> (\<forall>k. k \<notin> J \<longrightarrow> br_queue t ! k = br_queue s ! k)"

named_theorems footprint \<open>the footprint of each operation\<close>

lemma touches_refl [footprint]: "touches J s s"
  by (simp add: touches_def br_static_def)

lemma touches_trans: "touches J s t \<Longrightarrow> touches J t u \<Longrightarrow> touches J s u"
  by (auto simp: touches_def br_static_def)

lemma touches_mono: "touches J s t \<Longrightarrow> J \<subseteq> K \<Longrightarrow> touches K s t"
  by (auto simp: touches_def)

lemma touches_empty: "touches {} s t \<Longrightarrow> touches J s t"
  by (rule touches_mono) auto

lemma touches_push [footprint]: "touches {j} s (fst (push_to e j data s))"
  by (auto simp: push_to_def touches_def br_static_def split: prod.splits)

lemma touches_quiet [footprint]:
  "touches J s (record_emission e h s)" "touches J s (drawn s)" "touches J s (s\<lparr>br_virt := v\<rparr>)"
  "touches J s (s\<lparr>br_nodes := n\<rparr>)" "touches J s (s\<lparr>br_lw := l\<rparr>)" "touches J s (s\<lparr>br_c2 := c\<rparr>)"
  "touches J s (learnClock now ts s)"
  by (auto simp: record_emission_def drawn_def learnClock_def touches_def br_static_def)

lemma touches_guard [footprint]: "dup_guard e h s = (t, seen) \<Longrightarrow> touches J s t"
  by (auto simp: dup_guard_def touches_def br_static_def split: prod.splits)

lemma touches_push_after [footprint]: "touches {j} s t \<Longrightarrow> touches {j} s (fst (push_to e j data t))"
  using touches_push touches_trans by blast

lemma touches_record_after [footprint]: "touches {j} s t \<Longrightarrow> touches {j} s (record_emission e h t)"
  using touches_quiet(1) touches_trans by blast

lemma touches_drawn_after [footprint]: "touches {j} s t \<Longrightarrow> touches {j} s (drawn t)"
  using touches_quiet(2) touches_trans by blast

section \<open>The footprint of the per-destination handlers\<close>

lemma touches_rns_fragment: "touches {j} s (fst (rns_fragment e ch j d seq n raw buf idx s))"
  by (auto simp: rns_fragment_def Let_def split: option.splits intro: footprint)

lemma touches_rns_loop: "touches {j} s (rns_loop e ch j d seq n raw buf is s)"
proof (induction "is" arbitrary: s)
  case (Cons idx "is")
  obtain t ok where f: "rns_fragment e ch j d seq n raw buf idx s = (t, ok)" by fastforce
  then have "touches {j} s t" using touches_rns_fragment [of j s e ch d seq n raw buf idx] by simp
  then show ?case using f Cons.IH [of t] by (auto split: bool.splits intro: touches_trans)
qed (simp add: footprint)

lemma touches_enqueueReticulum [footprint]: "touches {j} s (enqueueReticulumForDest fl e j buf s)"
  by (auto simp: enqueueReticulumForDest_def Let_def touches_rns_loop split: option.splits intro: footprint)

lemma touches_virtualNodeInfo: "touches {j} s (enqueueVirtualNodeInfo fl e j vid name s)"
  by (auto simp: enqueueVirtualNodeInfo_def Let_def split: option.splits intro: footprint)

lemma touches_virtual_sender: "virtual_sender fl e j label s = (t, vid) \<Longrightarrow> touches {j} s t"
  using touches_trans [OF touches_quiet(3) touches_virtualNodeInfo]
  by (auto simp: virtual_sender_def Let_def split: prod.splits if_splits intro: footprint)

lemma touches_mt_identity: "mt_identity fl e j src body s = (t, d, b) \<Longrightarrow> touches {j} s t"
  using touches_virtual_sender
  by (fastforce simp: mt_identity_def split: if_splits option.splits prod.splits intro: footprint)

lemma touches_mc_identity: "mc_identity fl e src srcId body s = (t, b) \<Longrightarrow> touches J s t"
  by (auto simp: mc_identity_def Let_def split: if_splits prod.splits intro: footprint)

lemma touches_emit_text: "touches {j} s t \<Longrightarrow> touches {j} s (emit_text e j b d p pkt t)"
  by (auto simp: emit_text_def intro: footprint)

lemma touches_text_to_mt: "touches {j} s (text_to_mt fl e src j body s)"
  using touches_mt_identity [of fl e j src body s]
  by (auto simp: text_to_mt_def split: prod.splits option.splits intro!: touches_emit_text touches_drawn_after)

lemma touches_text_to_mc: "touches {j} s (text_to_mc fl e src srcId j body s)"
  using touches_mc_identity [of fl e src srcId body s]
  by (auto simp: text_to_mc_def split: prod.splits option.splits intro: touches_emit_text footprint)

lemma touches_abp [footprint]: "touches {j} s (fst (enqueueAbpUplink fl e src srcId j payload s))"
  by (auto simp: enqueueAbpUplink_def Let_def split: prod.splits option.splits intro: footprint)

lemma touches_enqueueText [footprint]: "touches {j} s (enqueueTextForDest fl e src srcId body j s)"
  by (auto simp: enqueueTextForDest_def Let_def touches_text_to_mt touches_text_to_mc intro: footprint)

lemma touches_rawRepeat [footprint]: "touches {j} s (rawRepeatForDest e srcId buf j s)"
  by (auto simp: rawRepeatForDest_def split: option.splits intro: footprint)

section \<open>The interface of a per-destination handler\<close>

text \<open>
  A handler works on one destination: it may change that destination's queue and the shared
  caches, never the routing state. A fan-out of such a handler reaches only the destinations
  the routing matrix allows.
\<close>

locale dest_handler =
  fixes handle :: "nat \<Rightarrow> bridge \<Rightarrow> bridge"
  assumes own_queue: "touches {j} s (handle j s)"
begin

lemma fan_out_loop:
  "touches {j. dest_ok s i j} s t \<Longrightarrow>
     touches {j. dest_ok s i j} s (foldl (\<lambda>t j. if dest_ok t i j then handle j t else t) t js)"
proof (induction js arbitrary: t)
  case (Cons j js)
  have "dest_ok t i j = dest_ok s i j"
    using Cons.prems by (simp add: dest_ok_def touches_def br_static_def)
  then have "touches {j. dest_ok s i j} s (if dest_ok t i j then handle j t else t)"
    using Cons.prems touches_trans touches_mono [OF own_queue [of j t], of "{j. dest_ok s i j}"] by auto
  then show ?case using Cons.IH by simp
qed simp

lemma fan_out_touches: "touches {j. dest_ok s i j} s (fan_out i handle s)"
  unfolding fan_out_def by (rule fan_out_loop) (rule touches_refl)

lemma guarded_fan_out:
  assumes "dup_guard e h s = (t, False)"
  shows "touches {j. dest_ok s i j} s (fan_out i handle t)"
proof -
  have "touches {j. dest_ok t i j} s t" using touches_guard [OF assms] .
  moreover have "dest_ok t i = dest_ok s i"
    using touches_guard [OF assms, of "{}"] by (auto simp: dest_ok_def touches_def br_static_def)
  ultimately show ?thesis using touches_trans fan_out_touches [of t i] by simp
qed

end

interpretation raw: dest_handler "rawRepeatForDest e srcId buf" for e srcId buf
  by unfold_locales (rule footprint)

interpretation frags: dest_handler "\<lambda>j. enqueueReticulumForDest fl e j buf" for fl e buf
  by unfold_locales (rule footprint)

interpretation rns: dest_handler "\<lambda>j t. if bf_rns_inproto fl \<and> ch_protocol (br_chan t ! j) = SYNC_WORD_RETICULUM
    then rawRepeatForDest e 0 buf j t else enqueueReticulumForDest fl e j buf t" for fl e buf
  by unfold_locales (auto intro: footprint)

interpretation summary: dest_handler "\<lambda>j t. let dp = ch_protocol (br_chan t ! j) in
    if dp = SYNC_WORD_MESHTASTIC \<or> dp = SYNC_WORD_MESHCORE
    then enqueueTextForDest fl e (br_chan t ! i) 0 msg j t else t" for fl e i msg
  by unfold_locales (auto simp: Let_def intro: footprint)

interpretation relay: dest_handler "\<lambda>j t. if ch_protocol (br_chan t ! j) = SYNC_WORD_LORAWAN
    then rawRepeatForDest e 0 buf j t else t" for e buf
  by unfold_locales (auto intro: footprint)

interpretation crep: dest_handler "\<lambda>j t. if sameChannel (br_chan t ! i) (br_chan t ! j)
    then rawRepeatForDest e 0 buf j t else t" for e i buf
  by unfold_locales (auto intro: footprint)

interpretation abp: dest_handler "\<lambda>j t. if ch_protocol (br_chan t ! j) = SYNC_WORD_LORAWAN
    then fst (enqueueAbpUplink fl e (br_chan t ! i) 0 j buf t) else t" for fl e i buf
  by unfold_locales (auto intro: footprint)

interpretation body: dest_handler "\<lambda>j t. if bf_identity_preserve fl \<and> sameChannel (br_chan t ! i) (br_chan t ! j)
    then rawRepeatForDest e srcId buf j t else enqueueTextForDest fl e (br_chan t ! i) srcId msg j t"
  for fl e i srcId buf msg
  by unfold_locales (auto intro: footprint)

section \<open>The footprint of a received packet\<close>

lemma handleInbound_outbox:
  assumes "handleInbound aes e radio buf s = (s2, acted)"
  shows "\<exists>fs. c2_outbox s2 = c2_outbox s @ fs \<and> (\<forall>f \<in> set fs. fst f = radio)"
proof -
  have ack: "\<exists>fs. c2_outbox (send_ack aes e radio r ack t) = c2_outbox t @ fs \<and> (\<forall>f \<in> set fs. fst f = radio)" for r ack t
    by (auto simp: send_ack_def emit_frame_def Let_def split: option.splits prod.splits)
  have au: "c2_outbox t = c2_outbox s" if "authInbound aes e buf s = (t, r)" for t r
    using that by (auto simp: authInbound_def Let_def split: if_splits option.splits prod.splits bool.splits)
  have ex: "c2_outbox u = c2_outbox t" if "executeCommand e c args cap t = (u, k, r)" for t u c args cap k r
    using that by (auto simp: executeCommand_def split: if_splits prod.splits)
  show ?thesis
  proof (cases "authInbound aes e buf s")
    case (Pair t r)
    obtain u k res where x: "executeCommand e (case r of Some d \<Rightarrow> (case dc_plain d of [] \<Rightarrow> CMD_NONE | c # _ \<Rightarrow> c))
        (drop 1 (dc_plain (the r))) C2_MAX_PAYLOAD t = (u, k, res)"
      by (metis prod_cases3)
    have "c2_outbox u = c2_outbox s" using au [OF Pair] ex [OF x] by simp
    then show ?thesis
      using assms Pair x au [OF Pair] ack [of "dc_sender (the r)" k u]
      by (auto simp: handleInbound_def Let_def storeMessage_def split: if_splits option.splits)
  qed
qed

lemma touches_emits:
  "(\<forall>f \<in> set fs. fst f = int i) \<Longrightarrow> touches {i} s (fold (\<lambda>(radio, frame) t. fst (camC2Emit e radio frame t)) fs s)"
proof (induction fs arbitrary: s)
  case (Cons f fs)
  obtain frame where f: "f = (int i, frame)" using Cons.prems by (cases f) auto
  have "touches {i} s (fst (camC2Emit e (int i) frame s))"
    by (auto simp: camC2Emit_def intro: touches_push_after footprint)
  then show ?case using f Cons.IH Cons.prems by (auto intro: touches_trans)
qed (simp add: footprint)

lemma touches_ingest_c2: "ingest_c2 e i buf s = (t, taken) \<Longrightarrow> touches {i} s t"
proof -
  assume a: "ingest_c2 e i buf s = (t, taken)"
  obtain c2 k where h: "handleInbound (aes_enc (be_crypto e)) ((be_c2 e)\<lparr>env_now := be_now e\<rparr>) (int i) buf
      ((br_c2 s)\<lparr>c2_outbox := []\<rparr>) = (c2, k)" by fastforce
  then have "\<forall>f \<in> set (c2_outbox c2). fst f = int i" using handleInbound_outbox [OF h] by auto
  then have "touches {i} (s\<lparr>br_c2 := c2\<rparr>)
      (fold (\<lambda>(radio, frame) t. fst (camC2Emit e radio frame t)) (c2_outbox c2) (s\<lparr>br_c2 := c2\<rparr>))"
    by (rule touches_emits)
  then show ?thesis using a h touches_trans [OF touches_quiet(6)] by (auto simp: ingest_c2_def)
qed

lemma dest_ok_touched: "touches J s t \<Longrightarrow> dest_ok t i = dest_ok s i"
  by (auto simp: dest_ok_def touches_def br_static_def)

lemma touches_ingest_rns: "touches {j. dest_ok s i j} s (ingest_rns fl e i buf s)"
  unfolding ingest_rns_def using rns.guarded_fan_out touches_guard
  by (auto split: prod.splits bool.splits)

lemma touches_ingest_lorawan: "touches {j. dest_ok s i j} s (ingest_lorawan fl e i buf s)"
proof (cases "dup_guard e (dedup_hash buf 0 0) s")
  case (Pair t seen)
  obtain m p where m: "extractLoRaWANMeta buf = (m, p)" by fastforce
  define u where "u = (if bf_lw_summary fl \<and> p then
       fan_out i (\<lambda>j t. let dp = ch_protocol (br_chan t ! j) in
         if dp = SYNC_WORD_MESHTASTIC \<or> dp = SYNC_WORD_MESHCORE
         then enqueueTextForDest fl e (br_chan t ! i) 0 (lorawan_summary m (length buf)) j t else t) t else t)"
  have g: "touches {j. dest_ok s i j} s t" by (rule touches_guard [OF Pair])
  have u: "touches {j. dest_ok s i j} s u"
    using g touches_trans [OF g] summary.fan_out_touches [of t i] dest_ok_touched [OF g, of i] by (auto simp: u_def)
  have "touches {j. dest_ok s i j} u (fan_out i (\<lambda>j t. if ch_protocol (br_chan t ! j) = SYNC_WORD_LORAWAN
      then rawRepeatForDest e 0 buf j t else t) u)"
    using relay.fan_out_touches [of u i] dest_ok_touched [OF u, of i] by simp
  note relayed = touches_trans [OF u this]
  have "ingest_lorawan fl e i buf s = (if seen then t else if bf_lw_relay fl then
      fan_out i (\<lambda>j t. if ch_protocol (br_chan t ! j) = SYNC_WORD_LORAWAN then rawRepeatForDest e 0 buf j t else t) u else u)"
    unfolding ingest_lorawan_def Pair m u_def by (cases seen) (simp_all add: Let_def)
  then show ?thesis using g u relayed by simp
qed

lemma touches_custom_repeat: "touches {j. dest_ok s i j} s (ingest_custom_repeat e i buf s)"
  unfolding ingest_custom_repeat_def using crep.guarded_fan_out touches_guard
  by (auto split: prod.splits bool.splits)

lemma touches_custom_abp: "touches {j. dest_ok s i j} s (ingest_custom_abp fl e i buf s)"
  unfolding ingest_custom_abp_def using abp.guarded_fan_out touches_guard
  by (auto split: prod.splits bool.splits)

lemma touches_bridge_body: "touches {j. dest_ok s i j} s (bridge_body fl e i buf srcId pid b s)"
  unfolding bridge_body_def using body.guarded_fan_out touches_guard
  by (auto split: prod.splits bool.splits)

lemma touches_body_after:
  assumes "touches J s t" and "J \<subseteq> {j. dest_ok s i j}"
  shows "touches {j. dest_ok s i j} s (bridge_body fl e i buf srcId pid b t)"
proof -
  have "touches {j. dest_ok s i j} t (bridge_body fl e i buf srcId pid b t)"
    using touches_bridge_body [of t i fl e buf srcId pid b] by (simp add: dest_ok_touched [OF assms(1)])
  then show ?thesis by (rule touches_trans [OF touches_mono [OF assms]])
qed

lemma touches_mt_text: "mt_text e i buf s = Some (t, b) \<Longrightarrow> touches J s t"
  by (auto simp: mt_text_def Let_def split: if_splits option.splits intro: footprint)

lemma touches_ingest_meshtastic:
  "ingest_meshtastic fl e i buf s = Some t \<Longrightarrow> touches {j. dest_ok s i j} s t"
  using touches_mt_text [of e i buf s]
  by (auto simp: ingest_meshtastic_def Let_def split: option.splits prod.splits if_splits
      intro: footprint touches_body_after [of "{}"])

lemma touches_ingest_meshcore: "touches {j. dest_ok s i j} s (ingest_meshcore fl e i buf s)"
  by (auto simp: ingest_meshcore_def split: option.splits intro: footprint touches_body_after [of "{}"])

section \<open>Properties\<close>

lemma touches_ingestAndFanout:
  assumes "ingestAndFanout fl e i buf s = Some t"
  shows "touches ({j. dest_ok s i j} \<union> {j. bf_camera fl \<and> custom_radio s i \<and> j = i}) s t"
proof -
  let ?J = "{j. dest_ok s i j} \<union> {j. bf_camera fl \<and> custom_radio s i \<and> j = i}"
  obtain s1 taken where c: "(if bf_camera fl \<and> custom_radio s i then ingest_c2 e i buf s else (s, False)) = (s1, taken)"
    by fastforce
  have s1: "touches {j. bf_camera fl \<and> custom_radio s i \<and> j = i} s s1"
    using c by (auto split: if_splits intro: footprint dest: touches_ingest_c2)
  have d: "dest_ok s1 i = dest_ok s i" by (rule dest_ok_touched [OF s1])
  have after: "touches ?J s u" if "touches {j. dest_ok s1 i j} s1 u" for u
    using touches_trans [OF touches_mono [OF s1, of ?J] touches_mono [OF that, of ?J]] d by auto
  show ?thesis
    using assms c touches_mono [OF touches_ingest_rns, of s i ?J] touches_mono [OF touches_ingest_lorawan, of s i ?J]
      after [OF touches_custom_repeat] after [OF touches_custom_abp] after [OF touches_ingest_meshtastic]
      after [OF touches_ingest_meshcore] touches_mono [OF s1, of ?J]
    by (auto simp: ingestAndFanout_def Let_def split: if_splits bool.splits)
qed

text \<open>
  C1: Routing is respected: whatever is received on radio \<open>i\<close>, the only queues that can change are
  those of other, enabled, present radios in its route mask (and, on a camera's command radio,
  its own queue, for the acknowledgement); the configuration, the channels and the routing
  matrix never change.
\<close>

theorem routing_respected:
  assumes "ingestAndFanout fl e i buf s = Some t"
  shows "br_static s t \<and>
    (\<forall>j. br_queue t ! j \<noteq> br_queue s ! j \<longrightarrow>
       (j \<noteq> i \<and> br_enabled s ! j \<and> br_present s ! j \<and> bit (br_route s ! i) j) \<or>
       (bf_camera fl \<and> custom_radio s i \<and> j = i))"
  using touches_ingestAndFanout [OF assms] by (auto simp: touches_def dest_ok_def)

text \<open>A bridge with one radio of each protocol, for the witnesses.\<close>

definition sample_queue :: route_queue where
  "sample_queue = \<lparr>rq_ring = [sample_slot, sample_slot], rq_head = 0, rq_tail = 0, rq_count = 0,
     rq_maxAgeMs = 0, rq_dropped = 0\<rparr>"

definition sample_bridge :: bridge where
  "sample_bridge = \<lparr>br_cfg = loadDefaults sample_flags,
     br_chan = [sample_channel, sample_channel\<lparr>ch_protocol := 0x12\<rparr>, sample_channel\<lparr>ch_protocol := 0x42\<rparr>,
       sample_channel\<lparr>ch_protocol := 0x34\<rparr>],
     br_enabled = [True, True, True, True], br_present = [True, True, True, True], br_route = [2, 1, 1, 3],
     br_queue = [Some sample_queue, Some sample_queue, Some sample_queue, Some sample_queue],
     br_dedup = [\<lparr>de_hash = 0, de_stamp = 0, de_used = False\<rparr>],
     br_virt = [\<lparr>ve_id = 0, ve_lastNodeInfoMs = 0, ve_used = False\<rparr>],
     br_nodes = \<lparr>nd_table = [], nd_nvs = NvsMissing\<rparr>, br_clockUnix = 0, br_clockMillis = 0, br_lw = sample_lw,
     br_lwCryptoOk = True, br_c2 = sample_c2 1, br_draws = 0\<rparr>"

definition sample_benv :: bridge_env where
  "sample_benv = \<lparr>be_now = 1000, be_crypto = toy_crypto, be_random = (\<lambda>n. 5), be_nvs_ok = True,
     be_fcnt = (\<lambda>j. Write_ok), be_fcnt_readable = (\<lambda>j. True), be_c2 = sample_env\<rparr>"

lemma sample_simps:
  "be_crypto sample_benv = toy_crypto" "be_now sample_benv = 1000" "length (br_queue sample_bridge) = 4"
  "br_chan sample_bridge ! 0 = sample_channel" "ch_protocol (br_chan sample_bridge ! 0) = SYNC_WORD_MESHTASTIC"
  "ch_protocol (br_chan sample_bridge ! 1) = SYNC_WORD_MESHCORE" "br_dedup sample_bridge \<noteq> []"
  "nd_table (br_nodes sample_bridge) = []" "br_lw sample_bridge = sample_lw" "br_lwCryptoOk sample_bridge"
  by (simp_all add: sample_benv_def sample_bridge_def sample_channel_def SYNC_WORD_MESHTASTIC_def SYNC_WORD_MESHCORE_def)

lemma sample_laws: "crypto_laws (be_crypto sample_benv)"
  using toy_crypto_laws by (simp add: sample_benv_def)

lemma routing_respected_witness:
  "\<exists>t. ingestAndFanout stock_flags sample_benv 2 [1, 2] sample_bridge = Some t \<and>
     br_queue t ! 1 = br_queue sample_bridge ! 1"
proof -
  have "ch_protocol (br_chan sample_bridge ! 2) = SYNC_WORD_RETICULUM"
    by (simp add: sample_bridge_def SYNC_WORD_RETICULUM_def numeral_2_eq_2)
  then have i: "ingestAndFanout stock_flags sample_benv 2 [1, 2] sample_bridge
      = Some (ingest_rns stock_flags sample_benv 2 [1, 2] sample_bridge)"
    by (simp add: ingestAndFanout_def Let_def)
  have "\<not> bit (br_route sample_bridge ! 2) 1" "\<not> bf_camera stock_flags"
    by (simp_all add: sample_bridge_def stock_flags_def numeral_2_eq_2 bit_1_iff)
  then show ?thesis using routing_respected [OF i] i by blast
qed

end
