(* ===== verification/BridgeDelivery.thy ===== *)
theory BridgeDelivery
  imports BridgeRouting
begin

text \<open>
  End to end delivery of a text through the bridge: what is queued for a Meshtastic or MeshCore
  destination decodes there to the text with its sender, and the echo of an emission is
  recognised and dropped.
\<close>

section \<open>What a handler queues\<close>

definition push_all :: "u32 \<Rightarrow> bytes list \<Rightarrow> route_queue option \<Rightarrow> route_queue option" where
  "push_all now pkts q = foldl (\<lambda>q p. fst (queue_push now p q)) q pkts"

lemma push_all_simps [simp]:
  "push_all now [] q = q" "push_all now (p # ps) q = push_all now ps (fst (queue_push now p q))"
  by (simp_all add: push_all_def)

lemma push_all_append: "push_all now (ps @ qs) q = push_all now qs (push_all now ps q)"
  by (simp add: push_all_def)

lemma push_to_queue:
  "j < length (br_queue s) \<Longrightarrow> br_queue (fst (push_to e j p s)) ! j = push_all (be_now e) [p] (br_queue s ! j)"
  by (simp add: push_to_def split: prod.splits)

lemma record_queue [simp]:
  "br_queue (record_emission e h s) = br_queue s" "br_queue (drawn s) = br_queue s"
  "br_cfg (record_emission e h s) = br_cfg s" "br_cfg (drawn s) = br_cfg s"
  "br_chan (record_emission e h s) = br_chan s" "br_chan (drawn s) = br_chan s"
  by (simp_all add: record_emission_def drawn_def)

text \<open>In terms of the queue's contents: the new packets, newest last, displace the oldest.\<close>

lemma push_all_list:
  assumes "rq_inv q" and "\<forall>p \<in> set ps. p \<noteq> [] \<and> length p \<le> RQ_MAX_PACKET"
  shows "\<exists>q2. push_all now ps (Some q) = Some q2 \<and> rq_inv q2 \<and>
    rq_list q2 = drop (length (rq_list q) + length ps - rq_cap q) (rq_list q @ map (\<lambda>p. (p, now)) ps)"
proof -
  have "push_all now ps (Some q) = Some (rq.put_all (map (\<lambda>p. (p, now)) ps) q)"
    using assms(2) unfolding rq.put_all_def
    by (induction ps arbitrary: q) (auto simp: queue_push_def rq_push_def rq_put_item_def)
  moreover have "list_all rq_ok (map (\<lambda>p. (p, now)) ps)"
    using assms(2) by (auto simp: list_all_iff rq_ok_def)
  ultimately show ?thesis using rq.put_all_contents [OF assms(1)] by fastforce
qed

section \<open>A recorded hash is seen\<close>

lemma insert_seen:
  assumes "tab \<noteq> []" and "later - now < BRIDGE_DEDUP_TTL_MS"
  shows "dedup_isSeen (dedup_insert tab h now) h later"
proof (cases "insert_scan h now 0 tab None 0 0")
  case (Inl j)
  with scan_Inl [OF Inl] have j: "j < length tab" "matches h (tab ! j)" by auto
  then have "(tab ! j)\<lparr>de_stamp := now\<rparr> \<in> set (dedup_insert tab h now)"
    using Inl by (simp add: dedup_insert_def set_update_memI)
  then show ?thesis
    unfolding dedup_isSeen_def list_ex_iff
    by (rule rev_bexI) (use j(2) assms(2) in \<open>simp add: matches_def\<close>)
next
  case (Inr j)
  with scan_range [OF Inr assms(1)] have "\<lparr>de_hash = h, de_stamp = now, de_used = True\<rparr> \<in> set (dedup_insert tab h now)"
    by (simp add: dedup_insert_def set_update_memI)
  then show ?thesis
    unfolding dedup_isSeen_def list_ex_iff by (rule rev_bexI) (use assms(2) in simp)
qed

lemma length_dedup_insert: "length (dedup_insert tab h now) = length tab"
  by (simp add: dedup_insert_def split: sum.splits)

lemma emit_text_seen:
  assumes "br_dedup s \<noteq> []" and "later - be_now e < BRIDGE_DEDUP_TTL_MS"
  shows "dedup_isSeen (br_dedup (emit_text e j b d p pkt s)) (dedup_hash b d p) later"
  using insert_seen [OF assms]
  by (simp add: emit_text_def push_to_def record_emission_def dedup_record_def split: prod.splits)

section \<open>What the encoders accept\<close>

lemma encodeMeshtasticText_256:
  "length body \<le> 200 \<Longrightarrow> \<exists>pkt pid. encodeMeshtasticText c rnd ch src body 256 = Some (pkt, pid)"
  by (simp add: encodeMeshtasticText_def Let_def)

lemma encodeMeshCore_256:
  assumes "length body \<le> 218"
  shows "\<exists>pkt. encodeMeshCoreGrpTxt c ch body ts 256 = Some pkt"
proof -
  have "(4 + 1 + length body + 1 + 15) div 16 * 16 \<le> 224" using assms by presburger
  then show ?thesis by (simp add: encodeMeshCoreGrpTxt_def Let_def)
qed

lemma encodeNodeInfo_256:
  "length nid \<le> 9 \<Longrightarrow> length lng \<le> 39 \<Longrightarrow> length sht \<le> 4 \<Longrightarrow>
     \<exists>pkt. encodeMeshtasticNodeInfo c rnd ch src nid lng sht 256 = Some pkt"
  by (simp add: encodeMeshtasticNodeInfo_def Let_def)

text \<open>Only the wanted port number gets the payload out of a Meshtastic packet.\<close>

lemma mt_payload_other_port:
  assumes "crypto_laws c" and "length pl \<le> 235" and "pn < 0x80" and "want \<noteq> ucast pn"
  shows "mt_payload c ch (mt_header src pid ch @
      mt_encrypt c ch pid src ([0x08, pn, 0x12] @ len_varint (length pl) @ pl)) want = Some None"
proof -
  have "length ([0x08, pn, 0x12] @ len_varint (length pl) @ pl) \<le> 240"
    using assms(2) by (simp add: length_len_varint)
  from mt_plaintext_encrypted [OF assms(1) _ this, of ch src pid]
  have "mt_plaintext c ch (mt_header src pid ch @ mt_encrypt c ch pid src ([0x08, pn, 0x12] @ len_varint (length pl) @ pl))
      = Some ([0x08, pn, 0x12] @ len_varint (length pl) @ pl)" by simp
  then show ?thesis
    unfolding mt_payload_def using data_walk_message [OF assms(3), of pl] assms(2,4) by (simp add: dm_slice_def)
qed

lemma mt_payload_empty:
  assumes "crypto_laws c" and "pn < 0x80"
  shows "mt_payload c ch (mt_header src pid ch @
      mt_encrypt c ch pid src ([0x08, pn, 0x12] @ len_varint (length []) @ [])) want = Some None"
proof -
  have "length ([0x08, pn, 0x12] @ len_varint (length []) @ []) \<le> 240" by (simp add: length_len_varint)
  from mt_plaintext_encrypted [OF assms(1) _ this, of ch src pid]
  have "mt_plaintext c ch (mt_header src pid ch @ mt_encrypt c ch pid src ([0x08, pn, 0x12] @ len_varint (length []) @ []))
      = Some ([0x08, pn, 0x12] @ len_varint (length []) @ [])" by simp
  then show ?thesis
    unfolding mt_payload_def using data_walk_message [OF assms(2), of "[]"] by (simp add: dm_slice_def)
qed

text \<open>A text packet of this bridge, received again: source, id and text, and no other message.\<close>

lemma text_packet_decodes:
  assumes "crypto_laws c" and "encodeMeshtasticText c rnd ch src body 256 = Some (pkt, pid)" and "cstr_ok body"
  shows "get32 pkt 4 = src" and "get32 pkt 8 = pid" and "16 \<le> length pkt" and "length pkt \<le> 221"
    and "extractMeshtasticNodeInfo c pkt ch sc lc = Some None"
    and "extractMeshtasticPosition c pkt ch = Some None"
    and "extractMeshtasticTelemetry c pkt ch = Some None"
    and "extractMeshtasticBody c pkt ch 256 = Some (if body = [] then None else Some body)"
proof -
  note e = encodeMeshtasticText_Some [OF assms(2)]
  have p: "mt_payload c ch pkt want = Some None" if "want \<noteq> 1" for want
    using mt_payload_other_port [OF assms(1), of body 1 want ch src pid] e that by simp
  have empty: "mt_payload c ch pkt 1 = Some None" if "body = []"
    using mt_payload_empty [OF assms(1), of 1 ch src pid 1] e that by simp
  show "get32 pkt 4 = src" "get32 pkt 8 = pid" "16 \<le> length pkt"
    using e by (simp_all add: mt_header_fields)
  show "extractMeshtasticNodeInfo c pkt ch sc lc = Some None" "extractMeshtasticPosition c pkt ch = Some None"
    "extractMeshtasticTelemetry c pkt ch = Some None"
    by (simp_all add: extractMeshtasticNodeInfo_def extractMeshtasticPosition_def extractMeshtasticTelemetry_def p)
  have b: "extractMeshtasticBody c pkt ch 256 = Some (Some body)" "length pkt \<le> 221" if "body \<noteq> []"
    using mt_text_decodes [OF assms(1) that assms(3) _ assms(2), of 256] e by simp_all
  have "length pkt \<le> 221" if "body = []"
    using e that by (simp add: mt_header_fields mt_encrypt_def crypto_lawsD(3) [OF assms(1)] length_len_varint)
  with b(2) show "length pkt \<le> 221" by blast
  show "extractMeshtasticBody c pkt ch 256 = Some (if body = [] then None else Some body)"
    using b empty by (auto simp: extractMeshtasticBody_def)
qed

section \<open>An echo is dropped\<close>

text \<open>
  A packet heard on radio \<open>k\<close> that carries the text \<open>body\<close> of source \<open>src\<close> with id \<open>pid\<close>, on a
  radio that decodes text, while the cache holds its hash.
\<close>

definition text_radio :: "build_flags \<Rightarrow> bridge \<Rightarrow> nat \<Rightarrow> bool" where
  "text_radio fl s k \<longleftrightarrow> \<not> ((bf_camera fl \<or> bf_custom_repeat fl \<or> bf_lw_encode fl) \<and> custom_radio s k)"

lemma ingest_text_radio:
  assumes "text_radio fl s k"
  shows "ch_protocol (br_chan s ! k) = SYNC_WORD_MESHTASTIC \<Longrightarrow> ingestAndFanout fl e k pkt s = ingest_meshtastic fl e k pkt s"
    and "ch_protocol (br_chan s ! k) = SYNC_WORD_MESHCORE \<Longrightarrow> ingestAndFanout fl e k pkt s = Some (ingest_meshcore fl e k pkt s)"
proof -
  have p: "SYNC_WORD_MESHTASTIC \<noteq> SYNC_WORD_RETICULUM" "SYNC_WORD_MESHTASTIC \<noteq> SYNC_WORD_LORAWAN"
    "SYNC_WORD_MESHCORE \<noteq> SYNC_WORD_RETICULUM" "SYNC_WORD_MESHCORE \<noteq> SYNC_WORD_LORAWAN"
    "SYNC_WORD_MESHCORE \<noteq> SYNC_WORD_MESHTASTIC"
    by (simp_all add: SYNC_WORD_MESHTASTIC_def SYNC_WORD_RETICULUM_def SYNC_WORD_LORAWAN_def SYNC_WORD_MESHCORE_def)
  show "ch_protocol (br_chan s ! k) = SYNC_WORD_MESHTASTIC \<Longrightarrow> ingestAndFanout fl e k pkt s = ingest_meshtastic fl e k pkt s"
    using assms p by (auto simp: ingestAndFanout_def Let_def text_radio_def)
  show "ch_protocol (br_chan s ! k) = SYNC_WORD_MESHCORE \<Longrightarrow> ingestAndFanout fl e k pkt s = Some (ingest_meshcore fl e k pkt s)"
    using assms p by (auto simp: ingestAndFanout_def Let_def text_radio_def)
qed

lemma guard_hit:
  "dedup_isSeen (br_dedup s) h (be_now e) \<Longrightarrow> dup_guard e h s = (s\<lparr>br_dedup := dedup_insert (br_dedup s) h (be_now e)\<rparr>, True)"
  by (simp add: dup_guard_def seenAndRecord_def)

lemma mt_echo_dropped:
  assumes "crypto_laws (be_crypto e)" and "cstr_ok body" and "text_radio fl s k"
    and "ch_protocol (br_chan s ! k) = SYNC_WORD_MESHTASTIC"
    and "encodeMeshtasticText (be_crypto e) rnd (br_chan s ! k) src body 256 = Some (pkt, pid)"
    and "dedup_isSeen (br_dedup s) (dedup_hash body src pid) (be_now e)"
  shows "\<exists>t. ingestAndFanout fl e k pkt s = Some t \<and> br_queue t = br_queue s"
proof -
  note d = text_packet_decodes [OF assms(1,5,2)]
  have "mt_text e k pkt s = Some (s, if body = [] then None else Some body)"
    using d(5-8) by (simp add: mt_text_def Let_def)
  then have "ingest_meshtastic fl e k pkt s =
      Some (if body = [] then s else bridge_body fl e k pkt src pid body s)"
    using d(1-5) by (simp add: ingest_meshtastic_def Let_def)
  then show ?thesis
    using ingest_text_radio(1) [OF assms(3,4)] guard_hit [OF assms(6)] by (simp add: bridge_body_def)
qed

lemma mc_text_empty:
  assumes "crypto_laws c" and "encodeMeshCoreGrpTxt c ch [] ts 256 = Some pkt"
  shows "extractMeshCoreBody c pkt ch cap = None"
proof -
  define pt where "pt = le32 ts @ [0] @ [] @ replicate (16 - 5 - length []) (0 :: u8)"
  let ?k = "take 16 (ch_key ch)"
  define ct where "ct = ecb_blocks (aes_enc c ?k) pt"
  have lp: "length pt = 16" by (simp add: pt_def)
  have e: "\<And>b. length (aes_enc c ?k b) = 16" using crypto_lawsD(1) [OF assms(1)] by (simp add: aes_block_def)
  have lct: "length ct = 16" by (simp add: ct_def length_ecb_blocks [of "aes_enc c ?k", OF e] lp)
  have pkt: "\<exists>a b. pkt = [0x15, 0, ch_channelHash ch, a, b] @ ct"
    using assms(2) by (auto simp: encodeMeshCoreGrpTxt_def Let_def ct_def pt_def)
  have dec: "ecb_blocks (aes_dec c ?k) ct = pt"
    unfolding ct_def by (rule ecb_roundtrip [OF assms(1)]) (simp add: lp)
  have "mc_payload_off pkt = Some 2"
    using pkt mc_payload_off_encoded [of "_ # _ # ct"] lct by auto
  moreover have "takeWhile (\<lambda>b. b \<noteq> 0) (drop 5 pt) = []" by (simp add: pt_def le32_def)
  ultimately show ?thesis using pkt lct by (auto simp: extractMeshCoreBody_def Let_def dec)
qed

lemma mc_echo_dropped:
  assumes "crypto_laws (be_crypto e)" and "cstr_ok body" and "text_radio fl s k"
    and "ch_protocol (br_chan s ! k) = SYNC_WORD_MESHCORE"
    and "encodeMeshCoreGrpTxt (be_crypto e) (br_chan s ! k) body ts 256 = Some pkt"
    and "dedup_isSeen (br_dedup s) (dedup_hash body 0 0) (be_now e)"
  shows "\<exists>t. ingestAndFanout fl e k pkt s = Some t \<and> br_queue t = br_queue s"
proof (cases "body = []")
  case True
  with assms(5) mc_text_empty [OF assms(1)] show ?thesis
    using ingest_text_radio(2) [OF assms(3,4)] by (simp add: ingest_meshcore_def)
next
  case False
  have "length body \<le> 255"
    using assms(5) by (auto simp: encodeMeshCoreGrpTxt_def Let_def split: if_splits)
  then have "extractMeshCoreBody (be_crypto e) pkt (br_chan s ! k) 256 = Some (body, ts)"
    using mc_text_decodes [OF assms(1) False assms(2), where cap = 256 and ch = "br_chan s ! k" and ts = ts and outCap = 256] assms(5) by simp
  moreover have "dup_guard e (dedup_hash body 0 0) (learnClock (be_now e) ts s)
      = ((learnClock (be_now e) ts s)\<lparr>br_dedup := dedup_insert (br_dedup s) (dedup_hash body 0 0) (be_now e)\<rparr>, True)"
    using assms(6) guard_hit [of "learnClock (be_now e) ts s" _ e] by (simp add: learnClock_def split: if_splits)
  ultimately show ?thesis
    using ingest_text_radio(2) [OF assms(3,4)] by (simp add: ingest_meshcore_def bridge_body_def learnClock_def)
qed

section \<open>The virtual sender\<close>

lemma cstr_ok_str: "CHR 0x00 \<notin> set t \<Longrightarrow> (\<forall>c \<in> set t. (of_char c :: u8) \<noteq> 0) \<Longrightarrow> cstr_ok (str t)"
  by (auto simp: str_def cstr_ok_def)

lemma cstr_ok_hex: "cstr_ok (fmt_08lx w)"
proof -
  have "cstr_ok (hex_of bs)" for bs
  proof (induction bs)
    case (Cons b bs)
    then show ?case
      using hex_digit_nonzero [OF nibbles(1), of b] hex_digit_nonzero [OF nibbles(2), of b] by (simp add: hex_of_def)
  qed (simp add: hex_of_def)
  then show ?thesis by (simp add: fmt_08lx_def)
qed

text \<open>The names a virtual node is advertised under.\<close>

definition virtual_long :: "build_flags \<Rightarrow> bytes \<Rightarrow> bytes" where
  "virtual_long fl name = (if bf_tag_origin fl then take 32 name @ str '' @MC'' else take 39 name)"

lemma virtual_long_fits: "length (virtual_long fl name) \<le> 39"
  by (simp add: virtual_long_def str_def min_le_iff_disj)

lemma virtual_long_ok: "cstr_ok name \<Longrightarrow> cstr_ok (virtual_long fl name)"
  by (simp add: virtual_long_def str_def cstr_ok_take)

definition advertises :: "build_flags \<Rightarrow> bridge_env \<Rightarrow> radio_channel \<Rightarrow> u32 \<Rightarrow> bytes \<Rightarrow> bytes \<Rightarrow> bool" where
  "advertises fl e ch vid name pkt \<longleftrightarrow>
     extractMeshtasticNodeInfo (be_crypto e) pkt ch (MAX_SHORT_NAME + 1) (MAX_LONG_NAME + 1)
       = Some (Some (vid, take 4 name, virtual_long fl name))"

lemma virtualNodeInfo_result:
  assumes "crypto_laws (be_crypto e)" and "cstr_ok name" and "j < length (br_queue s)"
  shows "\<exists>pkt. br_queue (enqueueVirtualNodeInfo fl e j vid name s) ! j = push_all (be_now e) [pkt] (br_queue s ! j) \<and>
    br_dedup (enqueueVirtualNodeInfo fl e j vid name s) = br_dedup s \<and>
    advertises fl e (br_chan s ! j) vid name pkt"
proof -
  have i: "bounded_copy 12 (str ''!'' @ fmt_08lx vid) = str ''!'' @ fmt_08lx vid"
    by (rule bounded_copy_id) (simp add: str_def)
  have l: "bounded_copy (MAX_LONG_NAME + 1) (virtual_long fl name) = virtual_long fl name"
    using virtual_long_fits [of fl name] by (intro bounded_copy_id) (simp add: MAX_LONG_NAME_def)
  have sh: "bounded_copy (MAX_SHORT_NAME + 1) (take 4 name) = take 4 name"
    by (rule bounded_copy_id) (simp add: MAX_SHORT_NAME_def)
  have li: "length (str ''!'' @ fmt_08lx vid) = 9" by (simp add: str_def)
  let ?enc = "encodeMeshtasticNodeInfo (be_crypto e) (draw e s) (br_chan s ! j) vid (str ''!'' @ fmt_08lx vid)
      (virtual_long fl name) (take 4 name) 256"
  obtain pkt where enc: "?enc = Some pkt"
    using encodeNodeInfo_256 [of "str ''!'' @ fmt_08lx vid" "virtual_long fl name" "take 4 name"]
      virtual_long_fits [of fl name] li by fastforce
  have q: "enqueueVirtualNodeInfo fl e j vid name s = fst (push_to e j pkt (drawn s))"
    using enc unfolding enqueueVirtualNodeInfo_def virtual_long_def [symmetric] Let_def i l sh by simp
  have "extractMeshtasticNodeInfo (be_crypto e) pkt (br_chan s ! j) (MAX_SHORT_NAME + 1) (MAX_LONG_NAME + 1)
      = Some (Some (vid, take MAX_SHORT_NAME (take 4 name), take MAX_LONG_NAME (virtual_long fl name)))"
    using nodeinfo_decodes [OF assms(1) enc _ virtual_long_ok [OF assms(2)] cstr_ok_take [OF assms(2)],
        of "MAX_SHORT_NAME + 1" "MAX_LONG_NAME + 1"] by (simp add: MAX_SHORT_NAME_def MAX_LONG_NAME_def)
  moreover have "take MAX_SHORT_NAME (take 4 name) = take 4 name"
    "take MAX_LONG_NAME (virtual_long fl name) = virtual_long fl name"
    using virtual_long_fits [of fl name] by (simp_all add: MAX_SHORT_NAME_def MAX_LONG_NAME_def min_def)
  ultimately have "advertises fl e (br_chan s ! j) vid name pkt" by (simp add: advertises_def)
  moreover have "br_queue (fst (push_to e j pkt (drawn s))) ! j = push_all (be_now e) [pkt] (br_queue s ! j)"
    using push_to_queue [of j "drawn s" e pkt] assms(3) by simp
  moreover have "br_dedup (fst (push_to e j pkt (drawn s))) = br_dedup s"
    by (simp add: push_to_def drawn_def split: prod.splits)
  ultimately show ?thesis unfolding q by blast
qed

text \<open>What minting a virtual sender queues: its NodeInfo, exactly when one is due.\<close>

definition minted :: "build_flags \<Rightarrow> bridge_env \<Rightarrow> nat \<Rightarrow> bytes \<Rightarrow> bridge \<Rightarrow> bytes list \<Rightarrow> bool" where
  "minted fl e j name s nis \<longleftrightarrow>
     (case idForLabel (br_virt s) name (bc_mtNodeId (br_cfg s)) of (tab, vid) \<Rightarrow>
       (\<forall>ni \<in> set nis. advertises fl e (br_chan s ! j) vid name ni) \<and>
       length nis = (if snd (nodeInfoDue (be_now e) tab vid) then 1 else 0))"

lemma virtual_sender_result:
  assumes "crypto_laws (be_crypto e)" and "cstr_ok name" and "j < length (br_queue s)"
    and "virtual_sender fl e j name s = (t, vid)"
  shows "vid = snd (idForLabel (br_virt s) name (bc_mtNodeId (br_cfg s)))" and "br_dedup t = br_dedup s"
    and "\<exists>nis. minted fl e j name s nis \<and> br_queue t ! j = push_all (be_now e) nis (br_queue s ! j)"
proof -
  obtain tab k where k: "idForLabel (br_virt s) name (bc_mtNodeId (br_cfg s)) = (tab, k)" by fastforce
  obtain tab2 due where d: "nodeInfoDue (be_now e) tab k = (tab2, due)" by fastforce
  have t: "t = (if due then enqueueVirtualNodeInfo fl e j k name (s\<lparr>br_virt := tab2\<rparr>) else s\<lparr>br_virt := tab2\<rparr>)" "vid = k"
    using assms(4) by (auto simp: virtual_sender_def k d Let_def)
  obtain pkt where p: "br_queue (enqueueVirtualNodeInfo fl e j k name (s\<lparr>br_virt := tab2\<rparr>)) ! j
      = push_all (be_now e) [pkt] (br_queue s ! j)"
    "br_dedup (enqueueVirtualNodeInfo fl e j k name (s\<lparr>br_virt := tab2\<rparr>)) = br_dedup s"
    "advertises fl e (br_chan s ! j) k name pkt"
    using virtualNodeInfo_result [OF assms(1,2), of j "s\<lparr>br_virt := tab2\<rparr>" fl k] assms(3) by auto
  show "vid = snd (idForLabel (br_virt s) name (bc_mtNodeId (br_cfg s)))" "br_dedup t = br_dedup s"
    using t p(2) k by simp_all
  have "minted fl e j name s (if due then [pkt] else [])"
    using p(3) by (simp add: minted_def k d)
  moreover have "br_queue t ! j = push_all (be_now e) (if due then [pkt] else []) (br_queue s ! j)"
    using t p(1) by simp
  ultimately show "\<exists>nis. minted fl e j name s nis \<and> br_queue t ! j = push_all (be_now e) nis (br_queue s ! j)" by blast
qed

section \<open>From MeshCore to Meshtastic\<close>

lemma sender_scan_Some:
  assumes "sender_scan body i n = Some k"
  shows "0 < k \<and> k + 1 < length body \<and> body ! k = of_char CHR '':'' \<and> body ! (k + 1) = of_char CHR '' '' \<and> k < i + n"
  using assms
proof (induction n arbitrary: i)
  case (Suc n)
  have c: "(of_char CHR '':'' :: u8) \<noteq> 0" "(of_char CHR '' '' :: u8) \<noteq> 0" by simp_all
  show ?case
  proof (cases "chr_at body i = of_char CHR '':'' \<and> chr_at body (i + 1) = of_char CHR '' ''")
    case True
    then have "k = i" "0 < i" using Suc.prems by (auto simp: Let_def split: if_splits)
    moreover have "i + 1 < length body" using True c by (auto simp: chr_at_def split: if_splits)
    ultimately show ?thesis using True by (simp add: chr_at_def)
  next
    case False
    then have "sender_scan body (i + 1) n = Some k" using Suc.prems by (auto simp: Let_def split: if_splits)
    then show ?thesis using Suc.IH [of "i + 1"] by simp
  qed
qed simp

lemma parseMcSenderName_Some:
  assumes "parseMcSenderName fl body cap = Some (name, rest)"
  shows "body = name @ str '': '' @ rest" and "name \<noteq> []" and "length name < cap"
proof -
  obtain k where k: "sender_scan body 0 (min (cap - 1) (bf_mc_name_max fl)) = Some k" "name = take k body" "rest = drop (k + 2) body"
    using assms by (auto simp: parseMcSenderName_def split: if_splits option.splits)
  note b = sender_scan_Some [OF k(1)]
  have "drop k body = body ! k # body ! (k + 1) # drop (k + 2) body"
    using b Cons_nth_drop_Suc [of k body] Cons_nth_drop_Suc [of "k + 1" body] by simp
  then show "body = name @ str '': '' @ rest"
    using b append_take_drop_id [of k body] by (simp add: k str_def)
  show "name \<noteq> []" "length name < cap" using b by (auto simp: k)
qed

lemma text_to_mt_sends:
  assumes "mt_identity fl e j src body s = (s2, d, b)" and "length b \<le> 200" and "j < length (br_queue s)"
  shows "\<exists>pkt pid. encodeMeshtasticText (be_crypto e) (draw e s2) (br_chan s ! j) d b 256 = Some (pkt, pid) \<and>
    text_to_mt fl e src j body s = emit_text e j b d pid pkt (drawn s2) \<and>
    br_queue (text_to_mt fl e src j body s) ! j = push_all (be_now e) [pkt] (br_queue s2 ! j)"
proof -
  obtain pkt pid where p: "encodeMeshtasticText (be_crypto e) (draw e s2) (br_chan s ! j) d b 256 = Some (pkt, pid)"
    using encodeMeshtasticText_256 [OF assms(2)] by blast
  have t: "text_to_mt fl e src j body s = emit_text e j b d pid pkt (drawn s2)"
    by (simp add: text_to_mt_def assms(1) p)
  have "length (br_queue s2) = length (br_queue s)"
    using touches_mt_identity [OF assms(1)] by (simp add: touches_def br_static_def)
  then have "br_queue (emit_text e j b d pid pkt (drawn s2)) ! j = push_all (be_now e) [pkt] (br_queue s2 ! j)"
    using push_to_queue [of j "record_emission e (dedup_hash b d pid) (drawn s2)" e pkt] assms(3) by (simp add: emit_text_def)
  then show ?thesis using p t by auto
qed

text \<open>
  C2: A MeshCore text reaches a Meshtastic destination under its sender's name: a body "name: rest"
  is split there, the packet queued decodes as exactly the rest, from a virtual node that is
  never reserved nor the bridge itself, and that node's NodeInfo ("name @MC") is queued ahead of
  it exactly when it is due.
\<close>

theorem meshcore_text_reaches_meshtastic:
  assumes "crypto_laws (be_crypto e)" and "bf_identity_preserve fl"
    and "ch_protocol src = SYNC_WORD_MESHCORE" and "ch_protocol (br_chan s ! j) = SYNC_WORD_MESHTASTIC"
    and "j < length (br_queue s)" and "cstr_ok body"
    and "parseMcSenderName fl body (MAX_LONG_NAME + 1) = Some (name, rest)" and "rest \<noteq> []" and "length rest \<le> 200"
  shows "body = name @ str '': '' @ rest \<and>
    (\<exists>nis pkt. minted fl e j name s nis \<and>
      br_queue (enqueueTextForDest fl e src srcId body j s) ! j = push_all (be_now e) (nis @ [pkt]) (br_queue s ! j) \<and>
      get32 pkt 4 = snd (idForLabel (br_virt s) name (bc_mtNodeId (br_cfg s))) \<and>
      \<not> isReserved (get32 pkt 4) \<and> get32 pkt 4 \<noteq> bc_mtNodeId (br_cfg s) \<and>
      extractMeshtasticBody (be_crypto e) pkt (br_chan s ! j) 256 = Some (Some rest))"
proof -
  note b = parseMcSenderName_Some [OF assms(7)]
  have ok: "cstr_ok name" "cstr_ok rest" using assms(6) b(1) by simp_all
  obtain s2 vid where v: "virtual_sender fl e j name s = (s2, vid)" by fastforce
  note r = virtual_sender_result [OF assms(1) ok(1) assms(5) v]
  have i: "mt_identity fl e j src body s = (s2, vid, rest)"
    using assms(2,3,7) v by (simp add: mt_identity_def del: One_nat_def Suc_eq_plus1 add_Suc_right add_0_right)
  obtain pkt pid where p: "encodeMeshtasticText (be_crypto e) (draw e s2) (br_chan s ! j) vid rest 256 = Some (pkt, pid)"
    "br_queue (text_to_mt fl e src j body s) ! j = push_all (be_now e) [pkt] (br_queue s2 ! j)"
    using text_to_mt_sends [OF i assms(9,5)] by blast
  obtain nis where n: "minted fl e j name s nis" "br_queue s2 ! j = push_all (be_now e) nis (br_queue s ! j)"
    using r(3) by blast
  have "enqueueTextForDest fl e src srcId body j s = text_to_mt fl e src j body s"
    by (simp add: enqueueTextForDest_def Let_def assms(4) SYNC_WORD_MESHTASTIC_def SYNC_WORD_RETICULUM_def SYNC_WORD_LORAWAN_def)
  then have "br_queue (enqueueTextForDest fl e src srcId body j s) ! j = push_all (be_now e) (nis @ [pkt]) (br_queue s ! j)"
    using n(2) p(2) by (simp add: push_all_append)
  moreover have "get32 pkt 4 = vid" "extractMeshtasticBody (be_crypto e) pkt (br_chan s ! j) 256 = Some (Some rest)"
    using text_packet_decodes(1,8) [OF assms(1) p(1) ok(2)] assms(8) by simp_all
  moreover have "\<not> isReserved vid" "vid \<noteq> bc_mtNodeId (br_cfg s)"
    unfolding r(1) by (simp_all only: idForLabel_usable not_False_eq_True)
  ultimately show ?thesis using b(1) n(1) r(1) by blast
qed

lemma meshcore_text_witness2:
  "\<exists>nis pkt. br_queue (enqueueTextForDest stock_flags sample_benv (br_chan sample_bridge ! 1) 0 (str ''Al: hi'') 0 sample_bridge) ! 0
      = push_all (be_now sample_benv) (nis @ [pkt]) (br_queue sample_bridge ! 0) \<and>
    extractMeshtasticBody (be_crypto sample_benv) pkt (br_chan sample_bridge ! 0) 256 = Some (Some (str ''hi''))"
proof -
  have p: "parseMcSenderName stock_flags (str ''Al: hi'') (MAX_LONG_NAME + 1) = Some (str ''Al'', str ''hi'')"
    by code_simp
  have q: "0 < length (br_queue sample_bridge)" "bf_identity_preserve stock_flags"
    by (simp_all add: sample_bridge_def stock_flags_def)
  have "cstr_ok (str ''Al: hi'')" "str ''hi'' \<noteq> []" "length (str ''hi'') \<le> 200" by (simp_all add: str_def)
  from meshcore_text_reaches_meshtastic [OF sample_laws q(2) sample_simps(6,5) q(1) this(1) p this(2,3), of 0]
  show ?thesis by blast
qed

section \<open>From Meshtastic to MeshCore\<close>

text \<open>The name a Meshtastic sender is shown under: its known short name, else its hex id.\<close>

definition shown_name :: "nodedb \<Rightarrow> u32 \<Rightarrow> bytes" where
  "shown_name db srcId =
     (case snd (lookupShortName 0 db srcId (MAX_SHORT_NAME + 1)) of
        Some n \<Rightarrow> if n \<noteq> [] then n else str ''!'' @ fmt_08lx srcId
      | None \<Rightarrow> str ''!'' @ fmt_08lx srcId)"

definition names_ok :: "nodedb \<Rightarrow> bool" where
  "names_ok db \<longleftrightarrow> (\<forall>n \<in> set (nd_table db). cstr_ok (ne_shortName n))"

lemma lookup_found: "snd (lookupShortName now db i cap) = snd (lookupShortName 0 db i cap)"
  by (simp add: lookupShortName_def Let_def split: option.splits)

lemma lookup_ok:
  assumes "names_ok db" and "snd (lookupShortName now db i cap) = Some n"
  shows "cstr_ok n \<and> length n \<le> cap - 1"
proof -
  obtain k where k: "find_node i (nd_table db) = Some k" "n = take (cap - 1) (ne_shortName (nd_table db ! k))"
    using assms(2) by (auto simp: lookupShortName_def Let_def split: option.splits)
  have "nd_table db ! k \<in> set (nd_table db)" using find_node_Some [OF k(1)] by simp
  then show ?thesis using assms(1) k(2) by (simp add: names_ok_def cstr_ok_take)
qed

lemma shown_name_ok: "names_ok db \<Longrightarrow> cstr_ok (shown_name db i) \<and> length (shown_name db i) \<le> 9"
  using lookup_ok [of db 0 i "MAX_SHORT_NAME + 1"]
  by (auto simp: shown_name_def str_def cstr_ok_hex MAX_SHORT_NAME_def split: option.splits)

definition attributed :: "build_flags \<Rightarrow> nodedb \<Rightarrow> u32 \<Rightarrow> bytes \<Rightarrow> bytes" where
  "attributed fl db srcId body = shown_name db srcId @ (if bf_tag_origin fl then str ''@MT: '' else str '': '') @ body"

lemma mc_identity_result:
  assumes "names_ok (br_nodes s)" and "length body \<le> 200" and "mc_identity fl e src srcId body s = (s2, b)"
  shows "b = (if bf_identity_preserve fl \<and> ch_protocol src = SYNC_WORD_MESHTASTIC
      then attributed fl (br_nodes s) srcId body else body)"
    and "br_queue s2 = br_queue s" and "br_dedup s2 = br_dedup s" and "bridgeNowUnix now s2 = bridgeNowUnix now s"
proof -
  note n = shown_name_ok [OF assms(1), of srcId]
  obtain nodes found where l: "lookupShortName (be_now e) (br_nodes s) srcId (MAX_SHORT_NAME + 1) = (nodes, found)" by fastforce
  then have f: "snd (lookupShortName 0 (br_nodes s) srcId (MAX_SHORT_NAME + 1)) = found"
    using lookup_found [of "be_now e" "br_nodes s" srcId "MAX_SHORT_NAME + 1"] by simp
  have w: "(case found of Some sname \<Rightarrow> (if sname \<noteq> [] then sname else str ''!'' @ fmt_08lx srcId)
      | None \<Rightarrow> str ''!'' @ fmt_08lx srcId) = shown_name (br_nodes s) srcId"
    unfolding shown_name_def f ..
  have c: "bounded_copy 24 (shown_name (br_nodes s) srcId) = shown_name (br_nodes s) srcId"
    using n by (intro bounded_copy_id) simp
  have a: "bounded_copy 256 (if bf_tag_origin fl then shown_name (br_nodes s) srcId @ str ''@MT: '' @ body
      else shown_name (br_nodes s) srcId @ str '': '' @ body) = attributed fl (br_nodes s) srcId body"
    using n assms(2) by (simp add: attributed_def bounded_copy_def str_def)
  show "b = (if bf_identity_preserve fl \<and> ch_protocol src = SYNC_WORD_MESHTASTIC
      then attributed fl (br_nodes s) srcId body else body)"
    "br_queue s2 = br_queue s" "br_dedup s2 = br_dedup s" "bridgeNowUnix now s2 = bridgeNowUnix now s"
    using assms(3) unfolding mc_identity_def l prod.case Let_def w c a
    by (auto simp: bridgeNowUnix_def split: if_splits)
qed

lemma text_to_mc_sends:
  assumes "mc_identity fl e src srcId body s = (s2, b)" and "length b \<le> 218" and "j < length (br_queue s)"
  shows "\<exists>pkt. encodeMeshCoreGrpTxt (be_crypto e) (br_chan s ! j) b (bridgeNowUnix (be_now e) s2) 256 = Some pkt \<and>
    text_to_mc fl e src srcId j body s = emit_text e j b 0 0 pkt s2 \<and>
    br_queue (text_to_mc fl e src srcId j body s) ! j = push_all (be_now e) [pkt] (br_queue s2 ! j)"
proof -
  obtain pkt where p: "encodeMeshCoreGrpTxt (be_crypto e) (br_chan s ! j) b (bridgeNowUnix (be_now e) s2) 256 = Some pkt"
    using encodeMeshCore_256 [OF assms(2)] by blast
  have t: "text_to_mc fl e src srcId j body s = emit_text e j b 0 0 pkt s2"
    by (simp add: text_to_mc_def assms(1) p)
  have "length (br_queue s2) = length (br_queue s)"
    using touches_mc_identity [OF assms(1), of "{}"] by (simp add: touches_def br_static_def)
  then have "br_queue (emit_text e j b 0 0 pkt s2) ! j = push_all (be_now e) [pkt] (br_queue s2 ! j)"
    using push_to_queue [of j "record_emission e (dedup_hash b 0 0) s2" e pkt] assms(3) by (simp add: emit_text_def)
  then show ?thesis using p t by auto
qed

lemma mc_decodes:
  assumes "crypto_laws c" and "cstr_ok b" and "b \<noteq> []" and "encodeMeshCoreGrpTxt c ch b ts 256 = Some pkt"
  shows "extractMeshCoreBody c pkt ch 256 = Some (b, ts)"
proof -
  have "length b \<le> 255" using assms(4) by (auto simp: encodeMeshCoreGrpTxt_def Let_def split: if_splits)
  then show ?thesis
    using mc_text_decodes [OF assms(1,3,2), where cap = 256 and ch = ch and ts = ts and outCap = 256] assms(4) by simp
qed



section \<open>The echo of an emission\<close>

text \<open>The body a destination's encoder is given, and the source id stamped with it.\<close>

lemma mt_identity_result:
  assumes "crypto_laws (be_crypto e)" and "cstr_ok body" and "j < length (br_queue s)"
    and "mt_identity fl e j src body s = (s2, d, b)" and "cstr_ok (ch_name src)"
  shows "cstr_ok b" and "length b \<le> length body" and "br_dedup s2 = br_dedup s"
    and "\<exists>nis. br_queue s2 ! j = push_all (be_now e) nis (br_queue s ! j)"
proof -
  have v: "br_dedup t = br_dedup s \<and> (\<exists>nis. br_queue t ! j = push_all (be_now e) nis (br_queue s ! j))"
    if "virtual_sender fl e j name s = (t, vid)" "cstr_ok name" for name t vid
    using virtual_sender_result [OF assms(1) that(2) assms(3) that(1)] by blast
  consider (named) name rest t vid where "parseMcSenderName fl body (MAX_LONG_NAME + 1) = Some (name, rest)"
      "virtual_sender fl e j name s = (t, vid)" "(s2, d, b) = (t, vid, rest)"
    | (label) t vid l where "l = bounded_copy 40 (str ''MC-'' @ (if ch_name src \<noteq> [] then ch_name src else str ''chan''))"
      "virtual_sender fl e j l s = (t, vid)" "(s2, d, b) = (t, vid, body)"
    | (bridge) "s2 = s" "b = body"
    using assms(4) unfolding mt_identity_def by (fastforce split: if_splits option.splits prod.splits)
  then have "cstr_ok b \<and> length b \<le> length body \<and> br_dedup s2 = br_dedup s \<and>
      (\<exists>nis. br_queue s2 ! j = push_all (be_now e) nis (br_queue s ! j))"
  proof cases
    case named
    note n = parseMcSenderName_Some [OF named(1)]
    then have "cstr_ok name" "cstr_ok rest" "length rest \<le> length body" using assms(2) by simp_all
    then show ?thesis using v [OF named(2)] named(3) by simp
  next
    case label
    then have "cstr_ok l" using assms(5) by (auto simp: str_def intro!: cstr_ok_bounded_copy)
    then show ?thesis using v [OF label(2)] label(3) assms(2) by simp
  next
    case bridge
    then show ?thesis using assms(2) by (auto intro: exI [of _ "[]"])
  qed
  then show "cstr_ok b" "length b \<le> length body" "br_dedup s2 = br_dedup s"
    "\<exists>nis. br_queue s2 ! j = push_all (be_now e) nis (br_queue s ! j)" by blast+
qed

text \<open>
  The bridge never forwards its own emission: the packet it queues for a mesh destination,
  heard back on any radio of that channel while its cache entry lives, changes no queue.
\<close>

theorem own_text_echo_dropped:
  assumes "crypto_laws (be_crypto e)" and "cstr_ok body" and "length body \<le> 200" and "cstr_ok (ch_name src)"
    and "names_ok (br_nodes s)" and "j < length (br_queue s)" and "br_dedup s \<noteq> []"
    and "ch_protocol (br_chan s ! j) = SYNC_WORD_MESHTASTIC \<or> ch_protocol (br_chan s ! j) = SYNC_WORD_MESHCORE"
    and "t = enqueueTextForDest fl e src srcId body j s"
  shows "\<exists>pkts pkt. br_queue t ! j = push_all (be_now e) (pkts @ [pkt]) (br_queue s ! j) \<and>
    (\<forall>e2 k. be_crypto e2 = be_crypto e \<longrightarrow> be_now e2 - be_now e < BRIDGE_DEDUP_TTL_MS \<longrightarrow>
       text_radio fl t k \<longrightarrow> br_chan t ! k = br_chan s ! j \<longrightarrow>
       (\<exists>u. ingestAndFanout fl e2 k pkt t = Some u \<and> br_queue u = br_queue t))"
proof (cases "ch_protocol (br_chan s ! j) = SYNC_WORD_MESHTASTIC")
  case True
  obtain s2 d b where i: "mt_identity fl e j src body s = (s2, d, b)" by (metis prod_cases3)
  note r = mt_identity_result [OF assms(1,2,6) i assms(4)]
  obtain nis where n: "br_queue s2 ! j = push_all (be_now e) nis (br_queue s ! j)" using r(4) by blast
  have t: "t = text_to_mt fl e src j body s"
    by (simp add: assms(9) enqueueTextForDest_def Let_def True SYNC_WORD_MESHTASTIC_def SYNC_WORD_RETICULUM_def SYNC_WORD_LORAWAN_def)
  have lb: "length b \<le> 200" using r(2) assms(3) by simp
  obtain pkt pid where p: "encodeMeshtasticText (be_crypto e) (draw e s2) (br_chan s ! j) d b 256 = Some (pkt, pid)"
    "t = emit_text e j b d pid pkt (drawn s2)" "br_queue t ! j = push_all (be_now e) [pkt] (br_queue s2 ! j)"
    using text_to_mt_sends [OF i lb assms(6)] t by blast
  have "br_dedup (drawn s2) \<noteq> []" using r(3) assms(7) by (simp add: drawn_def)
  note seen = emit_text_seen [OF this, of _ e j b d pid pkt, folded p(2)]
  have echo: "\<exists>u. ingestAndFanout fl e2 k pkt t = Some u \<and> br_queue u = br_queue t"
    if "be_crypto e2 = be_crypto e" "be_now e2 - be_now e < BRIDGE_DEDUP_TTL_MS" "text_radio fl t k" "br_chan t ! k = br_chan s ! j" for e2 k
    using mt_echo_dropped [of e2 b fl t k, OF _ r(1) that(3)] assms(1) True p(1) seen [OF that(2)] that(1,4) by simp
  have "br_queue t ! j = push_all (be_now e) (nis @ [pkt]) (br_queue s ! j)"
    using p(3) n by (simp add: push_all_append)
  with echo show ?thesis by blast
next
  case False
  then have mc: "ch_protocol (br_chan s ! j) = SYNC_WORD_MESHCORE" using assms(8) by simp
  obtain s2 b where i: "mc_identity fl e src srcId body s = (s2, b)" by fastforce
  note r = mc_identity_result [OF assms(5,3) i]
  have b: "cstr_ok b" "length b \<le> 218"
    using shown_name_ok [OF assms(5), of srcId] assms(2,3) by (auto simp: r(1) attributed_def str_def)
  have t: "t = text_to_mc fl e src srcId j body s"
    by (simp add: assms(9) enqueueTextForDest_def Let_def mc SYNC_WORD_MESHTASTIC_def SYNC_WORD_MESHCORE_def
        SYNC_WORD_RETICULUM_def SYNC_WORD_LORAWAN_def)
  obtain pkt where p: "encodeMeshCoreGrpTxt (be_crypto e) (br_chan s ! j) b (bridgeNowUnix (be_now e) s2) 256 = Some pkt"
    "t = emit_text e j b 0 0 pkt s2" "br_queue t ! j = push_all (be_now e) [pkt] (br_queue s2 ! j)"
    using text_to_mc_sends [OF i b(2) assms(6)] t by blast
  have "br_dedup s2 \<noteq> []" using r(3) assms(7) by simp
  note seen = emit_text_seen [OF this, of _ e j b 0 0 pkt, folded p(2)]
  have echo: "\<exists>u. ingestAndFanout fl e2 k pkt t = Some u \<and> br_queue u = br_queue t"
    if "be_crypto e2 = be_crypto e" "be_now e2 - be_now e < BRIDGE_DEDUP_TTL_MS" "text_radio fl t k" "br_chan t ! k = br_chan s ! j" for e2 k
    using mc_echo_dropped [of e2 b fl t k, OF _ b(1) that(3)] assms(1) mc p(1) seen [OF that(2)] that(1,4) by simp
  have "br_queue t ! j = push_all (be_now e) ([] @ [pkt]) (br_queue s ! j)" using p(3) r(2) by simp
  with echo show ?thesis by blast
qed

lemma own_text_echo_witness:
  "\<exists>pkts pkt. br_queue (enqueueTextForDest stock_flags sample_benv (br_chan sample_bridge ! 1) 0 (str ''hi'') 0 sample_bridge) ! 0
      = push_all (be_now sample_benv) (pkts @ [pkt]) (br_queue sample_bridge ! 0)"
proof -
  have ok: "cstr_ok (str ''hi'')" "length (str ''hi'') \<le> 200" by (simp_all add: str_def)
  have n: "names_ok (br_nodes sample_bridge)" by (simp add: names_ok_def sample_simps)
  have c: "cstr_ok (ch_name (br_chan sample_bridge ! 1))" "0 < length (br_queue sample_bridge)"
    by (simp_all add: sample_bridge_def sample_channel_def)
  from own_text_echo_dropped [OF sample_laws ok c(1) n c(2) sample_simps(7) disjI1 [OF sample_simps(5)] refl, of stock_flags 0]
  show ?thesis by blast
qed

end
