(* ===== verification/BridgeTunnel.thy ===== *)
theory BridgeTunnel
  imports BridgeDelivery
begin

text \<open>
  The transports that carry a packet as it is: the raw repeat between radios of one channel,
  the Reticulum tunnel through text fragments, and the LoRaWAN uplink that wraps a text or a
  raw frame.
\<close>

section \<open>Raw repeat\<close>

lemma hops_bits:
  fixes b :: u8
  assumes "b AND 0x07 \<noteq> 0"
  shows "((b AND NOT 0x07) OR ((b AND 0x07) - 1)) AND 0x07 = (b AND 0x07) - 1"
    and "((b AND NOT 0x07) OR ((b AND 0x07) - 1)) AND NOT 0x07 = b AND NOT 0x07"
    and "(b AND 0x07) - 1 < b AND 0x07"
proof -
  let ?h = "(b AND 0x07) - 1"
  have m: "(0x07 :: u8) = mask 3" by (simp add: mask_eq_exp_minus_1)
  have u: "unat ?h = unat (b AND 0x07) - 1" using assms by (rule unat_minus_one)
  have pos: "0 < unat (b AND 0x07)" using assms by (simp add: unat_gt_0)
  have "unat (b AND 0x07) \<le> 7" using word_and_le1 [of b "0x07"] by (simp add: word_le_nat_alt)
  then have "?h < 2 ^ 3" using u by (simp add: word_less_nat_alt)
  then have h: "?h AND mask 3 = ?h" by (rule less_mask_eq)
  then have low: "n < 3" if "bit ?h n" for n
    using that by (metis bit_and_iff bit_mask_iff)
  show "((b AND NOT 0x07) OR ?h) AND 0x07 = ?h"
    unfolding m by (rule bit_word_eqI) (use low [unfolded m] in \<open>auto simp: bit_simps\<close>)
  show "((b AND NOT 0x07) OR ?h) AND NOT 0x07 = b AND NOT 0x07"
    unfolding m by (rule bit_word_eqI) (use low [unfolded m] in \<open>auto simp: bit_simps\<close>)
  show "?h < b AND 0x07" using u pos by (simp add: word_less_nat_alt)
qed

lemma raw_packet_mt:
  assumes "raw_packet SYNC_WORD_MESHTASTIC nodeId srcId buf = Some pkt"
  shows "16 \<le> length buf" and "length buf \<le> LORA_MAX_PACKET" and "srcId \<noteq> nodeId" and "buf ! 12 AND 0x07 \<noteq> 0"
    and "pkt = buf[12 := (buf ! 12 AND NOT 0x07) OR ((buf ! 12 AND 0x07) - 1), 15 := ucast (nodeId AND 0xFF)]"
  using assms by (auto simp: raw_packet_def Let_def split: if_splits)

lemma raw_packet_same_text:
  assumes "raw_packet SYNC_WORD_MESHTASTIC nodeId srcId buf = Some pkt"
  shows "mt_plaintext c ch pkt = mt_plaintext c ch buf"
  by (simp add: raw_packet_mt(5) [OF assms] mt_plaintext_def get32_def)

text \<open>
  A raw repeat is transparent: it keeps the length; on any protocol but Meshtastic it is the
  received packet; on Meshtastic it is refused for the bridge's own packets and at hop limit 0,
  and otherwise exactly the hop limit is lowered by one and the relay byte set, so the packet
  decrypts to the same message from the same source with the same id on every channel.
\<close>

theorem raw_repeat_transparent:
  assumes "raw_packet proto nodeId srcId buf = Some pkt"
  shows "length pkt = length buf \<and> length buf \<le> LORA_MAX_PACKET \<and>
    (if proto \<noteq> SYNC_WORD_MESHTASTIC then pkt = buf
     else srcId \<noteq> nodeId \<and> unat (pkt ! 12 AND 0x07) + 1 = unat (buf ! 12 AND 0x07) \<and>
       pkt ! 12 AND NOT 0x07 = buf ! 12 AND NOT 0x07 \<and> pkt ! 15 = ucast (nodeId AND 0xFF) \<and>
       take 12 pkt = take 12 buf \<and> drop 16 pkt = drop 16 buf \<and> mt_plaintext c ch pkt = mt_plaintext c ch buf)"
proof (cases "proto = SYNC_WORD_MESHTASTIC")
  case True
  note r = raw_packet_mt [OF assms [unfolded True]]
  note h = hops_bits [OF r(4)]
  define f where "f = (buf ! 12 AND NOT 0x07) OR ((buf ! 12 AND 0x07) - 1)"
  have pkt: "pkt = buf[12 := f, 15 := ucast (nodeId AND 0xFF)]" by (simp only: r(5) f_def)
  have f: "f AND 0x07 = (buf ! 12 AND 0x07) - 1" "f AND NOT 0x07 = buf ! 12 AND NOT 0x07"
    by (simp_all only: f_def h)
  have "unat ((buf ! 12 AND 0x07) - 1) + 1 = unat (buf ! 12 AND 0x07)"
    using unat_minus_one [OF r(4)] r(4) by (simp add: unat_gt_0)
  moreover have "pkt ! 12 = f" "pkt ! 15 = ucast (nodeId AND 0xFF)" "take 12 pkt = take 12 buf" "drop 16 pkt = drop 16 buf"
    "length pkt = length buf"
    using r(1) by (simp_all add: pkt take_update_cancel)
  ultimately show ?thesis
    using r(2,3) raw_packet_same_text [OF assms [unfolded True], of c ch] True by (simp only: f) simp
next
  case False
  then show ?thesis using assms by (auto simp: raw_packet_def split: if_splits)
qed

text \<open>
  However many bridges hear each other, a Meshtastic packet is raw-repeated at most seven
  times: a chain of eight repeats, through any bridges, never exists.
\<close>

theorem repeats_are_bounded:
  assumes "7 < length nodes"
  shows "foldl (\<lambda>b node. Option.bind b (raw_packet SYNC_WORD_MESHTASTIC node srcId)) (Some buf) nodes = None"
proof -
  let ?run = "foldl (\<lambda>b node. Option.bind b (raw_packet SYNC_WORD_MESHTASTIC node srcId))"
  have none: "?run None ns = None" for ns by (induction ns) auto
  have step: "unat (b ! 12 AND 0x07) < length ns \<Longrightarrow> ?run (Some b) ns = None" for b ns
  proof (induction ns arbitrary: b)
    case (Cons n ns)
    show ?case
    proof (cases "raw_packet SYNC_WORD_MESHTASTIC n srcId b")
      case (Some p)
      note r = raw_packet_mt [OF Some]
      have p12: "p ! 12 AND 0x07 = (b ! 12 AND 0x07) - 1"
        using r(1) hops_bits(1) [OF r(4)] by (simp only: r(5)) simp
      have "unat (p ! 12 AND 0x07) < unat (b ! 12 AND 0x07)"
        unfolding p12 using hops_bits(3) [OF r(4)] by (simp only: word_less_nat_alt)
      moreover have "unat (b ! 12 AND 0x07) \<le> length ns" using Cons.prems by (simp only: length_Cons less_Suc_eq_le)
      ultimately have "?run (Some p) ns = None" by (intro Cons.IH) (rule less_le_trans)
      then show ?thesis using Some by (simp only: foldl_Cons Option.bind.simps)
    qed (simp only: foldl_Cons Option.bind.simps none)
  qed (simp only: list.size not_less0)
  have "unat (buf ! 12 AND 0x07) \<le> 7"
    using word_and_le1 [of "buf ! 12" "0x07"] unfolding word_le_nat_alt by (rule order_trans) simp
  then have "unat (buf ! 12 AND 0x07) < length nodes" using assms by (rule le_less_trans)
  then show ?thesis by (rule step)
qed

section \<open>The Reticulum tunnel\<close>

text \<open>What a mesh radio decodes from a packet, and the documented laws of a base64 codec.\<close>

definition rx_text :: "crypto \<Rightarrow> radio_channel \<Rightarrow> bytes \<Rightarrow> bytes option" where
  "rx_text c ch pkt =
     (if ch_protocol ch = SYNC_WORD_MESHTASTIC then
        (case extractMeshtasticBody c pkt ch 256 of Some (Some b) \<Rightarrow> Some b | _ \<Rightarrow> None)
      else map_option fst (extractMeshCoreBody c pkt ch 256))"

definition base64_laws :: "crypto \<Rightarrow> bool" where
  "base64_laws c \<longleftrightarrow>
     (\<forall>x. base64_decode c (base64_encode c x) = Some x) \<and> (\<forall>x. cstr_ok (base64_encode c x)) \<and>
     (\<forall>x. length (base64_encode c x) = (length x + 2) div 3 * 4)"

definition rns_prefix :: "u8 \<Rightarrow> nat \<Rightarrow> nat \<Rightarrow> bytes" where
  "rns_prefix seq idx n = str ''[rns '' @ fmt_02X seq @ str '' '' @ fmt_u (idx + 1) @ str ''/'' @ fmt_u n @ str ''] ''"

lemma digit_nonzero: "n < 10 \<Longrightarrow> (of_char CHR ''0'' + of_nat n :: u8) \<noteq> 0"
proof -
  assume n: "n < 10"
  have c: "(of_char CHR ''0'' :: u8) = 48" by simp
  have "unat (48 + of_nat n :: u8) = 48 + n"
    using n by (simp add: unat_word_ariths unat_of_nat)
  then show ?thesis unfolding c by auto
qed

lemma HEX_digit_all: "\<forall>n \<in> {0..<16 :: nat}. HEX_digit (of_nat n) \<noteq> 0"
  by (simp add: HEX_digit_def atLeastLessThan_nat_numeral)

lemma HEX_digit_nonzero: "d < 16 \<Longrightarrow> HEX_digit d \<noteq> 0"
proof -
  assume "d < 16"
  then have "unat d \<in> {0..<16}" by (simp add: word_less_nat_alt)
  with HEX_digit_all have "HEX_digit (of_nat (unat d)) \<noteq> 0" by blast
  then show ?thesis by simp
qed

lemma rns_prefix_fits:
  assumes "idx < 9" and "n < 10"
  shows "length (rns_prefix seq idx n) = 13" and "cstr_ok (rns_prefix seq idx n)"
proof -
  have u: "fmt_u (idx + 1) = [of_char CHR ''0'' + of_nat (idx + 1)]" "fmt_u n = [of_char CHR ''0'' + of_nat n]"
    using assms by (simp_all add: fmt_u_digit del: of_nat_add of_nat_Suc)
  show "length (rns_prefix seq idx n) = 13"
    unfolding rns_prefix_def u by (simp add: str_def fmt_02X_def HEX_of_def)
  have "HEX_digit (drop_bit 4 seq) \<noteq> 0" "HEX_digit (seq AND 0x0F) \<noteq> 0"
    using HEX_digit_nonzero nibbles(1,2) by blast+
  then have "cstr_ok (fmt_02X seq)" by (simp add: fmt_02X_def HEX_of_def)
  moreover have "cstr_ok (fmt_u (idx + 1))" "cstr_ok (fmt_u n)"
    unfolding u using digit_nonzero [of "idx + 1"] digit_nonzero [of n] assms by (simp_all del: of_nat_add of_nat_Suc)
  ultimately show "cstr_ok (rns_prefix seq idx n)" by (simp add: rns_prefix_def str_def)
qed

lemma rns_marked_fits:
  assumes "idx < 9" and "n < 10" and "length b64 \<le> 164"
  shows "rns_marked seq idx n b64 = rns_prefix seq idx n @ b64"
proof -
  have "rns_marked seq idx n b64 = bounded_copy 240 (rns_prefix seq idx n @ b64)"
    by (simp add: rns_marked_def rns_prefix_def)
  also have "\<dots> = rns_prefix seq idx n @ b64"
    using rns_prefix_fits(1) [OF assms(1,2), of seq] assms(3) by (intro bounded_copy_id) simp
  finally show ?thesis .
qed

text \<open>One fragment: the slice, base64, under its prefix, is what the destination mesh receives.\<close>

definition rns_slice :: "bytes \<Rightarrow> nat \<Rightarrow> nat \<Rightarrow> nat \<Rightarrow> bytes" where
  "rns_slice buf raw n idx = take (if idx + 1 = n then length buf - idx * raw else raw) (drop (idx * raw) buf)"

lemma rns_slice_take:
  assumes "n = (length buf + raw - 1) div raw" and "0 < raw" and "idx < n"
  shows "rns_slice buf raw n idx = take raw (drop (idx * raw) buf)"
proof (cases "idx + 1 = n")
  case True
  have "length buf \<le> n * raw"
  proof -
    have "length buf + raw - 1 < (n + 1) * raw"
      unfolding assms(1) using assms(2) by (simp add: dividend_less_div_times add.commute)
    then show ?thesis using assms(2) by (simp add: algebra_simps)
  qed
  then have "length buf - idx * raw \<le> raw" using True by (metis add_mult_distrib diff_le_self le_diff_conv add.commute mult_1)
  then show ?thesis using True by (simp add: rns_slice_def)
qed (simp add: rns_slice_def)

lemma rns_fragment_sends:
  assumes "crypto_laws (be_crypto e)" and "base64_laws (be_crypto e)"
    and "ch_protocol (br_chan s ! j) = SYNC_WORD_MESHTASTIC \<or> ch_protocol (br_chan s ! j) = SYNC_WORD_MESHCORE"
    and "idx < n" and "n < 9" and "length (rns_slice buf raw n idx) \<le> 123" and "j < length (br_queue s)"
  shows "\<exists>t pkt. rns_fragment e (br_chan s ! j) j d seq n raw buf idx s = (t, True) \<and>
    br_queue t ! j = push_all (be_now e) [pkt] (br_queue s ! j) \<and>
    rx_text (be_crypto e) (br_chan s ! j) pkt
      = Some (rns_prefix seq idx n @ base64_encode (be_crypto e) (rns_slice buf raw n idx))"
proof -
  let ?c = "be_crypto e" and ?ch = "br_chan s ! j" and ?b = "base64_encode (be_crypto e) (rns_slice buf raw n idx)"
  let ?m = "rns_prefix seq idx n @ ?b"
  have "(length (rns_slice buf raw n idx) + 2) div 3 * 4 \<le> 164" using assms(6) by presburger
  then have lb: "length ?b \<le> 164" "cstr_ok ?b" using assms(2) by (auto simp: base64_laws_def)
  note pf = rns_prefix_fits [of idx n seq]
  have m: "rns_marked seq idx n ?b = ?m" using assms(4,5) lb by (intro rns_marked_fits) simp_all
  have ok: "cstr_ok ?m" "length ?m \<le> 177" "?m \<noteq> []"
    using pf lb assms(4,5) by (auto simp: rns_prefix_def str_def)
  have room: "(200 < length ?b + 1) = False" using lb(1) by simp
  have frag: "rns_fragment e ?ch j d seq n raw buf idx s =
      (let enc = (if ch_protocol ?ch = SYNC_WORD_MESHTASTIC
            then encodeMeshtasticText ?c (draw e s) ?ch (bc_mtNodeId (br_cfg s)) ?m 256
            else map_option (\<lambda>pkt. (pkt, 0)) (encodeMeshCoreGrpTxt ?c ?ch ?m (bridgeNowUnix (be_now e) s) 256));
           s1 = (if ch_protocol ?ch = SYNC_WORD_MESHTASTIC then drawn s else s) in
        case enc of None \<Rightarrow> (s, False)
        | Some (pkt, p) \<Rightarrow> (fst (push_to e j pkt (record_emission e (dedup_hash ?m d p) s1)), True))"
    unfolding rns_fragment_def Let_def rns_slice_def [symmetric] m by (simp only: room if_False)
  show ?thesis
  proof (cases "ch_protocol ?ch = SYNC_WORD_MESHTASTIC")
    case True
    obtain pkt p where e: "encodeMeshtasticText ?c (draw e s) ?ch (bc_mtNodeId (br_cfg s)) ?m 256 = Some (pkt, p)"
      using encodeMeshtasticText_256 [of ?m] ok(2) by fastforce
    have "rx_text ?c ?ch pkt = Some ?m"
      using text_packet_decodes(8) [OF assms(1) e ok(1)] ok(3) True by (simp add: rx_text_def)
    then show ?thesis
      using frag e True push_to_queue [of j "record_emission e (dedup_hash ?m d p) (drawn s)" e pkt] assms(7) by (auto intro: exI [of _ pkt])
  next
    case False
    then have mc: "SYNC_WORD_MESHCORE \<noteq> SYNC_WORD_MESHTASTIC" "ch_protocol ?ch = SYNC_WORD_MESHCORE"
      using assms(3) by auto
    obtain pkt where e: "encodeMeshCoreGrpTxt ?c ?ch ?m (bridgeNowUnix (be_now e) s) 256 = Some pkt"
      using encodeMeshCore_256 [of ?m] ok(2) by fastforce
    have "rx_text ?c ?ch pkt = Some ?m"
      using mc_decodes [OF assms(1) ok(1,3) e] mc by (simp add: rx_text_def)
    then show ?thesis
      using frag e mc push_to_queue [of j "record_emission e (dedup_hash ?m d 0) s" e pkt] assms(7) by (auto intro: exI [of _ pkt])
  qed
qed

lemma rns_loop_sends:
  assumes "crypto_laws (be_crypto e)" and "base64_laws (be_crypto e)" and "n < 9"
    and "\<forall>idx < n. length (rns_slice buf raw n idx) \<le> 123"
    and "ch_protocol ch = SYNC_WORD_MESHTASTIC \<or> ch_protocol ch = SYNC_WORD_MESHCORE"
  shows "\<lbrakk>\<forall>idx \<in> set ks. idx < n; br_chan s ! j = ch; j < length (br_queue s)\<rbrakk> \<Longrightarrow>
    \<exists>pkts. br_queue (rns_loop e ch j d seq n raw buf ks s) ! j = push_all (be_now e) pkts (br_queue s ! j) \<and>
      map (rx_text (be_crypto e) ch) pkts =
        map (\<lambda>idx. Some (rns_prefix seq idx n @ base64_encode (be_crypto e) (rns_slice buf raw n idx))) ks"
proof (induction ks arbitrary: s)
  case Nil
  then show ?case by (intro exI [of _ "[]"]) simp
next
  case (Cons idx ks)
  then have idx: "idx < n" by simp
  obtain t pkt where t: "rns_fragment e ch j d seq n raw buf idx s = (t, True)"
    "br_queue t ! j = push_all (be_now e) [pkt] (br_queue s ! j)"
    "rx_text (be_crypto e) ch pkt = Some (rns_prefix seq idx n @ base64_encode (be_crypto e) (rns_slice buf raw n idx))"
    using rns_fragment_sends [OF assms(1,2), of s j idx n buf raw d seq] assms(3-5) Cons.prems idx by auto
  have "touches {j} s t" using touches_rns_fragment [of j s e ch d seq n raw buf idx] t(1) by simp
  then have "br_chan t ! j = ch" "j < length (br_queue t)" using Cons.prems by (simp_all add: touches_def br_static_def)
  then obtain pkts where "br_queue (rns_loop e ch j d seq n raw buf ks t) ! j = push_all (be_now e) pkts (br_queue t ! j)"
    "map (rx_text (be_crypto e) ch) pkts =
        map (\<lambda>idx. Some (rns_prefix seq idx n @ base64_encode (be_crypto e) (rns_slice buf raw n idx))) ks"
    using Cons.IH [of t] Cons.prems(1) by auto
  then show ?case using t by (intro exI [of _ "pkt # pkts"]) simp
qed

lemma concat_slices:
  assumes "0 < raw"
  shows "concat (map (\<lambda>k. take raw (drop (k * raw) buf)) [0..<n]) = take (n * raw) buf"
  by (induction n) (simp_all add: take_add add.commute [of raw])

text \<open>
  C22: A Reticulum frame crosses a text mesh whole: every frame of up to 936 bytes, so every frame a
  radio can receive, is queued for a Meshtastic or MeshCore destination as one packet per slice,
  in order; each packet decodes there to its numbered prefix and the base64 of its slice, and
  the slices put together are the frame.
\<close>

theorem reticulum_frame_tunnelled:
  assumes "crypto_laws (be_crypto e)" and "base64_laws (be_crypto e)"
    and "ch_protocol (br_chan s ! j) = SYNC_WORD_MESHTASTIC \<or> ch_protocol (br_chan s ! j) = SYNC_WORD_MESHCORE"
    and "buf \<noteq> []" and "length buf \<le> 936" and "8 \<le> bf_rns_max_frags fl" and "j < length (br_queue s)"
  shows "\<exists>pkts slices. let n = length slices in
    br_queue (enqueueReticulumForDest fl e j buf s) ! j = push_all (be_now e) pkts (br_queue s ! j) \<and>
    n \<le> 8 \<and> concat slices = buf \<and>
    map (rx_text (be_crypto e) (br_chan s ! j)) pkts =
      map (\<lambda>k. Some (rns_prefix (ucast (crc16_ccitt buf AND 0xFF)) k n @ base64_encode (be_crypto e) (slices ! k))) [0..<n]"
proof -
  let ?ch = "br_chan s ! j" and ?seq = "ucast (crc16_ccitt buf AND 0xFF) :: u8"
  define raw where "raw = the (rns_raw_per_frag (ch_protocol ?ch))"
  define n where "n = (length buf + raw - 1) div raw"
  define d where "d = (if ch_protocol ?ch = SYNC_WORD_MESHTASTIC then bc_mtNodeId (br_cfg s) else 0)"
  have raw: "rns_raw_per_frag (ch_protocol ?ch) = Some raw" "117 \<le> raw" "raw \<le> 123"
    using assms(3) by (auto simp: raw_def rns_raw_per_frag_def BRIDGE_RNS_RAW_PER_FRAG_MT_def BRIDGE_RNS_RAW_PER_FRAG_MC_def)
  have "length buf + raw - 1 < 9 * raw" using assms(5) raw(2) by simp
  then have n9: "n < 9" by (simp add: n_def less_mult_imp_div_less)
  have slice: "rns_slice buf raw n k = take raw (drop (k * raw) buf)" if "k < n" for k
    using rns_slice_take [OF n_def _ that] raw(2) by simp
  have "length (rns_slice buf raw n k) \<le> 123" if "k < n" for k
    using slice [OF that] raw(3) by simp
  then obtain pkts where p: "br_queue (rns_loop e ?ch j d ?seq n raw buf [0..<n] s) ! j = push_all (be_now e) pkts (br_queue s ! j)"
    "map (rx_text (be_crypto e) ?ch) pkts =
        map (\<lambda>idx. Some (rns_prefix ?seq idx n @ base64_encode (be_crypto e) (rns_slice buf raw n idx))) [0..<n]"
    using rns_loop_sends [OF assms(1,2) n9 _ assms(3), where ks = "[0..<n]" and s = s and j = j and d = d and seq = ?seq
        and buf = buf and raw = raw] assms(7) by auto
  have "SYNC_WORD_MESHTASTIC \<noteq> SYNC_WORD_RETICULUM" "SYNC_WORD_MESHCORE \<noteq> SYNC_WORD_RETICULUM"
    by (simp_all add: SYNC_WORD_MESHTASTIC_def SYNC_WORD_MESHCORE_def SYNC_WORD_RETICULUM_def)
  then have r: "enqueueReticulumForDest fl e j buf s = rns_loop e ?ch j d ?seq n raw buf [0..<n] s"
    using assms(3,4,6) n9 unfolding enqueueReticulumForDest_def Let_def raw(1) option.case n_def [symmetric] d_def [symmetric] by auto
  have "length buf \<le> n * raw"
  proof -
    have "length buf + raw - 1 < (n + 1) * raw"
      unfolding n_def using raw(2) by (simp add: dividend_less_div_times add.commute)
    then show ?thesis using raw(2) by (simp add: algebra_simps)
  qed
  then have "concat (map (\<lambda>k. take raw (drop (k * raw) buf)) [0..<n]) = buf"
    using concat_slices [of raw buf n] raw(2) by simp
  moreover have "map (rns_slice buf raw n) [0..<n] = map (\<lambda>k. take raw (drop (k * raw) buf)) [0..<n]"
    using slice by (intro map_cong) auto
  ultimately have c: "concat (map (rns_slice buf raw n) [0..<n]) = buf" by (simp only:)
  have "map (\<lambda>idx. Some (rns_prefix ?seq idx n @ base64_encode (be_crypto e) (rns_slice buf raw n idx))) [0..<n] =
      map (\<lambda>k. Some (rns_prefix ?seq k n @ base64_encode (be_crypto e) (map (rns_slice buf raw n) [0..<n] ! k))) [0..<n]"
    by (intro map_cong) auto
  with p r c n9 show ?thesis
    by (intro exI [of _ pkts] exI [of _ "map (rns_slice buf raw n) [0..<n]"]) (simp add: Let_def)
qed

section \<open>LoRaWAN uplinks\<close>

text \<open>
  C21: An uplink the bridge mints is one the network server accepts. When a device of the table
  claims the source, one frame counter is drawn from it; if the crypto self test passed, the
  counter is durable and the tagged payload fits, exactly one frame is queued, which a server
  holding that device's keys verifies under that counter and decrypts to the tagged payload on
  the device's port; in every other case nothing is queued, and the text is not sent by any
  other path.
\<close>

theorem abp_uplink_accepted_by_server:
  assumes "crypto_laws (be_crypto e)" and "lw_resolve (br_lw s) (ch_protocol src) srcId = Some i"
    and "dev = lw_dev (br_lw s) ! i" and "nextFcnt (be_fcnt e j) (int i) (br_lw s) = (lw2, f)"
    and "frm = uplink_frm (ch_protocol src) srcId (dev_flags dev AND FLAG_TAG_SRC \<noteq> 0) payload"
    and "j < length (br_queue s)" and "enqueueAbpUplink fl e src srcId j payload s = (t, attempted)"
  shows "attempted \<and> br_lw t = lw2 \<and>
    (if br_lwCryptoOk s \<and> f \<noteq> FCNT_INVALID \<and> length frm \<le> LW_FRM_CAP then
       \<exists>pkt. br_queue t ! j = push_all (be_now e) [pkt] (br_queue s ! j) \<and>
         lns_receive (aes_enc (be_crypto e)) (dev_devAddr dev) (dev_nwkSKey dev) (dev_appSKey dev) f pkt
           = Some (dev_fport dev, frm)
     else br_queue t = br_queue s)"
proof -
  let ?aes = "aes_enc (be_crypto e)"
  let ?u = "\<lparr>ul_devAddr = dev_devAddr dev, ul_fcnt = f, ul_nwkKey = dev_nwkSKey dev, ul_appKey = dev_appSKey dev,
      ul_fport = dev_fport dev, ul_tagSrc = (dev_flags dev AND FLAG_TAG_SRC \<noteq> 0)\<rparr>"
  have u: "uplink_identity fl e j (ch_protocol src) srcId (br_lw s) = (lw2, Some ?u)"
    by (simp add: uplink_identity_def assms(2,4) Let_def flip: assms(3))
  have enq: "enqueueAbpUplink fl e src srcId j payload s =
      (let s2 = s\<lparr>br_lw := lw2\<rparr> in
       if \<not> br_lwCryptoOk s \<or> f = FCNT_INVALID \<or> LW_FRM_CAP < length frm then (s2, True)
       else (case encodeUplink ?aes (dev_devAddr dev) (dev_nwkSKey dev) (dev_appSKey dev) f (dev_fport dev) frm False 256 of
           None \<Rightarrow> (s2, True)
         | Some pkt \<Rightarrow> (fst (push_to e j pkt (record_emission e (dedup_hash pkt (dev_devAddr dev) f) s2)), True)))"
    unfolding enqueueAbpUplink_def u prod.case option.case Let_def uplink_creds.select_convs assms(5) [symmetric] by simp
  show ?thesis
  proof (cases "br_lwCryptoOk s \<and> f \<noteq> FCNT_INVALID \<and> length frm \<le> LW_FRM_CAP")
    case True
    obtain pkt where p: "encodeUplink ?aes (dev_devAddr dev) (dev_nwkSKey dev) (dev_appSKey dev) f (dev_fport dev) frm False 256 = Some pkt"
      using True encodeUplink_Some_iff [of ?aes "dev_devAddr dev" "dev_nwkSKey dev" "dev_appSKey dev" f "dev_fport dev" frm False 256]
      by (auto simp: LW_FRM_CAP_def)
    have t: "t = fst (push_to e j pkt (record_emission e (dedup_hash pkt (dev_devAddr dev) f) (s\<lparr>br_lw := lw2\<rparr>)))" "attempted"
      using assms(7) True p unfolding enq Let_def by auto
    have "br_lw t = lw2" by (simp add: t(1) push_to_def record_emission_def split: prod.splits)
    moreover have "br_queue t ! j = push_all (be_now e) [pkt] (br_queue s ! j)"
      using push_to_queue [of j "record_emission e (dedup_hash pkt (dev_devAddr dev) f) (s\<lparr>br_lw := lw2\<rparr>)" e pkt] assms(6)
      by (simp add: t(1))
    ultimately show ?thesis
      using True t(2) lns_receive_encoded [OF crypto_lawsD(1) [OF assms(1)] p] by auto
  next
    case False
    then show ?thesis using assms(7) unfolding enq Let_def by (auto split: if_splits)
  qed
qed

section \<open>Witnesses\<close>

definition sample_frame20 :: bytes where
  "sample_frame20 = (replicate 20 0)[12 := 0x63]"

lemma raw_repeat_witness:
  "\<exists>pkt. raw_packet SYNC_WORD_MESHTASTIC 9 0 sample_frame20 = Some pkt \<and> length pkt = 20 \<and>
     unat (pkt ! 12 AND 0x07) + 1 = unat (sample_frame20 ! 12 AND 0x07)"
proof -
  obtain pkt where p: "raw_packet SYNC_WORD_MESHTASTIC 9 0 sample_frame20 = Some pkt"
    by (simp add: raw_packet_def sample_frame20_def Let_def LORA_MAX_PACKET_def)
  from raw_repeat_transparent [OF p, of toy_crypto sample_channel] p show ?thesis
    by (simp add: sample_frame20_def)
qed

lemma repeats_are_bounded_witness:
  "foldl (\<lambda>b node. Option.bind b (raw_packet SYNC_WORD_MESHTASTIC node 0)) (Some sample_frame20) [1, 2, 3, 4, 5, 6, 7, 8] = None"
  using repeats_are_bounded [of "[1, 2, 3, 4, 5, 6, 7, 8]" 0 sample_frame20] by simp

text \<open>A codec of the length of base64: a flag character for each group, zeros replaced.\<close>

definition nz :: "u8 \<Rightarrow> u8" where "nz a = (if a = 0 then 1 else a)"
definition zf :: "u8 \<Rightarrow> u8 \<Rightarrow> u8" where "zf k a = (if a = 0 then k else 0)"
definition un :: "u8 \<Rightarrow> nat \<Rightarrow> u8 \<Rightarrow> u8" where "un m k x = (if bit (m - 1) k then 0 else x)"

fun b64e :: "bytes \<Rightarrow> bytes" where
  "b64e [] = []"
| "b64e [a] = [17 + zf 1 a, nz a, 1, 1]"
| "b64e [a, b] = [9 + zf 1 a + zf 2 b, nz a, nz b, 1]"
| "b64e (a # b # c # r) = [1 + zf 1 a + zf 2 b + zf 4 c, nz a, nz b, nz c] @ b64e r"

fun b64d :: "bytes \<Rightarrow> bytes option" where
  "b64d [] = Some []"
| "b64d (m # x # y # z # r) =
     (if 17 \<le> m then Some [un m 0 x] else if 9 \<le> m then Some [un m 0 x, un m 1 y]
      else map_option (\<lambda>t. [un m 0 x, un m 1 y, un m 2 z] @ t) (b64d r))"
| "b64d _ = None"

lemma u8_order: "\<not> (9 :: u8) \<le> n" "\<not> (17 :: u8) \<le> n" if "n < 9" for n :: u8
  using that by (auto simp: word_less_nat_alt word_le_nat_alt)

lemma b64_decode: "b64d (b64e x) = Some x"
  using u8_order by (induction x rule: b64e.induct) (auto simp: nz_def zf_def un_def bit_simps)

lemma b64_length: "length (b64e x) = (length x + 2) div 3 * 4"
proof (induction x rule: b64e.induct)
  case (4 a b c r)
  have "(length (a # b # c # r) + 2) div 3 = Suc ((length r + 2) div 3)" by simp
  then show ?case using 4 by simp
qed simp_all

lemma b64_ok: "cstr_ok (b64e x)"
  by (induction x rule: b64e.induct) (auto simp: nz_def zf_def)

definition tunnel_env :: bridge_env where
  "tunnel_env = sample_benv\<lparr>be_crypto := toy_crypto\<lparr>base64_encode := b64e, base64_decode := b64d\<rparr>\<rparr>"

lemma reticulum_witness:
  "\<exists>pkts slices. concat slices = [1, 2, 3 :: u8] \<and>
    br_queue (enqueueReticulumForDest stock_flags tunnel_env 1 [1, 2, 3] sample_bridge) ! 1
      = push_all (be_now tunnel_env) pkts (br_queue sample_bridge ! 1)"
proof -
  have l: "crypto_laws (be_crypto tunnel_env)" "base64_laws (be_crypto tunnel_env)"
    using toy_crypto_laws b64_decode b64_length b64_ok
    by (simp_all add: tunnel_env_def crypto_laws_def base64_laws_def)
  have "[1, 2, 3 :: u8] \<noteq> []" "length [1, 2, 3 :: u8] \<le> 936" "8 \<le> bf_rns_max_frags stock_flags" "1 < length (br_queue sample_bridge)"
    by (simp_all add: stock_flags_def sample_bridge_def)
  from reticulum_frame_tunnelled [OF l disjI2 [OF sample_simps(6)] this] show ?thesis
    unfolding Let_def by blast
qed

lemma abp_uplink_witness:
  "\<exists>t. enqueueAbpUplink stock_flags sample_benv (br_chan sample_bridge ! 1) 0 3 [72, 105] sample_bridge = (t, True) \<and>
    (\<exists>pkt. br_queue t ! 3 = push_all (be_now sample_benv) [pkt] (br_queue sample_bridge ! 3) \<and>
      lns_receive (aes_enc (be_crypto sample_benv)) 7 (replicate 16 0) (replicate 16 0) 0 pkt = Some (1, [72, 105]))"
proof -
  have r: "lw_resolve (br_lw sample_bridge) (ch_protocol (br_chan sample_bridge ! 1)) 0 = Some 0"
    unfolding sample_simps by code_simp
  have d: "lw_dev (br_lw sample_bridge) ! 0 = sample_device 7" by (simp add: sample_simps sample_lw_def)
  obtain lw2 f where n: "nextFcnt (be_fcnt sample_benv 3) (int 0) (br_lw sample_bridge) = (lw2, f)" by fastforce
  have "snd (nextFcnt Write_ok 0 sample_lw) = 0" by code_simp
  then have f: "f = 0" using n by (simp add: sample_simps sample_benv_def)
  have frm: "[72, 105] = uplink_frm (ch_protocol (br_chan sample_bridge ! 1)) 0 (dev_flags (sample_device 7) AND FLAG_TAG_SRC \<noteq> 0) [72, 105]"
    by (simp add: uplink_frm_def sample_device_def zero_device_def)
  obtain t a where t: "enqueueAbpUplink stock_flags sample_benv (br_chan sample_bridge ! 1) 0 3 [72, 105] sample_bridge = (t, a)" by fastforce
  have "3 < length (br_queue sample_bridge)" by (simp add: sample_simps)
  from abp_uplink_accepted_by_server [OF sample_laws r d [symmetric] n frm this t] f show ?thesis
    using t by (simp add: sample_simps LW_FRM_CAP_def FCNT_INVALID_def sample_device_def zero_device_def)
qed

end
