(* ===== verification/Radios.thy ===== *)
theory Radios
  imports UartLink Bridge
begin

text \<open>
  The two implementations of the radio interface \<open>LoraRadio\<close>: \<open>WioSX1262\<close>, a chip on the
  local bus, and \<open>RemoteRadio\<close>, a radio of the co-processor behind the UART link. The RadioLib
  driver of the chip and the serial driver are parameters; what the firmware relies on of them is
  \<open>chip_laws\<close>. The interface is a record of operations, its contract the locale \<open>lora_radio\<close>.
\<close>

section \<open>The interface\<close>

text \<open>The RadioLib status codes the firmware names; the numbers behind them are RadioLib's.\<close>

datatype status =
  RADIOLIB_ERR_NONE | RADIOLIB_ERR_UNKNOWN | RADIOLIB_ERR_TX_TIMEOUT | RADIOLIB_ERR_WRONG_MODEM
| RADIOLIB_LORA_DETECTED | RADIOLIB_CHANNEL_FREE | RADIOLIB_OTHER nat

text \<open>What \<open>read\<close> hands out: the bytes (empty on an error) and the two measurements.\<close>

record reading =
  rg_status :: status
  rg_data :: bytes
  rg_rssi :: u32
  rg_snr :: u32

record 'r radio =
  rd_available :: "'r \<Rightarrow> bool"
  rd_read :: "nat \<Rightarrow> 'r \<Rightarrow> 'r \<times> reading"
  rd_startReceive :: "'r \<Rightarrow> 'r"
  rd_scanChannel :: "'r \<Rightarrow> 'r \<times> status"
  rd_startTransmit :: "bytes \<Rightarrow> 'r \<Rightarrow> 'r \<times> status"
  rd_txDone :: "'r \<Rightarrow> bool"
  rd_finishTransmit :: "'r \<Rightarrow> 'r"

text \<open>The default implementations: the non-blocking operations on top of the blocking one.\<close>

definition lora_radio_defaults :: "(bytes \<Rightarrow> 'r \<Rightarrow> 'r \<times> status) \<Rightarrow> 'r radio \<Rightarrow> 'r radio" where
  "lora_radio_defaults blocking_transmit R = R\<lparr>rd_scanChannel := (\<lambda>r. (r, RADIOLIB_CHANNEL_FREE)),
     rd_startTransmit := blocking_transmit, rd_txDone := (\<lambda>r. True), rd_finishTransmit := rd_startReceive R\<rparr>"

text \<open>
  What the transmit scheduler relies on. \<open>ok\<close> is the invariant of an idle radio: it is
  \<open>listening\<close> once told to receive, \<open>sending\<close> once a transmission was accepted, still \<open>ok\<close> when
  it was refused, and \<open>listening\<close> again once told to finish.
\<close>

locale lora_radio =
  fixes R :: "'r radio"
    and ok :: "'r \<Rightarrow> bool"
    and listening :: "'r \<Rightarrow> bool"
    and sending :: "'r \<Rightarrow> bool"
  assumes ok_read: "ok r \<Longrightarrow> ok (fst (rd_read R n r))"
    and ok_startReceive: "ok r \<Longrightarrow> ok (rd_startReceive R r)"
    and ok_scanChannel: "ok r \<Longrightarrow> ok (fst (rd_scanChannel R r))"
    and ok_refused: "ok r \<Longrightarrow> st \<noteq> RADIOLIB_ERR_NONE \<Longrightarrow> rd_startTransmit R b r = (r2, st) \<Longrightarrow> ok r2"
    and sends: "ok r \<Longrightarrow> rd_startTransmit R b r = (r2, RADIOLIB_ERR_NONE) \<Longrightarrow> sending r2"
    and ok_finish: "sending r \<Longrightarrow> ok (rd_finishTransmit R r)"
    and finished: "sending r \<Longrightarrow> listening (rd_finishTransmit R r)"
    and listens: "ok r \<Longrightarrow> listening (rd_startReceive R r)"

section \<open>The local radio\<close>

text \<open>The operations of RadioLib's \<open>SX1262\<close> object, on its state \<open>'c\<close>.\<close>

record 'c sx1262 =
  sx_begin :: "lora_config \<Rightarrow> 'c \<Rightarrow> 'c \<times> status"
  sx_setDio2AsRfSwitch :: "'c \<Rightarrow> 'c"
  sx_startReceive :: "'c \<Rightarrow> 'c"
  sx_getPacketLength :: "'c \<Rightarrow> nat"
  sx_readData :: "nat \<Rightarrow> 'c \<Rightarrow> 'c \<times> status \<times> bytes"
  sx_getRSSI :: "'c \<Rightarrow> u32"
  sx_getSNR :: "'c \<Rightarrow> u32"
  sx_transmit :: "bytes \<Rightarrow> 'c \<Rightarrow> 'c \<times> status"
  sx_scanChannel :: "'c \<Rightarrow> 'c \<times> status"
  sx_startTransmit :: "bytes \<Rightarrow> 'c \<Rightarrow> 'c \<times> status"
  sx_finishTransmit :: "'c \<Rightarrow> 'c"

record 'c wio =
  wi_chip :: 'c
  wi_rxFlag :: bool
  wi_txInFlight :: bool
  wi_hasAntSw :: bool
  wi_antTx :: bool
  wi_config :: lora_config
  wi_registered :: bool
  wi_isrWired :: bool

text \<open>The constructor; the first two objects are registered with the interrupt trampolines.\<close>

definition wio_create :: "nat \<Rightarrow> bool \<Rightarrow> lora_config \<Rightarrow> 'c \<Rightarrow> nat \<times> 'c wio" where
  "wio_create instCount hasAntSw config chip =
     (if instCount < 2 then instCount + 1 else instCount,
      \<lparr>wi_chip = chip, wi_rxFlag = False, wi_txInFlight = False, wi_hasAntSw = hasAntSw, wi_antTx = False,
       wi_config = config, wi_registered = (instCount < 2), wi_isrWired = False\<rparr>)"

definition wio_setAnt :: "bool \<Rightarrow> 'c wio \<Rightarrow> 'c wio" where
  "wio_setAnt tx w = (if \<not> wi_hasAntSw w then w else w\<lparr>wi_antTx := tx\<rparr>)"

text \<open>The interrupt line: DIO1 rises at the end of a reception or of a transmission.\<close>

definition wio_isr :: "'c wio \<Rightarrow> 'c wio" where
  "wio_isr w = w\<lparr>wi_rxFlag := True\<rparr>"

definition wio_setConfig :: "lora_config \<Rightarrow> 'c wio \<Rightarrow> 'c wio" where
  "wio_setConfig c w = w\<lparr>wi_config := c\<rparr>"

definition wio_begin :: "'c sx1262 \<Rightarrow> 'c wio \<Rightarrow> 'c wio \<times> bool" where
  "wio_begin X w =
     (let w1 = (if wi_hasAntSw w then wio_setAnt False w else w) in
      case sx_begin X (wi_config w1) (wi_chip w1) of (c, st) \<Rightarrow>
        (if st \<noteq> RADIOLIB_ERR_NONE then (w1\<lparr>wi_chip := c\<rparr>, False)
         else (w1\<lparr>wi_chip := sx_setDio2AsRfSwitch X c, wi_isrWired := (wi_isrWired w1 \<or> wi_registered w1)\<rparr>, True)))"

definition wio_available :: "'c wio \<Rightarrow> bool" where
  "wio_available w = wi_rxFlag w"

definition wio_read :: "'c sx1262 \<Rightarrow> nat \<Rightarrow> 'c wio \<Rightarrow> 'c wio \<times> reading" where
  "wio_read X cap w =
     (let w1 = w\<lparr>wi_rxFlag := False\<rparr>; pktLen = sx_getPacketLength X (wi_chip w1);
          toRead = (if pktLen < cap then pktLen else cap) in
      case sx_readData X toRead (wi_chip w1) of (c, st, buf) \<Rightarrow>
        (w1\<lparr>wi_chip := c\<rparr>,
         if st = RADIOLIB_ERR_NONE
         then \<lparr>rg_status = st, rg_data = take toRead buf, rg_rssi = sx_getRSSI X c, rg_snr = sx_getSNR X c\<rparr>
         else \<lparr>rg_status = st, rg_data = [], rg_rssi = 0, rg_snr = 0\<rparr>))"

definition wio_transmit :: "'c sx1262 \<Rightarrow> bytes \<Rightarrow> 'c wio \<Rightarrow> 'c wio \<times> status" where
  "wio_transmit X buf w =
     (let w1 = wio_setAnt True w in
      case sx_transmit X buf (wi_chip w1) of (c, st) \<Rightarrow>
        (wio_setAnt False (w1\<lparr>wi_rxFlag := False, wi_chip := sx_startReceive X c\<rparr>), st))"

definition wio_startReceive :: "'c sx1262 \<Rightarrow> 'c wio \<Rightarrow> 'c wio" where
  "wio_startReceive X w = w\<lparr>wi_rxFlag := False, wi_chip := sx_startReceive X (wi_chip w)\<rparr>"

definition wio_scanChannel :: "'c sx1262 \<Rightarrow> 'c wio \<Rightarrow> 'c wio \<times> status" where
  "wio_scanChannel X w =
     (case sx_scanChannel X (wi_chip w) of (c, st) \<Rightarrow> (w\<lparr>wi_chip := c, wi_rxFlag := False\<rparr>, st))"

definition wio_startTransmit :: "'c sx1262 \<Rightarrow> bytes \<Rightarrow> 'c wio \<Rightarrow> 'c wio \<times> status" where
  "wio_startTransmit X buf w =
     (let w1 = (wio_setAnt True w)\<lparr>wi_rxFlag := False\<rparr> in
      case sx_startTransmit X buf (wi_chip w1) of (c, st) \<Rightarrow>
        (let w2 = w1\<lparr>wi_chip := c\<rparr> in
         (if st = RADIOLIB_ERR_NONE then w2\<lparr>wi_txInFlight := True\<rparr> else wio_setAnt False w2, st)))"

definition wio_txDone :: "'c wio \<Rightarrow> bool" where
  "wio_txDone w \<longleftrightarrow> \<not> wi_txInFlight w \<or> wi_rxFlag w"

definition wio_finishTransmit :: "'c sx1262 \<Rightarrow> 'c wio \<Rightarrow> 'c wio" where
  "wio_finishTransmit X w =
     (let w1 = w\<lparr>wi_chip := sx_startReceive X (sx_finishTransmit X (wi_chip w)), wi_rxFlag := False\<rparr>
      in (wio_setAnt False w1)\<lparr>wi_txInFlight := False\<rparr>)"

definition wio_radio :: "'c sx1262 \<Rightarrow> 'c wio radio" where
  "wio_radio X = \<lparr>rd_available = wio_available, rd_read = wio_read X,
     rd_startReceive = wio_startReceive X, rd_scanChannel = wio_scanChannel X,
     rd_startTransmit = wio_startTransmit X, rd_txDone = wio_txDone, rd_finishTransmit = wio_finishTransmit X\<rparr>"

lemmas wio_defs = wio_radio_def wio_available_def wio_read_def wio_startReceive_def wio_scanChannel_def
  wio_startTransmit_def wio_txDone_def wio_finishTransmit_def wio_setAnt_def

text \<open>
  Documented behaviour of the chip: \<open>startReceive\<close> enters continuous receive, an accepted
  \<open>startTransmit\<close> puts it on the air.
\<close>

definition chip_laws :: "'c sx1262 \<Rightarrow> ('c \<Rightarrow> bool) \<Rightarrow> ('c \<Rightarrow> bool) \<Rightarrow> bool" where
  "chip_laws X rx tx \<longleftrightarrow> (\<forall>c. rx (sx_startReceive X c)) \<and>
     (\<forall>b c d. sx_startTransmit X b c = (d, RADIOLIB_ERR_NONE) \<longrightarrow> tx d)"

text \<open>
  The radio listens when its chip receives and the antenna switch is on the receive side, and
  sends when its chip is on the air with the switch on the other side and the next interrupt
  counted as the end of the transmission; what is said of the chip rests on its laws.
\<close>

definition wio_idle :: "'c wio \<Rightarrow> bool" where
  "wio_idle w \<longleftrightarrow> \<not> wi_txInFlight w \<and> (wi_hasAntSw w \<longrightarrow> \<not> wi_antTx w)"

definition wio_listening :: "'c sx1262 \<Rightarrow> ('c \<Rightarrow> bool) \<Rightarrow> ('c \<Rightarrow> bool) \<Rightarrow> 'c wio \<Rightarrow> bool" where
  "wio_listening X rx tx w \<longleftrightarrow> wio_idle w \<and> (chip_laws X rx tx \<longrightarrow> rx (wi_chip w))"

definition wio_sending :: "'c sx1262 \<Rightarrow> ('c \<Rightarrow> bool) \<Rightarrow> ('c \<Rightarrow> bool) \<Rightarrow> 'c wio \<Rightarrow> bool" where
  "wio_sending X rx tx w \<longleftrightarrow> wi_txInFlight w \<and> (wi_hasAntSw w \<longrightarrow> wi_antTx w) \<and>
     (chip_laws X rx tx \<longrightarrow> tx (wi_chip w))"

interpretation wio: lora_radio "wio_radio X" wio_idle "wio_listening X rx tx" "wio_sending X rx tx"
  for X rx tx
  by unfold_locales
    (auto simp: wio_defs wio_idle_def wio_listening_def wio_sending_def chip_laws_def Let_def
      split: prod.splits if_splits)

section \<open>A radio of the co-processor\<close>

text \<open>
  A remote radio: its index on the co-processor, its RF plan, the link it shares with the other
  one, and the bytes it put on the wire. \<open>uw\<close> is the serial driver's \<open>write\<close>.
\<close>

record remote =
  rm_localRadio :: int
  rm_config :: lora_config
  rm_link :: uart_link
  rm_wire :: bytes

definition remote_send :: "(bytes \<Rightarrow> nat) \<Rightarrow> link_type \<Rightarrow> bytes \<Rightarrow> remote \<Rightarrow> remote \<times> bool" where
  "remote_send uw ty payload r =
     (case sendFrame uw (link_code ty) (word_of_int (rm_localRadio r)) payload of (sent, out) \<Rightarrow>
        (r\<lparr>rm_wire := rm_wire r @ out\<rparr>, sent))"

definition remote_create :: "uart_link \<Rightarrow> int \<Rightarrow> lora_config \<Rightarrow> remote" where
  "remote_create l i c = \<lparr>rm_localRadio = i, rm_config = c, rm_link = registerRxQueue l i, rm_wire = []\<rparr>"

definition remote_begin :: "(bytes \<Rightarrow> nat) \<Rightarrow> remote \<Rightarrow> remote \<times> bool" where
  "remote_begin uw r =
     (let c = rm_config r;
          cfg = \<lparr>cfg_enable = 1, cfg_frequency = lc_frequency c, cfg_bandwidth = lc_bandwidth c,
            cfg_sf = lc_spreadFactor c, cfg_cr = lc_codingRate c, cfg_syncWord = lc_syncWord c,
            cfg_txPower = lc_txPower c, cfg_preambleLen = lc_preambleLen c\<rparr> in
      case remote_send uw MSG_CFG_RADIO (pack_CfgRadio cfg) r of
        (r2, True) \<Rightarrow> (fst (remote_send uw MSG_START_RX [] r2), True)
      | (r2, False) \<Rightarrow> (r2, False))"

text \<open>The RX queue of the radio, when it was registered.\<close>

definition remote_queue :: "remote \<Rightarrow> rx_packet list option" where
  "remote_queue r = (if remote_ok (rm_localRadio r) then ul_queue (rm_link r) ! nat (rm_localRadio r) else None)"

definition remote_available :: "remote \<Rightarrow> bool" where
  "remote_available r = (case remote_queue r of None \<Rightarrow> False | Some q \<Rightarrow> q \<noteq> [])"

definition remote_read :: "nat \<Rightarrow> remote \<Rightarrow> remote \<times> reading" where
  "remote_read cap r =
     (case remote_queue r of
        Some (p # q) \<Rightarrow>
          (let n = (if length (pkt_data p) < cap then length (pkt_data p) else cap);
               l = rm_link r in
           (r\<lparr>rm_link := l\<lparr>ul_queue := (ul_queue l)[nat (rm_localRadio r) := Some q]\<rparr>\<rparr>,
            \<lparr>rg_status = RADIOLIB_ERR_NONE, rg_data = take n (pkt_data p), rg_rssi = pkt_rssi p, rg_snr = pkt_snr p\<rparr>))
      | _ \<Rightarrow> (r, \<lparr>rg_status = RADIOLIB_ERR_UNKNOWN, rg_data = [], rg_rssi = 0, rg_snr = 0\<rparr>))"

definition remote_startReceive :: "(bytes \<Rightarrow> nat) \<Rightarrow> remote \<Rightarrow> remote" where
  "remote_startReceive uw r = fst (remote_send uw MSG_START_RX [] r)"

definition remote_scanChannel :: "remote \<Rightarrow> remote \<times> status" where
  "remote_scanChannel r = (r, RADIOLIB_CHANNEL_FREE)"

definition remote_startTransmit :: "(bytes \<Rightarrow> nat) \<Rightarrow> bytes \<Rightarrow> remote \<Rightarrow> remote \<times> status" where
  "remote_startTransmit uw buf r =
     (if \<not> ul_ready (rm_link r) then (r, RADIOLIB_ERR_UNKNOWN)
      else (case remote_send uw MSG_TX buf (r\<lparr>rm_link := armTx (rm_link r) (rm_localRadio r)\<rparr>) of
          (r2, sent) \<Rightarrow> (r2, if sent then RADIOLIB_ERR_NONE else RADIOLIB_ERR_UNKNOWN)))"

definition remote_txDone :: "remote \<Rightarrow> bool" where
  "remote_txDone r = link_txDone (rm_link r) (rm_localRadio r)"

definition remote_finishTransmit :: "remote \<Rightarrow> remote" where
  "remote_finishTransmit r = r"

text \<open>
  The blocking \<open>transmit\<close> polls: \<open>polls\<close> lists what the link task receives during each wait
  and the clock after it. \<open>None\<close> when the list ends before the loop does.
\<close>

definition TX_DONE_TIMEOUT_MS :: u32 where "TX_DONE_TIMEOUT_MS = 8000"

fun remote_wait :: "u32 \<Rightarrow> u32 \<Rightarrow> (bytes \<times> u32) list \<Rightarrow> remote \<Rightarrow> remote option" where
  "remote_wait t0 now polls r =
     (if remote_txDone r \<or> TX_DONE_TIMEOUT_MS \<le> now - t0 then Some r
      else (case polls of [] \<Rightarrow> None
        | (bs, now2) # ps \<Rightarrow> remote_wait t0 now2 ps (r\<lparr>rm_link := rxTask_drain now2 (rm_link r) bs\<rparr>)))"

declare remote_wait.simps [simp del]

definition remote_transmit ::
  "(u16 \<Rightarrow> status) \<Rightarrow> (bytes \<Rightarrow> nat) \<Rightarrow> u32 \<Rightarrow> (bytes \<times> u32) list \<Rightarrow> bytes \<Rightarrow> remote \<Rightarrow> (remote \<times> status) option" where
  "remote_transmit decode uw t0 polls buf r =
     (case remote_startTransmit uw buf r of (r2, st) \<Rightarrow>
        (if st \<noteq> RADIOLIB_ERR_NONE then Some (r2, RADIOLIB_ERR_UNKNOWN)
         else map_option (\<lambda>r3. (r3, if remote_txDone r3 then decode (link_txStatus (rm_link r3) (rm_localRadio r3))
              else RADIOLIB_ERR_TX_TIMEOUT)) (remote_wait t0 t0 polls r2)))"

definition remote_radio :: "(bytes \<Rightarrow> nat) \<Rightarrow> remote radio" where
  "remote_radio uw = \<lparr>rd_available = remote_available, rd_read = remote_read,
     rd_startReceive = remote_startReceive uw,
     rd_scanChannel = remote_scanChannel, rd_startTransmit = remote_startTransmit uw,
     rd_txDone = remote_txDone, rd_finishTransmit = remote_finishTransmit\<rparr>"

lemmas remote_defs = remote_radio_def remote_read_def remote_startReceive_def remote_scanChannel_def
  remote_startTransmit_def remote_finishTransmit_def remote_send_def armTx_def

text \<open>Received packets reach the radio: its index is one of the link's and its queue is registered.\<close>

definition remote_attached :: "remote \<Rightarrow> bool" where
  "remote_attached r \<longleftrightarrow> remote_queue r \<noteq> None \<and> length (ul_queue (rm_link r)) = MAX_REMOTE_RADIOS"

interpretation rem: lora_radio "remote_radio uw" remote_attached remote_attached remote_attached
  for uw
  by unfold_locales
    (auto simp: remote_defs remote_attached_def remote_queue_def remote_ok_def nth_list_update Let_def
      split: prod.splits if_splits option.splits list.splits)

end
