(* ===== verification/Scheduler.thy ===== *)
theory Scheduler
  imports Radios BridgeRouting "HOL-Library.Sublist"
begin

text \<open>
  The task of one radio (\<open>radioTask\<close> of \<open>src/src/main.cpp\<close>): each pass services a transmission in
  flight, else drains one received packet into the bridge, mints the periodic NodeInfo, and lets the
  scheduler latch, expire, gate and start one queued packet. The radio is any implementation of
  the interface of \<open>Radios\<close>.
\<close>

section \<open>Time on air and its limits\<close>

definition f32_sub :: "fval \<Rightarrow> fval \<Rightarrow> fval" where
  "f32_sub x y = f32_add x (case y of Fin s m e \<Rightarrow> Fin (\<not> s) m e | Inf s \<Rightarrow> Inf (\<not> s) | Not_a_number \<Rightarrow> Not_a_number)"

text \<open>The blocks of the payload, rounded up; \<open>None\<close> where the conversion is undefined.\<close>

definition airtime_blocks :: "fval \<Rightarrow> fval \<Rightarrow> int option" where
  "airtime_blocks num den =
     (if f_less (f32_of_int 0) num \<and> f_less (f32_of_int 0) den then
        (let b = f32_div num den in
         map_option (\<lambda>n. if f_less (f32_of_int n) b then n + 1 else n) (f_to_int b))
      else Some 0)"

definition estimateAirtimeMs :: "nat \<Rightarrow> u8 \<Rightarrow> u32 \<Rightarrow> u8 \<Rightarrow> u16 \<Rightarrow> u32 option" where
  "estimateAirtimeMs payloadLen sf0 bwKhz crDenom preambleLen =
     (let sf = (if sf0 < 5 then 5 else if 12 < sf0 then 12 else uint sf0);
          bw0 = f32_of_bits bwKhz;
          bw = (if f_le bw0 (f32_of_int 0) then f32_of_int 125 else bw0);
          cr0 = uint crDenom - 4;
          cr = (if cr0 < 1 then 1 else if 4 < cr0 then 4 else cr0);
          tSym = f32_div (f32_of_int (2 ^ nat sf)) bw;
          de = (if f_le (f32_of_int 16) tSym then 1 else 0);
          num = f32_add (f32_add (f32_sub (f32_mul (f32_of_int 8) (f32_of_int (int payloadLen)))
              (f32_mul (f32_of_int 4) (f32_of_int sf))) (f32_of_int 28)) (f32_of_int 16);
          den = f32_mul (f32_of_int 4) (f32_of_int (sf - 2 * de))
      in case airtime_blocks num den of None \<Rightarrow> None
         | Some nblocks \<Rightarrow>
             (let payloadSymb = 8 + nblocks * (cr + 4);
                  toa = f32_add (f32_mul (f32_add (f32_of_int (uint preambleLen)) (Fin False 17 (-2))) tSym)
                          (f32_mul (f32_of_int payloadSymb) tSym)
              in f_to_u32 (f32_add toa (f32_of_bits 0x3F7FBE77))))"

definition regionDwellMs :: "u8 \<Rightarrow> u32" where
  "regionDwellMs region = (if region = REGION_US then 400 else 0)"

text \<open>The pause after a transmission of \<open>air\<close> milliseconds.\<close>

definition tx_gap :: "build_flags \<Rightarrow> u32 \<Rightarrow> u32" where
  "tx_gap fl air =
     (let gap = (if 0 < bf_tx_duty fl then air * 100 div bf_tx_duty fl else air) in
      if gap < air + bf_tx_min_gap fl then air + bf_tx_min_gap fl else gap)"

section \<open>The state of the task\<close>

text \<open>
  \<open>tk_pending\<close> is the latched packet with its queueing time; \<open>tk_started\<close> records what was put on
  the air and when, an observation the code does not keep.
\<close>

record 'r task =
  tk_radio :: 'r
  tk_txBusy :: bool
  tk_txStartMs :: u32
  tk_txBackoffUntil :: u32
  tk_nextTxAllowedMs :: u32
  tk_pending :: "rq_item option"
  tk_isMT :: bool
  tk_nextNodeInfoMs :: u32
  tk_started :: "(u32 \<times> bytes) list"

text \<open>
  What one pass meets: the bridge's environment, the successive readings of \<open>millis()\<close>, the random
  backoff, and what the hardware and the other tasks do to the radio before its state is looked at.
\<close>

record 'r tick =
  tc_env :: bridge_env
  tc_clock :: "nat \<Rightarrow> u32"
  tc_random :: u32
  tc_world :: "nat \<Rightarrow> 'r \<Rightarrow> 'r"

definition task_init :: "'r \<Rightarrow> u8 \<Rightarrow> u32 \<Rightarrow> 'r task" where
  "task_init r proto now = \<lparr>tk_radio = r, tk_txBusy = False, tk_txStartMs = 0, tk_txBackoffUntil = 0,
     tk_nextTxAllowedMs = 0, tk_pending = None, tk_isMT = (proto = SYNC_WORD_MESHTASTIC),
     tk_nextNodeInfoMs = now + 10000, tk_started = []\<rparr>"

text \<open>The deadline comparison of the code: not before \<open>t\<close>, for deadlines less than half the clock's range away.\<close>

definition due :: "u32 \<Rightarrow> u32 \<Rightarrow> bool" where
  "due now t \<longleftrightarrow> 0 \<le> sint (now - t)"

section \<open>One pass\<close>

definition service_tx :: "build_flags \<Rightarrow> 'r radio \<Rightarrow> 'r tick \<Rightarrow> 'r task \<Rightarrow> 'r task" where
  "service_tx fl R k t =
     (let r = tc_world k 0 (tk_radio t);
          timedOut = tc_clock k 0 - tk_txStartMs t > bf_inflight_timeout fl in
      if rd_txDone R r \<or> timedOut then t\<lparr>tk_radio := rd_finishTransmit R r, tk_txBusy := False\<rparr>
      else t\<lparr>tk_radio := r\<rparr>)"

definition rx_drain ::
  "build_flags \<Rightarrow> 'r radio \<Rightarrow> 'r tick \<Rightarrow> nat \<Rightarrow> 'r task \<times> bridge \<Rightarrow> ('r task \<times> bridge) option" where
  "rx_drain fl R k i tb = (case tb of (t, b) \<Rightarrow>
     (let r = tc_world k 1 (tk_radio t) in
      if \<not> rd_available R r then Some (t\<lparr>tk_radio := r\<rparr>, b)
      else (case rd_read R LORA_MAX_PACKET r of (r2, g) \<Rightarrow>
        if rg_status g = RADIOLIB_ERR_NONE \<and> rg_data g \<noteq> [] then
          map_option (\<lambda>b2. (t\<lparr>tk_radio := rd_startReceive R r2\<rparr>, b2)) (ingestAndFanout fl (tc_env k) i (rg_data g) b)
        else if rg_status g \<noteq> RADIOLIB_ERR_NONE then Some (t\<lparr>tk_radio := rd_startReceive R r2\<rparr>, b)
        else Some (t\<lparr>tk_radio := r2\<rparr>, b))))"

definition periodic_nodeinfo :: "'r tick \<Rightarrow> nat \<Rightarrow> 'r task \<times> bridge \<Rightarrow> 'r task \<times> bridge" where
  "periodic_nodeinfo k i tb = (case tb of (t, b) \<Rightarrow>
     (if tk_isMT t \<and> due (tc_clock k 1) (tk_nextNodeInfoMs t) then
        (let e = tc_env k; c = br_cfg b in
         (t\<lparr>tk_nextNodeInfoMs := tc_clock k 2 + 300000\<rparr>,
          case encodeMeshtasticNodeInfo (be_crypto e) (draw e b) (br_chan b ! i) (bc_mtNodeId c)
              (bc_mtNodeIdStr c) (bc_mtLongName c) (bc_mtShortName c) 256 of
            None \<Rightarrow> b
          | Some pkt \<Rightarrow> fst (push_to e i pkt (drawn b))))
      else (t, b)))"

definition latch_next :: "'r tick \<Rightarrow> nat \<Rightarrow> 'r task \<times> bridge \<Rightarrow> 'r task \<times> bridge" where
  "latch_next k i tb = (case tb of (t, b) \<Rightarrow>
     (if tk_pending t \<noteq> None then (t, b)
      else (case br_queue b ! i of None \<Rightarrow> (t, b)
        | Some q \<Rightarrow> (case rq_pop (tc_clock k 3) q of (q2, item) \<Rightarrow>
            (t\<lparr>tk_pending := item\<rparr>, b\<lparr>br_queue := (br_queue b)[i := Some q2]\<rparr>)))))"

definition latched_stale :: "build_flags \<Rightarrow> u32 \<Rightarrow> rq_item option \<Rightarrow> bool" where
  "latched_stale fl now p \<longleftrightarrow>
     (case p of None \<Rightarrow> False | Some item \<Rightarrow> item_stale now (bf_route_max_age fl) item)"

definition expire_latched :: "build_flags \<Rightarrow> 'r tick \<Rightarrow> 'r task \<Rightarrow> 'r task" where
  "expire_latched fl k t = (if latched_stale fl (tc_clock k 4) (tk_pending t) then t\<lparr>tk_pending := None\<rparr> else t)"

text \<open>Starting one packet; \<open>None\<close> where the airtime estimate is undefined.\<close>

definition start_packet ::
  "build_flags \<Rightarrow> 'r radio \<Rightarrow> 'r tick \<Rightarrow> u32 option \<Rightarrow> bytes \<Rightarrow> 'r task \<Rightarrow> 'r task option" where
  "start_packet fl R k airtime data t =
     (case rd_startTransmit R data (tk_radio t) of (r, st) \<Rightarrow>
        if st = RADIOLIB_ERR_NONE then
          map_option (\<lambda>air. t\<lparr>tk_radio := r, tk_txBusy := True, tk_txStartMs := tc_clock k 8, tk_pending := None,
              tk_nextTxAllowedMs := tc_clock k 8 + tx_gap fl air,
              tk_started := tk_started t @ [(tc_clock k 8, data)]\<rparr>) airtime
        else Some (t\<lparr>tk_radio := rd_startReceive R r, tk_pending := None\<rparr>))"

text \<open>The scheduler: gate, listen before talk, dwell limit, start.\<close>

definition radio_airtime :: "bridge \<Rightarrow> nat \<Rightarrow> nat \<Rightarrow> u32 option" where
  "radio_airtime b i len = (let s = bc_slot (br_cfg b) (int i) in
     estimateAirtimeMs len (rs_sf s) (rs_bandwidth s) (rs_cr s) LORA_PREAMBLE_LEN)"

definition dwell_applies :: "bridge \<Rightarrow> nat \<Rightarrow> bool" where
  "dwell_applies b i \<longleftrightarrow>
     regionDwellMs (bc_region (br_cfg b)) \<noteq> 0 \<and> ch_protocol (br_chan b ! i) = SYNC_WORD_LORAWAN"

definition gate_open :: "'r radio \<Rightarrow> 'r tick \<Rightarrow> 'r task \<Rightarrow> bool" where
  "gate_open R k t \<longleftrightarrow> \<not> rd_available R (tk_radio t) \<and>
     due (tc_clock k 5) (tk_txBackoffUntil t) \<and> due (tc_clock k 6) (tk_nextTxAllowedMs t)"

definition transmit_next :: "build_flags \<Rightarrow> 'r radio \<Rightarrow> 'r tick \<Rightarrow> nat \<Rightarrow> bridge \<Rightarrow> 'r task \<Rightarrow> 'r task option" where
  "transmit_next fl R k i b t0 =
     (case tk_pending t0 of None \<Rightarrow> Some t0
      | Some (data, enq) \<Rightarrow>
        (let t = t0\<lparr>tk_radio := tc_world k 2 (tk_radio t0)\<rparr> in
         if \<not> gate_open R k t then Some t
         else (case rd_scanChannel R (tk_radio t) of (r, cad) \<Rightarrow>
           if cad = RADIOLIB_LORA_DETECTED then
             Some (t\<lparr>tk_txBackoffUntil := tc_clock k 7 + tc_random k, tk_radio := rd_startReceive R r\<rparr>)
           else (let air = radio_airtime b i (length data); t1 = t\<lparr>tk_radio := r\<rparr> in
             if dwell_applies b i then
               (case air of None \<Rightarrow> None
                | Some toa \<Rightarrow>
                    if regionDwellMs (bc_region (br_cfg b)) < toa
                    then Some (t1\<lparr>tk_pending := None, tk_radio := rd_startReceive R r\<rparr>)
                    else start_packet fl R k air data t1)
             else start_packet fl R k air data t1))))"

definition radio_pass ::
  "build_flags \<Rightarrow> 'r radio \<Rightarrow> nat \<Rightarrow> 'r tick \<Rightarrow> 'r task \<times> bridge \<Rightarrow> ('r task \<times> bridge) option" where
  "radio_pass fl R i k tb =
     (if tk_txBusy (fst tb) then Some (service_tx fl R k (fst tb), snd tb)
      else (case rx_drain fl R k i tb of None \<Rightarrow> None
        | Some tb1 \<Rightarrow> (case latch_next k i (periodic_nodeinfo k i tb1) of (t2, b2) \<Rightarrow>
            map_option (\<lambda>t3. (t3, b2)) (transmit_next fl R k i b2 (expire_latched fl k t2)))))"

text \<open>The task over a sequence of passes.\<close>

fun radioTask ::
  "build_flags \<Rightarrow> 'r radio \<Rightarrow> nat \<Rightarrow> 'r tick list \<Rightarrow> 'r task \<times> bridge \<Rightarrow> ('r task \<times> bridge) option" where
  "radioTask fl R i [] tb = Some tb"
| "radioTask fl R i (k # ks) tb = Option.bind (radio_pass fl R i k tb) (radioTask fl R i ks)"

end
