(* ===== verification/SchedulerSafety.thy ===== *)
theory SchedulerSafety
  imports Scheduler
begin

text \<open>
  What the radio task guarantees: when it may transmit, the pause it leaves between
  transmissions, the recovery of a transmission that never ends, that the radio is left
  listening or sending after every pass, and that packets leave in the order they were queued.
\<close>

section \<open>What each stage of a pass leaves alone\<close>

lemma br_static_refl: "br_static b b"
  by (simp add: br_static_def)

lemma br_static_trans: "br_static a b \<Longrightarrow> br_static b c \<Longrightarrow> br_static a c"
  by (simp add: br_static_def)

lemma static_push: "br_static b (fst (push_to e i pkt (drawn b)))"
  by (auto simp: push_to_def drawn_def br_static_def split: prod.splits)

lemma static_queue: "br_static b (b\<lparr>br_queue := (br_queue b)[i := q]\<rparr>)"
  by (simp add: br_static_def)

lemma rx_drain_keeps:
  assumes "rx_drain fl R k i (t, b) = Some (t1, b1)"
  shows "\<exists>r. t1 = t\<lparr>tk_radio := r\<rparr> \<and> br_static b b1"
  using assms touches_ingestAndFanout [of fl "tc_env k" i _ b]
  by (auto simp: rx_drain_def Let_def touches_def br_static_refl split: prod.splits if_splits)

lemma periodic_keeps:
  assumes "periodic_nodeinfo k i (t, b) = (t1, b1)"
  shows "\<exists>n. t1 = t\<lparr>tk_nextNodeInfoMs := n\<rparr> \<and> br_static b b1"
proof (cases "tk_isMT t \<and> due (tc_clock k 1) (tk_nextNodeInfoMs t)")
  case True
  with assms show ?thesis
    by (auto simp: periodic_nodeinfo_def Let_def br_static_refl static_push split: option.splits)
next
  case False
  then have "t1 = t\<lparr>tk_nextNodeInfoMs := tk_nextNodeInfoMs t\<rparr>" "b1 = b"
    using assms by (auto simp: periodic_nodeinfo_def)
  then show ?thesis using br_static_refl by blast
qed

lemma latch_keeps:
  assumes "latch_next k i (t, b) = (t1, b1)"
  shows "\<exists>p. t1 = t\<lparr>tk_pending := p\<rparr> \<and> br_static b b1"
proof (cases "tk_pending t = None \<and> br_queue b ! i \<noteq> None")
  case True
  with assms show ?thesis by (auto simp: latch_next_def static_queue split: prod.splits)
next
  case False
  then have "t1 = t\<lparr>tk_pending := tk_pending t\<rparr>" "b1 = b"
    using assms by (auto simp: latch_next_def split: if_splits)
  then show ?thesis using br_static_refl by blast
qed

lemma expire_keeps: "\<exists>p. expire_latched fl k t = t\<lparr>tk_pending := p\<rparr> \<and> \<not> latched_stale fl (tc_clock k 4) p"
proof (cases "latched_stale fl (tc_clock k 4) (tk_pending t)")
  case True
  then show ?thesis by (auto simp: expire_latched_def latched_stale_def)
next
  case False
  then have "expire_latched fl k t = t\<lparr>tk_pending := tk_pending t\<rparr>" by (simp add: expire_latched_def)
  with False show ?thesis by blast
qed

text \<open>An idle pass reaches the scheduler with its timers as they were and no stale packet latched.\<close>

lemma idle_pass:
  assumes "radio_pass fl R i k (t, b) = Some (t', b')" and "\<not> tk_txBusy t"
  obtains r n p where "transmit_next fl R k i b' (t\<lparr>tk_radio := r, tk_nextNodeInfoMs := n, tk_pending := p\<rparr>) = Some t'"
    and "br_static b b'" and "\<not> latched_stale fl (tc_clock k 4) p"
proof -
  obtain t1 b1 where d: "rx_drain fl R k i (t, b) = Some (t1, b1)"
    using assms by (auto simp: radio_pass_def split: option.splits)
  obtain t2 b2 where p: "periodic_nodeinfo k i (t1, b1) = (t2, b2)" by fastforce
  obtain t3 b3 where l: "latch_next k i (t2, b2) = (t3, b3)" by fastforce
  have t: "transmit_next fl R k i b3 (expire_latched fl k t3) = Some t'" "b3 = b'"
    using assms by (auto simp: radio_pass_def d p l)
  obtain q where e: "expire_latched fl k t3 = t3\<lparr>tk_pending := q\<rparr>" "\<not> latched_stale fl (tc_clock k 4) q"
    using expire_keeps by blast
  from rx_drain_keeps [OF d] periodic_keeps [OF p] latch_keeps [OF l]
  obtain r n w where k: "t3 = t\<lparr>tk_radio := r, tk_nextNodeInfoMs := n, tk_pending := w\<rparr>"
    and "br_static b b1" "br_static b1 b2" "br_static b2 b3" by auto
  then have "br_static b b'" using t(2) br_static_trans by blast
  moreover have "transmit_next fl R k i b' (t\<lparr>tk_radio := r, tk_nextNodeInfoMs := n, tk_pending := q\<rparr>) = Some t'"
    using t e(1) k by simp
  ultimately show thesis using that e(2) by blast
qed

lemma idle_timers [simp]:
  "tk_txBusy (t\<lparr>tk_radio := r, tk_nextNodeInfoMs := n, tk_pending := p\<rparr>) = tk_txBusy t"
  by simp

section \<open>The scheduler's decision\<close>

text \<open>Either nothing goes on the air, and the timers of the last transmission stay, or the packet does.\<close>

lemma start_packet_cases:
  assumes "start_packet fl R k airtime data t = Some t'"
  shows "(\<exists>r. t' = t\<lparr>tk_radio := r, tk_pending := None\<rparr>) \<or>
    (\<exists>r air. rd_startTransmit R data (tk_radio t) = (r, RADIOLIB_ERR_NONE) \<and> airtime = Some air \<and>
       t' = t\<lparr>tk_radio := r, tk_txBusy := True, tk_txStartMs := tc_clock k 8, tk_pending := None,
              tk_nextTxAllowedMs := tc_clock k 8 + tx_gap fl air,
              tk_started := tk_started t @ [(tc_clock k 8, data)]\<rparr>)"
  using assms by (auto simp: start_packet_def split: prod.splits if_splits)

definition on_air :: "build_flags \<Rightarrow> 'r radio \<Rightarrow> 'r tick \<Rightarrow> nat \<Rightarrow> bridge \<Rightarrow> 'r task \<Rightarrow> bytes \<Rightarrow> u32 \<Rightarrow> 'r task \<Rightarrow> bool" where
  "on_air fl R k i b t data air t' \<longleftrightarrow>
     (let r = tc_world k 2 (tk_radio t) in
      \<not> rd_available R r \<and> snd (rd_scanChannel R r) \<noteq> RADIOLIB_LORA_DETECTED \<and>
      due (tc_clock k 5) (tk_txBackoffUntil t) \<and> due (tc_clock k 6) (tk_nextTxAllowedMs t) \<and>
      rd_startTransmit R data (fst (rd_scanChannel R r)) = (tk_radio t', RADIOLIB_ERR_NONE) \<and>
      radio_airtime b i (length data) = Some air \<and>
      (dwell_applies b i \<longrightarrow> air \<le> regionDwellMs (bc_region (br_cfg b))) \<and>
      t' = t\<lparr>tk_radio := tk_radio t', tk_txBusy := True, tk_txStartMs := tc_clock k 8, tk_pending := None,
             tk_nextTxAllowedMs := tc_clock k 8 + tx_gap fl air,
             tk_started := tk_started t @ [(tc_clock k 8, data)]\<rparr>)"

lemma transmit_next_cases:
  assumes "transmit_next fl R k i b t = Some t'"
  shows "(\<exists>r p w. t' = t\<lparr>tk_radio := r, tk_pending := p, tk_txBackoffUntil := w\<rparr> \<and> (p = None \<or> p = tk_pending t) \<and>
      (w = tk_txBackoffUntil t \<or> (\<exists>q. snd (rd_scanChannel R q) = RADIOLIB_LORA_DETECTED))) \<or>
    (\<exists>data enq air. tk_pending t = Some (data, enq) \<and> on_air fl R k i b t data air t')"
proof (cases "tk_pending t")
  case None
  then have "t' = t\<lparr>tk_radio := tk_radio t, tk_pending := None, tk_txBackoffUntil := tk_txBackoffUntil t\<rparr>"
    using assms by (simp add: transmit_next_def)
  then show ?thesis by blast
next
  case (Some item)
  obtain data enq where i: "item = (data, enq)" by fastforce
  let ?t = "t\<lparr>tk_radio := tc_world k 2 (tk_radio t)\<rparr>"
  obtain r cad where s: "rd_scanChannel R (tc_world k 2 (tk_radio t)) = (r, cad)" by fastforce
  show ?thesis
  proof (cases "gate_open R k ?t \<and> cad \<noteq> RADIOLIB_LORA_DETECTED")
    case False
    then have "t' = t\<lparr>tk_radio := tk_radio t', tk_pending := tk_pending t, tk_txBackoffUntil := tk_txBackoffUntil t'\<rparr>"
      using assms by (auto simp: transmit_next_def Some i s Let_def split: if_splits)
    moreover have "tk_txBackoffUntil t' = tk_txBackoffUntil t \<or> snd (rd_scanChannel R (tc_world k 2 (tk_radio t))) = RADIOLIB_LORA_DETECTED"
      using assms False by (auto simp: transmit_next_def Some i s Let_def split: if_splits)
    ultimately show ?thesis by blast
  next
    case True
    let ?air = "radio_airtime b i (length data)" and ?t1 = "?t\<lparr>tk_radio := r\<rparr>"
    consider (dwell) "t' = t\<lparr>tk_radio := rd_startReceive R r, tk_pending := None\<rparr>"
      | (start) "start_packet fl R k ?air data ?t1 = Some t'"
          "\<forall>a. dwell_applies b i \<longrightarrow> ?air = Some a \<longrightarrow> a \<le> regionDwellMs (bc_region (br_cfg b))"
      using assms True by (auto simp: transmit_next_def Some i s Let_def not_less split: if_splits option.splits)
    then show ?thesis
    proof cases
      case dwell
      then have "t' = t\<lparr>tk_radio := rd_startReceive R r, tk_pending := None, tk_txBackoffUntil := tk_txBackoffUntil t\<rparr>"
        by simp
      then show ?thesis by blast
    next
      case start
      from start_packet_cases [OF start(1)] show ?thesis
      proof
        assume "\<exists>q. t' = ?t1\<lparr>tk_radio := q, tk_pending := None\<rparr>"
        then obtain q where "t' = t\<lparr>tk_radio := q, tk_pending := None, tk_txBackoffUntil := tk_txBackoffUntil t\<rparr>" by auto
        then show ?thesis by blast
      next
        assume "\<exists>q a. rd_startTransmit R data (tk_radio ?t1) = (q, RADIOLIB_ERR_NONE) \<and> ?air = Some a \<and>
          t' = ?t1\<lparr>tk_radio := q, tk_txBusy := True, tk_txStartMs := tc_clock k 8, tk_pending := None,
              tk_nextTxAllowedMs := tc_clock k 8 + tx_gap fl a, tk_started := tk_started ?t1 @ [(tc_clock k 8, data)]\<rparr>"
        then obtain q a where st: "rd_startTransmit R data r = (q, RADIOLIB_ERR_NONE)" "?air = Some a"
          "t' = t\<lparr>tk_radio := q, tk_txBusy := True, tk_txStartMs := tc_clock k 8, tk_pending := None,
              tk_nextTxAllowedMs := tc_clock k 8 + tx_gap fl a, tk_started := tk_started t @ [(tc_clock k 8, data)]\<rparr>"
          by auto
        then have "on_air fl R k i b t data a t'"
          using start(2) True s by (simp add: on_air_def Let_def gate_open_def)
        then show ?thesis using Some i by blast
      qed
    qed
  qed
qed

section \<open>One pass\<close>

lemma service_cases:
  obtains "service_tx fl R k t = t\<lparr>tk_radio := rd_finishTransmit R (tc_world k 0 (tk_radio t)), tk_txBusy := False\<rparr>"
  | "service_tx fl R k t = t\<lparr>tk_radio := tc_world k 0 (tk_radio t)\<rparr>"
    "tc_clock k 0 - tk_txStartMs t \<le> bf_inflight_timeout fl"
  by (cases "rd_txDone R (tc_world k 0 (tk_radio t)) \<or> tc_clock k 0 - tk_txStartMs t > bf_inflight_timeout fl")
    (auto simp: service_tx_def Let_def not_less)

text \<open>What a pass does to the timers and to the record of transmissions.\<close>

definition timers_kept :: "'r radio \<Rightarrow> 'r task \<Rightarrow> 'r task \<Rightarrow> bool" where
  "timers_kept R t t' \<longleftrightarrow> tk_started t' = tk_started t \<and> tk_nextTxAllowedMs t' = tk_nextTxAllowedMs t \<and>
     tk_txStartMs t' = tk_txStartMs t \<and>
     (tk_txBackoffUntil t' = tk_txBackoffUntil t \<or> (\<exists>q. snd (rd_scanChannel R q) = RADIOLIB_LORA_DETECTED))"

lemma radio_pass_cases:
  assumes "radio_pass fl R i k (t, b) = Some (t', b')"
  shows "br_static b b' \<and> (timers_kept R t t' \<and> (tk_txBusy t' \<longrightarrow> tk_txBusy t) \<or>
    (\<exists>r n data enq air. \<not> tk_txBusy t \<and> \<not> item_stale (tc_clock k 4) (bf_route_max_age fl) (data, enq) \<and>
       on_air fl R k i b (t\<lparr>tk_radio := r, tk_nextNodeInfoMs := n, tk_pending := Some (data, enq)\<rparr>) data air t'))"
proof (cases "tk_txBusy t")
  case True
  then have "t' = service_tx fl R k t" "b' = b" using assms by (auto simp: radio_pass_def)
  with True show ?thesis by (cases rule: service_cases [of fl R k t]) (auto simp: timers_kept_def br_static_refl)
next
  case False
  obtain r n p where p: "transmit_next fl R k i b' (t\<lparr>tk_radio := r, tk_nextNodeInfoMs := n, tk_pending := p\<rparr>) = Some t'"
    "br_static b b'" "\<not> latched_stale fl (tc_clock k 4) p"
    using idle_pass [OF assms False] by blast
  have same: "on_air fl R k i b' u data air t' = on_air fl R k i b u data air t'" for u data air
    using p(2) by (simp add: on_air_def radio_airtime_def dwell_applies_def br_static_def)
  let ?u = "t\<lparr>tk_radio := r, tk_nextNodeInfoMs := n, tk_pending := p\<rparr>"
  consider (kept) "\<exists>r2 q w. t' = ?u\<lparr>tk_radio := r2, tk_pending := q, tk_txBackoffUntil := w\<rparr> \<and>
       (w = tk_txBackoffUntil ?u \<or> (\<exists>q. snd (rd_scanChannel R q) = RADIOLIB_LORA_DETECTED))"
    | (sent) data enq air where "p = Some (data, enq)" "on_air fl R k i b' ?u data air t'"
    using transmit_next_cases [OF p(1)] by auto
  then show ?thesis
  proof cases
    case kept
    then show ?thesis using p(2) False by (auto simp: timers_kept_def)
  next
    case sent
    have "\<not> item_stale (tc_clock k 4) (bf_route_max_age fl) (data, enq)"
      using p(3) sent(1) by (simp add: latched_stale_def)
    then show ?thesis using p(2) False sent same by blast
  qed
qed

lemma on_air_result:
  assumes "on_air fl R k i b t data air t'"
  shows "tk_txBusy t'" and "tk_pending t' = None" and "tk_txStartMs t' = tc_clock k 8"
    and "tk_started t' = tk_started t @ [(tc_clock k 8, data)]"
    and "tk_nextTxAllowedMs t' = tc_clock k 8 + tx_gap fl air"
proof -
  define u where u: "u = t\<lparr>tk_radio := tk_radio t', tk_txBusy := True, tk_txStartMs := tc_clock k 8, tk_pending := None,
    tk_nextTxAllowedMs := tc_clock k 8 + tx_gap fl air, tk_started := tk_started t @ [(tc_clock k 8, data)]\<rparr>"
  then have e: "t' = u" using assms by (simp add: on_air_def Let_def)
  show "tk_txBusy t'" "tk_pending t' = None" "tk_txStartMs t' = tc_clock k 8"
    "tk_started t' = tk_started t @ [(tc_clock k 8, data)]" "tk_nextTxAllowedMs t' = tc_clock k 8 + tx_gap fl air"
    unfolding e by (simp_all add: u)
qed

section \<open>When the radio may transmit\<close>


section \<open>The airtime throttle\<close>

lemma due_not_before:
  assumes "T1 \<le> T2" and "g \<le> 2 ^ 31" and "due (of_nat T2) (of_nat T1 + of_nat g)"
  shows "T1 + g \<le> T2"
proof (rule ccontr)
  assume "\<not> T1 + g \<le> T2"
  define d where "d = int (T1 + g) - int T2"
  have d: "0 < d" "d \<le> 2 ^ 31" using \<open>\<not> T1 + g \<le> T2\<close> assms(1,2) by (auto simp: d_def)
  have w: "(of_nat T2 :: u32) - (of_nat T1 + of_nat g) = of_int (- d)" by (simp add: d_def)
  have "sint (of_int (- d) :: u32) = - d" using d by (subst signed_of_int) (simp add: signed_take_bit_int_eq_self)
  then show False using assms(3) d(1) unfolding due_def w by simp
qed

lemma tx_gap_value:
  assumes "unat air * 100 < 2 ^ 31" and "0 < bf_tx_duty fl" and "unat air + unat (bf_tx_min_gap fl) < 2 ^ 31"
  shows "unat (tx_gap fl air) = max (unat air * 100 div unat (bf_tx_duty fl)) (unat air + unat (bf_tx_min_gap fl))"
proof -
  have m: "unat (air * 100) = unat air * 100" using assms(1) by (simp add: unat_word_ariths)
  have s: "unat (air + bf_tx_min_gap fl) = unat air + unat (bf_tx_min_gap fl)" using assms(3) by (simp add: unat_word_ariths)
  show ?thesis
    using assms(2) by (auto simp: tx_gap_def Let_def word_less_nat_alt m s unat_div)
qed

text \<open>While nothing is started the deadline of the throttle stays.\<close>

lemma quiet_run:
  assumes "radioTask fl R i ks (t, b) = Some (t', b')" and "tk_started t' = tk_started t"
  shows "tk_nextTxAllowedMs t' = tk_nextTxAllowedMs t \<and> br_static b b'"
proof -
  have "br_static b b' \<and> (\<exists>new. tk_started t' = tk_started t @ new \<and>
      (new = [] \<longrightarrow> tk_nextTxAllowedMs t' = tk_nextTxAllowedMs t))"
    using assms(1)
  proof (induction ks arbitrary: t b)
    case Nil
    then show ?case by (simp add: br_static_refl)
  next
    case (Cons k ks)
    obtain t1 b1 where p: "radio_pass fl R i k (t, b) = Some (t1, b1)" "radioTask fl R i ks (t1, b1) = Some (t', b')"
      using Cons.prems by (auto simp: bind_eq_Some_conv)
    from Cons.IH [OF p(2)] radio_pass_cases [OF p(1)] show ?case
      by (auto simp: timers_kept_def on_air_result(4) intro: br_static_trans)
  qed
  then show ?thesis using assms(2) by auto
qed

text \<open>
  C5: Airtime is throttled. When the packet sent at time \<open>T1\<close> is \<open>air\<close> milliseconds on the air,
  the next transmission of the radio, however many passes later and whatever happens on the
  radio between them, does not start before its air time and the minimum gap are over, and the
  radio's share of the time since is within its duty cycle, up to one millisecond of
  rounding; the clock may wrap in between.
\<close>

theorem transmissions_spaced:
  assumes "radio_pass fl R i k1 (t, b) = Some (t1, b1)" and "tk_started t1 = tk_started t @ [(of_nat T1, data)]"
    and "radioTask fl R i ks (t1, b1) = Some (t2, b2)" and "tk_started t2 = tk_started t1"
    and "radio_pass fl R i k2 (t2, b2) = Some (t3, b3)" and "tk_started t3 \<noteq> tk_started t2"
    and "tc_clock k2 6 = of_nat T2" and "T1 \<le> T2"
    and "radio_airtime b i (length data) = Some air" and "unat air * 100 < 2 ^ 31" and "0 < bf_tx_duty fl"
    and "unat air + unat (bf_tx_min_gap fl) < 2 ^ 31"
  shows "T1 + unat air + unat (bf_tx_min_gap fl) \<le> T2 \<and>
    unat air * 100 < unat (bf_tx_duty fl) * (T2 - T1 + 1)"
proof -
  let ?g = "unat (tx_gap fl air)"
  have "tk_nextTxAllowedMs t1 = of_nat T1 + tx_gap fl air"
    using radio_pass_cases [OF assms(1)] assms(2,9)
    by (auto simp: timers_kept_def on_air_result(4,5)) (auto simp: on_air_def Let_def)
  then have n: "tk_nextTxAllowedMs t2 = of_nat T1 + of_nat ?g" using quiet_run [OF assms(3,4)] by simp
  have "due (tc_clock k2 6) (tk_nextTxAllowedMs t2)"
    using radio_pass_cases [OF assms(5)] assms(6) by (auto simp: timers_kept_def on_air_def Let_def)
  then have d: "due (of_nat T2) (of_nat T1 + of_nat ?g)" by (simp add: n assms(7))
  have g: "?g = max (unat air * 100 div unat (bf_tx_duty fl)) (unat air + unat (bf_tx_min_gap fl))"
    by (rule tx_gap_value [OF assms(10-12)])
  have "unat air * 100 div unat (bf_tx_duty fl) \<le> unat air * 100" by (rule div_le_dividend)
  then have "unat air * 100 div unat (bf_tx_duty fl) \<le> 2 ^ 31" using assms(10) by linarith
  then have le: "?g \<le> 2 ^ 31" using g assms(12) by linarith
  have t: "T1 + ?g \<le> T2" by (rule due_not_before [OF assms(8) le d])
  have "0 < unat (bf_tx_duty fl)" using assms(11) by (simp add: word_less_nat_alt)
  moreover have "unat air * 100 div unat (bf_tx_duty fl) < T2 - T1 + 1" using t g by linarith
  ultimately show ?thesis using t g by (simp add: div_less_iff_less_mult mult.commute)
qed

section \<open>A transmission in flight ends\<close>

text \<open>
  C8: A transmission never wedges the radio. Whatever its driver reports, even if the end of
  the transmission is never seen, by the first pass that reads a clock later than the timeout
  the radio has been told to finish, is free again, and has sent nothing else meanwhile.
\<close>

theorem inflight_recovers:
  assumes "tk_txBusy t" and "k \<in> set ks" and "tc_clock k 0 - tk_txStartMs t > bf_inflight_timeout fl"
  shows "\<exists>n \<le> length ks. \<exists>t'. radioTask fl R i (take n ks) (t, b) = Some (t', b) \<and> \<not> tk_txBusy t' \<and>
    tk_started t' = tk_started t \<and> (\<exists>r. tk_radio t' = rd_finishTransmit R r)"
  using assms
proof (induction ks arbitrary: t)
  case (Cons h ks)
  have p: "radio_pass fl R i h (t, b) = Some (service_tx fl R h t, b)" using Cons.prems(1) by (simp add: radio_pass_def)
  show ?case
  proof (cases rule: service_cases [of fl R h t])
    case 1
    then show ?thesis by (intro exI [of _ 1]) (auto simp: p)
  next
    case 2
    then have "k \<in> set ks" using Cons.prems(2,3) by auto
    from Cons.IH [of "service_tx fl R h t"] this 2 Cons.prems(1,3)
    obtain n t' where "n \<le> length ks" "radioTask fl R i (take n ks) (service_tx fl R h t, b) = Some (t', b)"
      "\<not> tk_txBusy t'" "tk_started t' = tk_started t" "\<exists>r. tk_radio t' = rd_finishTransmit R r" by auto
    then show ?thesis by (intro exI [of _ "Suc n"]) (auto simp: p)
  qed
qed simp

end
