(* ===== verification/SchedulerRadio.thy ===== *)
theory SchedulerRadio
  imports SchedulerSafety
begin

text \<open>
  The radio task over the two implementations of the radio: a local radio is listening or
  sending after every pass, and a remote one obeys the signed deadline comparison too well. Then
  the order in which packets leave.
\<close>

section \<open>The radio is never left deaf\<close>

text \<open>Between passes a busy radio is sending and an idle one in order and listening.\<close>

definition settled :: "('r \<Rightarrow> bool) \<Rightarrow> ('r \<Rightarrow> bool) \<Rightarrow> ('r \<Rightarrow> bool) \<Rightarrow> 'r task \<Rightarrow> bool" where
  "settled ok listening sending t \<longleftrightarrow>
     (if tk_txBusy t then sending (tk_radio t) else ok (tk_radio t) \<and> listening (tk_radio t))"

text \<open>What happens to the radio between two calls neither stops it listening nor takes it off the air.\<close>

definition world_ok :: "('r \<Rightarrow> bool) \<Rightarrow> ('r \<Rightarrow> bool) \<Rightarrow> ('r \<Rightarrow> bool) \<Rightarrow> 'r tick \<Rightarrow> bool" where
  "world_ok ok listening sending k \<longleftrightarrow> (\<forall>n r. (ok r \<longrightarrow> ok (tc_world k n r)) \<and>
     (listening r \<longrightarrow> listening (tc_world k n r)) \<and> (sending r \<longrightarrow> sending (tc_world k n r)))"

text \<open>A read that succeeds delivers at least one byte.\<close>

definition reads_bytes :: "'r radio \<Rightarrow> bool" where
  "reads_bytes R \<longleftrightarrow> (\<forall>r. rg_status (snd (rd_read R LORA_MAX_PACKET r)) = RADIOLIB_ERR_NONE \<longrightarrow>
     rg_data (snd (rd_read R LORA_MAX_PACKET r)) \<noteq> [])"

lemma periodic_radio: "tk_radio (fst (periodic_nodeinfo k i tb)) = tk_radio (fst tb)"
  "tk_txBusy (fst (periodic_nodeinfo k i tb)) = tk_txBusy (fst tb)"
  by (auto simp: periodic_nodeinfo_def Let_def split: prod.splits)

lemma latch_radio: "tk_radio (fst (latch_next k i tb)) = tk_radio (fst tb)"
  "tk_txBusy (fst (latch_next k i tb)) = tk_txBusy (fst tb)"
  by (auto simp: latch_next_def split: prod.splits option.splits)

lemma expire_radio: "tk_radio (expire_latched fl k t) = tk_radio t" "tk_txBusy (expire_latched fl k t) = tk_txBusy t"
  by (auto simp: expire_latched_def)

context lora_radio
begin

abbreviation "settled_task \<equiv> settled ok listening sending"

lemma drain_settled:
  assumes "rx_drain fl R k i (t, b) = Some (t1, b1)" and "settled_task t" and "\<not> tk_txBusy t"
    and "world_ok ok listening sending k" and "reads_bytes R"
  shows "settled_task t1 \<and> \<not> tk_txBusy t1"
proof -
  let ?r = "tc_world k 1 (tk_radio t)"
  have r: "ok ?r" "listening ?r" using assms(2-4) by (auto simp: settled_def world_ok_def)
  obtain r2 g where g: "rd_read R LORA_MAX_PACKET ?r = (r2, g)" by fastforce
  have r2: "ok r2" using ok_read [OF r(1), of LORA_MAX_PACKET] g by (metis fst_conv)
  have "rg_status g = RADIOLIB_ERR_NONE \<Longrightarrow> rg_data g \<noteq> []"
    using assms(5) g by (auto simp: reads_bytes_def dest: spec [of _ ?r])
  then show ?thesis
    using assms(1,3) r r2 ok_startReceive [OF r2] listens [OF r2]
    by (auto simp: rx_drain_def Let_def g settled_def simp del: One_nat_def split: if_splits)
qed

lemma start_settled:
  assumes "start_packet fl R k air data t = Some t1" and "ok (tk_radio t)" and "\<not> tk_txBusy t"
  shows "settled_task t1"
proof -
  obtain r st where s: "rd_startTransmit R data (tk_radio t) = (r, st)" by fastforce
  show ?thesis
  proof (cases "st = RADIOLIB_ERR_NONE")
    case True
    then show ?thesis using assms s sends [OF assms(2)] by (auto simp: start_packet_def settled_def)
  next
    case False
    from ok_refused [OF assms(2) False s] have "ok r" .
    then show ?thesis
      using assms s False ok_startReceive listens by (auto simp: start_packet_def settled_def)
  qed
qed

lemma transmit_settled:
  assumes "transmit_next fl R k i b t = Some t1" and "settled_task t" and "\<not> tk_txBusy t"
    and "world_ok ok listening sending k"
  shows "settled_task t1"
proof (cases "tk_pending t")
  case None
  then show ?thesis using assms by (simp add: transmit_next_def)
next
  case (Some item)
  obtain data enq where i: "item = (data, enq)" by fastforce
  let ?r = "tc_world k 2 (tk_radio t)"
  let ?t = "t\<lparr>tk_radio := ?r\<rparr>"
  have r: "ok ?r" "listening ?r" using assms(2-4) by (auto simp: settled_def world_ok_def)
  obtain r2 cad where s: "rd_scanChannel R ?r = (r2, cad)" by fastforce
  have r2: "ok r2" using ok_scanChannel [OF r(1)] by (simp add: s)
  note start = start_settled [of fl k _ data "?t\<lparr>tk_radio := r2\<rparr>" t1]
  show ?thesis
    using assms(1,3) r r2 ok_startReceive [OF r2] listens [OF r2] start
    by (auto simp: transmit_next_def Some i Let_def s settled_def split: if_splits option.splits)
qed

lemma pass_settled:
  assumes "radio_pass fl R i k (t, b) = Some (t', b')" and "settled_task t"
    and "world_ok ok listening sending k" and "reads_bytes R"
  shows "settled_task t'"
proof (cases "tk_txBusy t")
  case True
  then have "sending (tc_world k 0 (tk_radio t))" using assms(2,3) by (simp add: settled_def world_ok_def)
  moreover have "t' = service_tx fl R k t" using assms(1) True by (auto simp: radio_pass_def)
  ultimately show ?thesis
    using True ok_finish finished by (cases rule: service_cases [of fl R k t]) (auto simp: settled_def)
next
  case False
  obtain tb1 where d: "rx_drain fl R k i (t, b) = Some tb1" using assms(1) False by (auto simp: radio_pass_def split: option.splits)
  obtain t3 b3 where l: "latch_next k i (periodic_nodeinfo k i tb1) = (t3, b3)" by fastforce
  have t: "transmit_next fl R k i b3 (expire_latched fl k t3) = Some t'"
    using assms(1) False by (auto simp: radio_pass_def d l)
  have "settled_task (fst tb1) \<and> \<not> tk_txBusy (fst tb1)"
    using drain_settled [of fl k i t b "fst tb1" "snd tb1"] d assms False by simp
  then have "settled_task (expire_latched fl k t3) \<and> \<not> tk_txBusy (expire_latched fl k t3)"
    using latch_radio [of k i "periodic_nodeinfo k i tb1"] periodic_radio [of k i tb1]
    by (simp add: l settled_def expire_radio)
  then show ?thesis using transmit_settled [OF t] assms(3) by blast
qed

lemma run_settled:
  assumes "radioTask fl R i ks (t, b) = Some (t', b')" and "settled_task t"
    and "\<forall>k \<in> set ks. world_ok ok listening sending k" and "reads_bytes R"
  shows "settled_task t'"
  using assms
proof (induction ks arbitrary: t b)
  case (Cons k ks)
  obtain t1 b1 where p: "radio_pass fl R i k (t, b) = Some (t1, b1)" "radioTask fl R i ks (t1, b1) = Some (t', b')"
    using Cons.prems(1) by (auto simp: bind_eq_Some_conv)
  from pass_settled [OF p(1) Cons.prems(2)] Cons.prems(3,4) Cons.IH [OF p(2)] show ?case by simp
qed simp

end


text \<open>
  The last proviso is needed: after a successful read of no bytes the code neither tells the radio
  to receive nor anything else, so a chip that \<open>readData\<close> leaves in standby stays there.
\<close>

lemma empty_read_not_rearmed:
  assumes "rd_available R (tc_world k 1 (tk_radio t))"
    and "rd_read R LORA_MAX_PACKET (tc_world k 1 (tk_radio t)) = (r, g)"
    and "rg_status g = RADIOLIB_ERR_NONE" and "rg_data g = []"
  shows "rx_drain fl R k i (t, b) = Some (t\<lparr>tk_radio := r\<rparr>, b)"
  using assms by (simp add: rx_drain_def Let_def del: One_nat_def)

section \<open>Half the clock's range\<close>

lemma remote_scan_free: "snd (rd_scanChannel (remote_radio uw) r) = RADIOLIB_CHANNEL_FREE"
  by (simp add: remote_radio_def remote_scanChannel_def)

lemma not_due_zero: "2 ^ 31 \<le> unat now \<Longrightarrow> \<not> due now 0"
proof -
  assume h: "2 ^ 31 \<le> unat now"
  have u: "unat now < 4294967296" "2147483648 \<le> unat now" using unsigned_less [of now] h by simp_all
  define n where n: "n = int (unat now) - 4294967296"
  from u have b: "- 2147483648 \<le> n" "n < 0" unfolding n by linarith+
  have "now = of_int n" by (simp add: n)
  moreover have "sint (of_int n :: u32) = n"
    using b by (subst signed_of_int) (simp add: signed_take_bit_int_eq_self)
  ultimately show ?thesis using b by (simp add: due_def)
qed


section \<open>The order of packets\<close>

text \<open>What radio \<open>i\<close> has sent, has latched and has queued, oldest first.\<close>

definition waiting :: "route_queue option \<Rightarrow> bytes list" where
  "waiting q = (case q of None \<Rightarrow> [] | Some r \<Rightarrow> map fst (rq_list r))"

definition outgoing :: "nat \<Rightarrow> 'r task \<Rightarrow> bridge \<Rightarrow> bytes list" where
  "outgoing i t b = map snd (tk_started t) @ map fst (case tk_pending t of None \<Rightarrow> [] | Some p \<Rightarrow> [p]) @
     waiting (br_queue b ! i)"

definition queue_ok :: "nat \<Rightarrow> bridge \<Rightarrow> bool" where
  "queue_ok i b \<longleftrightarrow> i < length (br_queue b) \<and> (\<forall>q. br_queue b ! i = Some q \<longrightarrow> rq_inv q)"

lemma subseq_keep: "subseq xs ys \<Longrightarrow> subseq (as @ xs) (as @ ys)"
  by (simp add: subseq_append_iff) blast

lemma subseq_tl: "subseq (tl xs) xs"
  by (cases xs) auto

lemma drain_outgoing:
  assumes "rx_drain fl R k i (t, b) = Some (t1, b1)" and "queue_ok i b" and "\<not> (bf_camera fl \<and> custom_radio b i)"
  shows "outgoing i t1 b1 = outgoing i t b \<and> queue_ok i b1"
proof -
  have "br_queue b1 ! i = br_queue b ! i \<and> br_static b b1"
    using assms(1,3) touches_ingestAndFanout [of fl "tc_env k" i _ b b1]
    by (auto simp: rx_drain_def Let_def touches_def dest_ok_def br_static_refl split: prod.splits if_splits)
  then show ?thesis
    using rx_drain_keeps [OF assms(1)] assms(2) by (auto simp: outgoing_def queue_ok_def br_static_def)
qed

lemma push_waiting:
  assumes "queue_ok i b" and "push_to e i pkt b = (b1, ok)"
  shows "subseq (waiting (br_queue b1 ! i)) (waiting (br_queue b ! i) @ [pkt]) \<and> queue_ok i b1"
proof (cases "br_queue b ! i")
  case None
  then show ?thesis using assms by (auto simp: push_to_def queue_push_def queue_ok_def waiting_def)
next
  case (Some q)
  have inv: "rq_inv q" using assms(1) Some by (simp add: queue_ok_def)
  have "subseq (map fst (rq_list (fst (rq_push (be_now e) pkt q)))) (map fst (rq_list q) @ [pkt]) \<and>
      rq_inv (fst (rq_push (be_now e) pkt q))"
    using rq_put_ok [OF inv, of pkt "be_now e"] inv subseq_tl [of "map fst (rq_list q)"]
    by (auto simp: rq_push_def map_tl)
  then show ?thesis
    using assms Some by (auto simp: push_to_def queue_push_def queue_ok_def waiting_def split: prod.splits)
qed

lemma periodic_outgoing:
  assumes "periodic_nodeinfo k i (t, b) = (t1, b1)" and "queue_ok i b"
  shows "\<exists>new. length new \<le> 1 \<and> subseq (outgoing i t1 b1) (outgoing i t b @ new) \<and> queue_ok i b1"
proof -
  have "queue_ok i (drawn b)" "br_queue (drawn b) = br_queue b" using assms(2) by (auto simp: queue_ok_def drawn_def)
  then have push: "\<exists>new. length new \<le> 1 \<and>
      subseq (waiting (br_queue (fst (push_to e i pkt (drawn b))) ! i)) (waiting (br_queue b ! i) @ new) \<and>
      queue_ok i (fst (push_to e i pkt (drawn b)))" for e pkt
    using push_waiting [of i "drawn b" e pkt] by (intro exI [of _ "[pkt]"]) (auto simp: prod_eq_iff)
  have none: "\<exists>new. length new \<le> 1 \<and> subseq (waiting (br_queue b ! i)) (waiting (br_queue b ! i) @ new) \<and> queue_ok i b"
    using assms(2) by (intro exI [of _ "[]"]) auto
  have "tk_started t1 = tk_started t" "tk_pending t1 = tk_pending t" using periodic_keeps [OF assms(1)] by auto
  moreover have "\<exists>new. length new \<le> 1 \<and> subseq (waiting (br_queue b1 ! i)) (waiting (br_queue b ! i) @ new) \<and> queue_ok i b1"
    using assms(1) push none by (auto simp: periodic_nodeinfo_def Let_def split: if_splits option.splits)
  ultimately show ?thesis unfolding outgoing_def by (metis append_assoc subseq_keep)
qed

lemma latch_outgoing:
  assumes "latch_next k i (t, b) = (t1, b1)" and "queue_ok i b"
  shows "subseq (outgoing i t1 b1) (outgoing i t b) \<and> queue_ok i b1"
proof (cases "tk_pending t = None \<and> br_queue b ! i \<noteq> None")
  case False
  then have "t1 = t" "b1 = b" using assms(1) by (auto simp: latch_next_def split: if_splits)
  then show ?thesis using assms(2) by simp
next
  case True
  then obtain q where q: "br_queue b ! i = Some q" "tk_pending t = None" by auto
  have inv: "rq_inv q" using assms(2) q by (simp add: queue_ok_def)
  obtain q2 item where pop: "rq_pop (tc_clock k 3) q = (q2, item)" by fastforce
  have r: "t1 = t\<lparr>tk_pending := item\<rparr>" "b1 = b\<lparr>br_queue := (br_queue b)[i := Some q2]\<rparr>"
    using assms(1) q pop by (auto simp: latch_next_def)
  define fresh where "fresh = dropWhile (item_stale (tc_clock k 3) (rq_maxAgeMs q)) (rq_list q)"
  have "(case item of None \<Rightarrow> [] | Some p \<Rightarrow> [p]) @ rq_list q2 = fresh \<and> rq_inv q2"
    using rq_pop_ok [OF inv, of "tc_clock k 3"] unfolding pop fresh_def [symmetric] by (cases fresh) auto
  moreover have "subseq (map fst fresh) (map fst (rq_list q))"
    unfolding fresh_def by (intro subseq_map suffix_imp_subseq suffix_dropWhile)
  ultimately show ?thesis
    using assms(2) q r by (auto simp: outgoing_def queue_ok_def waiting_def simp flip: map_append intro!: subseq_keep)
qed

lemma expire_outgoing: "subseq (outgoing i (expire_latched fl k t) b) (outgoing i t b)"
  by (auto simp: expire_latched_def outgoing_def intro: subseq_keep)

lemma transmit_outgoing:
  assumes "transmit_next fl R k i b t = Some t1"
  shows "subseq (outgoing i t1 b) (outgoing i t b)"
proof -
  consider (kept) p where "tk_started t1 = tk_started t" "tk_pending t1 = p" "p = None \<or> p = tk_pending t"
    | (sent) data enq air where "tk_pending t = Some (data, enq)" "on_air fl R k i b t data air t1"
    using transmit_next_cases [OF assms] by auto
  then show ?thesis
  proof cases
    case kept
    then show ?thesis by (cases "tk_pending t") (auto simp: outgoing_def intro!: subseq_keep)
  next
    case sent
    then show ?thesis by (simp add: outgoing_def on_air_result)
  qed
qed


end
