(* ===== verification/SchedulerSamples.thy ===== *)
theory SchedulerSamples
  imports SchedulerRadio
begin

text \<open>
  A local radio on a three-state chip with two packets to send, and a remote one: the runs at
  which the properties of the scheduler are applied; then the airtime estimate at some lengths.
\<close>

text \<open>The chip's states: 0 standby, 1 receiving, 2 on the air.\<close>

definition sample_chip :: "nat sx1262" where
  "sample_chip = \<lparr>sx_begin = (\<lambda>p c. (0, RADIOLIB_ERR_NONE)), sx_setDio2AsRfSwitch = id, sx_startReceive = (\<lambda>c. 1),
     sx_getPacketLength = (\<lambda>c. 3), sx_readData = (\<lambda>n c. (0, RADIOLIB_ERR_NONE, [7, 7, 7])),
     sx_getRSSI = (\<lambda>c. 0), sx_getSNR = (\<lambda>c. 0), sx_transmit = (\<lambda>b c. (0, RADIOLIB_ERR_NONE)),
     sx_scanChannel = (\<lambda>c. (0, RADIOLIB_CHANNEL_FREE)), sx_startTransmit = (\<lambda>b c. (2, RADIOLIB_ERR_NONE)),
     sx_finishTransmit = (\<lambda>c. 0)\<rparr>"

definition sample_wio :: "nat wio" where
  "sample_wio = \<lparr>wi_chip = 1, wi_rxFlag = False, wi_txInFlight = False, wi_hasAntSw = True, wi_antTx = False,
     wi_config = makeLoraConfig (loadDefaults sample_flags) 2, wi_registered = True, wi_isrWired = True\<rparr>"

definition sample_tick :: "('r \<Rightarrow> 'r) \<Rightarrow> u32 \<Rightarrow> 'r tick" where
  "sample_tick w now = \<lparr>tc_env = sample_benv, tc_clock = (\<lambda>n. now), tc_random = 50, tc_world = (\<lambda>n. w)\<rparr>"

definition sample_task :: "'r \<Rightarrow> 'r task" where
  "sample_task r = (task_init r 0 0)\<lparr>tk_pending := Some ([1, 2, 3], 1900)\<rparr>"

text \<open>A second packet waits in the queue.\<close>

definition busy_bridge :: bridge where
  "busy_bridge = sample_bridge\<lparr>br_queue := [None, None, Some (rq_put 1950 [9] sample_queue), None]\<rparr>"

lemma sample_airtime: "radio_airtime busy_bridge 2 3 = Some 414" "radio_airtime busy_bridge 2 1 = Some 414"
  by code_simp+

lemma dwell_sample: "\<not> dwell_applies busy_bridge 2" by code_simp

lemma due_sample: "due 2000 0" "due 5000 0" "due 5000 2828" by code_simp+

lemma sample_gap: "tx_gap stock_flags 414 = 828" by code_simp

lemmas sample_task_simps = sample_chip_def sample_wio_def sample_tick_def sample_task_def task_init_def wio_defs

definition sample_sent :: "nat wio task" where
  "sample_sent = (sample_task (sample_wio\<lparr>wi_chip := 2, wi_txInFlight := True, wi_antTx := True\<rparr>))\<lparr>
     tk_txBusy := True, tk_txStartMs := 2000, tk_pending := None, tk_nextTxAllowedMs := 2828,
     tk_started := [(2000, [1, 2, 3])]\<rparr>"

lemma sample_pass:
  "radio_pass stock_flags (wio_radio sample_chip) 2 (sample_tick id 2000) (sample_task sample_wio, busy_bridge)
     = Some (sample_sent, busy_bridge)"
proof -
  have fresh: "\<not> item_stale 2000 (bf_route_max_age stock_flags) ([1, 2, 3], 1900)"
    by (simp add: item_stale_def stock_flags_def)
  show ?thesis
    using dwell_sample fresh sample_airtime(1) [unfolded numeral_3_eq_3]
    by (simp add: radio_pass_def rx_drain_def periodic_nodeinfo_def latch_next_def expire_latched_def
        latched_stale_def transmit_next_def gate_open_def start_packet_def sample_sent_def sample_task_simps Let_def
        due_sample sample_gap SYNC_WORD_MESHTASTIC_def)
qed


text \<open>The transmission ends, and the queued packet follows.\<close>

definition sample_idle :: "nat wio task" where
  "sample_idle = sample_sent\<lparr>tk_radio := sample_wio, tk_txBusy := False\<rparr>"

definition sample_sent2 :: "nat wio task" where
  "sample_sent2 = sample_sent\<lparr>tk_txStartMs := 5000, tk_nextTxAllowedMs := 5828, tk_started := [(2000, [1, 2, 3]), (5000, [9])]\<rparr>"

lemma sample_finish:
  "radioTask stock_flags (wio_radio sample_chip) 2 [sample_tick wio_isr 2600] (sample_sent, busy_bridge)
     = Some (sample_idle, busy_bridge)"
  by (simp add: radio_pass_def service_tx_def Let_def wio_isr_def sample_idle_def sample_sent_def sample_task_simps)

lemma rq_single: "rq_pop 5000 (rq_put 1950 [9] sample_queue) = (rq_advance (rq_put 1950 [9] sample_queue), Some ([9], 1950))"
  by (simp add: rq_pop.simps rq_put_def Let_def sample_queue_def sample_slot_def rq_cap_def rq_stale_def memcpy_into_def)

lemma sample_pass2:
  "\<exists>b. radio_pass stock_flags (wio_radio sample_chip) 2 (sample_tick id 5000) (sample_idle, busy_bridge) = Some (sample_sent2, b)"
proof -
  let ?b = "busy_bridge\<lparr>br_queue := (br_queue busy_bridge)[2 := Some (rq_advance (rq_put 1950 [9] sample_queue))]\<rparr>"
  have dw: "\<not> dwell_applies ?b 2" "radio_airtime ?b 2 1 = Some 414"
    using sample_airtime(2) dwell_sample by (simp_all add: dwell_applies_def radio_airtime_def)
  have q: "br_queue busy_bridge ! 2 = Some (rq_put 1950 [9] sample_queue)" by (simp add: busy_bridge_def numeral_2_eq_2)
  have fresh: "\<not> item_stale 5000 (bf_route_max_age stock_flags) ([9], 1950)"
    by (simp add: item_stale_def stock_flags_def)
  show ?thesis
    using dw fresh
    by (simp add: radio_pass_def rx_drain_def periodic_nodeinfo_def latch_next_def expire_latched_def q rq_single
        latched_stale_def transmit_next_def gate_open_def start_packet_def sample_sent_def sample_idle_def sample_sent2_def
        sample_task_simps Let_def due_sample sample_gap SYNC_WORD_MESHTASTIC_def)
qed

lemma transmissions_spaced_witness: "2000 + unat (414 :: u32) + 0 \<le> (5000 :: nat) \<and> unat (414 :: u32) * 100 < 50 * (5000 - 2000 + 1)"
proof -
  obtain b where b: "radio_pass stock_flags (wio_radio sample_chip) 2 (sample_tick id 5000) (sample_idle, busy_bridge) = Some (sample_sent2, b)"
    using sample_pass2 by blast
  have s: "tk_started sample_sent = tk_started (sample_task sample_wio) @ [(of_nat 2000, [1, 2, 3])]"
    "tk_started sample_idle = tk_started sample_sent" "tk_started sample_sent2 \<noteq> tk_started sample_idle"
    by (simp_all add: sample_sent_def sample_idle_def sample_sent2_def sample_task_def task_init_def)
  have a: "radio_airtime busy_bridge 2 (length [1, 2, 3 :: u8]) = Some 414" using sample_airtime(1) by (simp add: numeral_3_eq_3)
  from transmissions_spaced [OF sample_pass s(1) sample_finish s(2) b s(3) _ _ a, of 5000] show ?thesis
    by (simp add: sample_tick_def stock_flags_def)
qed

lemma inflight_recovers_witness:
  "\<exists>n \<le> 1. \<exists>t'. radioTask stock_flags (wio_radio sample_chip) 2 (take n [sample_tick id 20000]) (sample_sent, busy_bridge)
      = Some (t', busy_bridge) \<and> \<not> tk_txBusy t' \<and> tk_started t' = tk_started sample_sent \<and>
      (\<exists>r. tk_radio t' = rd_finishTransmit (wio_radio sample_chip) r)"
  using inflight_recovers [of sample_sent "sample_tick id 20000" "[sample_tick id 20000]" stock_flags "wio_radio sample_chip" 2 busy_bridge]
  by (simp add: sample_sent_def sample_tick_def stock_flags_def del: take_Cons)


definition sample_remote :: remote where
  "sample_remote = remote_create (ul_init\<lparr>ul_ready := True\<rparr>) 0 (makeLoraConfig (loadDefaults sample_flags) 2)"



section \<open>Airtime\<close>

text \<open>
  The exact time on air, in integers: quarters of a symbol, each \<open>2 ^ sf / khz\<close> milliseconds,
  rounded up to a millisecond. The single precision estimate agrees with it at these lengths.
\<close>

definition exact_airtime :: "nat \<Rightarrow> int \<Rightarrow> int \<Rightarrow> int \<Rightarrow> int" where
  "exact_airtime len sf khz cr =
     (let low = (if 16 * khz \<le> 2 ^ nat sf then 1 else 0);
          num = 8 * int len - 4 * sf + 44; den = 4 * (sf - 2 * low);
          symbols = 8 + (if 0 < num then (num + den - 1) div den else 0) * cr;
          quarters = (4 * (8 + symbols) + 17) * 2 ^ nat sf
      in (quarters + 4 * khz - 1) div (4 * khz))"

definition airtime_agrees :: "u8 \<Rightarrow> nat \<Rightarrow> bool" where
  "airtime_agrees sf len \<longleftrightarrow>
     estimateAirtimeMs len sf 0x42FA0000 5 8 = Some (word_of_int (exact_airtime len (uint sf) 125 5))"

lemma airtime_at_125_kHz:
  "list_all (airtime_agrees 7) [0, 51, 242, 255]" "list_all (airtime_agrees 10) [24, 25]" "list_all (airtime_agrees 12) [51, 255]"
  by code_simp+

text \<open>The longest frame within the US dwell limit at SF10 and 125 kHz has 24 bytes.\<close>

lemma us_dwell_boundary:
  "estimateAirtimeMs 24 10 0x42FA0000 5 8 = Some 371" "estimateAirtimeMs 25 10 0x42FA0000 5 8 = Some 412"
  by code_simp+

end
