(* ===== verification/CoProc.thy ===== *)
theory CoProc
  imports Radios
begin

text \<open>
  The co-processor board (\<open>coproc-xiao-sx1262/src/coproc_main.cpp\<close>): two local radios driven for
  the host over the UART link. A byte parser and dispatcher for the host's frames, a small transmit
  queue per radio, and one pass of \<open>loop\<close> per radio. Single-threaded, so a pass is one step; what
  it writes to the link is kept as the messages and as the bytes of their frames.
\<close>

section \<open>State\<close>

definition TX_Q_DEPTH :: nat where "TX_Q_DEPTH = 4"
definition COPROC_TX_TIMEOUT_MS :: u32 where "COPROC_TX_TIMEOUT_MS = 8000"

record tx_job =
  tj_data :: bytes
  tj_len :: nat

text \<open>Radio \<open>i\<close>: the driver object, the flags and its ring of jobs.\<close>

record 'c cp_radio =
  cr_radio :: "'c wio option"
  cr_enabled :: bool
  cr_txActive :: bool
  cr_txStartMs :: u32
  cr_txq :: "tx_job list"
  cr_head :: nat
  cr_tail :: nat
  cr_count :: nat

datatype cp_pst = PS_PRE0 | PS_PRE1 | PS_HDR | PS_PAYLOAD

record cp_parser =
  cs_st :: cp_pst
  cs_hdr :: bytes
  cs_hdrCount :: nat
  cs_payLen :: nat
  cs_payCount :: nat
  cs_buf :: bytes

definition cp_parser_init :: cp_parser where
  "cp_parser_init = \<lparr>cs_st = PS_PRE0, cs_hdr = replicate 4 0, cs_hdrCount = 0, cs_payLen = 0,
     cs_payCount = 0, cs_buf = replicate (MAX_PAYLOAD + CRC_LEN) 0\<rparr>"

record 'c coproc =
  cp_radios :: "'c cp_radio list"
  cp_parser :: cp_parser
  cp_out :: "msg list"
  cp_wire :: bytes
  cp_restarted :: bool

section \<open>The transmit queue\<close>

definition txqPush :: "bytes \<Rightarrow> 'c cp_radio \<Rightarrow> 'c cp_radio \<times> bool" where
  "txqPush d r =
     (let len = (if LORA_MAX_PACKET < length d then LORA_MAX_PACKET else length d) in
      if TX_Q_DEPTH \<le> cr_count r then (r, False)
      else (let j = cr_txq r ! cr_tail r in
        (r\<lparr>cr_txq := (cr_txq r)[cr_tail r := \<lparr>tj_data = take len d @ drop len (tj_data j), tj_len = len\<rparr>],
           cr_tail := (cr_tail r + 1) mod TX_Q_DEPTH, cr_count := cr_count r + 1\<rparr>, True)))"

text \<open>The job the head points to: its bytes, as \<open>startTransmit\<close> is given them.\<close>

definition txqPeek :: "'c cp_radio \<Rightarrow> bytes option" where
  "txqPeek r = (if cr_count r \<noteq> 0 then (let j = cr_txq r ! cr_head r in Some (take (tj_len j) (tj_data j))) else None)"

definition txqPop :: "'c cp_radio \<Rightarrow> 'c cp_radio" where
  "txqPop r = (if cr_count r = 0 then r
     else r\<lparr>cr_head := (cr_head r + 1) mod TX_Q_DEPTH, cr_count := cr_count r - 1\<rparr>)"

section \<open>Sending to the host\<close>

definition linkSend :: "link_type \<Rightarrow> u8 \<Rightarrow> bytes \<Rightarrow> 'c coproc \<Rightarrow> 'c coproc" where
  "linkSend ty radio payload s =
     (case buildFrame MAX_FRAME (link_code ty) radio payload of None \<Rightarrow> s
      | Some f \<Rightarrow> s\<lparr>cp_out := cp_out s @ [(link_code ty, radio, payload)], cp_wire := cp_wire s @ f\<rparr>)"

definition linkLog :: "bytes \<Rightarrow> 'c coproc \<Rightarrow> 'c coproc" where
  "linkLog m s = linkSend MSG_LOG RADIO_NONE m s"

definition set_radio :: "nat \<Rightarrow> 'c cp_radio \<Rightarrow> 'c coproc \<Rightarrow> 'c coproc" where
  "set_radio i r s = s\<lparr>cp_radios := (cp_radios s)[i := r]\<rparr>"

text \<open>\<open>MSG_TX_DONE\<close> carries the 16-bit status; \<open>code\<close> is RadioLib's numbering.\<close>

definition sendTxDone :: "(status \<Rightarrow> u16) \<Rightarrow> nat \<Rightarrow> status \<Rightarrow> 'c coproc \<Rightarrow> 'c coproc" where
  "sendTxDone code i st s = linkSend MSG_TX_DONE (of_nat i) (le16 (code st)) s"

text \<open>The dash in the log texts, in UTF-8.\<close>

definition em_dash :: bytes where "em_dash = [0xE2, 0x80, 0x94]"

section \<open>Host frames\<close>

definition cfg_of :: "cfg_radio \<Rightarrow> lora_config" where
  "cfg_of c = \<lparr>lc_frequency = cfg_frequency c, lc_bandwidth = cfg_bandwidth c, lc_spreadFactor = cfg_sf c,
     lc_codingRate = cfg_cr c, lc_syncWord = cfg_syncWord c, lc_txPower = cfg_txPower c,
     lc_preambleLen = (if cfg_preambleLen c \<noteq> 0 then cfg_preambleLen c else LORA_PREAMBLE_LEN),
     lc_tcxoVoltage = LORA_TCXO_VOLTAGE\<rparr>"

definition cfg_ok_text :: "nat \<Rightarrow> cfg_radio \<Rightarrow> bytes" where
  "cfg_ok_text i c = bounded_copy 112
     (str ''R'' @ fmt_u (i + 3) @ str '' cfg ok: '' @ fmt_fixed 3 (f32_of_bits (cfg_frequency c)) @ str '' MHz BW''
      @ fmt_fixed 1 (f32_of_bits (cfg_bandwidth c)) @ str '' SF'' @ fmt_u (unat (cfg_sf c)) @ str '' CR4/''
      @ fmt_u (unat (cfg_cr c)) @ str '' '' @ fmt_d (sint (cfg_txPower c)) @ str ''dBm sync0x'' @ fmt_02X (cfg_syncWord c))"

definition applyCfg :: "'c sx1262 \<Rightarrow> nat \<Rightarrow> cfg_radio \<Rightarrow> 'c coproc \<Rightarrow> 'c coproc" where
  "applyCfg X i c s =
     (let r = cp_radios s ! i in
      case cr_radio r of None \<Rightarrow> linkLog (str ''CFG for an absent radio'') s
      | Some w \<Rightarrow>
          (case wio_begin X (wio_setConfig (cfg_of c) w) of
             (w2, False) \<Rightarrow> linkLog (str ''radio begin() failed during CFG'')
               (set_radio i (r\<lparr>cr_radio := Some w2, cr_txActive := False, cr_enabled := False\<rparr>) s)
           | (w2, True) \<Rightarrow> linkLog (cfg_ok_text i c)
               (set_radio i (r\<lparr>cr_radio := Some (wio_startReceive X w2), cr_txActive := False, cr_enabled := True\<rparr>) s)))"

definition handle_cfg :: "'c sx1262 \<Rightarrow> nat \<Rightarrow> bytes \<Rightarrow> 'c coproc \<Rightarrow> 'c coproc" where
  "handle_cfg X i payload s =
     (if i < 2 \<and> sizeof_CfgRadio \<le> length payload then
        (let c = unpack_CfgRadio payload; r = cp_radios s ! i in
         if cfg_enable c \<noteq> 0 then applyCfg X i c s
         else (case cr_radio r of None \<Rightarrow> s
           | Some w \<Rightarrow> set_radio i (r\<lparr>cr_enabled := False, cr_txActive := False,
               cr_radio := Some (wio_startReceive X w)\<rparr>) s))
      else s)"

definition handle_tx :: "(status \<Rightarrow> u16) \<Rightarrow> nat \<Rightarrow> bytes \<Rightarrow> 'c coproc \<Rightarrow> 'c coproc" where
  "handle_tx code i payload s =
     (if 2 \<le> i then s
      else (let r = cp_radios s ! i in
        if \<not> cr_enabled r then sendTxDone code i RADIOLIB_ERR_WRONG_MODEM
            (linkLog (str ''MSG_TX for a radio that is not enabled '' @ em_dash @ str '' rejected'') s)
        else (case txqPush payload r of
            (_, False) \<Rightarrow> sendTxDone code i RADIOLIB_ERR_TX_TIMEOUT (linkLog (str ''TX queue full '' @ em_dash @ str '' frame dropped'') s)
          | (r2, True) \<Rightarrow> set_radio i r2 s)))"

definition handle_start_rx :: "'c sx1262 \<Rightarrow> nat \<Rightarrow> 'c coproc \<Rightarrow> 'c coproc" where
  "handle_start_rx X i s =
     (if 2 \<le> i then s
      else (let r = cp_radios s ! i in
        case cr_radio r of None \<Rightarrow> s
        | Some w \<Rightarrow> if cr_enabled r \<and> \<not> cr_txActive r
            then set_radio i (r\<lparr>cr_radio := Some (wio_startReceive X w)\<rparr>) s else s))"

definition handleHostFrame :: "'c sx1262 \<Rightarrow> (status \<Rightarrow> u16) \<Rightarrow> u32 \<Rightarrow> msg \<Rightarrow> 'c coproc \<Rightarrow> 'c coproc" where
  "handleHostFrame X code now m s = (case m of (ty, radio, payload) \<Rightarrow>
     let i = unat radio in
     if ty = link_code MSG_CFG_RADIO then handle_cfg X i payload s
     else if ty = link_code MSG_TX then handle_tx code i payload s
     else if ty = link_code MSG_START_RX then handle_start_rx X i s
     else if ty = link_code MSG_PING then linkSend MSG_PONG RADIO_NONE (le32 now) s
     else if ty = link_code MSG_RESET then s\<lparr>cp_restarted := True\<rparr>
     else s)"

section \<open>The frame parser\<close>

definition cp_feedByte :: "cp_parser \<Rightarrow> u8 \<Rightarrow> cp_parser \<times> msg option" where
  "cp_feedByte p b = (case cs_st p of
     PS_PRE0 \<Rightarrow> (if b = PRE0 then p\<lparr>cs_st := PS_PRE1\<rparr> else p, None)
   | PS_PRE1 \<Rightarrow> (if b = PRE1 then p\<lparr>cs_st := PS_HDR, cs_hdrCount := 0\<rparr>
                 else if b \<noteq> PRE0 then p\<lparr>cs_st := PS_PRE0\<rparr> else p, None)
   | PS_HDR \<Rightarrow>
       (let p1 = p\<lparr>cs_hdr := (cs_hdr p)[cs_hdrCount p := b], cs_hdrCount := cs_hdrCount p + 1\<rparr> in
        if cs_hdrCount p1 = 4 then
          (let p2 = p1\<lparr>cs_payLen := unat (get16 (cs_hdr p1) 2)\<rparr> in
           (if MAX_PAYLOAD < cs_payLen p2 then p2\<lparr>cs_st := PS_PRE0\<rparr>
            else p2\<lparr>cs_payCount := 0, cs_st := PS_PAYLOAD\<rparr>, None))
        else (p1, None))
   | PS_PAYLOAD \<Rightarrow>
       (let p1 = p\<lparr>cs_buf := (cs_buf p)[cs_payCount p := b], cs_payCount := cs_payCount p + 1\<rparr> in
        if cs_payCount p1 = cs_payLen p1 + CRC_LEN then
          (p1\<lparr>cs_st := PS_PRE0\<rparr>,
           if crc16 (cs_hdr p1 @ take (cs_payLen p1) (cs_buf p1)) = get16 (cs_buf p1) (cs_payLen p1)
           then Some (cs_hdr p1 ! 0, cs_hdr p1 ! 1, take (cs_payLen p1) (cs_buf p1)) else None)
        else (p1, None)))"

definition cp_receive :: "'c sx1262 \<Rightarrow> (status \<Rightarrow> u16) \<Rightarrow> u32 \<Rightarrow> 'c coproc \<Rightarrow> u8 \<Rightarrow> 'c coproc" where
  "cp_receive X code now s b =
     (case cp_feedByte (cp_parser s) b of (p, m) \<Rightarrow>
        (let s1 = s\<lparr>cp_parser := p\<rparr> in case m of None \<Rightarrow> s1 | Some x \<Rightarrow> handleHostFrame X code now x s1))"

section \<open>One pass over a radio\<close>

definition finish_tx :: "'c sx1262 \<Rightarrow> (status \<Rightarrow> u16) \<Rightarrow> u32 \<Rightarrow> nat \<Rightarrow> 'c wio \<Rightarrow> 'c coproc \<Rightarrow> 'c coproc" where
  "finish_tx X code now i w s =
     (let r = cp_radios s ! i; fin = wio_txDone w; timedOut = now - cr_txStartMs r > COPROC_TX_TIMEOUT_MS in
      if fin \<or> timedOut then
        sendTxDone code i (if timedOut \<and> \<not> fin then RADIOLIB_ERR_TX_TIMEOUT else RADIOLIB_ERR_NONE)
          (set_radio i (r\<lparr>cr_radio := Some (wio_finishTransmit X w), cr_txActive := False\<rparr>) s)
      else set_radio i (r\<lparr>cr_radio := Some w\<rparr>) s)"

text \<open>The text of the console line for a failed read, from the status number.\<close>

definition rx_error_text :: "(status \<Rightarrow> u16) \<Rightarrow> nat \<Rightarrow> reading \<Rightarrow> bytes" where
  "rx_error_text code i g = bounded_copy 80
     (str ''R'' @ fmt_u (i + 3) @ str '' RX read err='' @ fmt_d (sint (code (rg_status g))) @ str '' rssi=''
      @ fmt_fixed 1 (f32_of_bits (rg_rssi g)) @ str '' snr='' @ fmt_fixed 1 (f32_of_bits (rg_snr g)))"

definition forward_rx :: "'c sx1262 \<Rightarrow> (status \<Rightarrow> u16) \<Rightarrow> nat \<Rightarrow> 'c wio \<Rightarrow> 'c coproc \<Rightarrow> 'c coproc" where
  "forward_rx X code i w s =
     (case wio_read X LORA_MAX_PACKET w of (w2, g) \<Rightarrow>
        set_radio i ((cp_radios s ! i)\<lparr>cr_radio := Some (wio_startReceive X w2)\<rparr>)
          (if rg_status g = RADIOLIB_ERR_NONE \<and> rg_data g \<noteq> []
           then linkSend MSG_RX (of_nat i) (pack_RxHeader (rg_rssi g) (rg_snr g) @ rg_data g) s
           else if rg_status g \<noteq> RADIOLIB_ERR_NONE then linkLog (rx_error_text code i g) s else s))"

definition dispatch_tx :: "'c sx1262 \<Rightarrow> (status \<Rightarrow> u16) \<Rightarrow> u32 \<Rightarrow> nat \<Rightarrow> 'c wio \<Rightarrow> 'c coproc \<Rightarrow> 'c coproc" where
  "dispatch_tx X code now i w s =
     (let r = (cp_radios s ! i)\<lparr>cr_radio := Some w\<rparr> in
      case (if cr_enabled r then txqPeek r else None) of None \<Rightarrow> set_radio i r s
      | Some job \<Rightarrow>
          (case wio_scanChannel X w of (w2, cad) \<Rightarrow>
             if cad = RADIOLIB_LORA_DETECTED then set_radio i (r\<lparr>cr_radio := Some (wio_startReceive X w2)\<rparr>) s
             else (case wio_startTransmit X job w2 of (w3, st) \<Rightarrow>
               if st = RADIOLIB_ERR_NONE
               then set_radio i (txqPop (r\<lparr>cr_radio := Some w3, cr_txActive := True, cr_txStartMs := now\<rparr>)) s
               else sendTxDone code i st (set_radio i (txqPop (r\<lparr>cr_radio := Some (wio_startReceive X w3)\<rparr>)) s))))"

definition poll_radio :: "'c sx1262 \<Rightarrow> (status \<Rightarrow> u16) \<Rightarrow> u32 \<Rightarrow> ('c wio \<Rightarrow> 'c wio) \<Rightarrow> nat \<Rightarrow> 'c coproc \<Rightarrow> 'c coproc" where
  "poll_radio X code now world i s =
     (let r = cp_radios s ! i in
      case cr_radio r of None \<Rightarrow> s
      | Some w0 \<Rightarrow> (let w = world w0 in
          if cr_txActive r then finish_tx X code now i w s
          else if cr_enabled r \<and> wio_available w then forward_rx X code i w s
          else dispatch_tx X code now i w s))"

text \<open>One \<open>loop\<close>: drain the link, then each radio; \<open>world i\<close> is what radio \<open>i\<close>'s hardware did meanwhile.\<close>

definition cp_loop ::
  "'c sx1262 \<Rightarrow> (status \<Rightarrow> u16) \<Rightarrow> u32 \<Rightarrow> (nat \<Rightarrow> 'c wio \<Rightarrow> 'c wio) \<Rightarrow> bytes \<Rightarrow> 'c coproc \<Rightarrow> 'c coproc" where
  "cp_loop X code now world bs s =
     (let s1 = foldl (cp_receive X code now) s bs in
      poll_radio X code now (world 1) 1 (poll_radio X code now (world 0) 0 s1))"

section \<open>Boot\<close>

definition defaultConfig :: lora_config where
  "defaultConfig = \<lparr>lc_frequency = 0x4462B800, lc_bandwidth = 0x437A0000, lc_spreadFactor = 11, lc_codingRate = 5,
     lc_syncWord = 0x2B, lc_txPower = 20, lc_preambleLen = LORA_PREAMBLE_LEN, lc_tcxoVoltage = LORA_TCXO_VOLTAGE\<rparr>"

definition boot_radio :: "'c sx1262 \<Rightarrow> nat \<Rightarrow> 'c wio \<Rightarrow> bytes \<Rightarrow> 'c coproc \<Rightarrow> 'c coproc \<times> bool" where
  "boot_radio X i w msg s =
     (let r = cp_radios s ! i in
      case wio_begin X w of
        (w2, True) \<Rightarrow> (set_radio i (r\<lparr>cr_radio := Some (wio_startReceive X w2), cr_enabled := True\<rparr>) s, True)
      | (w2, False) \<Rightarrow> (linkLog msg (set_radio i (r\<lparr>cr_radio := Some w2\<rparr>) s), False))"

text \<open>\<open>chip0\<close> and \<open>chip1\<close> are the chips found on the bus, \<open>revision\<close> the module revision's name.\<close>

definition coproc_setup :: "'c sx1262 \<Rightarrow> 'c \<Rightarrow> 'c \<Rightarrow> bytes \<Rightarrow> 'c coproc \<Rightarrow> 'c coproc" where
  "coproc_setup X chip0 chip1 revision s =
     (case wio_create 0 True defaultConfig chip0 of (n, w0) \<Rightarrow>
      case wio_create n True defaultConfig chip1 of (_, w1) \<Rightarrow>
      case boot_radio X 0 w0 (str ''R3 (B2B) begin() failed at boot'') s of (s1, ok3) \<Rightarrow>
      case boot_radio X 1 w1 (str ''R4 (edge) begin() failed at boot '' @ em_dash @ str '' check module revision/wiring'') s1 of (s2, ok4) \<Rightarrow>
        linkLog (bounded_copy 96 (str ''Xiao SX1262 co-processor ready (R3='' @ (if ok3 then str ''up'' else str ''down'')
            @ str '' R4='' @ (if ok4 then str ''up'' else str ''down'') @ str '' '' @ revision @ str '') '' @ em_dash @ str '' idle until CFG_RADIO''))
          (linkSend MSG_READY RADIO_NONE [1, 2] s2))"

text \<open>The statically initialised state.\<close>

definition coproc_zero :: "'c coproc" where
  "coproc_zero = \<lparr>cp_radios = replicate 2 \<lparr>cr_radio = None, cr_enabled = False, cr_txActive = False, cr_txStartMs = 0,
       cr_txq = replicate TX_Q_DEPTH \<lparr>tj_data = replicate LORA_MAX_PACKET 0, tj_len = 0\<rparr>,
       cr_head = 0, cr_tail = 0, cr_count = 0\<rparr>,
     cp_parser = cp_parser_init, cp_out = [], cp_wire = [], cp_restarted = False\<rparr>"

end
