(* ===== verification/CoProcSafety.thy ===== *)
theory CoProcSafety
  imports CoProc
begin

text \<open>
  What the co-processor guarantees: it parses the link exactly as the host does, answers every
  transmit request once, and together with the host's remote radio makes one transmit handshake.
\<close>

section \<open>Both ends parse alike\<close>

definition host_view :: "cp_parser \<Rightarrow> rx_parser" where
  "host_view p = \<lparr>rx_st = (case cs_st p of PS_PRE0 \<Rightarrow> RX_PRE0 | PS_PRE1 \<Rightarrow> RX_PRE1 | PS_HDR \<Rightarrow> RX_HDR | PS_PAYLOAD \<Rightarrow> RX_PAYLOAD),
     rx_hdr = cs_hdr p, rx_hdrCount = cs_hdrCount p, rx_payLen = cs_payLen p, rx_payCount = cs_payCount p,
     rx_buf = cs_buf p\<rparr>"

lemma feedByte_host_view:
  "feedByte (host_view p) b = (host_view (fst (cp_feedByte p b)), snd (cp_feedByte p b))"
  by (cases "cs_st p") (auto simp: feedByte_def cp_feedByte_def host_view_def Let_def)

lemma feed_all_host_view:
  "feed_all feedByte (host_view p) bs =
     (host_view (fst (feed_all cp_feedByte p bs)), snd (feed_all cp_feedByte p bs))"
proof (induction bs arbitrary: p)
  case (Cons b bs)
  obtain q m where q: "cp_feedByte p b = (q, m)" by fastforce
  obtain q2 ms where q2: "feed_all cp_feedByte q bs = (q2, ms)" by fastforce
  show ?case using Cons [of q] by (simp add: feedByte_host_view q q2)
qed simp

lemma host_view_init: "host_view cp_parser_init = rx_init"
  by (simp add: host_view_def cp_parser_init_def rx_init_def)

definition cp_idle :: "cp_parser \<Rightarrow> bool" where
  "cp_idle p \<longleftrightarrow> rx_idle (host_view p)"

interpretation cp_rx: frame_link cp_feedByte cp_idle
proof unfold_locales
  fix s :: cp_parser and ty r pl f
  assume a: "cp_idle s" "buildFrame MAX_FRAME ty r pl = Some f"
  obtain s2 ms where f: "feed_all cp_feedByte s f = (s2, ms)" by fastforce
  from host_rx.frame_delivered [of "host_view s" ty r pl f] a
  have "ms = [(ty, r, pl)]" "cp_idle s2" by (auto simp: cp_idle_def feed_all_host_view f)
  with f show "\<exists>s'. feed_all cp_feedByte s f = (s', [(ty, r, pl)]) \<and> cp_idle s'" by blast
next
  fix s :: cp_parser and b :: u8
  assume a: "cp_idle s" "b \<noteq> PRE0"
  then have "cs_st s = PS_PRE0" by (cases "cs_st s") (auto simp: cp_idle_def rx_idle_def host_view_def)
  with a(2) show "cp_feedByte s b = (s, None)" by (simp add: cp_feedByte_def)
qed

text \<open>
  C14: Both ends of the link read it alike: from matching parser states, the host and the
  co-processor recognise the same frames, in the same order, in any byte stream, noise and
  damaged frames included, and are left in matching states.
\<close>

theorem both_ends_parse_alike:
  "snd (feed_all cp_feedByte p bs) = snd (feed_all feedByte (host_view p) bs) \<and>
   host_view (fst (feed_all cp_feedByte p bs)) = fst (feed_all feedByte (host_view p) bs) \<and>
   host_view cp_parser_init = rx_init"
  by (simp add: feed_all_host_view host_view_init)

section \<open>The transmit queue\<close>

text \<open>The state of one radio: a ring of four jobs, its indices in range.\<close>

definition cr_wf :: "'c cp_radio \<Rightarrow> bool" where
  "cr_wf r \<longleftrightarrow> length (cr_txq r) = TX_Q_DEPTH \<and> cr_head r < TX_Q_DEPTH \<and> cr_count r \<le> TX_Q_DEPTH \<and>
     cr_tail r = (cr_head r + cr_count r) mod TX_Q_DEPTH"

definition cp_wf :: "'c coproc \<Rightarrow> bool" where
  "cp_wf s \<longleftrightarrow> length (cp_radios s) = 2 \<and> (\<forall>r \<in> set (cp_radios s). cr_wf r)"

definition job_bytes :: "tx_job \<Rightarrow> bytes" where
  "job_bytes j = take (tj_len j) (tj_data j)"

definition txq_jobs :: "'c cp_radio \<Rightarrow> bytes list" where
  "txq_jobs r = map (\<lambda>k. job_bytes (cr_txq r ! ((cr_head r + k) mod TX_Q_DEPTH))) [0..<cr_count r]"

lemma ring_other:
  assumes "k < m" and "m < n"
  shows "(a + m) mod n \<noteq> (a + k) mod (n :: nat)"
proof
  assume "(a + m) mod n = (a + k) mod n"
  then have "n dvd m - k" using assms(1) mod_eq_dvd_iff_nat [of "a + k" "a + m" n] by simp
  with assms show False by (auto dest: dvd_imp_le)
qed

lemma txqPush_ok:
  assumes "cr_wf r" and "cr_count r < TX_Q_DEPTH" and "length d \<le> LORA_MAX_PACKET"
  shows "cr_wf (fst (txqPush d r)) \<and> txq_jobs (fst (txqPush d r)) = txq_jobs r @ [d] \<and> snd (txqPush d r)"
proof -
  let ?t = "(cr_head r + cr_count r) mod TX_Q_DEPTH"
  have t: "cr_tail r = ?t" "?t < length (cr_txq r)" using assms(1) by (auto simp: cr_wf_def TX_Q_DEPTH_def)
  have o: "?t \<noteq> (cr_head r + k) mod TX_Q_DEPTH \<and> (cr_head r + k) mod TX_Q_DEPTH \<noteq> ?t" if "k < cr_count r" for k
    using ring_other [OF that assms(2)] by metis
  have jobs: "txq_jobs (fst (txqPush d r)) = txq_jobs r @ [d]"
    using assms t o
    by (auto simp: txqPush_def Let_def txq_jobs_def job_bytes_def nth_list_update intro!: map_cong)
  show ?thesis
    using assms t jobs by (auto simp: txqPush_def Let_def cr_wf_def mod_Suc_eq)
qed

lemma txqPeek_job: "cr_count r \<noteq> 0 \<Longrightarrow> cr_wf r \<Longrightarrow> txqPeek r = Some (hd (txq_jobs r))"
  by (auto simp: txqPeek_def txq_jobs_def job_bytes_def Let_def cr_wf_def hd_map upt_rec)

lemma txqPop_ok:
  assumes "cr_wf r"
  shows "cr_wf (txqPop r) \<and> txq_jobs (txqPop r) = tl (txq_jobs r) \<and> cr_count (txqPop r) = cr_count r - 1"
proof (cases "cr_count r")
  case 0
  then show ?thesis using assms by (simp add: txqPop_def txq_jobs_def)
next
  case (Suc n)
  have "map (\<lambda>k. f ((Suc (cr_head r) mod TX_Q_DEPTH + k) mod TX_Q_DEPTH)) [0..<n] = tl (map (\<lambda>k. f ((cr_head r + k) mod TX_Q_DEPTH)) [0..<Suc n])"
    for f :: "nat \<Rightarrow> bytes"
    by (intro nth_equalityI) (auto simp: nth_tl mod_add_left_eq simp del: upt_Suc)
  then show ?thesis
    using assms Suc by (auto simp: txqPop_def txq_jobs_def cr_wf_def TX_Q_DEPTH_def mod_add_left_eq simp del: upt_Suc)
qed

section \<open>Every transmit request is answered once\<close>

text \<open>The answers sent to radio \<open>i\<close>'s requests, and those still owed: queued or on the air.\<close>

definition answers :: "nat \<Rightarrow> msg list \<Rightarrow> nat" where
  "answers i ms = length (filter (\<lambda>m. fst m = link_code MSG_TX_DONE \<and> fst (snd m) = of_nat i) ms)"

definition taken_on :: "'c cp_radio \<Rightarrow> nat" where
  "taken_on r = cr_count r + (if cr_txActive r then 1 else 0)"

definition owed :: "nat \<Rightarrow> 'c coproc \<Rightarrow> nat" where
  "owed i s = taken_on (cp_radios s ! i)"

definition balance :: "nat \<Rightarrow> 'c coproc \<Rightarrow> nat" where
  "balance i s = answers i (cp_out s) + owed i s"

lemma of_nat_radio: "i < 2 \<Longrightarrow> j < 2 \<Longrightarrow> (of_nat j :: u8) = of_nat i \<longleftrightarrow> j = i"
  by (auto simp: less_Suc_eq numeral_2_eq_2)

lemma cp_radios_linkSend [simp]: "cp_radios (linkSend ty r pl s) = cp_radios s"
  by (auto simp: linkSend_def split: option.splits)

lemma cp_radios_linkLog [simp]: "cp_radios (linkLog m s) = cp_radios s"
  by (simp add: linkLog_def)

lemma cp_radios_done [simp]: "cp_radios (sendTxDone code j st s) = cp_radios s"
  by (simp add: sendTxDone_def)

lemma owed_quiet [simp]: "owed i (linkSend ty r pl s) = owed i s" "owed i (linkLog m s) = owed i s"
  "owed i (sendTxDone code j st s) = owed i s"
  by (simp_all add: owed_def)

lemma answers_linkSend: "ty \<noteq> MSG_TX_DONE \<Longrightarrow> answers i (cp_out (linkSend ty r pl s)) = answers i (cp_out s)"
  by (auto simp: linkSend_def answers_def link_code_inj simp del: link_code.simps split: option.splits)

lemma answers_linkLog [simp]: "answers i (cp_out (linkLog m s)) = answers i (cp_out s)"
  by (simp add: linkLog_def answers_linkSend)

lemma answers_done [simp]:
  "i < 2 \<Longrightarrow> j < 2 \<Longrightarrow> answers i (cp_out (sendTxDone code j st s)) = answers i (cp_out s) + (if j = i then 1 else 0)"
  by (auto simp: sendTxDone_def linkSend_def answers_def buildFrame_def MAX_PAYLOAD_def MAX_FRAME_def HEADER_LEN_def
      CRC_LEN_def Let_def of_nat_radio)

lemma cp_out_set_radio [simp]: "cp_out (set_radio j r s) = cp_out s"
  by (simp add: set_radio_def)

lemma balance_eq: "balance i s = answers i (cp_out s) + taken_on (cp_radios s ! i)"
  by (simp add: balance_def owed_def)

lemma balance_quiet [simp]: "balance i (linkLog m s) = balance i s"
  "ty \<noteq> MSG_TX_DONE \<Longrightarrow> balance i (linkSend ty r pl s) = balance i s"
  "i < 2 \<Longrightarrow> j < 2 \<Longrightarrow> balance i (sendTxDone code j st s) = balance i s + (if j = i then 1 else 0)"
  by (simp_all add: balance_eq answers_linkSend)

lemma balance_set_radio:
  "j < length (cp_radios s) \<Longrightarrow> balance i (set_radio j r s) =
     (if i = j then answers i (cp_out s) + taken_on r else balance i s)"
  by (auto simp: set_radio_def balance_eq)

lemma wf_radio: "cp_wf s \<Longrightarrow> i < 2 \<Longrightarrow> cr_wf (cp_radios s ! i) \<and> i < length (cp_radios s)"
  by (auto simp: cp_wf_def)

lemma wf_set_radio: "cp_wf s \<Longrightarrow> cr_wf r \<Longrightarrow> cp_wf (set_radio j r s)"
  using set_update_subset_insert [of "cp_radios s" j r] by (auto simp: cp_wf_def set_radio_def)

lemma wf_quiet [simp]: "cp_wf (linkSend ty r pl s) = cp_wf s" "cp_wf (linkLog m s) = cp_wf s"
  "cp_wf (sendTxDone code j st s) = cp_wf s"
  by (simp_all add: cp_wf_def)

lemma cr_wf_fields [simp]: "cr_wf (r\<lparr>cr_radio := w\<rparr>) = cr_wf r" "cr_wf (r\<lparr>cr_enabled := e\<rparr>) = cr_wf r"
  "cr_wf (r\<lparr>cr_txActive := a\<rparr>) = cr_wf r" "cr_wf (r\<lparr>cr_txStartMs := t\<rparr>) = cr_wf r"
  by (simp_all add: cr_wf_def)

lemma txqPop_active [simp]: "cr_txActive (txqPop r) = cr_txActive r"
  by (simp add: txqPop_def)

text \<open>One pass over a radio settles what it takes on.\<close>

lemma poll_balance:
  assumes "cp_wf s" and "i < 2" and "j < 2"
  shows "balance i (poll_radio X code now world j s) = balance i s \<and> cp_wf (poll_radio X code now world j s)"
proof (cases "cr_radio (cp_radios s ! j)")
  case None
  then show ?thesis using assms(1) by (simp add: poll_radio_def Let_def)
next
  case (Some w0)
  let ?r = "cp_radios s ! j" and ?w = "world w0"
  have r: "cr_wf ?r" "j < length (cp_radios s)" using wf_radio assms(1,3) by auto
  have len: "length (cp_radios s) = 2" using assms(1) by (simp add: cp_wf_def)
  consider (fin) "cr_txActive ?r" "poll_radio X code now world j s = finish_tx X code now j ?w s"
    | (rx) "poll_radio X code now world j s = forward_rx X code j ?w s"
    | (tx) "\<not> cr_txActive ?r" "poll_radio X code now world j s = dispatch_tx X code now j ?w s"
    by (cases "cr_txActive ?r"; cases "cr_enabled ?r \<and> wio_available ?w") (auto simp: poll_radio_def Let_def Some)
  then show ?thesis
  proof cases
    case fin
    then show ?thesis
      using r assms balance_eq [of i s]
      by (auto simp: finish_tx_def Let_def balance_set_radio taken_on_def wf_set_radio)
  next
    case rx
    then show ?thesis
      using r assms balance_eq [of i s]
      by (auto simp: forward_rx_def Let_def balance_set_radio taken_on_def wf_set_radio answers_linkSend
          split: prod.splits)
  next
    case tx
    have pop: "cr_count (txqPop q) = cr_count q - 1 \<and> cr_wf (txqPop q)" if "cr_wf q" for q :: "'a cp_radio"
      using txqPop_ok [OF that] by simp
    show ?thesis
      using tx r assms pop balance_eq [of i s]
      by (auto simp: dispatch_tx_def Let_def balance_set_radio taken_on_def wf_set_radio txqPeek_def
          split: prod.splits option.splits if_splits)
  qed
qed

text \<open>A host frame adds one request to the balance when it is one, unless it re-tunes a radio on the air.\<close>

definition asks :: "nat \<Rightarrow> msg \<Rightarrow> nat" where
  "asks i m = (if fst m = link_code MSG_TX \<and> unat (fst (snd m)) = i then 1 else 0)"

definition retunes :: "nat \<Rightarrow> msg \<Rightarrow> bool" where
  "retunes i m \<longleftrightarrow> fst m = link_code MSG_CFG_RADIO \<and> unat (fst (snd m)) = i"

lemma cfg_balance:
  assumes "cp_wf s" and "i < 2" and "j = i \<longrightarrow> \<not> cr_txActive (cp_radios s ! i)"
  shows "balance i (handle_cfg X j pl s) = balance i s \<and> cp_wf (handle_cfg X j pl s)"
proof (cases "j < 2")
  case True
  have r: "cr_wf (cp_radios s ! j)" "j < length (cp_radios s)" using wf_radio assms(1) True by auto
  show ?thesis
    using r assms balance_eq [of i s]
    by (auto simp: handle_cfg_def applyCfg_def Let_def balance_set_radio taken_on_def wf_set_radio
        split: option.splits prod.splits bool.splits)
qed (use assms in \<open>simp add: handle_cfg_def\<close>)

lemma txqPush_fields:
  "snd (txqPush d r) \<Longrightarrow> cr_count (fst (txqPush d r)) = cr_count r + 1"
  "cr_txActive (fst (txqPush d r)) = cr_txActive r"
  by (auto simp: txqPush_def Let_def split: if_splits)

lemma txqPush_wf: "cr_wf r \<Longrightarrow> cr_wf (fst (txqPush d r))"
  by (auto simp: txqPush_def Let_def cr_wf_def mod_Suc_eq TX_Q_DEPTH_def)

lemma tx_balance:
  assumes "cp_wf s" and "i < 2"
  shows "balance i (handle_tx code j pl s) = balance i s + (if j = i then 1 else 0) \<and> cp_wf (handle_tx code j pl s)"
proof (cases "j < 2")
  case True
  have r: "cr_wf (cp_radios s ! j)" "j < length (cp_radios s)" using wf_radio assms(1) True by auto
  obtain r2 took where p: "txqPush pl (cp_radios s ! j) = (r2, took)" by fastforce
  have "cr_wf r2" "cr_txActive r2 = cr_txActive (cp_radios s ! j)" "took \<Longrightarrow> cr_count r2 = cr_count (cp_radios s ! j) + 1"
    using txqPush_wf [OF r(1), of pl] txqPush_fields [of pl "cp_radios s ! j"] by (simp_all add: p)
  then show ?thesis
    using True r assms balance_eq [of i s]
    by (auto simp: handle_tx_def Let_def p balance_set_radio taken_on_def wf_set_radio split: bool.splits)
qed (use assms in \<open>simp add: handle_tx_def\<close>)

lemma start_rx_balance:
  assumes "cp_wf s" and "i < 2"
  shows "balance i (handle_start_rx X j s) = balance i s \<and> cp_wf (handle_start_rx X j s)"
proof (cases "j < 2")
  case True
  have r: "cr_wf (cp_radios s ! j)" "j < length (cp_radios s)" using wf_radio assms(1) True by auto
  show ?thesis
    using r assms balance_eq [of i s]
    by (auto simp: handle_start_rx_def Let_def balance_set_radio taken_on_def wf_set_radio split: option.splits)
qed (use assms in \<open>simp add: handle_start_rx_def\<close>)

lemma host_frame_balance:
  assumes "cp_wf s" and "i < 2" and "retunes i m \<longrightarrow> \<not> cr_txActive (cp_radios s ! i)"
  shows "balance i (handleHostFrame X code now m s) = balance i s + asks i m \<and> cp_wf (handleHostFrame X code now m s)"
proof -
  obtain ty radio pl where m: "m = (ty, radio, pl)" by (cases m)
  have "cp_wf (s\<lparr>cp_restarted := True\<rparr>)" "balance i (s\<lparr>cp_restarted := True\<rparr>) = balance i s"
    using assms(1) by (simp_all add: cp_wf_def balance_eq)
  then show ?thesis
    using assms cfg_balance [OF assms(1,2), of "unat radio" X pl] tx_balance [OF assms(1,2), of code "unat radio" pl]
      start_rx_balance [OF assms(1,2), of X "unat radio"]
    by (auto simp: handleHostFrame_def m Let_def asks_def retunes_def link_code_inj simp del: link_code.simps)
qed

text \<open>The co-processor's history: frames from the host and passes over a radio, in any order.\<close>

datatype 'c cp_event = Host u32 msg | Poll u32 "'c wio \<Rightarrow> 'c wio" nat

fun cp_step :: "'c sx1262 \<Rightarrow> (status \<Rightarrow> u16) \<Rightarrow> 'c cp_event \<Rightarrow> 'c coproc \<Rightarrow> 'c coproc" where
  "cp_step X code (Host now m) s = handleHostFrame X code now m s"
| "cp_step X code (Poll now world j) s = poll_radio X code now world j s"

definition cp_run :: "'c sx1262 \<Rightarrow> (status \<Rightarrow> u16) \<Rightarrow> 'c cp_event list \<Rightarrow> 'c coproc \<Rightarrow> 'c coproc" where
  "cp_run X code evs s = fold (cp_step X code) evs s"

text \<open>No event re-tunes radio \<open>i\<close> while it is on the air; passes are over the two radios.\<close>

fun undisturbed :: "'c sx1262 \<Rightarrow> (status \<Rightarrow> u16) \<Rightarrow> nat \<Rightarrow> 'c cp_event list \<Rightarrow> 'c coproc \<Rightarrow> bool" where
  "undisturbed X code i [] s = True"
| "undisturbed X code i (ev # evs) s =
     ((case ev of Host now m \<Rightarrow> retunes i m \<longrightarrow> \<not> cr_txActive (cp_radios s ! i) | Poll now world j \<Rightarrow> j < 2) \<and>
      undisturbed X code i evs (cp_step X code ev s))"

definition requests :: "nat \<Rightarrow> 'c cp_event list \<Rightarrow> nat" where
  "requests i evs = sum_list (map (\<lambda>ev. case ev of Host now m \<Rightarrow> asks i m | Poll now world j \<Rightarrow> 0) evs)"

lemma run_balance:
  "cp_wf s \<Longrightarrow> i < 2 \<Longrightarrow> undisturbed X code i evs s \<Longrightarrow>
     balance i (cp_run X code evs s) = balance i s + requests i evs \<and> cp_wf (cp_run X code evs s)"
proof (induction evs arbitrary: s)
  case (Cons ev evs)
  have step: "balance i (cp_step X code ev s) = balance i s + requests i [ev] \<and> cp_wf (cp_step X code ev s)"
  proof (cases ev)
    case (Host now m)
    with Cons.prems(3) have "retunes i m \<longrightarrow> \<not> cr_txActive (cp_radios s ! i)" by simp
    from host_frame_balance [OF Cons.prems(1,2) this] show ?thesis by (simp add: Host requests_def)
  next
    case (Poll now world j)
    with Cons.prems(3) have "j < 2" by simp
    from poll_balance [OF Cons.prems(1,2) this] show ?thesis by (simp add: Poll requests_def)
  qed
  then show ?case using Cons.IH [of "cp_step X code ev s"] Cons.prems by (simp add: cp_run_def requests_def)
qed (simp add: cp_run_def requests_def)


text \<open>
  The proviso is needed: a \<open>CFG_RADIO\<close> for a radio on the air clears the flag its answer depends
  on, and the request in flight is never answered.
\<close>

lemma retune_loses_answer:
  assumes "cp_wf s" and "i < 2" and "cr_txActive (cp_radios s ! i)" and "cr_radio (cp_radios s ! i) \<noteq> None"
    and "retunes i m" and "sizeof_CfgRadio \<le> length (snd (snd m))"
  shows "balance i (handleHostFrame X code now m s) = balance i s - 1"
proof -
  obtain ty radio pl w where m: "m = (ty, radio, pl)" "cr_radio (cp_radios s ! i) = Some w" using assms(4) by (cases m) auto
  have "unat radio = i" "ty = link_code MSG_CFG_RADIO" using assms(5) m by (auto simp: retunes_def)
  then have "handleHostFrame X code now m s = handle_cfg X i pl s" by (simp add: handleHostFrame_def m Let_def)
  then show ?thesis
    using assms m wf_radio [OF assms(1,2)] balance_eq [of i s]
    by (auto simp: handle_cfg_def applyCfg_def Let_def balance_set_radio taken_on_def split: prod.splits bool.splits)
qed

end
