(* ===== verification/Handshake.thy ===== *)
theory Handshake
  imports CoProcSafety SchedulerSamples
begin

text \<open>
  Host and co-processor together: the bytes the host's remote radio writes are what the
  co-processor reads, and the other way round. A transmit request crosses the link, is queued as
  it was sent, and the host's gate reopens exactly when it has been answered.
\<close>

section \<open>The co-processor reads frames\<close>

lemma parser_update_parts:
  "linkSend ty r pl (s\<lparr>cp_parser := p\<rparr>) = (linkSend ty r pl s)\<lparr>cp_parser := p\<rparr>"
  "set_radio j x (s\<lparr>cp_parser := p\<rparr>) = (set_radio j x s)\<lparr>cp_parser := p\<rparr>"
  "sendTxDone code j st (s\<lparr>cp_parser := p\<rparr>) = (sendTxDone code j st s)\<lparr>cp_parser := p\<rparr>"
  "linkLog m (s\<lparr>cp_parser := p\<rparr>) = (linkLog m s)\<lparr>cp_parser := p\<rparr>"
  by (auto simp: linkSend_def set_radio_def sendTxDone_def linkLog_def split: option.splits)

lemma handleHostFrame_parser_update:
  "handleHostFrame X code now m (s\<lparr>cp_parser := p\<rparr>) = (handleHostFrame X code now m s)\<lparr>cp_parser := p\<rparr>"
  by (cases m) (auto simp: handleHostFrame_def handle_cfg_def applyCfg_def handle_tx_def handle_start_rx_def Let_def
      parser_update_parts split: option.splits prod.splits bool.splits)

lemma cp_parser_parts [simp]: "cp_parser (linkSend ty r pl s) = cp_parser s" "cp_parser (set_radio j x s) = cp_parser s"
  "cp_parser (sendTxDone code j st s) = cp_parser s" "cp_parser (linkLog m s) = cp_parser s"
  by (auto simp: linkSend_def set_radio_def sendTxDone_def linkLog_def split: option.splits)

lemma cp_receive_msgs:
  "feed_all cp_feedByte (cp_parser s) bs = (p, ms) \<Longrightarrow>
     foldl (cp_receive X code now) s bs = (foldl (\<lambda>t m. handleHostFrame X code now m t) s ms)\<lparr>cp_parser := p\<rparr>"
proof (induction bs arbitrary: s p ms)
  case (Cons b bs)
  obtain p1 m where f: "cp_feedByte (cp_parser s) b = (p1, m)" by fastforce
  obtain p2 ms2 where g: "feed_all cp_feedByte p1 bs = (p2, ms2)" by fastforce
  define s1 where "s1 = cp_receive X code now s b"
  have s1: "s1 = (case m of None \<Rightarrow> s | Some x \<Rightarrow> handleHostFrame X code now x s)\<lparr>cp_parser := p1\<rparr>"
    by (auto simp: s1_def cp_receive_def f Let_def handleHostFrame_parser_update split: option.splits)
  have comm: "foldl (\<lambda>t m. handleHostFrame X code now m t) (u\<lparr>cp_parser := q\<rparr>) xs =
      (foldl (\<lambda>t m. handleHostFrame X code now m t) u xs)\<lparr>cp_parser := q\<rparr>" for u q xs
    by (induction xs arbitrary: u) (auto simp: handleHostFrame_parser_update)
  have "foldl (cp_receive X code now) s1 bs = (foldl (\<lambda>t m. handleHostFrame X code now m t) s1 ms2)\<lparr>cp_parser := p2\<rparr>"
    using Cons.IH [of s1 p2 ms2] g by (simp add: s1)
  then show ?case
    using Cons.prems f g by (cases m) (auto simp: s1 comm simp flip: s1_def)
qed simp

text \<open>A loop of the co-processor is a history of the frames it read and one pass per radio.\<close>

lemma cp_loop_events:
  assumes "feed_all cp_feedByte (cp_parser s) bs = (p, ms)"
  shows "cp_loop X code now world bs s =
    cp_run X code [Poll now (world 0) 0, Poll now (world 1) 1] ((cp_run X code (map (Host now) ms) s)\<lparr>cp_parser := p\<rparr>)"
proof -
  have "foldl (\<lambda>t m. handleHostFrame X code now m t) s xs = cp_run X code (map (Host now) xs) s" for s xs
    by (induction xs arbitrary: s) (auto simp: cp_run_def)
  then show ?thesis using cp_receive_msgs [OF assms, of X code now] by (simp add: cp_loop_def cp_run_def)
qed

section \<open>What is on the wire\<close>

definition wire_ok :: "'c coproc \<Rightarrow> bool" where
  "wire_ok s \<longleftrightarrow> (\<exists>fs. list_all2 frames_msg fs (cp_out s) \<and> cp_wire s = concat fs)"

lemma wire_linkSend: "wire_ok s \<Longrightarrow> wire_ok (linkSend ty r pl s)"
proof (cases "buildFrame MAX_FRAME (link_code ty) r pl")
  case None
  then show "wire_ok s \<Longrightarrow> wire_ok (linkSend ty r pl s)" by (simp add: linkSend_def)
next
  case (Some f)
  assume "wire_ok s"
  then obtain fs where "list_all2 frames_msg fs (cp_out s)" "cp_wire s = concat fs" by (auto simp: wire_ok_def)
  then have "list_all2 frames_msg (fs @ [f]) (cp_out s @ [(link_code ty, r, pl)])" "cp_wire s @ f = concat (fs @ [f])"
    using Some by (auto simp: frames_msg_def intro!: list_all2_appendI)
  then show "wire_ok (linkSend ty r pl s)" unfolding wire_ok_def linkSend_def Some by auto
qed

lemma wire_sends [simp, intro]: "wire_ok s \<Longrightarrow> wire_ok (linkSend ty r pl s)" "wire_ok s \<Longrightarrow> wire_ok (linkLog m s)"
  "wire_ok s \<Longrightarrow> wire_ok (sendTxDone code j st s)"
  using wire_linkSend by (simp_all add: linkLog_def sendTxDone_def)

lemma wire_fields [simp]: "wire_ok (set_radio j x s) = wire_ok s" "wire_ok (s\<lparr>cp_parser := p\<rparr>) = wire_ok s"
  "wire_ok (s\<lparr>cp_restarted := b\<rparr>) = wire_ok s"
  by (simp_all add: set_radio_def wire_ok_def)

lemma wire_handle: "wire_ok s \<Longrightarrow> wire_ok (handleHostFrame X code now m s)"
  by (cases m) (auto simp: handleHostFrame_def handle_cfg_def applyCfg_def handle_tx_def handle_start_rx_def Let_def
      split: option.splits prod.splits bool.splits)

lemma wire_poll: "wire_ok s \<Longrightarrow> wire_ok (poll_radio X code now world j s)"
  by (auto simp: poll_radio_def finish_tx_def forward_rx_def dispatch_tx_def Let_def split: option.splits prod.splits)

lemma wire_run: "wire_ok s \<Longrightarrow> wire_ok (cp_run X code evs s)"
proof (induction evs arbitrary: s)
  case (Cons ev evs)
  have "wire_ok (cp_step X code ev s)" using Cons.prems wire_handle wire_poll by (cases ev) auto
  then show ?case using Cons.IH by (simp add: cp_run_def)
qed (simp add: cp_run_def)

lemma answers_positive:
  assumes "i < 2"
  shows "0 < answers i ms \<longleftrightarrow> (\<exists>radio pl. (link_code MSG_TX_DONE, radio, pl) \<in> set ms \<and> unat radio = i)"
proof -
  have "r = of_nat i \<longleftrightarrow> unat r = i" for r :: u8
    using assms by (auto simp: unat_of_nat)
  then show ?thesis by (force simp: answers_def filter_empty_conv simp del: link_code.simps)
qed

section \<open>The handshake\<close>

text \<open>
  C12: A remote transmission is one handshake. With the co-processor's radio enabled and idle,
  \<open>startTransmit\<close> on the host succeeds, and when the co-processor has read the bytes it wrote, the
  job at the head of that radio's queue is the packet, byte for byte. From then on, after any
  number of passes over the radios, the bytes the co-processor has written make the host's
  transmit gate open if and only if the job is finished: sent, refused or timed out.
\<close>

theorem remote_transmit_handshake:
  assumes host: "ul_inv l" "rx_idle (ul_rx l)" "ul_ready l" and "i < 2" and "length buf \<le> LORA_MAX_PACKET"
    and coproc: "cp_wf s" "cp_idle (cp_parser s)" "cp_out s = []" "cp_wire s = []" "cr_enabled (cp_radios s ! i)" "owed i s = 0"
    and start: "remote_startTransmit length buf \<lparr>rm_localRadio = int i, rm_config = c, rm_link = l, rm_wire = []\<rparr> = (r1, st)"
    and s1: "s1 = foldl (cp_receive X code now) s (rm_wire r1)"
    and s2: "s2 = cp_run X code evs s1" and polls: "\<forall>ev \<in> set evs. \<exists>t w j. ev = Poll t w j \<and> j < 2"
  shows "st = RADIOLIB_ERR_NONE \<and> txqPeek (cp_radios s1 ! i) = Some buf \<and>
    (link_txDone (rxTask_drain t (rm_link r1) (cp_wire s2)) (int i) \<longleftrightarrow> owed i s2 = 0)"
proof -
  let ?m = "(link_code MSG_TX, of_nat i :: u8, buf)"
  have u: "unat (of_nat i :: u8) = i" using assms(4) by (simp add: unat_of_nat)
  obtain f where f: "buildFrame MAX_FRAME (link_code MSG_TX) (of_nat i) buf = Some f"
    using buildFrame_Some_iff [of MAX_FRAME "link_code MSG_TX" "of_nat i" buf] assms(5)
    by (auto simp: MAX_PAYLOAD_def LORA_MAX_PACKET_def MAX_FRAME_def HEADER_LEN_def CRC_LEN_def)
  have r1: "st = RADIOLIB_ERR_NONE" "rm_wire r1 = f" "rm_link r1 = armTx l (int i)"
    using start f host(3) by (auto simp: remote_startTransmit_def remote_send_def sendFrame_def Let_def)
  obtain p where p: "feed_all cp_feedByte (cp_parser s) f = (p, [?m])"
    using cp_rx.frame_delivered [OF coproc(2) f] by blast
  have h: "s1 = (handleHostFrame X code now ?m s)\<lparr>cp_parser := p\<rparr>"
    using cp_receive_msgs [OF p] by (simp add: s1 r1)
  define r where "r = cp_radios s ! i"
  have wf: "cr_wf r" "i < length (cp_radios s)" "cr_count r = 0"
    using wf_radio [OF coproc(1) assms(4)] coproc(6) by (auto simp: r_def owed_def taken_on_def)
  have push: "cr_wf (fst (txqPush buf r)) \<and> txq_jobs (fst (txqPush buf r)) = [buf] \<and> snd (txqPush buf r)"
    using txqPush_ok [OF wf(1) _ assms(5)] wf(3) by (simp add: TX_Q_DEPTH_def txq_jobs_def)
  have "handleHostFrame X code now ?m s = set_radio i (fst (txqPush buf r)) s"
    using assms(4) coproc(5) push u
    by (auto simp: handleHostFrame_def handle_tx_def Let_def r_def split: prod.splits bool.splits)
  then have q: "cp_radios s1 ! i = fst (txqPush buf r)" "cp_out s1 = []" "cp_wire s1 = []"
    using wf(2) coproc(3,4) by (simp_all add: h set_radio_def)
  have "txqPeek (cp_radios s1 ! i) = Some buf"
    using txqPeek_job [of "fst (txqPush buf r)"] txqPush_fields(1) [of buf r] push q(1) by simp
  moreover have "link_txDone (rxTask_drain t (rm_link r1) (cp_wire s2)) (int i) \<longleftrightarrow> owed i s2 = 0"
  proof -
    have "balance i (handleHostFrame X code now ?m s) = balance i s + 1 \<and> cp_wf (handleHostFrame X code now ?m s)"
      using host_frame_balance [OF coproc(1) assms(4), of ?m X code now] u by (simp add: asks_def retunes_def link_code_inj)
    then have b1: "balance i s1 = 1" "cp_wf s1"
      using coproc(3,6) by (auto simp: h balance_eq answers_def owed_def cp_wf_def)
    have "undisturbed X code i evs v" for v using polls by (induction evs arbitrary: v) auto
    moreover have "requests i evs = 0" using polls by (induction evs) (auto simp: requests_def)
    ultimately have "answers i (cp_out s2) + owed i s2 = 1"
      using run_balance [OF b1(2) assms(4), of X code evs] b1(1) by (simp add: s2 balance_def)
    moreover have "wire_ok s1" using q(2,3) by (auto simp: wire_ok_def)
    then have "wire_ok s2" unfolding s2 by (rule wire_run)
    then obtain fs where fs: "list_all2 frames_msg fs (cp_out s2)" "cp_wire s2 = concat fs" by (auto simp: wire_ok_def)
    moreover have "link_txDone (rxTask_drain t (armTx l (int i)) (concat fs)) (int i) \<longleftrightarrow> 0 < answers i (cp_out s2)"
    proof -
      have ok: "remote_ok (int i)" using assms(4) by (simp add: remote_ok_def MAX_REMOTE_RADIOS_def)
      obtain q where "feed_all feedByte (ul_rx (armTx l (int i))) (concat fs) = (q, cp_out s2)"
        using host_rx.stream_delivered [OF host(2) fs(1)] by auto
      then have "rxTask_drain t (armTx l (int i)) (concat fs) = (foldl (handleFrame t) (armTx l (int i)) (cp_out s2))\<lparr>ul_rx := q\<rparr>"
        by (rule rxTask_drain_msgs)
      moreover have "link_txDone (k\<lparr>ul_rx := q\<rparr>) (int i) = link_txDone k (int i)" for k :: uart_link by (simp add: link_txDone_def)
      ultimately show ?thesis
        using gate_messages [OF armTx_inv [OF host(1)] ok] armTx_closes [OF host(1) ok] answers_positive [OF assms(4)] by simp
    qed
    ultimately show ?thesis by (auto simp: r1(3))
  qed
  ultimately show ?thesis using r1(1) by blast
qed

section \<open>A run of the handshake\<close>

definition sample_coproc :: "nat coproc" where
  "sample_coproc = coproc_zero\<lparr>cp_radios := replicate 2 ((cp_radios (coproc_zero :: nat coproc) ! 0)\<lparr>cr_radio := Some sample_wio, cr_enabled := True\<rparr>)\<rparr>"

definition sample_code :: "status \<Rightarrow> u16" where
  "sample_code st = (if st = RADIOLIB_ERR_NONE then 0 else 0xFFFF)"

lemma sample_coproc_ok:
  "cp_wf sample_coproc" "cp_idle (cp_parser sample_coproc)" "cp_out sample_coproc = []" "cp_wire sample_coproc = []"
  "cr_enabled (cp_radios sample_coproc ! 0)" "owed 0 sample_coproc = 0" "answers 0 (cp_out sample_coproc) = 0"
  using rx_idle_init
  by (auto simp: sample_coproc_def coproc_zero_def cp_wf_def cr_wf_def TX_Q_DEPTH_def cp_idle_def host_view_init owed_def
      taken_on_def answers_def)

definition sample_history :: "nat cp_event list" where
  "sample_history = [Host 10 (link_code MSG_TX, 0, [1, 2]), Poll 100 id 0, Host 150 (link_code MSG_TX, 0, [3]), Poll 200 wio_isr 0]"

lemmas sample_run_simps = sample_history_def cp_run_def requests_def asks_def retunes_def handleHostFrame_def handle_tx_def
  txqPush_def txqPop_def txqPeek_def poll_radio_def finish_tx_def dispatch_tx_def Let_def set_radio_def sample_coproc_def
  coproc_zero_def owed_def taken_on_def TX_Q_DEPTH_def LORA_MAX_PACKET_def wio_defs sample_chip_def sample_wio_def wio_isr_def
  numeral_2_eq_2

lemma sample_history_runs:
  "undisturbed sample_chip sample_code 0 sample_history sample_coproc"
  "owed 0 (cp_run sample_chip sample_code sample_history sample_coproc) = 1" "requests 0 sample_history = 2"
  by (simp_all add: sample_run_simps)


definition hs_remote :: remote where
  "hs_remote = \<lparr>rm_localRadio = int 0, rm_config = defaultConfig, rm_link = ul_init\<lparr>ul_ready := True\<rparr>, rm_wire = []\<rparr>"

definition hs_sent :: "remote \<times> status" where
  "hs_sent = remote_startTransmit length [1, 2] hs_remote"

definition hs_read :: "nat coproc" where
  "hs_read = foldl (cp_receive sample_chip sample_code 50) sample_coproc (rm_wire (fst hs_sent))"

definition hs_done :: "nat coproc" where
  "hs_done = cp_run sample_chip sample_code [Poll 100 id 0, Poll 200 wio_isr 0] hs_read"

lemma hs_settled: "owed 0 hs_done = 0"
proof -
  obtain f where f: "buildFrame MAX_FRAME (link_code MSG_TX) 0 [1, 2] = Some f"
    using buildFrame_Some_iff [of MAX_FRAME "link_code MSG_TX" 0 "[1, 2]"]
    by (auto simp: MAX_PAYLOAD_def MAX_FRAME_def HEADER_LEN_def CRC_LEN_def)
  obtain p where p: "feed_all cp_feedByte (cp_parser sample_coproc) f = (p, [(link_code MSG_TX, 0, [1, 2])])"
    using cp_rx.frame_delivered [OF sample_coproc_ok(2) f] by blast
  have "rm_wire (fst hs_sent) = f"
    using f by (simp add: hs_sent_def hs_remote_def remote_startTransmit_def remote_send_def sendFrame_def Let_def)
  then have e: "hs_read = (handleHostFrame sample_chip sample_code 50 (link_code MSG_TX, 0, [1, 2]) sample_coproc)\<lparr>cp_parser := p\<rparr>"
    using cp_receive_msgs [OF p, of sample_chip sample_code 50] by (simp add: hs_read_def)
  show ?thesis unfolding hs_done_def e by (simp add: sample_run_simps)
qed

lemma remote_transmit_handshake_witness:
  "txqPeek (cp_radios hs_read ! 0) = Some [1, 2] \<and>
   link_txDone (rxTask_drain 300 (rm_link (fst hs_sent)) (cp_wire hs_done)) 0"
proof -
  let ?l = "ul_init\<lparr>ul_ready := True\<rparr>"
  have l: "ul_inv ?l" "rx_idle (ul_rx ?l)" "ul_ready ?l"
    using ul_inv_init rx_idle_init by (simp_all add: ul_inv_def ul_init_def)
  have start: "remote_startTransmit length [1, 2] \<lparr>rm_localRadio = int 0, rm_config = defaultConfig, rm_link = ?l, rm_wire = []\<rparr>
      = (fst hs_sent, snd hs_sent)" by (simp add: hs_sent_def hs_remote_def)
  have polls: "\<forall>ev \<in> set [Poll 100 id 0, Poll 200 wio_isr 0]. \<exists>t w j. ev = Poll t w j \<and> j < 2" by auto
  from remote_transmit_handshake [OF l _ _ sample_coproc_ok(1-6) start hs_read_def hs_done_def polls, of 300] hs_settled
  show ?thesis by (simp add: LORA_MAX_PACKET_def)
qed

end
