(* ===== verification/Boot.thy ===== *)
theory Boot
  imports Handshake
begin

text \<open>
  The start of the bridge and its main loop (\<open>setup\<close> and \<open>loop\<close> of \<open>src/src/main.cpp\<close>): whether
  the portal is entered, which radios come up and what happens when one does not, and the loop
  that configures the co-processor again whenever it announces itself. The pins and the
  diagnostic reads are in \<open>SetupPins\<close>, the composition of \<open>setup\<close> in \<open>HostStart\<close>; console lines are left out.
\<close>

section \<open>Bridge or portal\<close>

text \<open>
  The build role and the bench switch, the MAC address, and the polls of the boot window: the
  clock, whether the button is pressed, whether a serial byte waits.
\<close>

record boot_env =
  bt_camera :: bool
  bt_autosave :: bool
  bt_mac :: bytes
  bt_start :: u32
  bt_polls :: "(u32 \<times> bool \<times> bool) list"

datatype boot_path = Captive_portal | Bridge_mode

fun portal_window :: "u32 \<Rightarrow> (u32 \<times> bool \<times> bool) list \<Rightarrow> bool" where
  "portal_window windowEnd [] = False"
| "portal_window windowEnd ((now, button, serial) # ps) =
     (if windowEnd \<le> now then False else if button \<or> serial then True else portal_window windowEnd ps)"

definition boot_config :: "config_flags \<Rightarrow> bool \<Rightarrow> nvs_write \<Rightarrow> boot_env \<Rightarrow> config_state \<Rightarrow> config_state \<times> boot_path" where
  "boot_config fl opens w e s0 =
     (let s = bc_begin fl opens w s0;
          s = (if bc_configured (cs_cfg s) = 0 then s\<lparr>cs_cfg := deriveMacIdentity (bt_mac e) (cs_cfg s)\<rparr> else s);
          s = (if bt_autosave e \<and> bc_configured (cs_cfg s) = 0 then bc_save fl opens w s else s)
      in if bt_camera e then (if bc_configured (cs_cfg s) = 0 then bc_save fl opens w s else s, Bridge_mode)
         else if bc_configured (cs_cfg s) = 0 then (s, Captive_portal)
         else (s, if portal_window (bt_start e + 5000) (bt_polls e) then Captive_portal else Bridge_mode))"

section \<open>The radios\<close>

text \<open>
  The enabled flags, the two chips on the bus, the plans of the two remote radios, the link they
  share with the bytes written to it, the last generation of the co-processor the loop has
  configured, and the tasks started (radio and core).
\<close>

record 'c station =
  sn_enabled :: "bool list"
  sn_local :: "'c wio option list"
  sn_remote :: "lora_config option list"
  sn_link :: uart_link
  sn_wire :: bytes
  sn_lastReadyGen :: u32
  sn_tasks :: "(nat \<times> nat) list"

definition construct_radios :: "'c \<Rightarrow> 'c \<Rightarrow> bridge_cfg \<Rightarrow> uart_link \<Rightarrow> 'c station" where
  "construct_radios chip1 chip2 c l =
     (let on = map (\<lambda>i. rs_protocol (bc_slot c (int i)) \<noteq> PROTO_NONE) [0..<NR];
          r1 = wio_create 0 True (makeLoraConfig c 0) chip1;
          r2 = wio_create (if on ! 0 then fst r1 else 0) True (makeLoraConfig c 1) chip2;
          l = (if on ! 2 then rm_link (remote_create l 0 (makeLoraConfig c 2)) else l);
          l = (if on ! 3 then rm_link (remote_create l 1 (makeLoraConfig c 3)) else l)
      in \<lparr>sn_enabled = on,
          sn_local = [if on ! 0 then Some (snd r1) else None, if on ! 1 then Some (snd r2) else None],
          sn_remote = [if on ! 2 then Some (makeLoraConfig c 2) else None, if on ! 3 then Some (makeLoraConfig c 3) else None],
          sn_link = l, sn_wire = [], sn_lastReadyGen = 0, sn_tasks = []\<rparr>)"

definition on_local :: "('c wio \<Rightarrow> 'c wio \<times> bool) \<Rightarrow> nat \<Rightarrow> 'c station \<Rightarrow> 'c station \<times> bool" where
  "on_local f i s =
     (case sn_local s ! i of None \<Rightarrow> (s, True)
      | Some w \<Rightarrow> (case f w of (w2, ok) \<Rightarrow> (s\<lparr>sn_local := (sn_local s)[i := Some w2]\<rparr>, ok)))"

definition on_remote :: "(remote \<Rightarrow> remote \<times> bool) \<Rightarrow> nat \<Rightarrow> 'c station \<Rightarrow> 'c station \<times> bool" where
  "on_remote f j s =
     (case sn_remote s ! j of None \<Rightarrow> (s, False)
      | Some c \<Rightarrow> (case f \<lparr>rm_localRadio = int j, rm_config = c, rm_link = sn_link s, rm_wire = []\<rparr> of
          (r, ok) \<Rightarrow> (s\<lparr>sn_link := rm_link r, sn_wire := sn_wire s @ rm_wire r\<rparr>, ok)))"

text \<open>The remote radios' \<open>begin\<close>, for the enabled ones.\<close>

definition push_remotes :: "(bytes \<Rightarrow> nat) \<Rightarrow> 'c station \<Rightarrow> 'c station" where
  "push_remotes uw s =
     foldl (\<lambda>s i. if sn_enabled s ! i then fst (on_remote (remote_begin uw) (i - 2) s) else s) s [2..<NR]"

definition listen_on :: "'c sx1262 \<Rightarrow> (bytes \<Rightarrow> nat) \<Rightarrow> nat \<Rightarrow> 'c station \<Rightarrow> 'c station" where
  "listen_on X uw i s =
     (if \<not> sn_enabled s ! i then s
      else if i < 2 then fst (on_local (\<lambda>w. (wio_startReceive X w, True)) i s)
      else fst (on_remote (\<lambda>r. (remote_startReceive uw r, True)) (i - 2) s))"

text \<open>A radio on the board connector that does not answer stops the firmware; the edge radio is switched off.\<close>

definition bring_up :: "'c sx1262 \<Rightarrow> (bytes \<Rightarrow> nat) \<Rightarrow> 'c station \<Rightarrow> 'c station option" where
  "bring_up X uw s =
     (case (if sn_enabled s ! 0 then on_local (wio_begin X) 0 s else (s, True)) of
        (s, False) \<Rightarrow> None
      | (s, True) \<Rightarrow>
          (let s = (if sn_enabled s ! 1 then
                     (case on_local (wio_begin X) 1 s of
                        (s, True) \<Rightarrow> s
                      | (s, False) \<Rightarrow> s\<lparr>sn_enabled := (sn_enabled s)[1 := False]\<rparr>)
                    else s);
               s = push_remotes uw s;
               s = foldl (\<lambda>s i. listen_on X uw i s) s [0..<NR]
           in Some (s\<lparr>sn_tasks := map (\<lambda>i. (i, i mod 2)) (filter (\<lambda>i. sn_enabled s ! i) [0..<NR])\<rparr>)))"

section \<open>The main loop\<close>

text \<open>A new announcement of the co-processor makes the loop push the configuration again.\<close>

definition self_heal :: "(bytes \<Rightarrow> nat) \<Rightarrow> 'c station \<Rightarrow> 'c station" where
  "self_heal uw s =
     (let gen = ul_readyGen (sn_link s) in
      if gen = sn_lastReadyGen s then s else push_remotes uw (s\<lparr>sn_lastReadyGen := gen\<rparr>))"

text \<open>A key of the bench commander; other keys are ignored.\<close>

definition commander_key :: "(bytes \<Rightarrow> bytes \<Rightarrow> bytes) \<Rightarrow> c2_env \<Rightarrow> u32 \<Rightarrow> u8 \<Rightarrow> c2_state \<Rightarrow> c2_state" where
  "commander_key aes e peer c s =
     (if c = of_char CHR ''m'' then fst (sendMessage aes e 1 peer (str ''bench msg from commander'') s)
      else if c = of_char CHR ''s'' then fst (sendCommand aes e 1 peer CMD_START_CAPTURE [] s)
      else if c = of_char CHR ''r'' then fst (sendCommand aes e 1 peer CMD_RECORD [30, 0] s)
      else if c = of_char CHR ''x'' then fst (sendCommand aes e 1 peer CMD_STOP [] s)
      else if c = of_char CHR ''g'' then fst (sendCommand aes e 1 peer CMD_GET_STATUS [] s)
      else s)"

end
