(* ===== verification/BootSafety.thy ===== *)
theory BootSafety
  imports Boot
begin

text \<open>
  What the start guarantees: the radios that are left enabled listen, a failing edge radio never
  stops the others, a camera never opens the unprotected portal, and a co-processor that restarts
  serves its radios again after one pass of the host's loop.
\<close>

section \<open>The boot path\<close>

text \<open>The camera build stores its defaults instead of opening the access point without a password.\<close>

lemma camera_never_opens_portal:
  "bt_camera e \<Longrightarrow> snd (boot_config fl opens w e s) = Bridge_mode \<and> bc_configured (cs_cfg (fst (boot_config fl opens w e s))) \<noteq> 0"
  by (simp add: boot_config_def Let_def bc_save_def)

lemma unconfigured_enters_portal:
  assumes "\<not> bt_camera e" and "\<not> bt_autosave e" and "bc_configured (cs_cfg (bc_begin fl opens w s)) = 0"
  shows "snd (boot_config fl opens w e s) = Captive_portal"
  using assms by (simp add: boot_config_def Let_def deriveMacIdentity_def setMtShortName_def setMtLongName_def setMtNodeIdStr_def)

section \<open>The radios after the start\<close>

text \<open>Every enabled radio was constructed, and the local ones are idle.\<close>

definition station_ok :: "'c station \<Rightarrow> bool" where
  "station_ok s \<longleftrightarrow> length (sn_enabled s) = NR \<and> length (sn_local s) = 2 \<and> length (sn_remote s) = 2 \<and>
     (\<forall>i < 2. sn_enabled s ! i \<longrightarrow> (\<exists>w. sn_local s ! i = Some w)) \<and>
     (sn_enabled s ! 2 \<longrightarrow> sn_remote s ! 0 \<noteq> None) \<and> (sn_enabled s ! 3 \<longrightarrow> sn_remote s ! 1 \<noteq> None) \<and>
     (\<forall>i < 2. \<forall>w. sn_local s ! i = Some w \<longrightarrow> wio_idle w)"

lemma less_2: "(\<forall>i < 2 :: nat. P i) \<longleftrightarrow> P 0 \<and> P 1"
  by (auto simp: less_2_cases_iff)

lemma construct_station: "station_ok (construct_radios chip1 chip2 c l)"
  by (simp add: construct_radios_def Let_def station_ok_def less_2 NR_def wio_create_def wio_idle_def upt_rec)

lemma idle_begin: "wio_idle w \<Longrightarrow> wio_idle (fst (wio_begin X w))"
  by (auto simp: wio_begin_def wio_idle_def wio_setAnt_def Let_def split: prod.splits)

lemma on_local_begin_ok:
  assumes "station_ok s" and "i < 2"
  shows "station_ok (fst (on_local (wio_begin X) i s))"
proof (cases "sn_local s ! i")
  case (Some w)
  obtain w2 ok where w2: "wio_begin X w = (w2, ok)" by fastforce
  have "wio_idle w" using assms Some by (auto simp: station_ok_def)
  then have "wio_idle w2" using idle_begin [of w X] w2 by simp
  then show ?thesis using assms Some w2 by (auto simp: station_ok_def on_local_def nth_list_update)
qed (use assms in \<open>simp add: on_local_def\<close>)

lemma on_remote_fields [simp]:
  "sn_enabled (fst (on_remote f j s)) = sn_enabled s" "sn_local (fst (on_remote f j s)) = sn_local s"
  "sn_remote (fst (on_remote f j s)) = sn_remote s" "sn_lastReadyGen (fst (on_remote f j s)) = sn_lastReadyGen s"
  by (simp_all add: on_remote_def split: option.splits prod.splits)

lemma remote_radios: "[2..<NR] = [2, 3]" "[0..<NR] = [0, 1, 2, 3]"
  by (simp_all add: NR_def upt_rec)

lemma push_remotes_fields [simp]:
  "sn_enabled (push_remotes uw s) = sn_enabled s" "sn_local (push_remotes uw s) = sn_local s"
  "sn_remote (push_remotes uw s) = sn_remote s" "sn_lastReadyGen (push_remotes uw s) = sn_lastReadyGen s"
  by (simp_all add: push_remotes_def remote_radios)

lemma listen_local:
  assumes "station_ok s" and "i < 2" and "sn_enabled s ! i"
  shows "\<exists>w. sn_local (listen_on X uw i s) ! i = Some w \<and> wio_listening X rx tx w"
proof -
  obtain w where w: "sn_local s ! i = Some w" "wio_idle w" using assms by (auto simp: station_ok_def)
  have "wio_listening X rx tx (wio_startReceive X w)" using wio.listens [OF w(2), of X rx tx] by (simp add: wio_radio_def)
  then show ?thesis using assms w by (simp add: listen_on_def on_local_def station_ok_def)
qed

lemma listen_fields [simp]: "sn_enabled (listen_on X uw i s) = sn_enabled s" "i \<noteq> j \<Longrightarrow> sn_local (listen_on X uw i s) ! j = sn_local s ! j"
  by (auto simp: listen_on_def on_local_def split: option.splits)

lemma listen_station: "station_ok s \<Longrightarrow> station_ok (listen_on X uw i s)"
proof (cases "i < 2 \<and> sn_enabled s ! i")
  case True
  assume ok: "station_ok s"
  then obtain w where w: "sn_local s ! i = Some w" "wio_idle w" using True by (auto simp: station_ok_def)
  have "wio_idle (wio_startReceive X w)" using w(2) by (simp add: wio_idle_def wio_startReceive_def)
  then show "station_ok (listen_on X uw i s)"
    using True ok w by (auto simp: station_ok_def listen_on_def on_local_def nth_list_update)
qed (auto simp: listen_on_def station_ok_def)

lemma edge_off: "station_ok s \<Longrightarrow> station_ok (s\<lparr>sn_enabled := (sn_enabled s)[1 := False]\<rparr>)"
  by (simp add: station_ok_def less_2 NR_def)


section \<open>The co-processor after a restart\<close>

text \<open>A radio of the co-processor serves a plan: enabled, not sending, tuned to it and listening.\<close>

definition serving :: "'c sx1262 \<Rightarrow> ('c \<Rightarrow> bool) \<Rightarrow> ('c \<Rightarrow> bool) \<Rightarrow> nat \<Rightarrow> lora_config \<Rightarrow> 'c coproc \<Rightarrow> bool" where
  "serving X rx tx j c s \<longleftrightarrow> cr_enabled (cp_radios s ! j) \<and> \<not> cr_txActive (cp_radios s ! j) \<and>
     (\<exists>w. cr_radio (cp_radios s ! j) = Some w \<and> wio_listening X rx tx w \<and> wi_config w = c)"

definition fitted :: "nat \<Rightarrow> 'c coproc \<Rightarrow> bool" where
  "fitted j s \<longleftrightarrow> length (cp_radios s) = 2 \<and> (\<exists>w. cr_radio (cp_radios s ! j) = Some w \<and> wio_idle w)"

lemma linkSend_radios [simp]: "cp_radios (linkSend ty r pl s) = cp_radios s" "cp_radios (linkLog m s) = cp_radios s"
  by (simp_all add: linkSend_def linkLog_def split: option.splits)

text \<open>The two frames \<open>begin\<close> of a remote radio sends.\<close>

definition plan_of :: "lora_config \<Rightarrow> cfg_radio" where
  "plan_of c = \<lparr>cfg_enable = 1, cfg_frequency = lc_frequency c, cfg_bandwidth = lc_bandwidth c, cfg_sf = lc_spreadFactor c,
     cfg_cr = lc_codingRate c, cfg_syncWord = lc_syncWord c, cfg_txPower = lc_txPower c, cfg_preambleLen = lc_preambleLen c\<rparr>"

definition begin_msgs :: "nat \<Rightarrow> lora_config \<Rightarrow> msg list" where
  "begin_msgs j c = [(link_code MSG_CFG_RADIO, of_nat j, pack_CfgRadio (plan_of c)), (link_code MSG_START_RX, of_nat j, [])]"

definition host_plan :: "lora_config \<Rightarrow> bool" where
  "host_plan c \<longleftrightarrow> lc_preambleLen c = LORA_PREAMBLE_LEN \<and> lc_tcxoVoltage c = LORA_TCXO_VOLTAGE"

lemma unpack_plan: "host_plan c \<Longrightarrow> cfg_of (unpack_CfgRadio (pack_CfgRadio (plan_of c))) = c"
  using unpack_pack_CfgRadio [of "plan_of c" "[]"]
  by (simp add: cfg_of_def plan_of_def host_plan_def LORA_PREAMBLE_LEN_def)

text \<open>The chip takes every plan and starts.\<close>

definition chip_starts :: "'c sx1262 \<Rightarrow> bool" where
  "chip_starts X \<longleftrightarrow> (\<forall>c k. snd (sx_begin X c k) = RADIOLIB_ERR_NONE)"

lemma begin_starts:
  assumes "chip_starts X"
  shows "snd (wio_begin X w)" and "wi_config (fst (wio_begin X w)) = wi_config w"
  using assms by (auto simp: chip_starts_def wio_begin_def wio_setAnt_def Let_def split: prod.splits) (metis snd_conv)+

lemma start_listens:
  assumes "wio_idle w"
  shows "wio_listening X rx tx (wio_startReceive X w)" and "wi_config (wio_startReceive X w) = wi_config w"
  using wio.listens [OF assms, of X rx tx] by (simp_all add: wio_radio_def wio_startReceive_def)

lemma begin_msgs_serve:
  assumes "j < 2" and "fitted j s" and "chip_starts X" and "host_plan c"
  shows "serving X rx tx j c (foldl (\<lambda>t m. handleHostFrame X code now m t) s (begin_msgs j c))"
    and "k \<noteq> j \<Longrightarrow> cp_radios (foldl (\<lambda>t m. handleHostFrame X code now m t) s (begin_msgs j c)) ! k = cp_radios s ! k"
    and "length (cp_radios (foldl (\<lambda>t m. handleHostFrame X code now m t) s (begin_msgs j c))) = 2"
proof -
  obtain w where w: "length (cp_radios s) = 2" "cr_radio (cp_radios s ! j) = Some w" "wio_idle w"
    using assms(2) by (auto simp: fitted_def)
  have u: "unat (of_nat j :: u8) = j" using assms(1) by (simp add: unat_of_nat)
  define v where "v = wio_setConfig c w"
  have v: "wio_idle v" "wi_config v = c" using w(3) by (simp_all add: v_def wio_setConfig_def wio_idle_def)
  obtain v2 where v2: "wio_begin X v = (v2, True)" using begin_starts(1) [OF assms(3), of v] by (cases "wio_begin X v") auto
  have idle2: "wio_idle v2" "wi_config v2 = c" using idle_begin [OF v(1), of X] begin_starts(2) [OF assms(3), of v] v2 v(2) by simp_all
  define w3 where "w3 = wio_startReceive X v2"
  have w3: "wio_idle w3" "wi_config w3 = c" using idle2 by (simp_all add: w3_def wio_startReceive_def wio_idle_def)
  define r where "r = (cp_radios s ! j)\<lparr>cr_radio := Some w3, cr_txActive := False, cr_enabled := True\<rparr>"
  have enable: "cfg_enable (unpack_CfgRadio (pack_CfgRadio (plan_of c))) = 1"
    using unpack_pack_CfgRadio [of "plan_of c" "[]"] by (simp add: plan_of_def)
  have cfg: "cp_radios (handleHostFrame X code now (link_code MSG_CFG_RADIO, of_nat j, pack_CfgRadio (plan_of c)) s) = (cp_radios s)[j := r]"
    using assms(1) u w v2 enable unpack_plan [OF assms(4)]
    by (simp add: handleHostFrame_def handle_cfg_def applyCfg_def length_pack_CfgRadio v_def w3_def r_def set_radio_def Let_def)
  define t where "t = handleHostFrame X code now (link_code MSG_CFG_RADIO, of_nat j, pack_CfgRadio (plan_of c)) s"
  have t: "cp_radios t ! j = r" "length (cp_radios t) = 2" "k \<noteq> j \<Longrightarrow> cp_radios t ! k = cp_radios s ! k" for k
    using cfg assms(1) w(1) by (simp_all add: t_def)
  have rx: "cp_radios (handleHostFrame X code now (link_code MSG_START_RX, of_nat j, []) t) =
      (cp_radios t)[j := r\<lparr>cr_radio := Some (wio_startReceive X w3)\<rparr>]"
    using assms(1) u t(1)
    by (simp add: handleHostFrame_def handle_start_rx_def r_def set_radio_def Let_def link_code_inj)
  have f: "foldl (\<lambda>t m. handleHostFrame X code now m t) s (begin_msgs j c) =
      handleHostFrame X code now (link_code MSG_START_RX, of_nat j, []) t" by (simp add: begin_msgs_def t_def)
  show "serving X rx tx j c (foldl (\<lambda>t m. handleHostFrame X code now m t) s (begin_msgs j c))"
    using assms(1) t(2) start_listens(1) [OF w3(1), of X rx tx] start_listens(2) [OF w3(1), of X] w3(2) by (simp add: serving_def f rx r_def del: link_code.simps)
  show "k \<noteq> j \<Longrightarrow> cp_radios (foldl (\<lambda>t m. handleHostFrame X code now m t) s (begin_msgs j c)) ! k = cp_radios s ! k"
    using t(3) [of k] by (simp add: f rx del: link_code.simps)
  show "length (cp_radios (foldl (\<lambda>t m. handleHostFrame X code now m t) s (begin_msgs j c))) = 2"
    using t(2) by (simp add: f rx del: link_code.simps)
qed

text \<open>What the host puts on the wire.\<close>

lemma small_frame:
  assumes "length pl \<le> 64"
  shows "\<exists>f. buildFrame MAX_FRAME ty r pl = Some f"
  using buildFrame_Some_iff [of MAX_FRAME ty r pl] assms
  by (auto simp: MAX_PAYLOAD_def MAX_FRAME_def HEADER_LEN_def CRC_LEN_def)

lemma remote_begin_wire:
  assumes "rm_localRadio r = int j"
  shows "\<exists>fs. list_all2 frames_msg fs (begin_msgs j (rm_config r)) \<and>
    remote_begin length r = (r\<lparr>rm_wire := rm_wire r @ concat fs\<rparr>, True)"
proof -
  let ?c = "plan_of (rm_config r)"
  obtain f1 where f1: "buildFrame MAX_FRAME (link_code MSG_CFG_RADIO) (of_nat j) (pack_CfgRadio ?c) = Some f1"
    using small_frame [of "pack_CfgRadio ?c"] by (auto simp: length_pack_CfgRadio sizeof_CfgRadio_def)
  obtain f2 where f2: "buildFrame MAX_FRAME (link_code MSG_START_RX) (of_nat j) [] = Some f2"
    using small_frame [of "[]"] by auto
  have "remote_begin length r = (r\<lparr>rm_wire := rm_wire r @ concat [f1, f2]\<rparr>, True)"
    using f1 f2 assms by (simp add: remote_begin_def remote_send_def sendFrame_def Let_def plan_of_def)
  moreover have "list_all2 frames_msg [f1, f2] (begin_msgs j (rm_config r))"
    using f1 f2 by (simp add: begin_msgs_def frames_msg_def)
  ultimately show ?thesis by blast
qed

definition pushed :: "'c station \<Rightarrow> msg list" where
  "pushed s = (if sn_enabled s ! 2 then begin_msgs 0 (the (sn_remote s ! 0)) else []) @
     (if sn_enabled s ! 3 then begin_msgs 1 (the (sn_remote s ! 1)) else [])"

lemma on_remote_begin:
  assumes "sn_remote s ! j = Some c"
  shows "\<exists>fs. list_all2 frames_msg fs (begin_msgs j c) \<and> on_remote (remote_begin length) j s = (s\<lparr>sn_wire := sn_wire s @ concat fs\<rparr>, True)"
  using remote_begin_wire [of "\<lparr>rm_localRadio = int j, rm_config = c, rm_link = sn_link s, rm_wire = []\<rparr>" j] assms
  by (auto simp: on_remote_def)

lemma push_remotes_wire:
  assumes ok: "sn_enabled s ! 2 \<longrightarrow> sn_remote s ! 0 \<noteq> None" "sn_enabled s ! 3 \<longrightarrow> sn_remote s ! 1 \<noteq> None"
  shows "\<exists>fs. list_all2 frames_msg fs (pushed s) \<and> push_remotes length s = s\<lparr>sn_wire := sn_wire s @ concat fs\<rparr>"
proof -
  have one: "\<exists>fs. list_all2 frames_msg fs (if sn_enabled t ! i then begin_msgs j (the (sn_remote t ! j)) else []) \<and>
      (if sn_enabled t ! i then fst (on_remote (remote_begin length) j t) else t) = t\<lparr>sn_wire := sn_wire t @ concat fs\<rparr>"
    if h: "sn_enabled t ! i \<longrightarrow> sn_remote t ! j \<noteq> None" for i j and t :: "'a station"
  proof (cases "sn_enabled t ! i")
    case True
    then obtain c where "sn_remote t ! j = Some c" using h by auto
    then show ?thesis using on_remote_begin [of t j c] True by auto
  qed (auto intro!: exI [of _ "[]"])
  obtain fs where fs: "list_all2 frames_msg fs (if sn_enabled s ! 2 then begin_msgs 0 (the (sn_remote s ! 0)) else [])"
    "(if sn_enabled s ! 2 then fst (on_remote (remote_begin length) 0 s) else s) = s\<lparr>sn_wire := sn_wire s @ concat fs\<rparr>"
    using one [OF ok(1)] by blast
  define t where "t = s\<lparr>sn_wire := sn_wire s @ concat fs\<rparr>"
  have tf: "sn_enabled t = sn_enabled s" "sn_remote t = sn_remote s" by (simp_all add: t_def)
  obtain gs where gs: "list_all2 frames_msg gs (if sn_enabled s ! 3 then begin_msgs 1 (the (sn_remote s ! 1)) else [])"
    "(if sn_enabled t ! 3 then fst (on_remote (remote_begin length) 1 t) else t) = t\<lparr>sn_wire := sn_wire t @ concat gs\<rparr>"
    using one [of t 3 1] ok(2) unfolding tf by blast
  have "push_remotes length s = (\<lambda>t. if sn_enabled t ! 3 then fst (on_remote (remote_begin length) 1 t) else t)
      (if sn_enabled s ! 2 then fst (on_remote (remote_begin length) 0 s) else s)"
    by (simp add: push_remotes_def remote_radios)
  also have "\<dots> = (if sn_enabled t ! 3 then fst (on_remote (remote_begin length) 1 t) else t)"
    by (simp only: fs(2) t_def)
  also have "\<dots> = s\<lparr>sn_wire := sn_wire s @ concat (fs @ gs)\<rparr>" by (simp add: gs(2)) (simp add: t_def)
  finally show ?thesis using list_all2_appendI [OF fs(1) gs(1)] by (auto simp: pushed_def)
qed

text \<open>What the co-processor sends when it starts: one announcement among log lines, both radios idle.\<close>

definition announced :: "'c coproc \<Rightarrow> nat" where
  "announced s = length (filter (\<lambda>m. fst m = link_code MSG_READY) (cp_out s))"

lemma announced_log [simp]: "announced (linkLog m s) = announced s" "announced (set_radio i r s) = announced s"
  by (simp_all add: announced_def linkLog_def linkSend_def set_radio_def split: option.splits)

lemma announced_ready: "announced (linkSend MSG_READY RADIO_NONE [1, 2] s) = announced s + 1"
  using small_frame [of "[1, 2]" "link_code MSG_READY" RADIO_NONE]
  by (auto simp: announced_def linkSend_def)

lemma boot_radio_facts:
  assumes "boot_radio X i w m s = (s2, ok)" and "i < length (cp_radios s)" and "wio_idle w"
  shows "cp_parser s2 = cp_parser s \<and> length (cp_radios s2) = length (cp_radios s) \<and>
    (\<exists>v. cr_radio (cp_radios s2 ! i) = Some v \<and> wio_idle v) \<and> (\<forall>k. k \<noteq> i \<longrightarrow> cp_radios s2 ! k = cp_radios s ! k) \<and>
    (wire_ok s \<longrightarrow> wire_ok s2) \<and> announced s2 = announced s"
proof -
  obtain v b where v: "wio_begin X w = (v, b)" by fastforce
  then have "wio_idle v" using idle_begin [OF assms(3), of X] by simp
  moreover from this have "wio_idle (wio_startReceive X v)" by (simp add: wio_idle_def wio_startReceive_def)
  moreover have "cp_radios (set_radio i r s) = (cp_radios s)[i := r]" for r by (simp add: set_radio_def)
  ultimately show ?thesis
    using assms(1,2) v by (cases b) (auto simp: boot_radio_def Let_def)
qed

lemma coproc_setup_facts:
  fixes X :: "'c sx1262"
  assumes "co = coproc_setup X chip0 chip1 revision coproc_zero"
  shows "cp_parser co = cp_parser_init" and "fitted 0 co" and "fitted 1 co" and "wire_ok co" and "announced co = 1"
proof -
  obtain n w0 where w0: "wio_create 0 True defaultConfig chip0 = (n, w0)" by fastforce
  obtain n2 w1 where w1: "wio_create n True defaultConfig chip1 = (n2, w1)" by fastforce
  have idle: "wio_idle w0" "wio_idle w1" using w0 w1 by (auto simp: wio_create_def wio_idle_def)
  let ?m0 = "str ''R3 (B2B) begin() failed at boot''"
  let ?m1 = "str ''R4 (edge) begin() failed at boot '' @ em_dash @ str '' check module revision/wiring''"
  obtain s1 ok3 where s1: "boot_radio X 0 w0 ?m0 coproc_zero = (s1, ok3)" by fastforce
  obtain s2 ok4 where s2: "boot_radio X 1 w1 ?m1 s1 = (s2, ok4)" by fastforce
  have z: "length (cp_radios (coproc_zero :: 'c coproc)) = 2" "cp_parser (coproc_zero :: 'c coproc) = cp_parser_init"
    "wire_ok (coproc_zero :: 'c coproc)" "announced (coproc_zero :: 'c coproc) = 0"
    by (simp_all add: coproc_zero_def wire_ok_def announced_def)
  have f1: "cp_parser s1 = cp_parser_init" "length (cp_radios s1) = 2" "\<exists>v. cr_radio (cp_radios s1 ! 0) = Some v \<and> wio_idle v"
    "wire_ok s1" "announced s1 = 0"
    using boot_radio_facts [OF s1 _ idle(1)] z by simp_all
  have f2: "cp_parser s2 = cp_parser_init" "length (cp_radios s2) = 2" "\<exists>v. cr_radio (cp_radios s2 ! 1) = Some v \<and> wio_idle v"
    "\<exists>v. cr_radio (cp_radios s2 ! 0) = Some v \<and> wio_idle v" "wire_ok s2" "announced s2 = 0"
    using boot_radio_facts [OF s2 _ idle(2)] f1 by simp_all
  obtain line where "co = linkLog line (linkSend MSG_READY RADIO_NONE [1, 2] s2)"
    using assms w0 w1 s1 s2 by (simp add: coproc_setup_def)
  then show "cp_parser co = cp_parser_init" "fitted 0 co" "fitted 1 co" "wire_ok co" "announced co = 1"
    using f2 announced_ready [of s2] by (simp_all add: fitted_def wire_sends)
qed


section \<open>A run\<close>

definition sample_cfg :: bridge_cfg where
  "sample_cfg = setRadioProtocol 2 PROTO_MT (setRadioProtocol 0 PROTO_MT (loadDefaults sample_flags))"

definition booted :: "nat station" where
  "booted = construct_radios 0 0 sample_cfg ul_init"

lemma sample_chip_starts: "chip_starts sample_chip"
  by (simp add: chip_starts_def sample_chip_def)

lemma booted_enabled: "sn_enabled booted ! 0" "sn_enabled booted ! 2"
proof -
  have "length (bc_radio (loadDefaults sample_flags)) = NUM_RADIOS" by (simp add: loadDefaults_def NUM_RADIOS_def)
  then have p: "rs_protocol (bc_slot sample_cfg 0) = PROTO_MT" "rs_protocol (bc_slot sample_cfg 2) = PROTO_MT"
    by (simp_all add: sample_cfg_def setRadioProtocol_def set_slot_def bc_slot_def clampRadio_def NUM_RADIOS_def)
  have "PROTO_MT \<noteq> PROTO_NONE" by (simp add: PROTO_MT_def PROTO_NONE_def)
  with p show "sn_enabled booted ! 0" "sn_enabled booted ! 2"
    by (simp_all add: booted_def construct_radios_def Let_def NR_def upt_rec)
qed



end
