(* ===== verification/BuildFlags.thy ===== *)
theory BuildFlags
  imports PortalSafety
begin

text \<open>
  The build flags: the defaults \<open>src/src/BridgeConfig.cpp\<close> gives to the flags a build leaves out,
  and the compile-time checks of \<open>src/src/LoraConfigCheck.h\<close>. A build that compiles starts with
  legal plans on the two local radios.
\<close>

section \<open>The flags of a radio\<close>

text \<open>The \<open>LORA_RADIO<n>_*\<close> macros a build defines, before the casts to the machine types.\<close>

record radio_macros =
  rm_sync_word :: "int option"
  rm_frequency :: "u32 option"
  rm_bandwidth :: "u32 option"
  rm_spread_factor :: "int option"
  rm_coding_rate :: "int option"
  rm_tx_power :: "int option"
  rm_enable :: bool
  rm_disable :: bool
  rm_channel_name :: "bytes option"
  rm_channel_key :: "bytes option"
  rm_route_mask :: "int option"

text \<open>Radios 1 and 3 default to the Meshtastic plan, radios 2 and 4 to the MeshCore one.\<close>

definition default_sync :: "nat \<Rightarrow> int" where
  "default_sync n = (if odd n then 0x2B else 0x12)"

definition default_frequency :: "nat \<Rightarrow> u32" where
  "default_frequency n = f32_bits (if odd n then f32_lit 906875 1000 else f32_lit 910525 1000)"

definition radio_defaults :: "nat \<Rightarrow> radio_macros \<Rightarrow> radio_flags" where
  "radio_defaults n m =
     \<lparr>rf_sync = word_of_int (case rm_sync_word m of None \<Rightarrow> default_sync n | Some v \<Rightarrow> v),
      rf_freq = (case rm_frequency m of None \<Rightarrow> default_frequency n | Some v \<Rightarrow> v),
      rf_bw = (case rm_bandwidth m of None \<Rightarrow> f32_bits (f32_lit 250 1) | Some v \<Rightarrow> v),
      rf_sf = word_of_int (case rm_spread_factor m of None \<Rightarrow> 11 | Some v \<Rightarrow> v),
      rf_cr = word_of_int (case rm_coding_rate m of None \<Rightarrow> 5 | Some v \<Rightarrow> v),
      rf_txp = word_of_int (case rm_tx_power m of None \<Rightarrow> 20 | Some v \<Rightarrow> v),
      rf_enable = rm_enable m, rf_disable = rm_disable m,
      rf_channelName = rm_channel_name m, rf_channelKey = rm_channel_key m,
      rf_routeMask = map_option word_of_int (rm_route_mask m)\<rparr>"

text \<open>The \<open>BRIDGE_*\<close> macros.\<close>

record bridge_macros =
  bm_node_id :: "u32 option"
  bm_node_id_str :: "bytes option"
  bm_long_name :: "bytes option"
  bm_short_name :: "bytes option"
  bm_mc_key_hex :: "bytes option"
  bm_mc_channel_name :: "bytes option"
  bm_mt_channel_name :: "bytes option"
  bm_mt_psk :: "bytes option"
  bm_position :: "bool option"
  bm_telemetry :: "bool option"
  bm_region :: "int option"

definition or_else :: "'a option \<Rightarrow> 'a \<Rightarrow> 'a" where
  "or_else x d = (case x of None \<Rightarrow> d | Some v \<Rightarrow> v)"

definition config_defaults ::
  "bridge_macros \<Rightarrow> radio_macros \<Rightarrow> radio_macros \<Rightarrow> radio_macros \<Rightarrow> radio_macros \<Rightarrow> config_flags" where
  "config_defaults b m1 m2 m3 m4 =
     \<lparr>cf_nodeId = or_else (bm_node_id b) 0xB16B00B5,
      cf_nodeIdStr = or_else (bm_node_id_str b) (str ''!b16b00b5''),
      cf_longName = or_else (bm_long_name b) (str ''LoRa Bridge''),
      cf_shortName = or_else (bm_short_name b) (str ''BR''),
      cf_mcKeyHex = or_else (bm_mc_key_hex b) (str ''8b3387e9c5cdea6ac9e5edbaa115cd72''),
      cf_mcName = or_else (bm_mc_channel_name b) (str ''public''),
      cf_mtName = or_else (bm_mt_channel_name b) (str ''LongFast''),
      cf_mtPsk = or_else (bm_mt_psk b) [],
      cf_position = or_else (bm_position b) True,
      cf_telemetry = or_else (bm_telemetry b) True,
      cf_region = word_of_int (or_else (bm_region b) 0),
      cf_radio1 = radio_defaults 1 m1, cf_radio2 = radio_defaults 2 m2,
      cf_radio3 = radio_defaults 3 m3, cf_radio4 = radio_defaults 4 m4\<rparr>"

section \<open>The compile-time checks\<close>

definition f_eq :: "fval \<Rightarrow> fval \<Rightarrow> bool" where
  "f_eq x y \<longleftrightarrow> f_le x y \<and> f_le y x"

definition LORA_CHK_VALID_BW :: "fval \<Rightarrow> bool" where
  "LORA_CHK_VALID_BW x = list_ex (f_eq x) ALLOWED_BW"

definition defined_ok :: "('a \<Rightarrow> bool) \<Rightarrow> 'a option \<Rightarrow> bool" where
  "defined_ok P x = (case x of None \<Rightarrow> True | Some v \<Rightarrow> P v)"

definition radio_assertions :: "radio_macros \<Rightarrow> bool" where
  "radio_assertions m \<longleftrightarrow>
     defined_ok (\<lambda>v. f_le (f32_lit 150 1) (f32_of_bits v) \<and> f_le (f32_of_bits v) (f32_lit 960 1)) (rm_frequency m) \<and>
     defined_ok (\<lambda>v. LORA_CHK_VALID_BW (f32_of_bits v)) (rm_bandwidth m) \<and>
     defined_ok (\<lambda>v. 5 \<le> v \<and> v \<le> 12) (rm_spread_factor m) \<and>
     defined_ok (\<lambda>v. 5 \<le> v \<and> v \<le> 8) (rm_coding_rate m) \<and>
     defined_ok (\<lambda>v. 0 \<le> v \<and> v \<le> 0xFF) (rm_sync_word m) \<and>
     defined_ok (\<lambda>v. -9 \<le> v \<and> v \<le> 22) (rm_tx_power m)"

text \<open>The header asserts the flags of the radios 1 and 2.\<close>

definition LoraConfigCheck :: "radio_macros \<Rightarrow> radio_macros \<Rightarrow> radio_macros \<Rightarrow> radio_macros \<Rightarrow> bool" where
  "LoraConfigCheck m1 m2 m3 m4 \<longleftrightarrow> radio_assertions m1 \<and> radio_assertions m2"

section \<open>What a build that compiles starts with\<close>

lemma f_eq_sub:
  assumes "f_eq x y" and "finite_f y"
  shows "\<exists>b. f32_sub x y = Fin b 0 (-149)"
proof -
  obtain t n f where y: "y = Fin t n f" using assms(2) by (rule finite_fE)
  show ?thesis
  proof (cases x)
    case (Fin s m e)
    define k where "k = min e f"
    have kk: "min f e = k" "min e f = k" by (simp_all add: k_def)
    have "signed s m * 2 ^ nat (e - k) = signed t n * 2 ^ nat (f - k)"
      using assms(1) by (simp add: f_eq_def f_le_def Fin y Let_def kk)
    then have "signed s m * 2 ^ nat (e - k) + signed (\<not> t) n * 2 ^ nat (f - k) = 0" by (simp add: signed_def split: if_splits)
    then show ?thesis
      by (simp add: f32_sub_def f_neg_def f32_add_def Fin y Let_def kk pow_ratio_def round_f32_def round_to_def)
  qed (use assms(1) in \<open>auto simp: f_eq_def f_le_def y split: if_splits\<close>)
qed

lemma finite_ALLOWED_BW: "v \<in> set ALLOWED_BW \<Longrightarrow> finite_f v"
  by (auto simp: ALLOWED_BW_code finite_f_def)

lemma checked_bandwidth:
  assumes "LORA_CHK_VALID_BW x"
  shows "bwAllowed x"
proof -
  obtain v where v: "v \<in> set ALLOWED_BW" "f_eq x v" using assms by (auto simp: LORA_CHK_VALID_BW_def list_ex_iff)
  obtain b where "f32_sub x v = Fin b 0 (-149)" using f_eq_sub [OF v(2) finite_ALLOWED_BW [OF v(1)]] by blast
  moreover have "f_less (f_abs (Fin b 0 (-149))) (f32_lit 5 100)" by (cases b; code_simp)
  ultimately show ?thesis using v(1) unfolding bwAllowed_def list_ex_iff by (intro bexI [of _ v]) simp_all
qed

lemma checked_frequency: "f_le (f32_lit 150 1) x \<and> f_le x (f32_lit 960 1) \<Longrightarrow> \<not> freq_out_of_range x"
  by (simp add: freq_out_of_range_def f_less_def SX1262_FREQ_MIN_def SX1262_FREQ_MAX_def)

lemma default_plan_checked:
  "\<not> freq_out_of_range (f32_of_bits (default_frequency n))" "bwAllowed (f32_of_bits (f32_bits (f32_lit 250 1)))"
  unfolding default_frequency_def by (cases "odd n"; simp; code_simp) code_simp

text \<open>The value a flag has after the default.\<close>

lemma word_range:
  assumes "defined_ok (\<lambda>v. lo \<le> v \<and> v \<le> hi) x" and "lo \<le> d" and "d \<le> hi"
  shows "lo \<le> (case x of None \<Rightarrow> d | Some v \<Rightarrow> v) \<and> (case x of None \<Rightarrow> d | Some v \<Rightarrow> v) \<le> hi"
  using assms by (auto simp: defined_ok_def split: option.splits)

lemma uint_small: "0 \<le> v \<Longrightarrow> v \<le> 255 \<Longrightarrow> uint (word_of_int v :: u8) = v"
  by (simp add: uint_word_of_int)

lemma sint_small: "-9 \<le> v \<Longrightarrow> v \<le> 22 \<Longrightarrow> sint (word_of_int v :: u8) = v"
  by (simp add: signed_of_int signed_take_bit_int_eq_self)

lemma byte_between: "lo \<le> v \<Longrightarrow> v \<le> hi \<Longrightarrow> 0 \<le> lo \<Longrightarrow> hi \<le> 255 \<Longrightarrow>
    word_of_int lo \<le> (word_of_int v :: u8) \<and> (word_of_int v :: u8) \<le> word_of_int hi"
  by (simp add: word_le_def uint_small)

definition seeded_legal :: "radio_flags \<Rightarrow> bool" where
  "seeded_legal f \<longleftrightarrow> \<not> freq_out_of_range (f32_of_bits (rf_freq f)) \<and> bwAllowed (f32_of_bits (rf_bw f)) \<and>
     5 \<le> rf_sf f \<and> rf_sf f \<le> 12 \<and> 5 \<le> rf_cr f \<and> rf_cr f \<le> 8 \<and> -9 \<le> sint (rf_txp f) \<and> sint (rf_txp f) \<le> 22"

lemma asserted_radio_legal:
  assumes "radio_assertions m"
  shows "seeded_legal (radio_defaults n m)"
proof -
  have sf: "5 \<le> rf_sf (radio_defaults n m) \<and> rf_sf (radio_defaults n m) \<le> 12"
    using word_range [of 5 12 "rm_spread_factor m" 11] byte_between [of 5 "case rm_spread_factor m of None \<Rightarrow> 11 | Some v \<Rightarrow> v" 12] assms
    by (simp add: radio_assertions_def radio_defaults_def)
  have cr: "5 \<le> rf_cr (radio_defaults n m) \<and> rf_cr (radio_defaults n m) \<le> 8"
    using word_range [of 5 8 "rm_coding_rate m" 5] byte_between [of 5 "case rm_coding_rate m of None \<Rightarrow> 5 | Some v \<Rightarrow> v" 8] assms
    by (simp add: radio_assertions_def radio_defaults_def)
  have tx: "-9 \<le> sint (rf_txp (radio_defaults n m)) \<and> sint (rf_txp (radio_defaults n m)) \<le> 22"
    using assms word_range [of "-9" 22 "rm_tx_power m" 20] by (simp add: radio_assertions_def radio_defaults_def sint_small)
  have "\<not> freq_out_of_range (f32_of_bits (rf_freq (radio_defaults n m)))"
    using assms default_plan_checked(1) by (auto simp: radio_assertions_def radio_defaults_def defined_ok_def checked_frequency split: option.splits)
  moreover have "bwAllowed (f32_of_bits (rf_bw (radio_defaults n m)))"
    using assms default_plan_checked(2) by (auto simp: radio_assertions_def radio_defaults_def defined_ok_def checked_bandwidth split: option.splits)
  ultimately show ?thesis using sf cr tx by (simp add: seeded_legal_def)
qed

text \<open>The first configuration of a build that compiles: its local radios are off or legal for the chip.\<close>

theorem checked_defaults_legal:
  assumes "LoraConfigCheck m1 m2 m3 m4" and "i < 2"
  shows "let r = bc_slot (loadDefaults (config_defaults b m1 m2 m3 m4)) (int i) in
    rs_protocol r = PROTO_NONE \<or>
      rs_protocol r = protocolFromSync (rs_syncWord r) \<and> sync_legal r \<and> plan_legal r \<and>
      -9 \<le> sint (rs_txPower r) \<and> sint (rs_txPower r) \<le> 22"
proof -
  have l: "seeded_legal (radio_defaults 1 m1)" "seeded_legal (radio_defaults 2 m2)"
    using assms(1) asserted_radio_legal by (simp_all add: LoraConfigCheck_def)
  have one: "let r = override_radio f route (seedRadio fl f (local_protocol f)) in rs_protocol r = PROTO_NONE \<or>
      rs_protocol r = protocolFromSync (rs_syncWord r) \<and> sync_legal r \<and> plan_legal r \<and>
      -9 \<le> sint (rs_txPower r) \<and> sint (rs_txPower r) \<le> 22"
    if "seeded_legal f" for f route fl
    using that by (auto simp: seeded_legal_def override_radio_def seedRadio_def local_protocol_def plan_legal_def sync_legal_def
        protocolFromSync_def PROTO_NONE_def PROTO_MT_def PROTO_MC_def PROTO_RNS_def PROTO_LORAWAN_def PROTO_CUSTOM_def)
  consider "i = 0" | "i = 1" using assms(2) by linarith
  then show ?thesis
    by cases (use one [OF l(1)] one [OF l(2)] in
      \<open>simp_all add: bc_slot_def clampRadio_def loadDefaults_def config_defaults_def NUM_RADIOS_def\<close>)
qed

text \<open>The flags of the radios 3 and 4 are not asserted: an impossible spreading factor compiles.\<close>

definition no_macros :: radio_macros where
  "no_macros = \<lparr>rm_sync_word = None, rm_frequency = None, rm_bandwidth = None, rm_spread_factor = None,
     rm_coding_rate = None, rm_tx_power = None, rm_enable = False, rm_disable = False, rm_channel_name = None,
     rm_channel_key = None, rm_route_mask = None\<rparr>"

lemma remote_flags_unchecked:
  "let m3 = no_macros\<lparr>rm_spread_factor := Some 99, rm_enable := True\<rparr>;
       r = bc_slot (loadDefaults (config_defaults b no_macros no_macros m3 no_macros)) 2
   in LoraConfigCheck no_macros no_macros m3 no_macros \<and> rs_protocol r = PROTO_MT \<and> \<not> plan_legal r"
  by (simp add: LoraConfigCheck_def radio_assertions_def defined_ok_def no_macros_def bc_slot_def clampRadio_def
      loadDefaults_def config_defaults_def NUM_RADIOS_def override_radio_def seedRadio_def remote_protocol_def
      radio_defaults_def default_sync_def protocolFromSync_def plan_legal_def)

end
