(* ===== verification/BenchFrames.thy ===== *)
theory BenchFrames
  imports Handshake Portal
begin

text \<open>
  The test-frame generator of the bench (\<open>src/tools/lw-frame-gen/src/main.cpp\<close>), a second firmware
  that sends hand-built LoRaWAN frames to a bridge: its frames, its loop, and what the decoder and
  the uplink encoder of the bridge make of every frame. The chip is the RadioLib
  object of the radio driver; console lines are left out.
\<close>

section \<open>The frames\<close>

definition FRAME_U :: bytes where
  "FRAME_U = [0x40, 0x8A, 0x1F, 0x01, 0x26, 0x00, 0x01, 0x00, 0x02, 0xAA, 0xBB, 0x11, 0x22, 0x33, 0x44]"

definition FRAME_U2 :: bytes where
  "FRAME_U2 = [0x40, 0x8A, 0x1F, 0x01, 0x26, 0x00, 0x02, 0x00, 0x02, 0xAA, 0xBB, 0x11, 0x22, 0x33, 0x44]"

definition FRAME_D :: bytes where
  "FRAME_D = [0x80, 0x8A, 0x1F, 0x01, 0x26, 0x00, 0x07, 0x00, 0x99, 0x88, 0x77, 0x66]"

definition FRAME_J :: bytes where
  "FRAME_J = [0x00, 0x01, 0x00, 0x00, 0x00, 0x00, 0x00, 0x00, 0x00, 0x3C, 0x2B, 0x1A, 0x00, 0x0B, 0xA3, 0x04, 0x00,
     0x55, 0x66, 0xDE, 0xAD, 0xBE, 0xEF]"

definition FRAME_C :: bytes where
  "FRAME_C = [0x40, 0x8A, 0x1F, 0x01, 0x26, 0x00, 0x01, 0x00, 0x02, 0x99, 0x88]"

text \<open>Filled in \<open>setup\<close>.\<close>

definition FRAME_OVERSIZE :: bytes where
  "FRAME_OVERSIZE = map (\<lambda>i. of_char CHR ''A'' + of_nat (i mod 26)) [0..<250]"

definition FRAMES :: "bytes list" where
  "FRAMES = [FRAME_U, FRAME_U2, FRAME_D, FRAME_J, FRAME_C, FRAME_OVERSIZE]"

definition NFRAMES :: nat where "NFRAMES = length FRAMES"

section \<open>The generator\<close>

text \<open>
  The index of the cycle, the last level of the button, the time of the last automatic frame, the
  antenna switch, the chip, and what went on air with the level of the switch.
\<close>

record 'c gen =
  gn_idx :: nat
  gn_prev :: bool
  gn_last :: u32
  gn_ant :: bool
  gn_chip :: 'c
  gn_air :: "(bool \<times> bytes) list"

definition gen_sendFrame :: "'c sx1262 \<Rightarrow> nat \<Rightarrow> 'c gen \<Rightarrow> 'c gen" where
  "gen_sendFrame X i s =
     (let s = s\<lparr>gn_ant := True\<rparr>;
          s = s\<lparr>gn_chip := fst (sx_transmit X (FRAMES ! i) (gn_chip s)), gn_air := gn_air s @ [(gn_ant s, FRAMES ! i)]\<rparr>
      in s\<lparr>gn_ant := False\<rparr>)"

text \<open>The plan the generator sends on, when no build flag overrides it.\<close>

definition gen_plan :: lora_config where
  "gen_plan = \<lparr>lc_frequency = f32_bits (f32_lit 9046 10), lc_bandwidth = f32_bits (f32_lit 125 1), lc_spreadFactor = 7,
     lc_codingRate = 5, lc_syncWord = 0x34, lc_txPower = 20, lc_preambleLen = 8,
     lc_tcxoVoltage = f32_bits (f32_lit 18 10)\<rparr>"

text \<open>\<open>setup\<close>: a chip that does not start halts the generator.\<close>

definition gen_setup :: "'c sx1262 \<Rightarrow> lora_config \<Rightarrow> 'c \<Rightarrow> 'c gen option" where
  "gen_setup X plan c =
     (case sx_begin X plan c of (c2, st) \<Rightarrow>
        if st \<noteq> RADIOLIB_ERR_NONE then None
        else Some \<lparr>gn_idx = 0, gn_prev = True, gn_last = 0, gn_ant = False, gn_chip = sx_setDio2AsRfSwitch X c2, gn_air = []\<rparr>)"

definition next_frame :: "'c sx1262 \<Rightarrow> 'c gen \<Rightarrow> 'c gen" where
  "next_frame X s = (let i = (gn_idx s + 1) mod NFRAMES in gen_sendFrame X i (s\<lparr>gn_idx := i\<rparr>))"

record gen_input =
  gi_serial :: "u8 option"
  gi_button :: bool
  gi_now :: u32

definition on_key :: "'c sx1262 \<Rightarrow> u8 \<Rightarrow> 'c gen \<Rightarrow> 'c gen" where
  "on_key X c s =
     (if of_char CHR ''1'' \<le> c \<and> c \<le> of_char CHR ''6'' then
        (let i = unat c - unat (of_char CHR ''1'' :: u8) in gen_sendFrame X i (s\<lparr>gn_idx := i\<rparr>))
      else if c = of_char CHR ''n'' \<or> c = of_char CHR ''N'' then next_frame X s
      else s)"

text \<open>One pass of \<open>loop\<close>; \<open>autoMs = 0\<close> switches the automatic cycle off.\<close>

definition gen_loop :: "'c sx1262 \<Rightarrow> u32 \<Rightarrow> gen_input \<Rightarrow> 'c gen \<Rightarrow> 'c gen" where
  "gen_loop X autoMs inp s =
     (let s = (case gi_serial inp of None \<Rightarrow> s | Some c \<Rightarrow> on_key X c s);
          s = (if gn_prev s \<and> \<not> gi_button inp then next_frame X s else s);
          s = s\<lparr>gn_prev := gi_button inp\<rparr>
      in if autoMs \<noteq> 0 \<and> autoMs \<le> gi_now inp - gn_last s then next_frame X (s\<lparr>gn_last := gi_now inp\<rparr>) else s)"

section \<open>What goes on air\<close>

definition gen_ok :: "'c gen \<Rightarrow> bool" where
  "gen_ok s \<longleftrightarrow> gn_idx s < NFRAMES \<and> \<not> gn_ant s \<and> (\<forall>x \<in> set (gn_air s). fst x \<and> snd x \<in> set FRAMES)"

lemma NFRAMES_6: "NFRAMES = 6" "length FRAMES = 6"
  by (simp_all add: NFRAMES_def FRAMES_def)

lemma gen_sendFrame_ok: "i < NFRAMES \<Longrightarrow> gen_ok s \<Longrightarrow> gen_ok (gen_sendFrame X i (s\<lparr>gn_idx := i\<rparr>))"
  by (auto simp: gen_ok_def gen_sendFrame_def Let_def NFRAMES_def)

lemma next_frame_ok: "gen_ok s \<Longrightarrow> gen_ok (next_frame X s)"
  unfolding next_frame_def Let_def by (rule gen_sendFrame_ok) (simp_all add: NFRAMES_6)

lemma on_key_ok:
  assumes "gen_ok s"
  shows "gen_ok (on_key X c s)"
proof -
  have "unat c - unat (of_char CHR ''1'' :: u8) < NFRAMES" if "c \<le> of_char CHR ''6''"
    using that by (simp add: NFRAMES_6 word_le_nat_alt)
  then show ?thesis using assms by (auto simp: on_key_def Let_def intro: gen_sendFrame_ok next_frame_ok)
qed

lemma gen_ok_update: "gen_ok (s\<lparr>gn_prev := b\<rparr>) = gen_ok s" "gen_ok (s\<lparr>gn_last := t\<rparr>) = gen_ok s"
  by (simp_all add: gen_ok_def)

lemma gen_loop_ok: "gen_ok s \<Longrightarrow> gen_ok (gen_loop X autoMs inp s)"
  by (auto simp: gen_loop_def Let_def gen_ok_update split: option.splits intro!: next_frame_ok on_key_ok)

text \<open>
  Whatever is typed and pressed, the generator sends frames of its table only, each with the
  antenna switch on the transmit side, and leaves the switch on the receive side.
\<close>

theorem generator_sends_its_frames:
  assumes "gen_setup X plan c = Some s"
  shows "gen_ok (foldl (\<lambda>t inp. gen_loop X autoMs inp t) s inps)"
proof -
  have "gen_ok s" using assms by (auto simp: gen_setup_def gen_ok_def NFRAMES_6 split: prod.splits if_splits)
  then show ?thesis by (induction inps arbitrary: s) (simp_all add: gen_loop_ok)
qed

section \<open>What the bridge makes of the frames\<close>

lemma FRAME_U_decoded:
  "extractLoRaWANMeta FRAME_U = (lorawan_meta0\<lparr>lm_mtype := 2, lm_isData := True, lm_devAddr := 0x26011f8a, lm_fcnt := 1,
     lm_hasFport := True, lm_fport := 2, lm_frmPayloadLen := 2\<rparr>, True)"
  by code_simp

lemma FRAME_U2_decoded:
  "extractLoRaWANMeta FRAME_U2 = (lorawan_meta0\<lparr>lm_mtype := 2, lm_isData := True, lm_devAddr := 0x26011f8a, lm_fcnt := 2,
     lm_hasFport := True, lm_fport := 2, lm_frmPayloadLen := 2\<rparr>, True)"
  by code_simp

lemma FRAME_D_decoded:
  "extractLoRaWANMeta FRAME_D = (lorawan_meta0\<lparr>lm_mtype := 4, lm_isData := True, lm_devAddr := 0x26011f8a, lm_fcnt := 7\<rparr>, True)"
  by code_simp

lemma FRAME_J_decoded:
  "snd (extractLoRaWANMeta FRAME_J) \<and> lm_isJoinReq (fst (extractLoRaWANMeta FRAME_J)) \<and>
   lm_devEui (fst (extractLoRaWANMeta FRAME_J)) = 0x0004a30b001a2b3c"
  by code_simp

lemma FRAME_C_rejected: "\<not> snd (extractLoRaWANMeta FRAME_C)"
  by code_simp

text \<open>A repeated frame has the hash of the first; the two data frames of the table differ.\<close>

lemma data_frames_distinct: "dedup_hash FRAME_U 0 0 \<noteq> dedup_hash FRAME_U2 0 0"
  by code_simp

lemma length_FRAME_OVERSIZE: "length FRAME_OVERSIZE = 250"
  by (simp add: FRAME_OVERSIZE_def)

text \<open>The oversize frame never leaves as an uplink, and costs a frame counter value.\<close>

lemma oversize_frame_dropped:
  "br_queue (fst (enqueueAbpUplink fl e src srcId j FRAME_OVERSIZE s)) = br_queue s \<and>
   br_dedup (fst (enqueueAbpUplink fl e src srcId j FRAME_OVERSIZE s)) = br_dedup s"
proof -
  have "LW_FRM_CAP < length (uplink_frm p i t FRAME_OVERSIZE)" for p i t
    by (simp add: uplink_frm_def length_FRAME_OVERSIZE LW_FRM_CAP_def)
  then show ?thesis by (simp add: enqueueAbpUplink_def Let_def split: prod.splits option.splits)
qed

end
