(* ===== verification/PortalForm.thy ===== *)
theory PortalForm
  imports PortalSafety
begin

text \<open>
  The page of the configuration form (\<open>renderForm\<close> and its sections in
  \<open>src/src/CaptivePortal.cpp\<close>): its controls, in page order, with the values the configuration
  gives them, and what a browser posts for a page nobody edited. Headings, hints and styles carry
  no value and are left out; the page's script is in \<open>PortalScript\<close>.
\<close>

section \<open>Controls\<close>

text \<open>
  A text field with its attribute text, a check box, and a selection with the value of each option
  and whether it is marked. The two selections of the page without a name are not posted.
\<close>

datatype control = Text_field bytes bytes | Check_box bytes bool | Selection bytes "(bytes \<times> bool) list"

fun ctl_name :: "control \<Rightarrow> bytes" where
  "ctl_name (Text_field n v) = n"
| "ctl_name (Check_box n b) = n"
| "ctl_name (Selection n opts) = n"

fun escape_char :: "u8 \<Rightarrow> bytes" where
  "escape_char c =
     (if c = of_char CHR ''&'' then str ''&amp;''
      else if c = of_char CHR ''<'' then str ''&lt;''
      else if c = of_char CHR ''>'' then str ''&gt;''
      else if c = 34 then str ''&quot;''
      else if c = 39 then str ''&#39;''
      else [c])"

definition htmlEscape :: "bytes \<Rightarrow> bytes" where
  "htmlEscape s = concat (map escape_char s)"

text \<open>The options \<open>0 .. k\<close> of a numbered selection.\<close>

definition numbered_options :: "bytes \<Rightarrow> u8 list \<Rightarrow> u8 \<Rightarrow> control" where
  "numbered_options name vals cur = Selection name (map (\<lambda>v. (fmt_u (unat v), v = cur)) vals)"

definition appendRegionSelect :: "bridge_cfg \<Rightarrow> control" where
  "appendRegionSelect c = numbered_options (str ''region'') (map of_nat [0..<unat kRegionCount]) (bc_region c)"

definition kProto :: "u8 list" where
  "kProto = [PROTO_MT, PROTO_MC, PROTO_RNS, PROTO_LORAWAN, PROTO_CUSTOM, PROTO_NONE]"

definition radio_name :: "nat \<Rightarrow> string \<Rightarrow> bytes" where
  "radio_name n name = str ''r'' @ fmt_u n @ str name"

definition route_boxes :: "bridge_cfg \<Rightarrow> nat \<Rightarrow> control list" where
  "route_boxes c n =
     map (\<lambda>j. Check_box (radio_name n ''routeTo'' @ fmt_u j) (bit (rs_routeMask (bc_slot c (int n - 1))) (j - 1)))
       (filter (\<lambda>j. j \<noteq> n \<and> rs_protocol (bc_slot c (int j - 1)) \<noteq> PROTO_NONE) [1..<Suc NUM_RADIOS])"

definition shown_key :: "radio_slot \<Rightarrow> bytes" where
  "shown_key r = (if rs_protocol r = PROTO_MT \<and> rs_channelKey r = [] then str ''AQ=='' else htmlEscape (rs_channelKey r))"

text \<open>The protocol, the preset, the channel and the LoRaWAN region.\<close>

definition radio_channel_controls :: "radio_slot \<Rightarrow> nat \<Rightarrow> control list" where
  "radio_channel_controls r n =
     [numbered_options (radio_name n ''proto'') kProto (rs_protocol r),
      numbered_options (radio_name n ''preset'') [0, 1, 2, 3, 4, 5, 6, 7, 8]
        (presetFromParams (f32_of_bits (rs_bandwidth r)) (rs_sf r) (rs_cr r)),
      Text_field (radio_name n ''ChannelName'') (htmlEscape (rs_channelName r)),
      Text_field (radio_name n ''ChannelKey'') (shown_key r),
      numbered_options (radio_name n ''lwreg'') [0, 1, 2, 3, 4] (rs_lwRegion r)]"

text \<open>The RF plan; the floats go through \<open>snprintf\<close> into sixteen characters.\<close>

definition radio_rf_controls :: "radio_slot \<Rightarrow> nat \<Rightarrow> control list" where
  "radio_rf_controls r n =
     [Text_field (radio_name n ''Freq'') (bounded_copy 16 (fmt_fixed 3 (f32_of_bits (rs_frequency r)))),
      Text_field (radio_name n ''Tx'') (fmt_d (sint (rs_txPower r))),
      Text_field (radio_name n ''Bw'') (bounded_copy 16 (fmt_fixed 1 (f32_of_bits (rs_bandwidth r)))),
      Text_field (radio_name n ''Sf'') (fmt_u (unat (rs_sf r))),
      Text_field (radio_name n ''Cr'') (fmt_u (unat (rs_cr r))),
      Text_field (radio_name n ''Sync'') (fmt_02X (rs_syncWord r))]"

definition appendRadio :: "bridge_cfg \<Rightarrow> nat \<Rightarrow> control list" where
  "appendRadio c n =
     radio_channel_controls (bc_slot c (int n - 1)) n @ radio_rf_controls (bc_slot c (int n - 1)) n @ route_boxes c n"

lemmas radio_section = appendRadio_def radio_channel_controls_def radio_rf_controls_def

definition device_name :: "nat \<Rightarrow> string \<Rightarrow> bytes" where
  "device_name i name = str ''lw'' @ fmt_u i @ str name"

text \<open>The match value is printed in decimal, whatever the selector.\<close>

definition device_controls :: "nat \<Rightarrow> lw_device \<Rightarrow> control list" where
  "device_controls i d =
     [Check_box (device_name i ''en'') (dev_inUse d \<noteq> 0),
      numbered_options (device_name i ''sel'') [0, 1, 2] (dev_srcSel d),
      Text_field (device_name i ''match'') (if dev_srcSel d \<noteq> SRC_ANY then fmt_u (unat (dev_srcMatch d)) else []),
      Text_field (device_name i ''addr'') (if dev_devAddr d \<noteq> 0 then fmt_08lX (dev_devAddr d) else []),
      Text_field (device_name i ''nwk'') (if dev_inUse d \<noteq> 0 then hex_of (dev_nwkSKey d) else []),
      Text_field (device_name i ''app'') (if dev_inUse d \<noteq> 0 then hex_of (dev_appSKey d) else []),
      Text_field (device_name i ''port'') (fmt_u (unat (if dev_fport d \<noteq> 0 then dev_fport d else 13))),
      Check_box (device_name i ''tag'') (dev_flags d AND FLAG_TAG_SRC \<noteq> 0)]"

definition appendLoRaWANDevices :: "lw_state \<Rightarrow> control list" where
  "appendLoRaWANDevices s = concat (map (\<lambda>i. device_controls i (lw_dev s ! i)) [0..<MAX_DEVICES])"

definition identity_controls :: "bridge_cfg \<Rightarrow> control list" where
  "identity_controls c =
     [Text_field (str ''mtNodeId'') (htmlEscape (str ''0x'' @ fmt_08lX (bc_mtNodeId c))),
      Text_field (str ''mtNodeIdStr'') (htmlEscape (bc_mtNodeIdStr c)),
      Text_field (str ''mtLongName'') (htmlEscape (bc_mtLongName c)),
      Text_field (str ''mtShortName'') (htmlEscape (bc_mtShortName c)),
      appendRegionSelect c,
      Check_box (str ''positionEnabled'') (bc_positionEnabled c \<noteq> 0),
      Check_box (str ''telemetryEnabled'') (bc_telemetryEnabled c \<noteq> 0)]"

definition renderForm :: "bool \<Rightarrow> bridge_cfg \<Rightarrow> lw_state \<Rightarrow> control list" where
  "renderForm encode c s =
     identity_controls c @ concat (map (appendRadio c) [1..<Suc NUM_RADIOS]) @
     (if encode then appendLoRaWANDevices s else [])"

section \<open>What a browser posts\<close>

text \<open>The character references of an attribute value, decoded.\<close>

function html_text :: "bytes \<Rightarrow> bytes" where
  "html_text s =
     (if s = [] then []
      else if take 5 s = str ''&amp;'' then of_char CHR ''&'' # html_text (drop 5 s)
      else if take 4 s = str ''&lt;'' then of_char CHR ''<'' # html_text (drop 4 s)
      else if take 4 s = str ''&gt;'' then of_char CHR ''>'' # html_text (drop 4 s)
      else if take 6 s = str ''&quot;'' then 34 # html_text (drop 6 s)
      else if take 5 s = str ''&#39;'' then 39 # html_text (drop 5 s)
      else hd s # html_text (tl s))"
  by pat_completeness auto
termination by (relation "measure length") auto

declare html_text.simps [simp del]

text \<open>A selection without a marked option shows, and posts, its first.\<close>

definition chosen :: "(bytes \<times> bool) list \<Rightarrow> bytes" where
  "chosen opts = (case find snd opts of Some (v, b) \<Rightarrow> v | None \<Rightarrow> (case opts of [] \<Rightarrow> [] | (v, b) # os \<Rightarrow> v))"

text \<open>The posted value; a check box without a tick posts nothing.\<close>

fun ctl_value :: "control \<Rightarrow> bytes" where
  "ctl_value (Text_field n v) = html_text v"
| "ctl_value (Check_box n b) = (if b then str ''1'' else [])"
| "ctl_value (Selection n opts) = chosen opts"

definition posted :: "control list \<Rightarrow> form" where
  "posted cs k = (case find (\<lambda>c. ctl_name c = k) cs of None \<Rightarrow> [] | Some c \<Rightarrow> ctl_value c)"

section \<open>The portal's server\<close>

text \<open>
  The requests of the captive portal: the form, a posted form, and a redirect to the form for
  everything else, which is what makes a phone open it.
\<close>

datatype http_method = GET | POST

datatype portal_reply = Form_page "save_error option" "control list" | Saved_page | Redirect_to bytes

definition captive_request ::
  "platform \<Rightarrow> config_flags \<Rightarrow> save_env \<Rightarrow> http_method \<Rightarrow> bytes \<Rightarrow> form \<Rightarrow> portal_state \<Rightarrow> portal_state \<times> portal_reply" where
  "captive_request pf fl e m path f s =
     (if m = GET \<and> path = str ''/'' then (s, Form_page None (renderForm (se_encode e) (cs_cfg (ps_config s)) (ps_lw s)))
      else if m = POST \<and> path = str ''/save'' then
        (case handleSave pf fl e f s of
           (s2, None) \<Rightarrow> (s2, Saved_page)
         | (s2, Some err) \<Rightarrow> (s2, Form_page (Some err) (renderForm (se_encode e) (cs_cfg (ps_config s2)) (ps_lw s2))))
      else (s, Redirect_to (str ''/'')))"

definition portal_ssid :: "u32 \<Rightarrow> bytes" where
  "portal_ssid nodeId = bounded_copy 24 (str ''LoRa-Bridge-'' @ fmt_02X (ucast (nodeId AND 0xFF)))"

end
