(* ===== verification/PortalResave.thy ===== *)
theory PortalResave
  imports PortalForm
begin

text \<open>
  A configuration page that is posted back: reading the fields as the page printed them gives the
  configuration again, where the page prints them faithfully; and the places where it does not.
\<close>

section \<open>Escaping\<close>

lemma html_text_Nil [simp]: "html_text [] = []"
  by (simp add: html_text.simps)

lemma html_text_step: "html_text (escape_char c @ t) = c # html_text t"
  by (subst html_text.simps) (auto simp: str_def)

lemma html_text_escape: "html_text (htmlEscape s) = s"
  by (induction s) (simp_all add: htmlEscape_def html_text_step del: escape_char.simps)

lemma html_text_plain: "of_char CHR ''&'' \<notin> set s \<Longrightarrow> html_text s = s"
proof (induction s)
  case (Cons c s)
  then have "html_text (c # s) = c # html_text s" by (subst html_text.simps) (auto simp: str_def)
  then show ?case using Cons by simp
qed simp

section \<open>Printed numbers\<close>

lemma HEX_nibble_all: "\<forall>n \<in> {0..<16 :: nat}. hexNibble (HEX_digit (of_nat n)) = int n \<and> is_hex_char (HEX_digit (of_nat n)) \<and>
    is_hex_char (hex_digit (of_nat n))"
  by (simp add: hexNibble_def HEX_digit_def hex_digit_def is_hex_char_def atLeastLessThan_nat_numeral)

lemma HEX_nibble:
  assumes "d < 16"
  shows "hexNibble (HEX_digit d) = uint d" and "is_hex_char (HEX_digit d)" and "is_hex_char (hex_digit d)"
proof -
  have "unat d \<in> {0..<16}" using assms by (simp add: word_less_nat_alt)
  with HEX_nibble_all have "hexNibble (HEX_digit (of_nat (unat d))) = int (unat d) \<and> is_hex_char (HEX_digit (of_nat (unat d))) \<and>
    is_hex_char (hex_digit (of_nat (unat d)))" by blast
  then show "hexNibble (HEX_digit d) = uint d" "is_hex_char (HEX_digit d)" "is_hex_char (hex_digit d)" by simp_all
qed

lemma hex_value_int: "foldl (\<lambda>v c. push_bit 4 v + word_of_int (hexNibble c)) (word_of_int a) s =
    (word_of_int (foldl (\<lambda>v c. 16 * v + hexNibble c) a s) :: u32)"
proof (induction s arbitrary: a)
  case (Cons c s)
  have "push_bit 4 (word_of_int a) + word_of_int (hexNibble c) = (word_of_int (16 * a + hexNibble c) :: u32)"
    by (simp add: push_bit_eq_mult)
  then show ?case using Cons.IH [of "16 * a + hexNibble c"] by (simp only: foldl_Cons)
qed simp

lemma nibble_sum: "16 * uint (drop_bit 4 b) + uint (b AND 0x0F) = uint (b :: u8)"
proof -
  have m: "(0x0F :: u8) = mask 4" by (simp add: mask_eq_exp_minus_1)
  have "uint (drop_bit 4 b) = uint b div 16" by (simp add: drop_bit_eq_div uint_div)
  moreover have "uint (b AND 0x0F) = uint b mod 16"
    unfolding m by (simp add: take_bit_eq_mask [symmetric] unsigned_take_bit_eq take_bit_eq_mod uint_mod)
  ultimately show ?thesis by simp
qed

lemma HEX_of_value: "foldl (\<lambda>v c. 16 * v + hexNibble c) a (HEX_of bs) = foldl (\<lambda>v b. 256 * v + uint b) a bs"
proof (induction bs arbitrary: a)
  case (Cons b bs)
  have e: "16 * (16 * a + uint (drop_bit 4 b)) + uint (b AND 0x0F) = 256 * a + uint b"
    unfolding nibble_sum [of b, symmetric] by simp
  have "foldl (\<lambda>v c. 16 * v + hexNibble c) a (HEX_of (b # bs)) =
      foldl (\<lambda>v c. 16 * v + hexNibble c) (16 * (16 * a + uint (drop_bit 4 b)) + uint (b AND 0x0F)) (HEX_of bs)"
    by (simp add: HEX_of_def HEX_nibble(1) nibbles)
  then show ?case using Cons.IH by (simp only: e foldl_Cons)
qed (simp add: HEX_of_def)

lemma le32_value: "foldl (\<lambda>v b. 256 * v + uint b) 0 (rev (le32 w)) = uint w"
proof -
  define q where "q = (\<lambda>k. uint w div 2 ^ k)"
  have b: "uint (ucast (drop_bit k w) :: u8) = q k mod 256" for k
  proof -
    have "uint (ucast (drop_bit k w) :: u8) = take_bit 8 (drop_bit k (uint w))"
      using uint_lt2p [of w] by (simp add: unsigned_ucast_eq unsigned_drop_bit_eq take_bit_int_eq_self)
    then show ?thesis by (simp add: q_def drop_bit_eq_div take_bit_eq_mod)
  qed
  have b0: "uint (ucast w :: u8) = uint w mod 256" using b [of 0] by (simp add: q_def)
  have "uint w < 4294967296" "0 \<le> uint w" using uint_lt2p [of w] by simp_all
  then have top: "q 24 mod 256 = q 24" by (simp add: q_def pos_imp_zdiv_nonneg_iff div_less_iff_less_mult)
  have step: "q 24 = q 16 div 256" "q 16 = q 8 div 256" "q 8 = uint w div 256"
    by (simp_all add: q_def flip: zdiv_zmult2_eq)
  have "uint w = 256 * (256 * (256 * q 24 + q 16 mod 256) + q 8 mod 256) + uint w mod 256"
    unfolding step by simp
  then show ?thesis by (simp add: le32_def b b0 top)
qed

lemma hex_value_HEX_of: "hex_value (HEX_of bs) = word_of_int (foldl (\<lambda>v b. 256 * v + uint b) 0 bs)"
proof -
  have "hex_value (HEX_of bs) = foldl (\<lambda>v c. push_bit 4 v + word_of_int (hexNibble c)) (word_of_int 0) (HEX_of bs)"
    by (simp add: hex_value_def)
  then show ?thesis by (simp only: hex_value_int HEX_of_value)
qed

lemma HEX_of_chars: "list_all is_hex_char (HEX_of bs)"
  by (induction bs) (simp_all add: HEX_of_def HEX_nibble(2) nibbles)

lemma HEX_is_hex: "isHexString (fmt_08lX w) 8" "isHexString (fmt_02X b) 2"
  using HEX_of_chars [of "rev (le32 w)"] HEX_of_chars [of "[b]"]
  by (simp_all only: isHexString_def fmt_08lX_def fmt_02X_def length_HEX_of length_rev length_le32) simp_all

lemma hex_value_08lX: "hex_value (fmt_08lX w) = w"
  by (simp only: fmt_08lX_def hex_value_HEX_of le32_value word_of_int_uint)

lemma hex_value_02X: "hex_value (fmt_02X b) = ucast b"
  by (simp only: fmt_02X_def hex_value_HEX_of foldl.simps mult_zero_right add_0 ucast_eq)

lemma hex_of_parsed: "length b = n \<Longrightarrow> lwHexToBytes (hex_of b) n = Some b"
  using parse_hex_of [of 0 n b "[]"] by (simp add: lwHexToBytes_def length_hex_of)

section \<open>Looking a field up\<close>

lemma posted_Cons: "posted (c # cs) k = (if ctl_name c = k then ctl_value c else posted cs k)"
  by (simp add: posted_def)

lemma posted_skip: "\<forall>c \<in> set cs. ctl_name c \<noteq> k \<Longrightarrow> posted (cs @ ds) k = posted ds k"
  by (induction cs) (simp_all add: posted_Cons)

lemma posted_Nil [simp]: "posted [] k = []"
  by (simp add: posted_def)

lemma posted_none: "\<forall>c \<in> set cs. ctl_name c \<noteq> k \<Longrightarrow> posted cs k = []"
  by (induction cs) (simp_all add: posted_Cons)

lemma posted_within: "\<forall>c \<in> set ds. ctl_name c \<noteq> k \<Longrightarrow> posted (cs @ ds) k = posted cs k"
  by (induction cs) (simp_all add: posted_Cons posted_none)

text \<open>Sections of numbered controls: the section that has the name decides.\<close>

lemma posted_section:
  assumes "i \<in> set is" and "distinct is" and "\<forall>j \<in> set is. j \<noteq> i \<longrightarrow> (\<forall>c \<in> set (g j). ctl_name c \<noteq> k)"
  shows "posted (concat (map g is)) k = posted (g i) k"
proof -
  obtain as bs where s: "is = as @ i # bs" using assms(1) by (meson split_list)
  then have "\<forall>c \<in> set (concat (map g as)). ctl_name c \<noteq> k" "\<forall>c \<in> set (concat (map g bs)). ctl_name c \<noteq> k"
    using assms(2,3) by auto
  then show ?thesis by (simp add: s posted_skip posted_within)
qed

lemma chosen_numbered:
  assumes "cur \<in> set vals"
  shows "ctl_value (numbered_options n vals cur) = fmt_u (unat cur)"
proof -
  have "find snd (map (\<lambda>v. (fmt_u (unat v), v = cur)) vals) = Some (fmt_u (unat cur), True)"
    using assms by (induction vals) auto
  then show ?thesis by (simp add: numbered_options_def chosen_def)
qed

lemma name_numbered [simp]: "ctl_name (numbered_options n vals cur) = n"
  by (simp add: numbered_options_def)

section \<open>The device form\<close>

lemma device_name_eq: "i < 10 \<Longrightarrow> j < 10 \<Longrightarrow> device_name i a = device_name j b \<longleftrightarrow> i = j \<and> str a = str b"
proof -
  assume ij: "i < 10" "j < 10"
  have "(of_char CHR ''0'' + of_nat i :: u8) = of_char CHR ''0'' + of_nat j \<longleftrightarrow> i = j"
    using ij by (simp add: word_unat_eq_iff unat_of_nat unat_word_ariths)
  then show ?thesis using ij by (simp add: device_name_def fmt_u_digit)
qed

lemma device_control_names: "c \<in> set (device_controls i d) \<Longrightarrow> \<exists>b. ctl_name c = device_name i b"
  by (auto simp: device_controls_def)

lemma posted_device_section:
  assumes "i < MAX_DEVICES"
  shows "posted (appendLoRaWANDevices s) (device_name i a) = posted (device_controls i (lw_dev s ! i)) (device_name i a)"
  unfolding appendLoRaWANDevices_def
proof (rule posted_section)
  show "\<forall>j \<in> set [0..<MAX_DEVICES]. j \<noteq> i \<longrightarrow> (\<forall>c \<in> set (device_controls j (lw_dev s ! j)). ctl_name c \<noteq> device_name i a)"
    using assms device_name_eq by (fastforce dest: device_control_names simp: MAX_DEVICES_def)
qed (use assms in simp_all)

text \<open>
  What the firmware's string class is relied on for: it reads decimal numbers back, and trims
  nothing off a string of printable characters without blanks.
\<close>

definition string_laws :: "platform \<Rightarrow> bool" where
  "string_laws pf \<longleftrightarrow> (\<forall>i. -(2 ^ 31) \<le> i \<and> i < 2 ^ 31 \<longrightarrow> pf_toInt pf (fmt_d i) = i) \<and>
     (\<forall>s. (\<forall>c \<in> set s. 0x21 \<le> c \<and> c < 0x7F) \<longrightarrow> pf_trim pf s = s)"

lemma toInt_fmt_d: "string_laws pf \<Longrightarrow> -(2 ^ 31) \<le> i \<Longrightarrow> i < 2 ^ 31 \<Longrightarrow> pf_toInt pf (fmt_d i) = i"
  by (simp add: string_laws_def)

lemma toInt_fmt_u: "string_laws pf \<Longrightarrow> n < 2 ^ 31 \<Longrightarrow> pf_toInt pf (fmt_u n) = int n"
  using toInt_fmt_d [of pf "int n"] by (simp add: fmt_d_def)

lemma is_hex_printable: "is_hex_char c \<Longrightarrow> 0x21 \<le> c \<and> c < 0x7F"
  by (auto simp: is_hex_char_def word_le_nat_alt word_less_nat_alt)

lemma trim_hex: "string_laws pf \<Longrightarrow> list_all is_hex_char s \<Longrightarrow> pf_trim pf s = s"
  using is_hex_printable by (auto simp: string_laws_def list_all_iff)

lemma strip_hex:
  assumes "list_all is_hex_char s"
  shows "strip_0x s = s"
proof -
  have x: "c \<notin> set s" if "\<not> is_hex_char c" for c using that assms by (auto simp: list_all_iff)
  have "take 2 s \<noteq> [a, c]" if "\<not> is_hex_char c" for a c
  proof
    assume "take 2 s = [a, c]"
    then have "c \<in> set (take 2 s)" by simp
    then show False using x [OF that] by (auto dest: in_set_takeD)
  qed
  moreover have "\<not> is_hex_char (of_char CHR ''x'')" "\<not> is_hex_char (of_char CHR ''X'')" by (simp_all add: is_hex_char_def)
  ultimately show ?thesis by (simp add: strip_0x_def str_def)
qed

lemma hex_no_amp: "list_all is_hex_char s \<Longrightarrow> html_text s = s"
proof (rule html_text_plain)
  assume "list_all is_hex_char s"
  moreover have "\<not> is_hex_char (of_char CHR ''&'')" by (simp add: is_hex_char_def)
  ultimately show "of_char CHR ''&'' \<notin> set s" by (auto simp: list_all_iff)
qed

lemma hex_of_chars_ok: "list_all is_hex_char (hex_of bs)"
  by (induction bs) (simp_all add: hex_of_def HEX_nibble(3) nibbles)

lemma fmt_u_chars: "list_all is_hex_char (fmt_u n)"
proof (induction n rule: fmt_u.induct)
  case (1 n)
  have "is_hex_char (of_char CHR ''0'' + of_nat k)" if "k < 10" for k :: nat
    using that by (simp add: is_hex_char_def word_le_nat_alt unat_word_ariths unat_of_nat)
  then show ?case using 1 by (cases "n < 10") (simp_all add: fmt_u.simps [of n])
qed

lemmas plain_values = hex_no_amp [OF hex_of_chars_ok] hex_no_amp [OF fmt_u_chars]
  hex_no_amp [OF HEX_of_chars, of "rev (le32 w)" for w, folded fmt_08lX_def]

lemma device_fields:
  shows "posted (device_controls i d) (device_name i ''en'') = (if dev_inUse d \<noteq> 0 then str ''1'' else [])"
    and "dev_srcSel d \<in> {0, 1, 2} \<Longrightarrow> posted (device_controls i d) (device_name i ''sel'') = fmt_u (unat (dev_srcSel d))"
    and "posted (device_controls i d) (device_name i ''match'') = (if dev_srcSel d \<noteq> SRC_ANY then fmt_u (unat (dev_srcMatch d)) else [])"
    and "posted (device_controls i d) (device_name i ''addr'') = (if dev_devAddr d \<noteq> 0 then fmt_08lX (dev_devAddr d) else [])"
    and "posted (device_controls i d) (device_name i ''nwk'') = (if dev_inUse d \<noteq> 0 then hex_of (dev_nwkSKey d) else [])"
    and "posted (device_controls i d) (device_name i ''app'') = (if dev_inUse d \<noteq> 0 then hex_of (dev_appSKey d) else [])"
    and "posted (device_controls i d) (device_name i ''port'') = fmt_u (unat (if dev_fport d \<noteq> 0 then dev_fport d else 13))"
    and "posted (device_controls i d) (device_name i ''tag'') = (if dev_flags d AND FLAG_TAG_SRC \<noteq> 0 then str ''1'' else [])"
  by (simp_all add: device_controls_def posted_Cons device_name_def str_def chosen_numbered plain_values
      del: escape_char.simps)

lemma device_field_name: "device_field f i a = f (device_name i a)"
  by (simp add: device_field_def device_name_def)

text \<open>The other sections of the page have no field of a device.\<close>

lemma radio_control_names: "c \<in> set (appendRadio b n) \<Longrightarrow> hd (ctl_name c) = of_char CHR ''r''"
  by (auto simp: radio_section Let_def route_boxes_def radio_name_def numbered_options_def str_def)

lemma identity_control_names: "c \<in> set (identity_controls b) \<Longrightarrow> hd (ctl_name c) \<noteq> of_char CHR ''l''"
  by (auto simp: identity_controls_def appendRegionSelect_def str_def)

lemma posted_device:
  assumes "i < MAX_DEVICES"
  shows "posted (renderForm True c s) (device_name i a) = posted (device_controls i (lw_dev s ! i)) (device_name i a)"
proof -
  have l: "hd (device_name i a) = of_char CHR ''l''" by (simp add: device_name_def str_def)
  have "\<forall>x \<in> set (identity_controls c). ctl_name x \<noteq> device_name i a"
    using identity_control_names l by metis
  moreover have "\<forall>x \<in> set (concat (map (appendRadio c) ns)). ctl_name x \<noteq> device_name i a" for ns
    using radio_control_names l by (fastforce simp del: of_char_of)
  ultimately show ?thesis
    by (simp add: renderForm_def posted_skip posted_device_section [OF assms] del: upt_Suc set_concat)
qed

text \<open>A device the page prints faithfully.\<close>

definition device_printable :: "lw_device \<Rightarrow> bool" where
  "device_printable d \<longleftrightarrow> dev_inUse d = 1 \<and> dev_devAddr d \<noteq> 0 \<and> dev_fport d \<noteq> 0 \<and> dev_fport d \<le> 223 \<and>
     (dev_srcSel d = SRC_ANY \<and> dev_srcMatch d = 0 \<or> dev_srcSel d = SRC_PROTO \<and> dev_srcMatch d \<noteq> 0 \<and> dev_srcMatch d \<le> 4) \<and>
     (dev_flags d = 0 \<or> dev_flags d = FLAG_TAG_SRC) \<and> device_keys d"

lemma device_read_back:
  assumes laws: "string_laws pf" and d: "device_printable d" and i: "i < MAX_DEVICES"
    and f: "\<And>a. device_field f i a = posted (device_controls i d) (device_name i a)"
  shows "read_device pf f i = Inr d"
proof -
  have sel: "dev_srcSel d \<in> {0, 1, 2}" using d by (auto simp: device_printable_def SRC_ANY_def SRC_PROTO_def)
  have u: "unat x < 2 ^ 31" for x :: u8
  proof -
    have "unat x < 256" using uint_lt2p [of x] by (simp add: nat_less_iff flip: nat_uint_eq)
    then show ?thesis by simp
  qed
  have s: "word_of_int (pf_toInt pf (device_field f i ''sel'')) = dev_srcSel d"
    using device_fields(2) [OF sel] by (simp add: f toInt_fmt_u [OF laws u])
  have m: "device_match pf f i (dev_srcSel d) = Inr (dev_srcMatch d)"
  proof (cases "dev_srcSel d = SRC_ANY")
    case False
    then have p: "dev_srcSel d = SRC_PROTO" "dev_srcMatch d \<noteq> 0" "dev_srcMatch d \<le> 4"
      using d by (auto simp: device_printable_def)
    then have "unat (dev_srcMatch d) \<le> 4" by (simp add: word_le_nat_alt)
    then have "word_of_int (pf_toInt pf (pf_trim pf (fmt_u (unat (dev_srcMatch d))))) = dev_srcMatch d"
      by (simp add: trim_hex [OF laws fmt_u_chars] toInt_fmt_u [OF laws])
    then show ?thesis using p False by (simp add: device_match_def f device_fields(3) SRC_MT_NODE_def SRC_PROTO_def Let_def not_less word_gt_0)
  qed (use d in \<open>simp add: device_match_def device_printable_def SRC_ANY_def SRC_MT_NODE_def SRC_PROTO_def\<close>)
  have h: "list_all is_hex_char (fmt_08lX w)" for w using HEX_is_hex(1) [of w] by (simp add: isHexString_def)
  have a: "strip_0x (pf_trim pf (device_field f i ''addr'')) = fmt_08lX (dev_devAddr d)"
    using d by (simp add: f device_fields(4) device_printable_def trim_hex [OF laws h] strip_hex [OF h])
  have k: "lwHexToBytes (pf_trim pf (device_field f i ''nwk'')) 16 = Some (dev_nwkSKey d)"
    "lwHexToBytes (pf_trim pf (device_field f i ''app'')) 16 = Some (dev_appSKey d)"
    using d by (simp_all add: f device_fields(5,6) device_printable_def trim_hex [OF laws hex_of_chars_ok] device_keys_def hex_of_parsed)
  have p: "pf_toInt pf (device_field f i ''port'') = uint (dev_fport d)"
    using d by (simp add: f device_fields(7) device_printable_def toInt_fmt_u [OF laws u])
  have pr: "1 \<le> uint (dev_fport d)" "uint (dev_fport d) \<le> 223"
    using d by (auto simp: device_printable_def word_le_def word_uint_eq_iff uint_ge_0 int_one_le_iff_zero_less order_less_le)
  have t: "(if device_field f i ''tag'' = str ''1'' then FLAG_TAG_SRC else 0) = dev_flags d"
    using d by (auto simp: f device_fields(8) device_printable_def FLAG_TAG_SRC_def str_def)
  show ?thesis using d s m a k p pr t HEX_is_hex(1) [of "dev_devAddr d"]
    by (simp add: read_device_def Let_def hex_value_08lX not_less device_printable_def)
qed

lemma apply_slots_succeeds:
  assumes "\<forall>i \<in> set is. device_field f i ''en'' = str ''1'' \<longrightarrow> (\<exists>d. read_device pf f i = Inr d)"
  shows "snd (apply_slots pf f readable is s) = None"
  using assms by (induction "is" arbitrary: s) (auto split: sum.splits)

text \<open>
  The device form round-trips: a page nobody edited, posted back, is accepted, every enabled
  device that applies to any source or to a protocol is the one it was, and a disabled slot is empty.
\<close>

theorem device_form_round_trip:
  assumes "string_laws pf" and "devices_wf s" and "\<forall>i < MAX_DEVICES. dev_inUse (lw_dev s ! i) = 0 \<or> device_printable (lw_dev s ! i)"
  shows "\<exists>s2. applyLoRaWANDevices pf (posted (renderForm True c s)) readable w s = (s2, None) \<and>
    (\<forall>i < MAX_DEVICES. lw_dev s2 ! i = (if dev_inUse (lw_dev s ! i) = 0 then zero_device else lw_dev s ! i))"
proof -
  define f where "f = posted (renderForm True c s)"
  have f: "device_field f i a = posted (device_controls i (lw_dev s ! i)) (device_name i a)" if "i < MAX_DEVICES" for i a
    using posted_device [OF that] by (simp add: f_def device_field_name)
  have en: "device_field f i ''en'' = str ''1'' \<longleftrightarrow> dev_inUse (lw_dev s ! i) \<noteq> 0" if "i < MAX_DEVICES" for i
    using f [OF that] by (simp add: device_fields(1) str_def)
  have rd: "read_device pf f i = Inr (lw_dev s ! i)" if "i < MAX_DEVICES" "dev_inUse (lw_dev s ! i) \<noteq> 0" for i
    using assms(3) that by (intro device_read_back [OF assms(1) _ that(1) f [OF that(1)]]) auto
  obtain s1 r where s1: "apply_slots pf f readable [0..<MAX_DEVICES] s = (s1, r)" by fastforce
  have r: "r = None" using apply_slots_succeeds [of "[0..<MAX_DEVICES]" f pf readable s] en rd s1 by auto
  have "\<forall>i < MAX_DEVICES. form_device pf f i (lw_dev s1 ! i)"
    using apply_slots_exact [OF s1 [unfolded r]] assms(2) by (simp add: devices_wf_def atLeast0LessThan)
  then have "\<forall>i < MAX_DEVICES. lw_dev s1 ! i = (if dev_inUse (lw_dev s ! i) = 0 then zero_device else lw_dev s ! i)"
    using en rd by (auto simp: form_device_def)
  then show ?thesis using s1 r by (auto simp: applyLoRaWANDevices_def lw_saveTable_def f_def)
qed

text \<open>
  A device for one Meshtastic node does not round-trip: its node id is printed in decimal and read
  as hex digits, so the page is refused unless the decimal has eight digits, and then another id is stored.
\<close>

lemma node_device_not_read_back:
  assumes "string_laws pf" and "dev_srcSel d = SRC_MT_NODE"
    and f: "\<And>a. device_field f i a = posted (device_controls i d) (device_name i a)"
  shows "length (fmt_u (unat (dev_srcMatch d))) \<noteq> 8 \<Longrightarrow> read_device pf f i = Inl Abp_node_hex"
    and "read_device pf f i = Inr d2 \<Longrightarrow> dev_srcMatch d2 = hex_value (fmt_u (unat (dev_srcMatch d)))"
proof -
  have sel: "dev_srcSel d \<in> {0, 1, 2}" using assms(2) by (simp add: SRC_MT_NODE_def)
  have s: "word_of_int (pf_toInt pf (device_field f i ''sel'')) = SRC_MT_NODE"
    using device_fields(2) [OF sel, of i] toInt_fmt_u [OF assms(1), of 1] by (simp add: f assms(2) SRC_MT_NODE_def)
  have m: "pf_trim pf (device_field f i ''match'') = fmt_u (unat (dev_srcMatch d))"
    using assms(2) by (simp add: f device_fields(3) SRC_ANY_def SRC_MT_NODE_def trim_hex [OF assms(1) fmt_u_chars])
  show "length (fmt_u (unat (dev_srcMatch d))) \<noteq> 8 \<Longrightarrow> read_device pf f i = Inl Abp_node_hex"
    by (simp add: read_device_def device_match_def s m strip_hex [OF fmt_u_chars] isHexString_def Let_def)
  show "read_device pf f i = Inr d2 \<Longrightarrow> dev_srcMatch d2 = hex_value (fmt_u (unat (dev_srcMatch d)))"
    by (auto simp: read_device_def device_match_def s m strip_hex [OF fmt_u_chars] Let_def split: if_splits option.splits)
qed

lemma decimal_id_changes: "fmt_u (unat (0x00BC614E :: u32)) = str ''12345678''" "hex_value (str ''12345678'') = 0x12345678"
  by (simp_all add: fmt_u.simps str_def hex_value_def hexNibble_def)

end
