(* ===== verification/PortalScript.thy ===== *)
theory PortalScript
  imports PortalForm
begin

text \<open>
  The script of the configuration page (\<open>appendScript\<close> in \<open>src/src/CaptivePortal.cpp\<close>): the tables
  the firmware prints into it and its functions, on the values of the page's fields. The numbers
  of the script are IEEE doubles. What only changes the look of the page (hints, read-only marks,
  shown and hidden rows, the options of the slot picker) is left out.
\<close>

section \<open>Numbers of the script\<close>

definition f_ratio :: "fval \<Rightarrow> int \<times> int" where
  "f_ratio x = (case x of Fin s m e \<Rightarrow> (case pow_ratio m e of (a, b) \<Rightarrow> (signed s a, b)) | _ \<Rightarrow> (0, 1))"

definition js_arith :: "(int \<times> int \<Rightarrow> int \<times> int \<Rightarrow> int \<times> int) \<Rightarrow> fval \<Rightarrow> fval \<Rightarrow> fval" where
  "js_arith op x y =
     (case (x, y) of
        (Fin s m e, Fin t n f) \<Rightarrow>
          (case op (f_ratio x) (f_ratio y) of (v, d) \<Rightarrow> if d = 0 then Not_a_number else round_f64 (v * d < 0) \<bar>v\<bar> \<bar>d\<bar>)
      | _ \<Rightarrow> Not_a_number)"

definition js_add :: "fval \<Rightarrow> fval \<Rightarrow> fval" where
  "js_add = js_arith (\<lambda>(a, b) (c, d). (a * d + c * b, b * d))"

definition js_sub :: "fval \<Rightarrow> fval \<Rightarrow> fval" where
  "js_sub = js_arith (\<lambda>(a, b) (c, d). (a * d - c * b, b * d))"

definition js_mul :: "fval \<Rightarrow> fval \<Rightarrow> fval" where
  "js_mul = js_arith (\<lambda>(a, b) (c, d). (a * c, b * d))"

definition js_div :: "fval \<Rightarrow> fval \<Rightarrow> fval" where
  "js_div = js_arith (\<lambda>(a, b) (c, d). (a * d, b * c))"

definition js_int :: "int \<Rightarrow> fval" where
  "js_int i = round_f64 (i < 0) \<bar>i\<bar> 1"

definition js_floor :: "fval \<Rightarrow> int" where
  "js_floor x = (case f_ratio x of (a, b) \<Rightarrow> a div b)"

text \<open>\<open>toFixed\<close>: of two nearest decimals the larger, where \<open>printf\<close> takes the even one.\<close>

definition js_toFixed :: "nat \<Rightarrow> fval \<Rightarrow> bytes" where
  "js_toFixed p x =
     (case f_ratio x of (a, b) \<Rightarrow>
        (let q = (2 * \<bar>a\<bar> * 10 ^ p + b) div (2 * b); d = 10 ^ p
         in (if a < 0 then str ''-'' else []) @ fmt_u (nat (q div d)) @
            (if p = 0 then [] else str ''.'' @ zero_pad p (fmt_u (nat (q mod d))))))"

text \<open>The double a script reads from a number the firmware printed with \<open>%.pf\<close>.\<close>

definition js_printed :: "nat \<Rightarrow> fval \<Rightarrow> fval" where
  "js_printed p x =
     (case x of
        Fin s m e \<Rightarrow> (case pow_ratio (m * 10 ^ p) e of (a, b) \<Rightarrow> round_f64 s (nearest a b) (10 ^ p))
      | _ \<Rightarrow> Not_a_number)"

section \<open>Tables\<close>

definition key_of :: "nat \<Rightarrow> bytes \<Rightarrow> nat option" where
  "key_of n value = find (\<lambda>k. fmt_u k = value) [0..<n]"

definition REG :: "bytes \<Rightarrow> (fval \<times> fval) option" where
  "REG rg = map_option (\<lambda>r. (js_printed 3 (ri_freqStart (regionInfo (of_nat r))), js_printed 3 (ri_freqEnd (regionInfo (of_nat r)))))
     (key_of (unat kRegionCount) rg)"

definition PRE :: "bytes \<Rightarrow> (fval \<times> u8 \<times> u8) option" where
  "PRE ps = map_option (\<lambda>p. case modemPresetParams (of_nat p) of (bw, sf, cr) \<Rightarrow> (js_printed 1 bw, sf, cr)) (key_of 9 ps)"

definition PN :: "bytes \<Rightarrow> bytes option" where
  "PN ps = map_option (\<lambda>p. modemPresetName (of_nat p)) (key_of 9 ps)"

text \<open>The slots of a LoRaWAN region: frequency text, spreading factor, bandwidth in kHz.\<close>

definition fsb2_slots :: "string list \<Rightarrow> string \<Rightarrow> (bytes \<times> nat \<times> int) list" where
  "fsb2_slots narrow wide = map (\<lambda>f. (str f, 7, 125)) narrow @ [(str wide, 8, 500)]"

definition LW :: "bytes \<Rightarrow> (bytes \<times> nat \<times> int) list option" where
  "LW reg =
     (if reg = str ''1'' then Some (fsb2_slots [''903.9'', ''904.1'', ''904.3'', ''904.5'', ''904.7'', ''904.9'', ''905.1'', ''905.3''] ''904.6'')
      else if reg = str ''2'' then Some (fsb2_slots [''916.8'', ''917.0'', ''917.2'', ''917.4'', ''917.6'', ''917.8'', ''918.0'', ''918.2''] ''917.5'')
      else if reg = str ''3'' then Some [(str ''923.2'', 7, 125), (str ''923.4'', 7, 125)]
      else if reg = str ''4'' then Some [(str ''868.1'', 7, 125), (str ''868.3'', 7, 125), (str ''868.5'', 7, 125)]
      else None)"

section \<open>The slot frequency\<close>

definition js_djb2 :: "bytes \<Rightarrow> int" where
  "js_djb2 s = foldl (\<lambda>h c. (h * 33 + uint c) mod 2 ^ 32) 5381 s"

definition js_slot :: "bytes \<Rightarrow> bytes \<Rightarrow> fval \<Rightarrow> fval" where
  "js_slot rg nm bw =
     (case REG rg of
        None \<Rightarrow> js_int 0
      | Some (lo, hi) \<Rightarrow>
          if f_le hi lo then js_int 0
          else (let bm = js_div bw (js_int 1000); n = js_floor (js_div (js_sub hi lo) bm) in
            if n < 1 then js_int 0
            else (let cn = js_djb2 nm mod n in
              js_add (js_add lo (js_div bm (js_int 2))) (js_mul (js_int cn) bm))))"

section \<open>Functions\<close>

text \<open>
  The values of the fields, and per radio the last computed frequency (\<open>PC\<close>), the last protocol
  (\<open>LASTP\<close>) and the last LoRaWAN region (\<open>LR\<close>); \<open>None\<close> is the initial 0 or null, equal to no text.
\<close>

record script_page =
  pg_value :: form
  pg_pc :: "nat \<Rightarrow> bytes option"
  pg_lastp :: "nat \<Rightarrow> bytes option"
  pg_lr :: "nat \<Rightarrow> bytes option"

definition fresh_page :: "form \<Rightarrow> script_page" where
  "fresh_page f = \<lparr>pg_value = f, pg_pc = \<lambda>n. None, pg_lastp = \<lambda>n. None, pg_lr = \<lambda>n. None\<rparr>"

definition gv :: "script_page \<Rightarrow> nat \<Rightarrow> string \<Rightarrow> bytes" where
  "gv s n name = pg_value s (radio_name n name)"

definition put :: "nat \<Rightarrow> string \<Rightarrow> bytes \<Rightarrow> script_page \<Rightarrow> script_page" where
  "put n name v s = s\<lparr>pg_value := (pg_value s)(radio_name n name := v)\<rparr>"

definition put_pc :: "nat \<Rightarrow> bytes \<Rightarrow> script_page \<Rightarrow> script_page" where
  "put_pc n v s = s\<lparr>pg_pc := (pg_pc s)(n := Some v)\<rparr>"

definition setF :: "nat \<Rightarrow> fval \<Rightarrow> script_page \<Rightarrow> script_page" where
  "setF n f s =
     (if f_le f (js_int 0) then s
      else (let fs = js_toFixed 3 f;
                s = (if gv s n ''Freq'' = [] \<or> pg_pc s n = Some (gv s n ''Freq'') then put n ''Freq'' fs s else s)
            in put_pc n fs s))"

definition lwFill :: "nat \<Rightarrow> bytes \<Rightarrow> nat \<Rightarrow> script_page \<Rightarrow> script_page" where
  "lwFill n reg slot s =
     (case LW reg of
        None \<Rightarrow> s
      | Some slots \<Rightarrow>
          if length slots \<le> slot then s
          else (case slots ! slot of (f, sf, bw) \<Rightarrow>
            put n ''Cr'' (str ''5'') (put n ''Bw'' (js_toFixed 1 (js_int bw)) (put n ''Sf'' (fmt_u sf)
              (put_pc n f (put n ''Freq'' f s))))))"

text \<open>A region chosen: the first slot of the region is filled in. A slot chosen; the first entry keeps the fields.\<close>

definition lwReg :: "nat \<Rightarrow> script_page \<Rightarrow> script_page" where
  "lwReg n s =
     (let reg = gv s n ''lwreg''; s = s\<lparr>pg_lr := (pg_lr s)(n := Some reg)\<rparr> in
      if LW reg = None then s else lwFill n reg 0 s)"

definition lwSlot :: "nat \<Rightarrow> int \<Rightarrow> script_page \<Rightarrow> script_page" where
  "lwSlot n slot s = (if 0 \<le> slot then lwFill n (gv s n ''lwreg'') (nat slot) s else s)"

definition MC_PUBLIC_KEY :: bytes where
  "MC_PUBLIC_KEY = str ''8b3387e9c5cdea6ac9e5edbaa115cd72''"

text \<open>The defaults of the protocol just chosen.\<close>

definition protocol_fill :: "nat \<Rightarrow> bytes \<Rightarrow> script_page \<Rightarrow> script_page" where
  "protocol_fill n p s =
     (if p = str ''2'' then
        put_pc n (str ''910.525'') (put n ''Freq'' (str ''910.525'') (put n ''Cr'' (str ''5'')
          (put n ''Sf'' (str ''7'') (put n ''Bw'' (str ''62.5'') (put n ''ChannelKey'' MC_PUBLIC_KEY s)))))
      else if p = str ''1'' then put n ''ChannelKey'' (str ''AQ=='') s
      else if p = str ''3'' then
        put_pc n (str ''914.875'') (put n ''Freq'' (str ''914.875'') (put n ''Cr'' (str ''5'')
          (put n ''Sf'' (str ''8'') (put n ''Bw'' (str ''125.0'') s))))
      else s)"

definition show_preset :: "nat \<Rightarrow> script_page \<Rightarrow> script_page" where
  "show_preset n s =
     (case PRE (gv s n ''preset'') of
        None \<Rightarrow> s
      | Some (bw, sf, cr) \<Rightarrow>
          put n ''Cr'' (fmt_u (unat cr)) (put n ''Sf'' (fmt_u (unat sf)) (put n ''Bw'' (js_toFixed 1 bw) s)))"

text \<open>The channel name of a radio, locked for some protocols and keys.\<close>

definition locked_name :: "bytes \<Rightarrow> bytes \<Rightarrow> bytes \<Rightarrow> bytes \<Rightarrow> bytes" where
  "locked_name p ps ckv nm =
     (if p = str ''5'' then str ''N/A''
      else if p = str ''1'' then (if ckv = [] \<or> ckv = str ''AQ=='' then (case PN ps of None \<Rightarrow> str ''undefined'' | Some x \<Rightarrow> x) else nm)
      else if p = str ''2'' then (if toLower ckv = MC_PUBLIC_KEY then str ''public'' else nm)
      else (let nm = (if nm = str ''N/A'' \<and> p \<noteq> str ''4'' then [] else nm) in
        if p = str ''4'' \<and> nm = [] then str ''N/A'' else nm))"

text \<open>\<open>upd\<close>: the fields first, then the frequency.\<close>

definition upd_fields :: "nat \<Rightarrow> bytes \<Rightarrow> script_page \<Rightarrow> script_page" where
  "upd_fields n p s =
     (let s = (case pg_lastp s n of None \<Rightarrow> s | Some q \<Rightarrow> if q \<noteq> p then protocol_fill n p s else s);
          s = s\<lparr>pg_lastp := (pg_lastp s)(n := Some p)\<rparr>;
          s = (if p = str ''1'' then show_preset n s else s)
      in put n ''ChannelName'' (locked_name p (gv s n ''preset'') (gv s n ''ChannelKey'') (gv s n ''ChannelName'')) s)"

definition upd_frequency :: "nat \<Rightarrow> bytes \<Rightarrow> script_page \<Rightarrow> script_page" where
  "upd_frequency n p s =
     (if p = str ''1'' then
        (case (PN (gv s n ''preset''), PRE (gv s n ''preset'')) of
           (Some nm, Some (bw, sf, cr)) \<Rightarrow> setF n (js_slot (pg_value s (str ''region'')) nm bw) s
         | _ \<Rightarrow> s)
      else if p = str ''5'' \<and> pg_lr s n \<noteq> Some (gv s n ''lwreg'') then s\<lparr>pg_lr := (pg_lr s)(n := Some (gv s n ''lwreg''))\<rparr>
      else s)"

definition upd :: "nat \<Rightarrow> script_page \<Rightarrow> script_page" where
  "upd n s = (let p = gv s n ''proto'' in upd_frequency n p (upd_fields n p s))"

definition updAll :: "script_page \<Rightarrow> script_page" where
  "updAll s = foldl (\<lambda>t n. upd n t) s [1, 2, 3, 4]"

end
