(* ===== verification/PortalReload.thy ===== *)
theory PortalReload
  imports PortalScript PortalResave
begin

text \<open>
  The whole configuration page in a browser: loaded, its script run, and posted back unedited. The
  radios keep their plan; what does change is stated: locked channel names, the default key
  written out, the key of a LoRaWAN radio, routes to radios that are off.
\<close>

section \<open>What loading the page changes\<close>

lemma radio_name_eq: "n < 10 \<Longrightarrow> m < 10 \<Longrightarrow> radio_name n a = radio_name m b \<longleftrightarrow> n = m \<and> str a = str b"
proof -
  assume ij: "n < 10" "m < 10"
  have "(of_char CHR ''0'' + of_nat n :: u8) = of_char CHR ''0'' + of_nat m \<longleftrightarrow> n = m"
    using ij by (simp add: word_unat_eq_iff unat_of_nat unat_word_ariths)
  then show ?thesis using ij by (simp add: radio_name_def fmt_u_digit)
qed

lemma put_simps [simp]:
  "pg_pc (put n a v s) = pg_pc s" "pg_lastp (put n a v s) = pg_lastp s" "pg_lr (put n a v s) = pg_lr s"
  "pg_value (put_pc n v s) = pg_value s" "pg_lastp (put_pc n v s) = pg_lastp s" "gv (put_pc n v s) = gv s"
  "pg_pc (put_pc n v s) = (pg_pc s)(n := Some v)"
  by (simp_all add: put_def put_pc_def gv_def fun_eq_iff)

lemma gv_put: "n < 10 \<Longrightarrow> m < 10 \<Longrightarrow> gv (put n a v s) m b = (if m = n \<and> str b = str a then v else gv s m b)"
  using radio_name_eq [of m n b a] by (simp add: gv_def put_def)

lemma gv_marks [simp]: "gv (s\<lparr>pg_lastp := l\<rparr>) = gv s" "gv (s\<lparr>pg_lr := l\<rparr>) = gv s"
  by (simp_all add: gv_def fun_eq_iff)

lemma value_put: "k \<noteq> radio_name n a \<Longrightarrow> pg_value (put n a v s) k = pg_value s k"
  by (simp add: put_def)

lemma setF_loaded:
  assumes "pg_pc s n = None" and "gv s n ''Freq'' \<noteq> []"
  shows "pg_value (setF n f s) = pg_value s" and "pg_lastp (setF n f s) = pg_lastp s"
    and "m \<noteq> n \<Longrightarrow> pg_pc (setF n f s) m = pg_pc s m"
  using assms by (simp_all add: setF_def Let_def put_pc_def)

lemma show_preset_marks [simp]: "pg_lastp (show_preset n s) = pg_lastp s" "pg_pc (show_preset n s) = pg_pc s"
  by (simp_all add: show_preset_def split: option.splits prod.splits)

lemma show_preset_value:
  assumes "n < 10" and "m < 10" and "m \<noteq> n \<or> str b \<notin> {str ''Bw'', str ''Sf'', str ''Cr''}"
  shows "gv (show_preset n s) m b = gv s m b"
  using assms by (auto simp: show_preset_def gv_put split: option.splits)

text \<open>One radio, on a page just loaded.\<close>

definition shown :: "nat \<Rightarrow> script_page \<Rightarrow> script_page" where
  "shown n s = (if gv s n ''proto'' = str ''1'' then show_preset n s else s)"

definition shown_name :: "nat \<Rightarrow> script_page \<Rightarrow> bytes" where
  "shown_name n s = locked_name (gv s n ''proto'') (gv s n ''preset'') (gv s n ''ChannelKey'') (gv s n ''ChannelName'')"

definition just_loaded :: "nat \<Rightarrow> script_page \<Rightarrow> bool" where
  "just_loaded n s \<longleftrightarrow> pg_lastp s n = None \<and> pg_pc s n = None \<and> gv s n ''Freq'' \<noteq> []"

lemma shown_marks [simp]: "pg_lastp (shown n s) = pg_lastp s" "pg_pc (shown n s) = pg_pc s"
  by (simp_all add: shown_def)

lemma shown_value:
  assumes "n < 10" and "m < 10" and "m \<noteq> n \<or> str b \<notin> {str ''Bw'', str ''Sf'', str ''Cr''}"
  shows "gv (shown n s) m b = gv s m b"
  using show_preset_value [OF assms] by (simp add: shown_def)

lemma str_distinct:
  "str ''Freq'' \<noteq> str ''ChannelName''" "str ''Freq'' \<notin> {str ''Bw'', str ''Sf'', str ''Cr''}"
  "str ''preset'' \<notin> {str ''Bw'', str ''Sf'', str ''Cr''}" "str ''ChannelKey'' \<notin> {str ''Bw'', str ''Sf'', str ''Cr''}"
  "str ''ChannelName'' \<notin> {str ''Bw'', str ''Sf'', str ''Cr''}"
  by (simp_all add: str_def)

lemma upd_loaded:
  assumes n: "n < 10" and l: "just_loaded n s"
  shows "gv (upd n s) = gv (put n ''ChannelName'' (shown_name n s) (shown n s))"
    and "m \<noteq> n \<Longrightarrow> pg_lastp (upd n s) m = pg_lastp s m" and "m \<noteq> n \<Longrightarrow> pg_pc (upd n s) m = pg_pc s m"
proof -
  define p where "p = gv s n ''proto''"
  define t where "t = put n ''ChannelName'' (shown_name n s) (shown n (s\<lparr>pg_lastp := (pg_lastp s)(n := Some p)\<rparr>))"
  have sv: "shown n (s\<lparr>pg_lastp := x\<rparr>) = (shown n s)\<lparr>pg_lastp := x\<rparr>" for x
    by (simp add: shown_def show_preset_def put_def gv_def split: option.splits prod.splits)
  have tv: "gv t = gv (put n ''ChannelName'' (shown_name n s) (shown n s))"
    by (simp add: t_def sv gv_def put_def fun_eq_iff)
  have tf: "pg_pc t n = None" "gv t n ''Freq'' \<noteq> []"
    using l str_distinct by (simp_all add: t_def just_loaded_def gv_put n shown_value)
  define q where "q = s\<lparr>pg_lastp := (pg_lastp s)(n := Some p)\<rparr>"
  have q: "(if p = str ''1'' then show_preset n q else q) = shown n q" by (simp add: shown_def q_def p_def)
  have name: "locked_name p (gv (shown n q) n ''preset'') (gv (shown n q) n ''ChannelKey'') (gv (shown n q) n ''ChannelName'') = shown_name n s"
    using str_distinct by (simp add: shown_name_def p_def q_def shown_value n)
  have "pg_lastp s n = None" using l by (simp add: just_loaded_def)
  then have "upd_fields n p s = t"
    by (simp only: upd_fields_def Let_def option.case q_def [symmetric] q name t_def)
  then have u: "upd n s = upd_frequency n p t" by (simp add: upd_def p_def)
  show "gv (upd n s) = gv (put n ''ChannelName'' (shown_name n s) (shown n s))"
    unfolding u tv [symmetric] upd_frequency_def using setF_loaded(1) [OF tf] by (auto simp: gv_def fun_eq_iff split: option.splits)
  have m: "pg_lastp t m = (if m = n then Some p else pg_lastp s m)" "pg_pc t m = pg_pc s m" for m
    by (simp_all add: t_def)
  show "m \<noteq> n \<Longrightarrow> pg_lastp (upd n s) m = pg_lastp s m" "m \<noteq> n \<Longrightarrow> pg_pc (upd n s) m = pg_pc s m"
    unfolding u upd_frequency_def using setF_loaded(2,3) [OF tf] by (auto simp: m split: option.splits)
qed

text \<open>The other radios' fields, and the fields of no radio, stay.\<close>

lemma upd_loaded_other:
  assumes "n < 10" and "m < 10" and "m \<noteq> n" and "just_loaded n s"
  shows "gv (upd n s) m a = gv s m a" and "just_loaded m s \<Longrightarrow> just_loaded m (upd n s)"
proof -
  show v: "gv (upd n s) m a = gv s m a" for a
    using assms by (simp add: upd_loaded(1) gv_put shown_value)
  show "just_loaded m s \<Longrightarrow> just_loaded m (upd n s)"
    using upd_loaded(2,3) [OF assms(1,4,3)] by (simp add: just_loaded_def v)
qed

lemma upd_loaded_self:
  assumes "n < 10" and "just_loaded n s"
  shows "gv (upd n s) n ''ChannelName'' = shown_name n s"
    and "str a \<notin> {str ''ChannelName'', str ''Bw'', str ''Sf'', str ''Cr''} \<Longrightarrow> gv (upd n s) n a = gv s n a"
    and "gv s n ''proto'' \<noteq> str ''1'' \<Longrightarrow> str a \<noteq> str ''ChannelName'' \<Longrightarrow> gv (upd n s) n a = gv s n a"
  using assms by (simp_all add: upd_loaded(1) gv_put shown_value) (simp add: shown_def)

lemma upds_loaded:
  assumes "\<forall>m \<in> set ms. just_loaded m u" and "distinct ms" and "set ms \<subseteq> {1, 2, 3, 4}" and "n \<in> {1, 2, 3, 4} - set ms"
  shows "(\<forall>b. gv (foldl (\<lambda>t m. upd m t) u ms) n b = gv u n b) \<and>
    (\<forall>k \<in> {1, 2, 3, 4} - set ms. just_loaded k u \<longrightarrow> just_loaded k (foldl (\<lambda>t m. upd m t) u ms))"
  using assms
proof (induction ms arbitrary: u)
  case (Cons m ms)
  have m: "m < 10" "n < 10" "n \<noteq> m" "just_loaded m u" using Cons.prems by auto
  have rest: "just_loaded k (upd m u)" if "k \<in> {1, 2, 3, 4}" "k \<noteq> m" "just_loaded k u" for k
    by (rule upd_loaded_other(2) [OF m(1) _ that(2) m(4) that(3)]) (use that(1) in auto)
  have later: "\<forall>k \<in> set ms. just_loaded k (upd m u)"
  proof
    fix k assume k: "k \<in> set ms"
    show "just_loaded k (upd m u)" by (rule rest) (use k Cons.prems in auto)
  qed
  have same: "gv (upd m u) n b = gv u n b" for b by (rule upd_loaded_other(1) [OF m(1,2,3,4)])
  have ih: "(\<forall>b. gv (foldl (\<lambda>t m. upd m t) (upd m u) ms) n b = gv (upd m u) n b) \<and>
    (\<forall>k \<in> {1, 2, 3, 4} - set ms. just_loaded k (upd m u) \<longrightarrow> just_loaded k (foldl (\<lambda>t m. upd m t) (upd m u) ms))"
    by (rule Cons.IH [OF later]) (use Cons.prems in auto)
  show ?case unfolding foldl_Cons
  proof (intro conjI ballI impI allI)
    show "gv (foldl (\<lambda>t m. upd m t) (upd m u) ms) n b = gv u n b" for b using ih same by simp
    fix k assume k: "k \<in> {1, 2, 3, 4} - set (m # ms)" "just_loaded k u"
    then have "just_loaded k (upd m u)" by (intro rest) auto
    then show "just_loaded k (foldl (\<lambda>t m. upd m t) (upd m u) ms)" using ih k(1) by simp
  qed
qed simp

lemma page_loaded:
  assumes "\<forall>m \<in> {1, 2, 3, 4}. just_loaded m s" and "n \<in> {1, 2, 3, 4}"
  shows "gv (updAll s) n ''ChannelName'' = shown_name n s"
    and "str a \<notin> {str ''ChannelName'', str ''Bw'', str ''Sf'', str ''Cr''} \<Longrightarrow> gv (updAll s) n a = gv s n a"
    and "gv s n ''proto'' \<noteq> str ''1'' \<Longrightarrow> str a \<noteq> str ''ChannelName'' \<Longrightarrow> gv (updAll s) n a = gv s n a"
proof -
  define before where "before = filter (\<lambda>m. m < n) [1, 2, 3, 4]"
  define after where "after = filter (\<lambda>m. n < m) [1, 2, 3, 4]"
  have split: "[1, 2, 3, 4] = before @ n # after" using assms(2) by (auto simp: before_def after_def)
  define t where "t = foldl (\<lambda>t m. upd m t) s before"
  have bd: "distinct (before @ n # after)" "set (before @ n # after) \<subseteq> {1, 2, 3, 4}" unfolding split [symmetric] by simp_all
  have bl: "\<forall>m \<in> set before. just_loaded m s" "distinct before" "set before \<subseteq> {1, 2, 3, 4}" "n \<in> {1, 2, 3, 4} - set before"
    using assms bd by auto
  have t1: "gv t n b = gv s n b" for b using upds_loaded [OF bl] by (simp add: t_def)
  have all: "\<forall>k \<in> {1, 2, 3, 4} - set before. just_loaded k t" using upds_loaded [OF bl] assms(1) by (simp add: t_def)
  have t2: "just_loaded n t" "\<forall>k \<in> set after. just_loaded k t" using all bl(4) bd by auto
  have n: "n < 10" using assms(2) by auto
  have t3: "\<forall>k \<in> set after. just_loaded k (upd n t)"
  proof
    fix k assume k: "k \<in> set after"
    then have "k < 10" "k \<noteq> n" using bd by auto
    then show "just_loaded k (upd n t)" using upd_loaded_other(2) [OF n _ _ t2(1)] t2(2) k by blast
  qed
  have al: "distinct after" "set after \<subseteq> {1, 2, 3, 4}" "n \<in> {1, 2, 3, 4} - set after" using assms(2) bd by auto
  have end_same: "gv (updAll s) n b = gv (upd n t) n b" for b
    using upds_loaded [OF t3 al] by (simp only: updAll_def split t_def foldl_append foldl_Cons)
  have nm: "shown_name n t = shown_name n s" by (simp add: shown_name_def t1)
  show "gv (updAll s) n ''ChannelName'' = shown_name n s"
    by (simp add: end_same upd_loaded_self(1) [OF n t2(1)] nm)
  show "str a \<notin> {str ''ChannelName'', str ''Bw'', str ''Sf'', str ''Cr''} \<Longrightarrow> gv (updAll s) n a = gv s n a"
    by (simp add: end_same upd_loaded_self(2) [OF n t2(1)] t1)
  show "gv s n ''proto'' \<noteq> str ''1'' \<Longrightarrow> str a \<noteq> str ''ChannelName'' \<Longrightarrow> gv (updAll s) n a = gv s n a"
    by (simp add: end_same upd_loaded_self(3) [OF n t2(1)] t1)
qed

text \<open>
  While the protocol stays, an update overwrites no typed value: every field but the name is kept, for
  Meshtastic also the frequency when it is neither empty nor the value the script computed last.
\<close>

theorem typed_values_kept:
  assumes n: "n < 10" and last: "pg_lastp s n = Some (gv s n ''proto'')"
  shows "gv s n ''proto'' \<noteq> str ''1'' \<Longrightarrow> str a \<noteq> str ''ChannelName'' \<Longrightarrow> gv (upd n s) n a = gv s n a"
    and "gv s n ''Freq'' \<noteq> [] \<Longrightarrow> pg_pc s n \<noteq> Some (gv s n ''Freq'') \<Longrightarrow> gv (upd n s) n ''Freq'' = gv s n ''Freq''"
    and "gv (upd n s) n ''ChannelKey'' = gv s n ''ChannelKey''"
proof -
  define p where "p = gv s n ''proto''"
  define t where "t = upd_fields n p s"
  have u: "upd n s = upd_frequency n p t" by (simp add: upd_def Let_def p_def t_def)
  have q: "s\<lparr>pg_lastp := (pg_lastp s)(n := Some p)\<rparr> = s" using last by (simp add: p_def fun_upd_idem)
  have sh: "(if p = str ''1'' then show_preset n s else s) = shown n s" by (simp add: shown_def p_def)
  have lp: "pg_lastp s n = Some p" using last by (simp add: p_def)
  obtain nm where t: "t = put n ''ChannelName'' nm (shown n s)"
  proof
    show "t = put n ''ChannelName'' (locked_name p (gv (shown n s) n ''preset'') (gv (shown n s) n ''ChannelKey'')
        (gv (shown n s) n ''ChannelName'')) (shown n s)"
      unfolding t_def upd_fields_def Let_def lp option.case by (simp only: simp_thms if_False q sh)
  qed
  have tv: "gv t n b = gv s n b" if "str b \<notin> {str ''ChannelName'', str ''Bw'', str ''Sf'', str ''Cr''}" for b
    using that by (simp add: t gv_put n shown_value)
  have o: "gv (upd_frequency n p t) n b = gv t n b" if "str b \<noteq> str ''Freq''" for b
    using that by (auto simp: upd_frequency_def setF_def Let_def gv_put n split: option.splits)
  show "gv (upd n s) n ''ChannelKey'' = gv s n ''ChannelKey''" using tv o by (simp add: u str_def)
  show "gv s n ''proto'' \<noteq> str ''1'' \<Longrightarrow> str a \<noteq> str ''ChannelName'' \<Longrightarrow> gv (upd n s) n a = gv s n a"
    by (simp add: u upd_frequency_def p_def [symmetric] t shown_def gv_put n)
  assume f: "gv s n ''Freq'' \<noteq> []" "pg_pc s n \<noteq> Some (gv s n ''Freq'')"
  have "gv t n ''Freq'' = gv s n ''Freq''" "pg_pc t n = pg_pc s n" using tv [of "''Freq''"] str_distinct by (simp_all add: t)
  then show "gv (upd n s) n ''Freq'' = gv s n ''Freq''"
    using f by (auto simp: u upd_frequency_def setF_def Let_def split: option.splits)
qed

section \<open>The fields of a radio\<close>

lemma appendRadio_names: "c \<in> set (appendRadio b m) \<Longrightarrow> \<exists>y. ctl_name c = str ''r'' @ fmt_u m @ y"
  by (auto simp: radio_section Let_def route_boxes_def radio_name_def)

lemma posted_radio:
  assumes n: "n \<in> {1, 2, 3, 4}"
  shows "posted (renderForm enc c s) (str ''r'' @ fmt_u n @ x) = posted (appendRadio c n) (str ''r'' @ fmt_u n @ x)"
proof -
  have n9: "n < 10" using n by auto
  have "\<forall>y \<in> set (identity_controls c). ctl_name y \<noteq> str ''r'' @ fmt_u n @ x"
    using n by (auto simp: identity_controls_def appendRegionSelect_def str_def fmt_u_digit)
  moreover have "\<forall>y \<in> set (appendLoRaWANDevices s). ctl_name y \<noteq> str ''r'' @ fmt_u n @ x"
    by (auto simp: appendLoRaWANDevices_def device_name_def str_def dest!: device_control_names)
  moreover have "posted (concat (map (appendRadio c) [1..<Suc NUM_RADIOS])) (str ''r'' @ fmt_u n @ x) =
      posted (appendRadio c n) (str ''r'' @ fmt_u n @ x)"
  proof (rule posted_section)
    show "n \<in> set [1..<Suc NUM_RADIOS]" using n by (auto simp: NUM_RADIOS_def)
    show "\<forall>m \<in> set [1..<Suc NUM_RADIOS]. m \<noteq> n \<longrightarrow> (\<forall>y \<in> set (appendRadio c m). ctl_name y \<noteq> str ''r'' @ fmt_u n @ x)"
    proof (intro ballI impI notI)
      fix m y assume m: "m \<in> set [1..<Suc NUM_RADIOS]" "m \<noteq> n" and y: "y \<in> set (appendRadio c m)" "ctl_name y = str ''r'' @ fmt_u n @ x"
      then obtain z where z: "str ''r'' @ fmt_u m @ z = str ''r'' @ fmt_u n @ x" using appendRadio_names by fastforce
      have m9: "m < 10" using m(1) by (auto simp: NUM_RADIOS_def)
      have "(of_char CHR ''0'' + of_nat m :: u8) = of_char CHR ''0'' + of_nat n"
        using z by (simp add: fmt_u_digit [OF m9] fmt_u_digit [OF n9])
      then show False using m(2) m9 n9 by (simp add: word_unat_eq_iff unat_of_nat unat_word_ariths)
    qed
  qed simp
  ultimately show ?thesis
    by (simp add: renderForm_def posted_skip posted_within del: upt_Suc set_concat append_assoc)
qed

lemma posted_boxes:
  assumes "distinct js" and "j \<in> set js" and "\<forall>k \<in> set js. g k = g j \<longrightarrow> k = j"
  shows "posted (map (\<lambda>j. Check_box (g j) (b j)) (filter P js)) (g j) = (if P j \<and> b j then str ''1'' else [])"
  using assms
proof (induction js)
  case (Cons k js)
  show ?case
  proof (cases "k = j")
    case True
    then have "posted (map (\<lambda>j. Check_box (g j) (b j)) (filter P js)) (g j) = []"
      using Cons.prems by (intro posted_none) auto
    then show ?thesis using True by (simp add: posted_Cons)
  next
    case False
    then show ?thesis using Cons by (auto simp: posted_Cons)
  qed
qed simp

lemma digits_no_amp: "of_char CHR ''&'' \<notin> set (fmt_u n)"
  using fmt_u_chars [of n] by (auto simp: list_all_iff is_hex_char_def)

lemma plain_dec: "html_text (fmt_d i) = fmt_d i"
  by (rule html_text_plain) (use digits_no_amp in \<open>simp add: fmt_d_def\<close>)

lemma plain_fixed: "html_text (bounded_copy k (fmt_fixed p x)) = bounded_copy k (fmt_fixed p x)"
proof (rule html_text_plain)
  have "of_char CHR ''&'' \<notin> set (fmt_fixed p x)"
    using digits_no_amp by (auto simp: fmt_fixed_def str_def zero_pad_def Let_def split: fval.splits prod.splits)
  then show "of_char CHR ''&'' \<notin> set (bounded_copy k (fmt_fixed p x))" by (auto simp: bounded_copy_def dest: in_set_takeD)
qed

lemma plain_02X: "html_text (fmt_02X b) = fmt_02X b"
  using hex_no_amp [OF HEX_of_chars, of "[b]"] by (simp add: fmt_02X_def)

lemma radio_fields:
  fixes c n
  defines "r \<equiv> bc_slot c (int n - 1)"
  shows "rs_protocol r \<in> set kProto \<Longrightarrow> posted (appendRadio c n) (radio_name n ''proto'') = fmt_u (unat (rs_protocol r))"
    and "posted (appendRadio c n) (radio_name n ''ChannelName'') = rs_channelName r"
    and "posted (appendRadio c n) (radio_name n ''ChannelKey'') =
      (if rs_protocol r = PROTO_MT \<and> rs_channelKey r = [] then str ''AQ=='' else rs_channelKey r)"
    and "rs_lwRegion r \<le> 4 \<Longrightarrow> posted (appendRadio c n) (radio_name n ''lwreg'') = fmt_u (unat (rs_lwRegion r))"
    and "posted (appendRadio c n) (radio_name n ''Freq'') = bounded_copy 16 (fmt_fixed 3 (f32_of_bits (rs_frequency r)))"
    and "posted (appendRadio c n) (radio_name n ''Tx'') = fmt_d (sint (rs_txPower r))"
    and "posted (appendRadio c n) (radio_name n ''Bw'') = bounded_copy 16 (fmt_fixed 1 (f32_of_bits (rs_bandwidth r)))"
    and "posted (appendRadio c n) (radio_name n ''Sf'') = fmt_u (unat (rs_sf r))"
    and "posted (appendRadio c n) (radio_name n ''Cr'') = fmt_u (unat (rs_cr r))"
    and "posted (appendRadio c n) (radio_name n ''Sync'') = fmt_02X (rs_syncWord r)"
proof -
  note defs = radio_section Let_def posted_Cons radio_name_def str_def r_def
  have lw: "rs_lwRegion r \<le> 4 \<Longrightarrow> rs_lwRegion r \<in> {0, 1, 2, 3, 4}"
  proof -
    assume "rs_lwRegion r \<le> 4"
    then have "unat (rs_lwRegion r) \<le> 4" by (simp add: word_le_nat_alt)
    then have "unat (rs_lwRegion r) \<in> {0, 1, 2, 3, 4}" by auto
    then show ?thesis by (auto simp: word_unat_eq_iff)
  qed
  show "rs_protocol r \<in> set kProto \<Longrightarrow> posted (appendRadio c n) (radio_name n ''proto'') = fmt_u (unat (rs_protocol r))"
    by (simp add: defs chosen_numbered)
  show "rs_lwRegion r \<le> 4 \<Longrightarrow> posted (appendRadio c n) (radio_name n ''lwreg'') = fmt_u (unat (rs_lwRegion r))"
    using lw by (simp add: defs chosen_numbered)
  have aq: "html_text (str ''AQ=='') = str ''AQ==''" by (rule html_text_plain) (simp add: str_def)
  show "posted (appendRadio c n) (radio_name n ''ChannelKey'') =
      (if rs_protocol r = PROTO_MT \<and> rs_channelKey r = [] then str ''AQ=='' else rs_channelKey r)"
    using aq by (simp add: radio_section Let_def posted_Cons radio_name_def r_def shown_key_def html_text_escape)
      (simp add: str_def)
qed (simp_all add: radio_section Let_def posted_Cons radio_name_def str_def r_def html_text_escape plain_values plain_dec plain_fixed plain_02X)

section \<open>A page posted back\<close>

text \<open>The page as the browser posts it: rendered, loaded, its script run, nothing edited.\<close>

definition page_posted :: "bool \<Rightarrow> bridge_cfg \<Rightarrow> lw_state \<Rightarrow> form" where
  "page_posted enc c s = pg_value (updAll (fresh_page (posted (renderForm enc c s))))"

definition shown_preset :: "radio_slot \<Rightarrow> u8" where
  "shown_preset r = presetFromParams (f32_of_bits (rs_bandwidth r)) (rs_sf r) (rs_cr r)"

definition kept_key :: "radio_slot \<Rightarrow> bytes" where
  "kept_key r = (if rs_protocol r = PROTO_MT \<and> rs_channelKey r = [] then str ''AQ=='' else rs_channelKey r)"

definition kept_name :: "radio_slot \<Rightarrow> bytes" where
  "kept_name r = locked_name (fmt_u (unat (rs_protocol r))) (fmt_u (unat (shown_preset r))) (kept_key r) (rs_channelName r)"

lemma preset_listed: "shown_preset r \<in> {0, 1, 2, 3, 4, 5, 6, 7, 8}"
  by (simp add: shown_preset_def presetFromParams_def split: option.splits)

lemma preset_field:
  "posted (appendRadio c n) (radio_name n ''preset'') = fmt_u (unat (shown_preset (bc_slot c (int n - 1))))"
  using preset_listed [of "bc_slot c (int n - 1)"]
  by (simp add: radio_section Let_def posted_Cons radio_name_def str_def chosen_numbered flip: shown_preset_def)

lemma fresh_loaded:
  assumes "n \<in> {1, 2, 3, 4}"
  shows "just_loaded n (fresh_page (posted (renderForm enc c s)))"
    and "gv (fresh_page (posted (renderForm enc c s))) n a = posted (appendRadio c n) (radio_name n a)"
proof -
  show g: "gv (fresh_page (posted (renderForm enc c s))) n a = posted (appendRadio c n) (radio_name n a)" for a
    using posted_radio [OF assms] by (simp add: gv_def fresh_page_def radio_name_def)
  have "fmt_fixed 3 x \<noteq> []" for x by (simp add: fmt_fixed_def str_def Let_def split: fval.splits prod.splits)
  then have "bounded_copy 16 (fmt_fixed 3 x) \<noteq> []" for x by (simp add: bounded_copy_def)
  then show "just_loaded n (fresh_page (posted (renderForm enc c s)))"
    by (simp add: just_loaded_def g radio_fields(5)) (simp add: fresh_page_def)
qed

lemma page_fields:
  assumes n: "n \<in> {1, 2, 3, 4}"
  shows "radio_field (page_posted enc c s) n a = gv (updAll (fresh_page (posted (renderForm enc c s)))) n a"
    and "str a \<notin> {str ''ChannelName'', str ''Bw'', str ''Sf'', str ''Cr''} \<Longrightarrow>
      radio_field (page_posted enc c s) n a = posted (appendRadio c n) (radio_name n a)"
    and "posted (appendRadio c n) (radio_name n ''proto'') \<noteq> str ''1'' \<Longrightarrow> str a \<noteq> str ''ChannelName'' \<Longrightarrow>
      radio_field (page_posted enc c s) n a = posted (appendRadio c n) (radio_name n a)"
    and "rs_protocol (bc_slot c (int n - 1)) \<in> set kProto \<Longrightarrow>
      radio_field (page_posted enc c s) n ''ChannelName'' = kept_name (bc_slot c (int n - 1))"
proof -
  let ?s = "fresh_page (posted (renderForm enc c s))"
  have l: "\<forall>m \<in> {1, 2, 3, 4}. just_loaded m ?s" using fresh_loaded(1) by blast
  show v: "radio_field (page_posted enc c s) n a = gv (updAll ?s) n a" for a
    by (simp add: page_posted_def radio_field_def gv_def radio_name_def)
  show "str a \<notin> {str ''ChannelName'', str ''Bw'', str ''Sf'', str ''Cr''} \<Longrightarrow>
      radio_field (page_posted enc c s) n a = posted (appendRadio c n) (radio_name n a)"
    using page_loaded(2) [OF l n, of a] by (simp add: v fresh_loaded(2) [OF n])
  show "posted (appendRadio c n) (radio_name n ''proto'') \<noteq> str ''1'' \<Longrightarrow> str a \<noteq> str ''ChannelName'' \<Longrightarrow>
      radio_field (page_posted enc c s) n a = posted (appendRadio c n) (radio_name n a)"
    using page_loaded(3) [OF l n, of a] by (simp add: v fresh_loaded(2) [OF n])
  show "rs_protocol (bc_slot c (int n - 1)) \<in> set kProto \<Longrightarrow>
      radio_field (page_posted enc c s) n ''ChannelName'' = kept_name (bc_slot c (int n - 1))"
    using page_loaded(1) [OF l n]
    by (simp only: v shown_name_def fresh_loaded(2) [OF n] radio_fields preset_field kept_name_def kept_key_def)
qed

text \<open>Routes to radios that are off have no box on the page.\<close>

definition visible_routes :: "bridge_cfg \<Rightarrow> nat \<Rightarrow> u8" where
  "visible_routes c n =
     foldl (\<lambda>m j. if j \<noteq> n \<and> rs_protocol (bc_slot c (int j - 1)) \<noteq> PROTO_NONE \<and> bit (rs_routeMask (bc_slot c (int n - 1))) (j - 1)
        then m OR push_bit (j - 1) 1 else m) 0 [1..<Suc NUM_RADIOS]"

lemma route_field:
  assumes n: "n \<in> {1, 2, 3, 4}" and j: "j \<in> {1, 2, 3, 4}"
  shows "page_posted enc c s (str ''r'' @ fmt_u n @ str ''routeTo'' @ fmt_u j) =
    (if j \<noteq> n \<and> rs_protocol (bc_slot c (int j - 1)) \<noteq> PROTO_NONE \<and> bit (rs_routeMask (bc_slot c (int n - 1))) (j - 1) then str ''1'' else [])"
proof -
  obtain d where d: "fmt_u j = str [d]"
  proof -
    have "fmt_u j \<in> {str ''1'', str ''2'', str ''3'', str ''4''}" using j by (auto simp: fmt_u_digit str_def)
    then show thesis using that by blast
  qed
  define a where "a = ''routeTo'' @ [d]"
  have key: "str ''r'' @ fmt_u n @ str ''routeTo'' @ fmt_u j = radio_name n a" by (simp add: radio_name_def a_def d str_def)
  have "page_posted enc c s (radio_name n a) = posted (appendRadio c n) (radio_name n a)"
  proof -
    have "str a \<notin> {str ''ChannelName'', str ''Bw'', str ''Sf'', str ''Cr''}" by (simp add: a_def str_def)
    from page_fields(2) [OF n this, of enc c s] show ?thesis by (simp add: radio_field_def radio_name_def)
  qed
  also have "\<dots> = posted (route_boxes c n) (radio_name n ''routeTo'' @ fmt_u j)"
    by (simp add: radio_section Let_def posted_Cons radio_name_def a_def d str_def)
  also have "\<dots> = (if (j \<noteq> n \<and> rs_protocol (bc_slot c (int j - 1)) \<noteq> PROTO_NONE) \<and> bit (rs_routeMask (bc_slot c (int n - 1))) (j - 1) then str ''1'' else [])"
    unfolding route_boxes_def
  proof (rule posted_boxes)
    show "\<forall>k \<in> set [1..<Suc NUM_RADIOS]. radio_name n ''routeTo'' @ fmt_u k = radio_name n ''routeTo'' @ fmt_u j \<longrightarrow> k = j"
      using j by (auto simp: NUM_RADIOS_def fmt_u_digit word_unat_eq_iff unat_of_nat unat_word_ariths)
  qed (use j in \<open>auto simp: NUM_RADIOS_def\<close>)
  finally show ?thesis by (simp add: key)
qed

lemma route_mask_posted:
  assumes n: "n \<in> {1, 2, 3, 4}"
  shows "route_mask (page_posted enc c s) n = visible_routes c n"
proof -
  have r: "[1..<Suc NUM_RADIOS] = [1, 2, 3, 4]" by (rule all_four)
  have e: "page_posted enc c s (str ''r'' @ fmt_u n @ str ''routeTo'' @ fmt_u j) = str ''1'' \<longleftrightarrow>
      j \<noteq> n \<and> rs_protocol (bc_slot c (int j - 1)) \<noteq> PROTO_NONE \<and> bit (rs_routeMask (bc_slot c (int n - 1))) (j - 1)" if "j \<in> {1, 2, 3, 4}" for j
    using route_field [OF n that] by (simp add: str_def)
  show ?thesis unfolding route_mask_def visible_routes_def r using e by (intro foldl_cong) auto
qed

text \<open>
  A radio whose numbers the page prints exactly: the plan of a preset for a Meshtastic radio, a
  frequency of whole kHz, a bandwidth with one decimal, and names and keys without blanks at the ends.
\<close>

definition radio_printable :: "platform \<Rightarrow> u8 \<Rightarrow> radio_slot \<Rightarrow> bool" where
  "radio_printable pf region r \<longleftrightarrow>
     rs_protocol r \<in> set kProto \<and> rs_lwRegion r \<le> 4 \<and> sync_legal r \<and> plan_legal r \<and> power_legal region r \<and>
     pf_toFloat pf (bounded_copy 16 (fmt_fixed 3 (f32_of_bits (rs_frequency r)))) = rs_frequency r \<and>
     pf_trim pf (kept_name r) = kept_name r \<and> pf_trim pf (kept_key r) = kept_key r \<and>
     (if rs_protocol r = PROTO_MT then
        rs_bandwidth r = f32_bits (fst (modemPresetParams (shown_preset r))) \<and>
        (rs_sf r, rs_cr r) = snd (modemPresetParams (shown_preset r)) \<and> kept_name r \<noteq> [] \<and> psk_ok pf (kept_key r)
      else pf_toFloat pf (bounded_copy 16 (fmt_fixed 1 (f32_of_bits (rs_bandwidth r)))) = rs_bandwidth r \<and>
        (rs_protocol r = PROTO_MC \<longrightarrow> kept_name r \<noteq> [] \<and> isHexString (kept_key r) 32 \<and> toLower (kept_key r) = kept_key r))"

text \<open>What a page posted back makes of a radio.\<close>

definition resaved :: "bridge_cfg \<Rightarrow> nat \<Rightarrow> radio_slot" where
  "resaved c n =
     (let r = bc_slot c (int n - 1) in
      if rs_protocol r = PROTO_NONE then r
      else r\<lparr>rs_channelName := copyStr name_cap (kept_name r),
             rs_channelKey := copyStr key_cap (if rs_protocol r = PROTO_LORAWAN then [] else kept_key r),
             rs_routeMask := visible_routes c n\<rparr>)"

lemma byte_bound: "unat (x :: u8) < 2 ^ 31"
proof -
  have "unat x < 256" using uint_lt2p [of x] by (simp add: nat_less_iff flip: nat_uint_eq)
  then show ?thesis by simp
qed

lemma proto_mt: "fmt_u (unat x) = str ''1'' \<longleftrightarrow> x = PROTO_MT" if "x \<in> set kProto"
  using that by (auto simp: kProto_def PROTO_NONE_def PROTO_MT_def PROTO_MC_def PROTO_RNS_def PROTO_LORAWAN_def
      PROTO_CUSTOM_def fmt_u_digit str_def)

lemma ucast_byte_word: "ucast (ucast b :: u32) = (b :: u8)"
  by (rule bit_word_eqI) (auto simp: bit_simps)

lemma proto_zero: "rs_protocol r = PROTO_NONE \<Longrightarrow> rs_protocol r \<in> set kProto"
  by (simp add: kProto_def)

lemma posted_protocol:
  assumes laws: "string_laws pf" and n: "n \<in> {1, 2, 3, 4}" and p: "rs_protocol (bc_slot c (int n - 1)) \<in> set kProto"
  shows "word_of_int (pf_toInt pf (radio_field (page_posted enc c s) n ''proto'')) = rs_protocol (bc_slot c (int n - 1))"
proof -
  have "radio_field (page_posted enc c s) n ''proto'' = fmt_u (unat (rs_protocol (bc_slot c (int n - 1))))"
    using page_fields(2) [OF n, of "''proto''" enc c s] radio_fields(1) [OF p] by (simp add: str_def)
  then show ?thesis by (simp add: toInt_fmt_u [OF laws byte_bound])
qed

lemma posted_plan:
  assumes laws: "string_laws pf" and n: "n \<in> {1, 2, 3, 4}" and ok: "radio_printable pf region r"
    and r: "r = bc_slot c (int n - 1)" and p: "rs_protocol r \<noteq> PROTO_MT"
  shows "typed_plan pf (page_posted enc c s) n = Inr \<lparr>pl_bw = rs_bandwidth r, pl_sf = rs_sf r, pl_cr = rs_cr r\<rparr>"
proof -
  have k: "rs_protocol r \<in> set kProto" using ok by (simp add: radio_printable_def)
  have "posted (appendRadio c n) (radio_name n ''proto'') \<noteq> str ''1''"
    using radio_fields(1) [of c n] k proto_mt [OF k] p r by simp
  then have f: "radio_field (page_posted enc c s) n a = posted (appendRadio c n) (radio_name n a)" if "str a \<noteq> str ''ChannelName''" for a
    using page_fields(3) [OF n _ that] by blast
  have v: "radio_field (page_posted enc c s) n ''Bw'' = bounded_copy 16 (fmt_fixed 1 (f32_of_bits (rs_bandwidth r)))"
    "radio_field (page_posted enc c s) n ''Sf'' = fmt_u (unat (rs_sf r))" "radio_field (page_posted enc c s) n ''Cr'' = fmt_u (unat (rs_cr r))"
    by (simp_all add: f str_def radio_fields(7,8,9) r)
  have "pf_toFloat pf (bounded_copy 16 (fmt_fixed 1 (f32_of_bits (rs_bandwidth r)))) = rs_bandwidth r" "plan_legal r"
    using ok p by (simp_all add: radio_printable_def)
  then show ?thesis by (simp add: typed_plan_def v toInt_fmt_u [OF laws byte_bound] Let_def plan_legal_def not_less)
qed

lemma posted_preset:
  assumes laws: "string_laws pf" and n: "n \<in> {1, 2, 3, 4}" and ok: "radio_printable pf region r"
    and r: "r = bc_slot c (int n - 1)" and p: "rs_protocol r = PROTO_MT"
  shows "preset_plan pf (page_posted enc c s) n = \<lparr>pl_bw = rs_bandwidth r, pl_sf = rs_sf r, pl_cr = rs_cr r\<rparr>"
proof -
  have "radio_field (page_posted enc c s) n ''preset'' = fmt_u (unat (shown_preset r))"
    using page_fields(2) [OF n, of "''preset''" enc c s] preset_field [of c n] r by (simp add: str_def)
  moreover have "rs_bandwidth r = f32_bits (fst (modemPresetParams (shown_preset r)))"
    "(rs_sf r, rs_cr r) = snd (modemPresetParams (shown_preset r))"
    using ok p by (simp_all add: radio_printable_def)
  ultimately show ?thesis
    by (cases "modemPresetParams (shown_preset r)") (auto simp: preset_plan_def toInt_fmt_u [OF laws byte_bound])
qed

text \<open>The choice \<open>applyRadio\<close> makes of the posted page.\<close>

lemma posted_choice:
  assumes laws: "string_laws pf" and n: "n \<in> {1, 2, 3, 4}" and ok: "radio_printable pf region r"
    and r: "r = bc_slot c (int n - 1)" and p: "rs_protocol r \<noteq> PROTO_NONE"
  shows "\<exists>plan ch. read_plan pf (page_posted enc c s) n (rs_protocol r) = Inr plan \<and>
    choose_protocol pf (page_posted enc c s) n (rs_protocol r) (kept_name r) (kept_key r) plan = Inr ch \<and>
    rc_plan ch = \<lparr>pl_bw = rs_bandwidth r, pl_sf = rs_sf r, pl_cr = rs_cr r\<rparr> \<and> rc_sync ch = rs_syncWord r \<and>
    rc_key ch = (if rs_protocol r = PROTO_LORAWAN then [] else kept_key r) \<and>
    (rc_lwRegion ch = None \<or> rc_lwRegion ch = Some (rs_lwRegion r))"
proof -
  let ?f = "page_posted enc c s"
  let ?plan = "\<lparr>pl_bw = rs_bandwidth r, pl_sf = rs_sf r, pl_cr = rs_cr r\<rparr>"
  have sync: "sync_legal r" and lw: "rs_lwRegion r \<le> 4" using ok by (simp_all add: radio_printable_def)
  note P = PROTO_NONE_def PROTO_MT_def PROTO_MC_def PROTO_RNS_def PROTO_CUSTOM_def PROTO_LORAWAN_def
  have typed: "rs_protocol r \<noteq> PROTO_MT \<Longrightarrow> typed_plan pf ?f n = Inr ?plan" by (rule posted_plan [OF laws n ok r])
  have kp: "rs_protocol r \<in> set kProto" using ok by (simp add: radio_printable_def)
  consider "rs_protocol r = PROTO_CUSTOM" | "rs_protocol r = PROTO_MT" | "rs_protocol r = PROTO_MC"
    | "rs_protocol r = PROTO_LORAWAN" | "rs_protocol r = PROTO_RNS"
    using kp p by (auto simp: kProto_def)
  then show ?thesis
  proof cases
    case 1
    have x: "pf_trim pf (radio_field ?f n ''Sync'') = fmt_02X (rs_syncWord r)"
      using page_fields(2) [OF n, of "''Sync''" enc c s] radio_fields(10) [of c n] r HEX_is_hex(2) [of "rs_syncWord r"]
      by (simp add: str_def isHexString_def trim_hex [OF laws])
    show ?thesis using typed 1
      by (simp add: read_plan_def choose_protocol_def x Let_def HEX_is_hex hex_value_02X ucast_byte_word P)
  next
    case 2
    then show ?thesis using ok sync posted_preset [OF laws n ok r 2]
      by (auto simp: read_plan_def choose_protocol_def radio_printable_def sync_legal_def Let_def P)
  next
    case 3
    then show ?thesis using typed ok sync
      by (auto simp: read_plan_def choose_protocol_def radio_printable_def sync_legal_def Let_def P)
  next
    case 4
    have x: "radio_field ?f n ''lwreg'' = fmt_u (unat (rs_lwRegion r))"
      using page_fields(2) [OF n, of "''lwreg''" enc c s] radio_fields(4) [of c n] lw r by (simp add: str_def)
    show ?thesis using typed 4 sync lw
      by (auto simp: read_plan_def choose_protocol_def sync_legal_def x toInt_fmt_u [OF laws byte_bound] Let_def P)
  next
    case 5
    then show ?thesis using typed sync
      by (auto simp: read_plan_def choose_protocol_def sync_legal_def Let_def P)
  qed
qed

lemma radio_resaved:
  assumes laws: "string_laws pf" and n: "n \<in> {1, 2, 3, 4}" and l: "length (bc_radio c2) = NUM_RADIOS"
    and same: "bc_slot c2 (int (n - 1)) = bc_slot c (int n - 1)"
    and ok: "rs_protocol (bc_slot c (int n - 1)) = PROTO_NONE \<or> radio_printable pf region (bc_slot c (int n - 1))"
  shows "\<exists>c3. applyRadio pf (page_posted enc c s) n region c2 = (c3, None) \<and> length (bc_radio c3) = NUM_RADIOS \<and>
    (\<forall>j < NUM_RADIOS. bc_slot c3 (int j) = (if j = n - 1 then resaved c n else bc_slot c2 (int j)))"
proof -
  let ?f = "page_posted enc c s"
  define r where "r = bc_slot c (int n - 1)"
  have kp: "rs_protocol r \<in> set kProto" using ok proto_zero [of r] by (auto simp: radio_printable_def r_def)
  have proto: "word_of_int (pf_toInt pf (radio_field ?f n ''proto'')) = rs_protocol r"
    using posted_protocol [OF laws n] kp by (simp add: r_def)
  have m: "n - 1 < NUM_RADIOS" "clampRadio (int n - 1) = n - 1" "int (n - 1) = int n - 1"
    using n by (auto simp: NUM_RADIOS_def clampRadio_def)
  show ?thesis
  proof (cases "rs_protocol r = PROTO_NONE")
    case True
    have cl: "clampRadio (int j) = j" if "j < NUM_RADIOS" for j using that by (simp add: clampRadio_def)
    have "applyRadio pf ?f n region c2 = (setRadioProtocol (int n - 1) PROTO_NONE c2, None)"
      using proto True by (simp add: applyRadio_def)
    moreover have "bc_slot (setRadioProtocol (int n - 1) PROTO_NONE c2) (int j) = (if j = n - 1 then resaved c n else bc_slot c2 (int j))"
      if "j < NUM_RADIOS" for j
      using same True l m cl [OF that] by (auto simp: radio_setters bc_slot_set_slot resaved_def r_def [symmetric] Let_def simp del: of_nat_diff)
    ultimately show ?thesis using l by (auto simp: radio_setters)
  next
    case False
    then have ok': "radio_printable pf region r" using ok by (simp add: r_def)
    obtain plan ch where ch: "read_plan pf ?f n (rs_protocol r) = Inr plan"
      "choose_protocol pf ?f n (rs_protocol r) (kept_name r) (kept_key r) plan = Inr ch"
      "rc_plan ch = \<lparr>pl_bw = rs_bandwidth r, pl_sf = rs_sf r, pl_cr = rs_cr r\<rparr>" "rc_sync ch = rs_syncWord r"
      "rc_key ch = (if rs_protocol r = PROTO_LORAWAN then [] else kept_key r)"
      "rc_lwRegion ch = None \<or> rc_lwRegion ch = Some (rs_lwRegion r)"
      using posted_choice [OF laws n ok' r_def False] by blast
    have v: "radio_field ?f n ''ChannelKey'' = kept_key r" "radio_field ?f n ''Tx'' = fmt_d (sint (rs_txPower r))"
      "radio_field ?f n ''Freq'' = bounded_copy 16 (fmt_fixed 3 (f32_of_bits (rs_frequency r)))"
      using page_fields(2) [OF n, of "''ChannelKey''" enc c s] page_fields(2) [OF n, of "''Tx''" enc c s]
        page_fields(2) [OF n, of "''Freq''" enc c s] radio_fields(3,5,6) [of c n]
      by (simp_all add: str_def kept_key_def r_def)
    have nm: "radio_field ?f n ''ChannelName'' = kept_name r" using page_fields(4) [OF n] kp by (simp add: r_def)
    have t: "pf_toInt pf (fmt_d (sint (rs_txPower r))) = sint (rs_txPower r)" "clamp_tx region (sint (rs_txPower r)) = sint (rs_txPower r)"
      using ok' tx_cap_range [of region] toInt_fmt_d [OF laws, of "sint (rs_txPower r)"]
      by (auto simp: radio_printable_def power_legal_def clamp_tx_def Let_def SX1262_TX_MIN_def)
    have "applyRadio pf ?f n region c2 =
        (commit_radio ?f n (rs_protocol r) (rs_frequency r) (sint (rs_txPower r)) (kept_name r) ch c2, None)"
      using ok' False ch(1,2) by (simp add: applyRadio_def proto nm v t radio_printable_def plan_legal_def Let_def)
    moreover have "bc_slot (commit_radio ?f n (rs_protocol r) (rs_frequency r) (sint (rs_txPower r)) (kept_name r) ch c2) (int j) =
        (if j = n - 1 then resaved c n else bc_slot c2 (int j))" if "j < NUM_RADIOS" for j
      using ch(3-6) same False
      by (auto simp: commit_radio_slot [OF n l that] resaved_def r_def [symmetric] Let_def route_mask_posted [OF n] m(3) simp del: of_nat_diff)
    ultimately show ?thesis using l length_commit_radio by auto
  qed
qed


end
