(* ===== verification/PageSamples.thy ===== *)
theory PageSamples
  imports PortalReload PortalSamples CameraMedia
begin

text \<open>
  The configuration page on concrete configurations: the witnesses of its round trips, the slot
  frequency its script shows, and the node device it cannot save again.
\<close>

definition decimal_value :: "bytes \<Rightarrow> int" where
  "decimal_value s = (if s \<noteq> [] \<and> hd s = of_char CHR ''-'' then - int (foldl digit_val 0 (tl s)) else int (foldl digit_val 0 s))"

lemma decimal_value_fmt_d: "decimal_value (fmt_d i) = i"
proof -
  have d: "foldl digit_val 0 (fmt_u n) = n" "list_all is_digit_c (fmt_u n)" "fmt_u n \<noteq> []" for n
    using digits_value [of n] by auto
  have h: "hd (fmt_u n) \<noteq> of_char CHR ''-''" for n
    using d(2,3) [of n] by (cases "fmt_u n") (auto simp: is_digit_c_def)
  show ?thesis using d(1,3) h by (simp add: decimal_value_def fmt_d_def)
qed

text \<open>A platform whose string class reads decimals; its float reader knows one number.\<close>

definition plain_platform :: "u32 \<Rightarrow> platform" where
  "plain_platform x = \<lparr>pf_trim = \<lambda>s. s, pf_toInt = decimal_value, pf_toFloat = \<lambda>s. x,
     pf_crypto = toy_crypto\<lparr>base64_decode := \<lambda>s. if s = str ''AQ=='' then Some [1] else None\<rparr>\<rparr>"

lemma plain_laws: "string_laws (plain_platform x)"
  by (simp add: string_laws_def plain_platform_def decimal_value_fmt_d)

definition page_radio :: radio_slot where
  "page_radio = \<lparr>rs_protocol = PROTO_MT, rs_sf = 11, rs_cr = 5, rs_syncWord = 0x2B, rs_txPower = 20, rs_lwRegion = 0,
     rs_routeMask = 0b1010, rs_frequency = f32_bits (f32_lit 906875 1000), rs_bandwidth = f32_bits (f32_lit 250 1),
     rs_channelName = str ''LongFast'', rs_channelKey = []\<rparr>"

definition page_cfg :: bridge_cfg where
  "page_cfg = (loadDefaults sample_flags)\<lparr>bc_radio := [page_radio, page_radio\<lparr>rs_routeMask := 1\<rparr>,
     page_radio\<lparr>rs_protocol := PROTO_NONE\<rparr>, page_radio\<lparr>rs_protocol := PROTO_NONE\<rparr>]\<rparr>"

lemma page_plan: "shown_preset page_radio = 5" "plan_legal page_radio" "power_legal 1 page_radio"
  by code_simp+

lemma page_radio_printable: "radio_printable (plain_platform (rs_frequency page_radio)) 1 page_radio"
proof -
  have p: "rs_protocol page_radio = PROTO_MT" "rs_channelKey page_radio = []" by (simp_all add: page_radio_def)
  have k: "kept_key page_radio = str ''AQ==''" by (simp add: kept_key_def p)
  have n: "kept_name page_radio = str ''LongFast''"
    by (simp add: kept_name_def locked_name_def k page_plan p PN_def) (code_simp)
  show ?thesis
    by (simp add: radio_printable_def page_plan p k n) (code_simp)
qed

lemma printable_routes: "radio_printable pf region (r\<lparr>rs_routeMask := m\<rparr>) = radio_printable pf region r"
  by (simp add: radio_printable_def kept_key_def kept_name_def shown_preset_def plan_legal_def power_legal_def sync_legal_def)


definition page_device :: lw_device where
  "page_device = \<lparr>dev_inUse = 1, dev_srcSel = SRC_PROTO, dev_fport = 13, dev_flags = FLAG_TAG_SRC, dev_srcMatch = 2,
     dev_devAddr = 0x26011F8A, dev_nwkSKey = replicate 16 0xA5, dev_appSKey = replicate 16 0x5A\<rparr>"

definition page_devices :: lw_state where
  "page_devices = portal_lw\<lparr>lw_dev := [page_device, zero_device, zero_device, zero_device]\<rparr>"

lemma device_form_witness:
  "\<exists>s2. applyLoRaWANDevices (plain_platform 0) (posted (renderForm True page_cfg page_devices)) True Write_ok page_devices = (s2, None) \<and>
    lw_dev s2 ! 0 = page_device"
proof -
  have w: "devices_wf page_devices" by (simp add: devices_wf_def page_devices_def portal_lw_def MAX_DEVICES_def zero_device_def page_device_def)
  have d: "device_printable page_device"
    by (simp add: device_printable_def page_device_def SRC_PROTO_def SRC_ANY_def device_keys_def)
  have "\<forall>i < MAX_DEVICES. dev_inUse (lw_dev page_devices ! i) = 0 \<or> device_printable (lw_dev page_devices ! i)"
    using d by (auto simp: page_devices_def MAX_DEVICES_def less_Suc_eq zero_device_def numeral_eq_Suc)
  from device_form_round_trip [OF plain_laws w this, of 0 page_cfg True Write_ok]
  obtain s2 where s2: "applyLoRaWANDevices (plain_platform 0) (posted (renderForm True page_cfg page_devices)) True Write_ok page_devices = (s2, None)"
    "\<forall>i < MAX_DEVICES. lw_dev s2 ! i = (if dev_inUse (lw_dev page_devices ! i) = 0 then zero_device else lw_dev page_devices ! i)" by blast
  have "lw_dev s2 ! 0 = page_device" using s2(2) by (simp add: page_devices_def page_device_def MAX_DEVICES_def)
  then show ?thesis using s2(1) by blast
qed

text \<open>The node id of the form's own example, printed in decimal, has ten digits: the page cannot be saved again.\<close>

lemma node_page_refused:
  assumes "f = posted (device_controls 0 (page_device\<lparr>dev_srcSel := SRC_MT_NODE, dev_srcMatch := 0xB16B00B5\<rparr>))"
  shows "read_device (plain_platform 0) f 0 = Inl Abp_node_hex"
proof (rule node_device_not_read_back(1) [OF plain_laws])
  show "length (fmt_u (unat (dev_srcMatch (page_device\<lparr>dev_srcSel := SRC_MT_NODE, dev_srcMatch := 0xB16B00B5\<rparr>)))) \<noteq> 8"
    by (simp add: fmt_u.simps)
qed (simp_all add: assms device_field_name)

text \<open>The hash of the script is the firmware's.\<close>

lemma js_djb2_same: "js_djb2 s = uint (djb2 s)"
proof -
  have "foldl (\<lambda>h c. (h * 33 + uint c) mod 2 ^ 32) (uint h) s = uint (foldl djb2_step h s)" for h
  proof (induction s arbitrary: h)
    case (Cons c s)
    have "uint c < 256" "0 \<le> uint c" using uint_lt2p [of c] by simp_all
    then have "uint (ucast c :: u32) = uint c" by (simp add: unsigned_ucast_eq take_bit_int_eq_self)
    moreover have "djb2_step h c = word_of_int (uint h * 33 + uint (ucast c :: u32))"
      by (simp add: djb2_step_def push_bit_eq_mult)
    ultimately have "(uint h * 33 + uint c) mod 2 ^ 32 = uint (djb2_step h c)" by (simp only: uint_word_of_int) simp
    then show ?case using Cons by simp
  qed simp
  from this [of 5381] show ?thesis by (simp add: js_djb2_def djb2_def)
qed

lemma page_shows_longfast:
  "js_toFixed 3 (js_slot (str ''1'') (str ''LongFast'') (js_printed 1 (fst (modemPresetParams 5)))) = str ''906.875''"
  by code_simp

end
