(* ===== verification/SetupPins.thy ===== *)
theory SetupPins
  imports Prelude
begin

text \<open>
  The pins the two firmwares drive while they start (\<open>setup\<close> of \<open>src/src/main.cpp\<close> and of
  \<open>src/coproc-xiao-sx1262/src/coproc_main.cpp\<close>, the constructor and \<open>begin\<close> of
  \<open>src/src/WioSX1262.cpp\<close>): the two radios, and the memory card of a camera, share one SPI bus, on
  which a chip that is neither deselected nor held in reset may answer in another chip's place.
\<close>

section \<open>Pins\<close>

record pin_map =
  pm_nss :: nat
  pm_dio1 :: nat
  pm_reset :: nat
  pm_busy :: nat
  pm_ant :: nat

text \<open>The radio on the board connector, and the edge module, whose pinout depends on its revision.\<close>

definition b2b_pins :: pin_map where
  "b2b_pins = \<lparr>pm_nss = 41, pm_dio1 = 39, pm_reset = 42, pm_busy = 40, pm_ant = 38\<rparr>"

definition edge_pins :: "nat \<Rightarrow> pin_map" where
  "edge_pins built =
     (if built = 11 then \<lparr>pm_nss = 4, pm_dio1 = 1, pm_reset = 3, pm_busy = 2, pm_ant = 5\<rparr>
      else \<lparr>pm_nss = 5, pm_dio1 = 2, pm_reset = 3, pm_busy = 4, pm_ant = 6\<rparr>)"

definition coproc_b2b_pins :: pin_map where
  "coproc_b2b_pins = \<lparr>pm_nss = 41, pm_dio1 = 39, pm_reset = 42, pm_busy = 40, pm_ant = 38\<rparr>"

definition coproc_edge_pins :: "nat \<Rightarrow> pin_map" where
  "coproc_edge_pins built =
     (if built = 11 then \<lparr>pm_nss = 4, pm_dio1 = 1, pm_reset = 3, pm_busy = 2, pm_ant = 5\<rparr>
      else \<lparr>pm_nss = 5, pm_dio1 = 2, pm_reset = 3, pm_busy = 4, pm_ant = 6\<rparr>)"

definition SD_CS :: nat where "SD_CS = 21"

text \<open>
  \<open>pinMode\<close>, \<open>digitalWrite\<close>, a byte clocked out while the pin \<open>t\<close> selects a chip, and a session of the
  radio library with the chip of a pin map: it uses that chip's pins only and leaves it deselected
  and out of reset.
\<close>

datatype pin_op = Pin_mode nat bool | Pin_write nat bool | Spi_transfer nat u8 | Chip_session pin_map

text \<open>A pin is an output or not, and has the level last written to it.\<close>

type_synonym pins = "nat \<Rightarrow> bool \<times> bool"

definition reset_pins :: pins where
  "reset_pins = (\<lambda>p. (False, False))"

definition driven :: "pins \<Rightarrow> nat \<Rightarrow> bool option" where
  "driven s p = (if fst (s p) then Some (snd (s p)) else None)"

fun pin_step :: "pin_op \<Rightarrow> pins \<Rightarrow> pins" where
  "pin_step (Pin_mode p out) s = s(p := (out, snd (s p)))"
| "pin_step (Pin_write p l) s = s(p := (fst (s p), l))"
| "pin_step (Spi_transfer t b) s = s"
| "pin_step (Chip_session m) s = s(pm_nss m := (True, True), pm_reset m := (True, True))"

definition run_pins :: "pin_op list \<Rightarrow> pins \<Rightarrow> pins" where
  "run_pins ops s = foldl (\<lambda>s x. pin_step x s) s ops"

text \<open>Every use of the bus: the select pin of the chip it is meant for, and the pins at that moment.\<close>

fun bus_uses :: "pin_op list \<Rightarrow> pins \<Rightarrow> (nat \<times> pins) list" where
  "bus_uses [] s = []"
| "bus_uses (x # ops) s =
     (case x of Spi_transfer t b \<Rightarrow> [(t, s)] | Chip_session m \<Rightarrow> [(pm_nss m, s)] | _ \<Rightarrow> []) @ bus_uses ops (pin_step x s)"

section \<open>The driver's pins\<close>

definition ctor_pins :: "pin_map \<Rightarrow> pin_op list" where
  "ctor_pins m = [Pin_mode (pm_nss m) True, Pin_write (pm_nss m) True]"

definition begin_pins :: "pin_map \<Rightarrow> pin_op list" where
  "begin_pins m = [Pin_mode (pm_ant m) True, Pin_write (pm_ant m) False, Chip_session m]"

section \<open>The bridge\<close>

definition park_selects :: "nat \<Rightarrow> bool \<Rightarrow> pin_op list" where
  "park_selects built camera =
     ctor_pins b2b_pins @ ctor_pins (edge_pins built) @
     (if camera then [Pin_mode SD_CS True, Pin_write SD_CS True] else [])"

definition hold_in_reset :: "pin_map \<Rightarrow> pin_op list" where
  "hold_in_reset m = [Pin_mode (pm_reset m) True, Pin_write (pm_reset m) False]"

definition busyWait :: "pin_map \<Rightarrow> pin_op list" where
  "busyWait m = [Pin_mode (pm_reset m) True, Pin_mode (pm_busy m) False, Pin_write (pm_reset m) False, Pin_write (pm_reset m) True]"

definition selected_transfer :: "nat \<Rightarrow> u8 list \<Rightarrow> pin_op list" where
  "selected_transfer nss bs = [Pin_write nss False] @ map (Spi_transfer nss) bs @ [Pin_write nss True]"

definition raw_probe :: "pin_op list" where
  "raw_probe = selected_transfer (pm_nss b2b_pins) [0xC0, 0x00] @
     selected_transfer (pm_nss b2b_pins) ([0x1D, 0x03, 0x20, 0x00] @ replicate 6 0x00)"

text \<open>
  The whole start: \<open>built\<close> is the module revision the firmware was built for, \<open>e1\<close> and \<open>e2\<close> the enabled
  radios, \<open>up1\<close> whether the first radio answers; it does not go on when it is enabled and silent.
\<close>

definition host_pins :: "nat \<Rightarrow> bool \<Rightarrow> bool \<Rightarrow> bool \<Rightarrow> bool \<Rightarrow> pin_op list" where
  "host_pins built camera e1 e2 up1 =
     park_selects built camera @
     (if e1 then ctor_pins b2b_pins else []) @ (if e2 then ctor_pins (edge_pins built) else []) @
     (if e2 then hold_in_reset (edge_pins built) else []) @
     (if e1 then busyWait b2b_pins @ raw_probe @ begin_pins b2b_pins else []) @
     (if e1 \<and> \<not> up1 then [] else if e2 then busyWait (edge_pins built) @ begin_pins (edge_pins built) else [])"

section \<open>The co-processor\<close>

definition coproc_pins :: "nat \<Rightarrow> pin_op list" where
  "coproc_pins built =
     ctor_pins coproc_b2b_pins @ ctor_pins (coproc_edge_pins built) @
     ctor_pins coproc_b2b_pins @ ctor_pins (coproc_edge_pins built) @
     hold_in_reset (coproc_edge_pins built) @ begin_pins coproc_b2b_pins @
     [Pin_write (pm_reset (coproc_edge_pins built)) True] @ begin_pins (coproc_edge_pins built)"

section \<open>Nobody else answers\<close>

text \<open>A chip that cannot drive the bus: deselected, or held in reset.\<close>

definition quiet :: "pin_map \<Rightarrow> pins \<Rightarrow> bool" where
  "quiet m s \<longleftrightarrow> driven s (pm_nss m) = Some True \<or> driven s (pm_reset m) = Some False"

text \<open>A use of the bus is undisturbed: \<open>hw\<close> is the revision of the module that is really fitted.\<close>

definition undisturbed :: "nat \<Rightarrow> bool \<Rightarrow> nat \<times> pins \<Rightarrow> bool" where
  "undisturbed hw camera use \<longleftrightarrow>
     (camera \<longrightarrow> driven (snd use) SD_CS = Some True) \<and>
     (if fst use = pm_nss b2b_pins then quiet (edge_pins hw) (snd use) else quiet b2b_pins (snd use))"

lemmas pin_defs = host_pins_def coproc_pins_def park_selects_def hold_in_reset_def busyWait_def raw_probe_def selected_transfer_def
  ctor_pins_def begin_pins_def b2b_pins_def coproc_b2b_pins_def SD_CS_def


theorem coproc_bus_undisturbed:
  assumes "built \<in> {10, 11}" and "hw \<in> {10, 11}"
  shows "\<forall>use \<in> set (bus_uses (coproc_pins built) reset_pins). undisturbed hw False use"
  using assms
  by (auto simp: pin_defs edge_pins_def coproc_edge_pins_def undisturbed_def quiet_def driven_def reset_pins_def)


text \<open>
  The start-up hold covers the first radio's detection only. A module of the other revision is not
  found, its slot is disabled, but it stays out of reset: what the firmware drives of its pinout
  leaves its select pin floating, or low, for the whole run, beside the first radio on the bus.
\<close>

lemma undetected_module_left_released:
  assumes "(built, hw) \<in> {(10, 11), (11, 10)}"
  shows "\<not> quiet (edge_pins hw) (run_pins (host_pins built camera True True True) reset_pins)"
  using assms
  by (cases camera) (auto simp: pin_defs edge_pins_def quiet_def driven_def reset_pins_def run_pins_def numeral_eq_Suc)

lemma undetected_module_selected:
  "driven (run_pins (host_pins 11 camera True True True) reset_pins) (pm_nss (edge_pins 10)) = Some False"
  by (cases camera) (auto simp: pin_defs edge_pins_def driven_def reset_pins_def run_pins_def numeral_eq_Suc)

text \<open>A disabled edge radio is only deselected, and only through the pinout the firmware was built for.\<close>

lemma disabled_other_module_disturbs:
  "\<exists>use \<in> set (bus_uses (host_pins 10 camera True False True) reset_pins). \<not> undisturbed 11 camera use"
  by (cases camera) (auto simp: pin_defs edge_pins_def undisturbed_def quiet_def driven_def reset_pins_def numeral_eq_Suc)

end
