(* ===== verification/ConsoleLog.thy ===== *)
theory ConsoleLog
  imports Prelude Format Floats
begin

text \<open>
  The serialized console (\<open>src/src/SerialLog.cpp\<close>, and \<open>blogf\<close>, \<open>protoTag\<close>, \<open>fmtNodeId\<close> and the
  decoder dump of \<open>radioTask\<close> in \<open>src/src/main.cpp\<close>): tasks of several cores write whole lines, and
  blocks of lines, under one recursive lock, and their output does not interleave.
\<close>

section \<open>The lock and the console\<close>

text \<open>The lock when it exists, its owner with the depth, and what the console got, print by print.\<close>

record slog =
  sl_made :: bool
  sl_owner :: "(nat \<times> nat) option"
  sl_out :: "bytes list"

definition slog_reset :: slog where
  "slog_reset = \<lparr>sl_made = False, sl_owner = None, sl_out = []\<rparr>"

definition slog_begin :: "slog \<Rightarrow> slog" where
  "slog_begin s = (if sl_made s then s else s\<lparr>sl_made := True, sl_owner := None\<rparr>)"

text \<open>\<open>None\<close>: the task waits.\<close>

definition slog_lock :: "nat \<Rightarrow> slog \<Rightarrow> slog option" where
  "slog_lock t s =
     (if sl_made s then
        (case sl_owner s of
           None \<Rightarrow> Some (s\<lparr>sl_owner := Some (t, 1)\<rparr>)
         | Some (u, d) \<Rightarrow> if u = t then Some (s\<lparr>sl_owner := Some (t, Suc d)\<rparr>) else None)
      else Some s)"

text \<open>A lock is given back by its owner only; for any other task the call does nothing.\<close>

definition slog_unlock :: "nat \<Rightarrow> slog \<Rightarrow> slog" where
  "slog_unlock t s =
     (if sl_made s then
        (case sl_owner s of
           None \<Rightarrow> s
         | Some (u, d) \<Rightarrow> if u \<noteq> t then s else if d \<le> 1 then s\<lparr>sl_owner := None\<rparr> else s\<lparr>sl_owner := Some (t, d - 1)\<rparr>)
      else s)"

definition serial_print :: "bytes \<Rightarrow> slog \<Rightarrow> slog" where
  "serial_print b s = s\<lparr>sl_out := sl_out s @ [b]\<rparr>"

section \<open>What a task does\<close>

datatype log_op = Lock | Unlock | Print bytes

text \<open>\<open>logf\<close> and \<open>blogf\<close> format into 300 characters first.\<close>

definition logf :: "bytes \<Rightarrow> log_op list" where
  "logf line = [Lock, Print (bounded_copy 300 line), Unlock]"

definition blogf :: "bytes \<Rightarrow> log_op list" where
  "blogf line = [Lock, Print (bounded_copy 300 line), Unlock]"

definition protoTag :: "u8 \<Rightarrow> bytes" where
  "protoTag sync =
     (if sync = 0x2B then str ''MT'' else if sync = 0x12 then str ''MC'' else if sync = 0x42 then str ''RNS''
      else if sync = 0x34 then str ''LW'' else str ''?'')"

definition fmtNodeId :: "u32 \<Rightarrow> bytes" where
  "fmtNodeId i = (if i \<noteq> 0 then bounded_copy 10 (str ''!'' @ fmt_08lx i) else str ''-'')"

text \<open>What a packet off air writes: its line, then the decoder's block, made of single prints.\<close>

definition rx_line :: "u32 \<Rightarrow> bytes \<Rightarrow> u8 \<Rightarrow> nat \<Rightarrow> fval \<Rightarrow> fval \<Rightarrow> bytes" where
  "rx_line now tag sync len rssi snr =
     str ''ts='' @ fmt_u (unat now) @ str '' evt=RX radio='' @ tag @ str '' proto='' @ protoTag sync @
     str '' len='' @ fmt_u len @ str '' rssi='' @ fmt_fixed 1 rssi @ str '' snr='' @ fmt_fixed 1 snr @ [10]"

definition rx_log :: "bytes \<Rightarrow> bytes list \<Rightarrow> log_op list" where
  "rx_log line dump = blogf line @ [Lock] @ map Print dump @ [Unlock]"

section \<open>Tasks side by side\<close>

text \<open>The rest of each task's program, and the console; one step of one task.\<close>

type_synonym tasks = "nat \<Rightarrow> log_op list"

inductive log_step :: "tasks \<times> slog \<Rightarrow> tasks \<times> slog \<Rightarrow> bool" where
  take_lock: "P t = Lock # p \<Longrightarrow> slog_lock t s = Some s2 \<Longrightarrow> log_step (P, s) (P(t := p), s2)"
| give_lock: "P t = Unlock # p \<Longrightarrow> log_step (P, s) (P(t := p), slog_unlock t s)"
| print: "P t = Print b # p \<Longrightarrow> log_step (P, s) (P(t := p), serial_print b s)"

inductive log_reach :: "tasks \<times> slog \<Rightarrow> tasks \<times> slog \<Rightarrow> bool" where
  here: "log_reach c c"
| step: "log_reach c d \<Longrightarrow> log_step d e \<Longrightarrow> log_reach c e"

text \<open>Programs whose prints are all bracketed, continued at a depth.\<close>

fun bracketed :: "nat \<Rightarrow> log_op list \<Rightarrow> bool" where
  "bracketed d [] = (d = 0)"
| "bracketed d (Lock # p) = bracketed (Suc d) p"
| "bracketed d (Unlock # p) = (0 < d \<and> bracketed (d - 1) p)"
| "bracketed d (Print b # p) = (0 < d \<and> bracketed d p)"

text \<open>The blocks of a program: what it prints from a first lock to the matching unlock.\<close>

fun log_blocks :: "nat \<Rightarrow> bytes list \<Rightarrow> log_op list \<Rightarrow> bytes list list" where
  "log_blocks d acc [] = []"
| "log_blocks d acc (Lock # p) = log_blocks (Suc d) acc p"
| "log_blocks d acc (Print b # p) = log_blocks d (acc @ [b]) p"
| "log_blocks d acc (Unlock # p) = (if d \<le> 1 then acc # log_blocks 0 [] p else log_blocks (d - 1) acc p)"

lemma bracketed_app: "bracketed d p \<Longrightarrow> bracketed 0 q \<Longrightarrow> bracketed d (p @ q)"
  by (induction d p rule: bracketed.induct) auto

lemma log_blocks_app: "bracketed d p \<Longrightarrow> log_blocks d acc (p @ q) = log_blocks d acc p @ log_blocks 0 [] q" if "d = 0 \<Longrightarrow> acc = []"
  using that
proof (induction d p arbitrary: acc rule: bracketed.induct)
  case (3 d p)
  then show ?case by (cases "d \<le> 1") auto
qed auto

lemma bracketed_prints: "0 < d \<Longrightarrow> bracketed d (map Print bs @ p) = bracketed d p"
  by (induction bs) auto

lemma log_blocks_prints: "log_blocks d acc (map Print bs @ p) = log_blocks d (acc @ bs) p"
  by (induction bs arbitrary: acc) auto

text \<open>Everything the firmware's tasks write through the log is bracketed.\<close>

lemma logs_bracketed: "bracketed 0 (logf line)" "bracketed 0 (blogf line)" "bracketed 0 (rx_log line dump)"
  by (simp_all add: logf_def blogf_def rx_log_def bracketed_prints)

lemma rx_log_blocks: "log_blocks 0 [] (rx_log line dump) = [[bounded_copy 300 line], dump]"
  by (simp add: rx_log_def blogf_def log_blocks_prints)

section \<open>Blocks stay whole\<close>

text \<open>How deep a task holds the lock, and the blocks of one task in a schedule of blocks.\<close>

definition depth_of :: "slog \<Rightarrow> nat \<Rightarrow> nat" where
  "depth_of s t = (case sl_owner s of None \<Rightarrow> 0 | Some (u, d) \<Rightarrow> if u = t then d else 0)"

definition blocks_of :: "nat \<Rightarrow> (nat \<times> bytes list) list \<Rightarrow> bytes list list" where
  "blocks_of t sched = map snd (filter (\<lambda>x. fst x = t) sched)"

lemma blocks_of_snoc: "blocks_of t (sched @ [(u, b)]) = blocks_of t sched @ (if u = t then [b] else [])"
  by (simp add: blocks_of_def)

text \<open>The tasks started with \<open>P\<close>; \<open>sched\<close> are the blocks written, \<open>part\<close> what the owner wrote of its next.\<close>

definition log_written :: "tasks \<Rightarrow> (nat \<times> bytes list) list \<Rightarrow> bytes list \<Rightarrow> tasks \<times> slog \<Rightarrow> bool" where
  "log_written P sched part = (\<lambda>(Q, s).
     sl_out s = concat (map snd sched) @ part \<and> (sl_owner s = None \<longrightarrow> part = []) \<and>
     (\<forall>t. log_blocks 0 [] (P t) =
        blocks_of t sched @ log_blocks (depth_of s t) (if 0 < depth_of s t then part else []) (Q t)))"

definition log_inv :: "tasks \<Rightarrow> tasks \<times> slog \<Rightarrow> bool" where
  "log_inv P c \<longleftrightarrow> sl_made (snd c) \<and> (\<forall>u d. sl_owner (snd c) = Some (u, d) \<longrightarrow> 0 < d) \<and>
     (\<forall>t. bracketed (depth_of (snd c) t) (fst c t)) \<and> (\<exists>sched part. log_written P sched part c)"

lemmas log_inv_parts = log_inv_def log_written_def depth_of_def

lemma depth_of_update [simp]:
  "depth_of (s\<lparr>sl_owner := Some (t, k)\<rparr>) u = (if u = t then k else 0)"
  "depth_of (s\<lparr>sl_owner := None\<rparr>) u = 0"
  "depth_of (s\<lparr>sl_out := bs\<rparr>) u = depth_of s u"
  by (simp_all add: depth_of_def)

lemma depth_other: "sl_owner s = Some (t, d) \<Longrightarrow> u \<noteq> t \<Longrightarrow> depth_of s u = 0"
  by (simp add: depth_of_def)

lemma depth_pos: "0 < depth_of s t \<Longrightarrow> \<exists>d. sl_owner s = Some (t, d) \<and> d = depth_of s t"
  by (auto simp: depth_of_def split: option.splits if_splits)

lemma log_inv_lock:
  assumes inv: "log_inv P (Q, s)" and q: "Q t = Lock # p" and l: "slog_lock t s = Some s2"
  shows "log_inv P (Q(t := p), s2)"
proof -
  have made: "sl_made s" using inv by (simp add: log_inv_def)
  have s2: "s2 = s\<lparr>sl_owner := Some (t, Suc (depth_of s t))\<rparr>" "\<forall>u. u \<noteq> t \<longrightarrow> depth_of s u = 0"
    using l made inv by (auto simp: slog_lock_def depth_of_def log_inv_def split: option.splits prod.splits if_splits)
  have d: "depth_of s2 u = (if u = t then Suc (depth_of s t) else depth_of s u)" for u
    using s2 by simp
  obtain sched part where w: "log_written P sched part (Q, s)" using inv by (auto simp: log_inv_def)
  have none: "part = []" if "depth_of s t = 0"
    using w that l made inv
    by (auto simp: log_written_def slog_lock_def depth_of_def log_inv_def split: option.splits prod.splits if_splits)
  have "bracketed (depth_of s2 u) ((Q(t := p)) u)" for u
    using inv q by (cases "u = t") (auto simp: log_inv_def d dest: spec [of _ t])
  moreover have "log_written P sched part (Q(t := p), s2)"
    using w q none s2(2) by (auto simp: log_written_def s2(1))
  ultimately show ?thesis using made s2(1) by (auto simp: log_inv_def)
qed

lemma log_inv_print:
  assumes inv: "log_inv P (Q, s)" and q: "Q t = Print b # p"
  shows "log_inv P (Q(t := p), serial_print b s)"
proof -
  have d: "depth_of (serial_print b s) u = depth_of s u" for u by (simp add: serial_print_def depth_of_def)
  have pos: "0 < depth_of s t" using inv q by (auto simp: log_inv_def dest: spec [of _ t])
  then have own: "sl_owner s = Some (t, depth_of s t)" using depth_pos by blast
  have others: "depth_of s u = 0" if "u \<noteq> t" for u using depth_other [OF own that] .
  obtain sched part where w: "log_written P sched part (Q, s)" using inv by (auto simp: log_inv_def)
  have "log_written P sched (part @ [b]) (Q(t := p), serial_print b s)"
    using w q pos others by (auto simp: log_written_def d serial_print_def own dest: spec [of _ t])
  moreover have "bracketed (depth_of s u) ((Q(t := p)) u)" for u
    using inv q by (cases "u = t") (auto simp: log_inv_def dest: spec [of _ t])
  ultimately show ?thesis using inv by (auto simp: log_inv_def d serial_print_def)
qed

lemma log_inv_unlock:
  assumes inv: "log_inv P (Q, s)" and q: "Q t = Unlock # p"
  shows "log_inv P (Q(t := p), slog_unlock t s)"
proof -
  have made: "sl_made s" using inv by (simp add: log_inv_def)
  have pos: "0 < depth_of s t" using inv q by (auto simp: log_inv_def dest: spec [of _ t])
  then have own: "sl_owner s = Some (t, depth_of s t)" using depth_pos by blast
  have others: "depth_of s u = 0" if "u \<noteq> t" for u using depth_other [OF own that] .
  have s2: "slog_unlock t s = s\<lparr>sl_owner := (if depth_of s t \<le> 1 then None else Some (t, depth_of s t - 1))\<rparr>"
    using made own by (simp add: slog_unlock_def)
  have d: "depth_of (slog_unlock t s) u = (if u = t then depth_of s t - 1 else 0)" for u
    using pos others by (auto simp: s2 depth_of_def)
  obtain sched part where w: "log_written P sched part (Q, s)" using inv by (auto simp: log_inv_def)
  have "\<exists>sched part. log_written P sched part (Q(t := p), slog_unlock t s)"
  proof (cases "depth_of s t \<le> 1")
    case True
    then have "log_written P (sched @ [(t, part)]) [] (Q(t := p), slog_unlock t s)"
      using w q pos others by (auto simp: log_written_def d s2 blocks_of_snoc)
    then show ?thesis by blast
  next
    case False
    then have "log_written P sched part (Q(t := p), slog_unlock t s)"
      using w q pos others by (auto simp: log_written_def d s2)
    then show ?thesis by blast
  qed
  moreover have "bracketed (depth_of (slog_unlock t s) u) ((Q(t := p)) u)" for u
    using inv q others by (cases "u = t") (auto simp: log_inv_def d dest: spec [of _ t] spec [of _ u])
  ultimately show ?thesis using made by (auto simp: log_inv_def s2)
qed

lemma log_inv_step: "log_step c e \<Longrightarrow> log_inv P c \<Longrightarrow> log_inv P e"
  by (induction rule: log_step.induct) (auto intro: log_inv_lock log_inv_unlock log_inv_print)

lemma log_inv_reach: "log_reach c e \<Longrightarrow> log_inv P c \<Longrightarrow> log_inv P e"
  by (induction rule: log_reach.induct) (auto intro: log_inv_step)

lemma log_inv_start:
  assumes "\<forall>t. bracketed 0 (P t)"
  shows "log_inv P (P, slog_begin slog_reset)"
proof -
  have "log_written P [] [] (P, slog_begin slog_reset)"
    by (simp add: log_written_def slog_begin_def slog_reset_def depth_of_def blocks_of_def)
  then show ?thesis using assms by (auto simp: log_inv_def slog_begin_def slog_reset_def depth_of_def)
qed

lemma blocks_left: "bracketed d p \<Longrightarrow> 0 < d \<Longrightarrow> \<exists>b bs. log_blocks d acc p = (acc @ b) # bs"
proof (induction d p arbitrary: acc rule: bracketed.induct)
  case (3 d p)
  then show ?case by (cases "d \<le> 1") auto
next
  case (4 d b p)
  then obtain c cs where "log_blocks d (acc @ [b]) p = ((acc @ [b]) @ c) # cs" by fastforce
  then show ?case by auto
qed auto


text \<open>Nobody waits for ever: while a task has something left, some task can go on.\<close>

theorem console_never_deadlocks:
  assumes "\<forall>t. bracketed 0 (P t)" and "log_reach (P, slog_begin slog_reset) (Q, s)" and "Q t \<noteq> []"
  shows "\<exists>e. log_step (Q, s) e"
proof -
  have inv: "log_inv P (Q, s)" using log_inv_reach [OF assms(2) log_inv_start [OF assms(1)]] .
  have go: "\<exists>e. log_step (Q, s) e" if more: "Q u \<noteq> []" and own: "\<forall>v d. sl_owner s = Some (v, d) \<longrightarrow> v = u" for u
  proof -
    obtain x p where q: "Q u = x # p" using more by (cases "Q u") auto
    show ?thesis
    proof (cases x)
      case Lock
      then have "\<exists>s2. slog_lock u s = Some s2" using own by (auto simp: slog_lock_def split: option.splits)
      then show ?thesis using q Lock log_step.take_lock by blast
    qed (use q in \<open>blast intro: log_step.give_lock log_step.print\<close>)+
  qed
  show ?thesis
  proof (cases "sl_owner s")
    case (Some ud)
    obtain u d where ud: "ud = (u, d)" by fastforce
    have "bracketed d (Q u)" "0 < d" using inv Some ud by (auto simp: log_inv_def depth_of_def dest: spec [of _ u])
    then have "Q u \<noteq> []" by (cases "Q u") auto
    then show ?thesis using go Some ud by auto
  qed (use go assms(3) in auto)
qed

section \<open>A schedule\<close>

text \<open>The next step of a task, and a run in which the named tasks go on one after the other.\<close>

definition log_exec :: "nat \<Rightarrow> tasks \<times> slog \<Rightarrow> (tasks \<times> slog) option" where
  "log_exec t = (\<lambda>(P, s).
     case P t of
       [] \<Rightarrow> None
     | Lock # p \<Rightarrow> map_option (\<lambda>s2. (P(t := p), s2)) (slog_lock t s)
     | Unlock # p \<Rightarrow> Some (P(t := p), slog_unlock t s)
     | Print b # p \<Rightarrow> Some (P(t := p), serial_print b s))"

fun log_run :: "nat list \<Rightarrow> tasks \<times> slog \<Rightarrow> (tasks \<times> slog) option" where
  "log_run [] c = Some c"
| "log_run (t # ts) c = (case log_exec t c of None \<Rightarrow> None | Some e \<Rightarrow> log_run ts e)"

lemma log_exec_step: "log_exec t c = Some e \<Longrightarrow> log_step c e"
  by (cases c) (auto simp: log_exec_def intro: log_step.intros split: list.splits log_op.splits)

lemma log_run_reach: "log_run ts c = Some e \<Longrightarrow> log_reach a c \<Longrightarrow> log_reach a e"
  by (induction ts c rule: log_run.induct) (auto split: option.splits dest: log_exec_step log_reach.step)

definition two_tasks :: tasks where
  "two_tasks t = (if t = 0 then rx_log [49] [[50], [51]] else if t = 1 then logf [52] else [])"

lemmas log_ops = two_tasks_def rx_log_def blogf_def logf_def bounded_copy_def slog_begin_def slog_reset_def
  log_exec_def slog_lock_def slog_unlock_def serial_print_def

lemma two_tasks_run:
  "map_option (\<lambda>(Q, s). (sl_out s, Q 0)) (log_run [0, 0, 0, 0, 0, 0, 1] (two_tasks, slog_begin slog_reset)) = None"
  "map_option (\<lambda>(Q, s). (sl_out s, Q 0)) (log_run [0, 0, 0, 1, 1, 1, 0, 0] (two_tasks, slog_begin slog_reset)) =
     Some ([[49], [52], [50]], [Print [51], Unlock])"
  by (simp_all add: log_ops)


text \<open>A print outside the lock, as the storage errors of the node table make it, splits a block.\<close>

lemma raw_print_splits_block:
  "map_option (\<lambda>(Q, s). sl_out s)
     (log_run [0, 0, 0, 0, 0, 1, 0] (two_tasks(1 := [Print [53]]), slog_begin slog_reset)) = Some [[49], [50], [53], [51]]"
  by (simp add: log_ops)

text \<open>A line of 300 characters or more loses its end, and with it the line feed.\<close>

lemma long_line_cut: "300 \<le> length line \<Longrightarrow> logf (line @ [10]) = [Lock, Print (take 299 line), Unlock]"
  by (simp add: logf_def bounded_copy_def)

text \<open>
  A task that holds the lock and makes no step, as in a dump that does not return, stops every
  other task at its next line.
\<close>

lemma stuck_owner_blocks:
  assumes "log_run ts (P, s) = Some (Q, s2)" and "u \<notin> set ts" and "sl_made s" and "sl_owner s = Some (u, d)"
  shows "sl_owner s2 = Some (u, d) \<and> (\<forall>t p. t \<noteq> u \<and> P t = Lock # p \<longrightarrow> t \<notin> set ts \<and> Q t = P t)"
  using assms
proof (induction ts arbitrary: P s)
  case (Cons t ts)
  obtain P1 s1 where e: "log_exec t (P, s) = Some (P1, s1)" "log_run ts (P1, s1) = Some (Q, s2)"
    using Cons.prems(1) by (auto split: option.splits)
  have t: "t \<noteq> u" using Cons.prems(2) by auto
  have s1: "sl_made s1" "sl_owner s1 = Some (u, d)" "\<forall>v. v \<noteq> t \<longrightarrow> P1 v = P v" "\<forall>p. P t \<noteq> Lock # p"
    using e(1) t Cons.prems(3,4)
    by (auto simp: log_exec_def slog_lock_def slog_unlock_def serial_print_def split: list.splits log_op.splits if_splits)
  then show ?case using Cons.IH [OF e(2) _ s1(1,2)] Cons.prems(2) by (auto simp: fun_eq_iff)
qed simp

end
