(* ===== verification/PairingPage.thy ===== *)
theory PairingPage
  imports CamPortalSafety PageSamples
begin

text \<open>
  The pairing page of the camera portal (\<open>handlePeersGet\<close> of \<open>src/src/CamPortal.cpp\<close>): its controls
  with the values the whitelist gives them, and what saving an unedited page does. The page never
  shows a key; an empty key field keeps the stored one.
\<close>

section \<open>Controls\<close>

definition peer_name :: "nat \<Rightarrow> string \<Rightarrow> bytes" where
  "peer_name i name = str ''p'' @ fmt_u i @ str name"

definition peer_controls :: "nat \<Rightarrow> c2_peer \<Rightarrow> control list" where
  "peer_controls i p =
     [Check_box (peer_name i ''en'') (pr_inUse p \<noteq> 0),
      Text_field (peer_name i ''id'') (if pr_inUse p \<noteq> 0 \<and> pr_peerId p \<noteq> 0 then fmt_08lx (pr_peerId p) else []),
      Text_field (peer_name i ''key'') [],
      Check_box (peer_name i ''pri'') (pr_flags p AND FLAG_PRIMARY_MASTER \<noteq> 0)]"

definition peers_page :: "c2_peer list \<Rightarrow> control list" where
  "peers_page ps = concat (map (\<lambda>i. peer_controls i (ps ! i)) [0..<MAX_PEERS])"

section \<open>Printed ids read back\<close>

lemma hex_of_value: "foldl (\<lambda>v c. 16 * v + hexNibble c) a (hex_of bs) = foldl (\<lambda>v b. 256 * v + uint b) a bs"
proof (induction bs arbitrary: a)
  case (Cons b bs)
  have e: "16 * (16 * a + uint (drop_bit 4 b)) + uint (b AND 0x0F) = 256 * a + uint b"
    unfolding nibble_sum [of b, symmetric] by simp
  have "foldl (\<lambda>v c. 16 * v + hexNibble c) a (hex_of (b # bs)) =
      foldl (\<lambda>v c. 16 * v + hexNibble c) (16 * (16 * a + uint (drop_bit 4 b)) + uint (b AND 0x0F)) (hex_of bs)"
    by (simp add: hex_of_def hexNibble_digit nibbles)
  then show ?case using Cons.IH by (simp only: e foldl_Cons)
qed (simp add: hex_of_def)

lemma hex_char_value: "is_hex_char c \<Longrightarrow> 0 \<le> hexNibble c \<and> \<not> is_space_c c \<and> c \<noteq> of_char CHR ''-'' \<and> c \<noteq> of_char CHR ''+''"
  by (auto simp: is_hex_char_def hexNibble_def is_space_c_def word_le_def)

lemma nat_hex_value:
  "list_all is_hex_char s \<Longrightarrow> int (foldl (\<lambda>v c. v * 16 + nat (hexNibble c)) a s) = foldl (\<lambda>v c. 16 * v + hexNibble c) (int a) s"
  by (induction s arbitrary: a) (simp_all add: hex_char_value algebra_simps)

lemma strtoul16_08lx: "strtoul16 (fmt_08lx w) = w"
proof -
  let ?s = "fmt_08lx w"
  have h: "list_all is_hex_char ?s" by (simp add: fmt_08lx_def hex_of_chars_ok)
  then obtain c s where cs: "?s = c # s" "is_hex_char c"
    by (cases ?s) (auto simp: fmt_08lx_def length_hex_of dest: arg_cong [of _ _ length])
  have "int (foldl (\<lambda>v c. v * 16 + nat (hexNibble c)) 0 ?s) = uint w"
    using nat_hex_value [OF h, of 0] hex_of_value [of 0 "rev (le32 w)"] by (simp add: fmt_08lx_def le32_value)
  then have v: "foldl (\<lambda>v c. v * 16 + nat (hexNibble c)) 0 ?s = unat w" by (metis nat_int unat_eq_nat_uint)
  have dw: "dropWhile is_space_c ?s = ?s" using cs hex_char_value by simp
  have tw: "takeWhile is_hex_char ?s = ?s" using h by (simp add: list_all_iff)
  have "unat w < 2 ^ 32" using uint_lt2p [of w] by (simp add: nat_less_iff flip: nat_uint_eq)
  moreover have "hd ?s \<noteq> of_char CHR ''-''" "hd ?s \<noteq> of_char CHR ''+''"
    using hex_char_value [OF cs(2)] unfolding cs(1) by simp_all
  ultimately show ?thesis by (simp add: strtoul16_def Let_def strip_hex [OF h] dw tw v)
qed

section \<open>The page posted back\<close>

lemma peer_name_eq: "i < 10 \<Longrightarrow> j < 10 \<Longrightarrow> peer_name i a = peer_name j b \<longleftrightarrow> i = j \<and> str a = str b"
proof -
  assume ij: "i < 10" "j < 10"
  have "(of_char CHR ''0'' + of_nat i :: u8) = of_char CHR ''0'' + of_nat j \<longleftrightarrow> i = j"
    using ij by (simp add: word_unat_eq_iff unat_of_nat unat_word_ariths)
  then show ?thesis using ij by (simp add: peer_name_def fmt_u_digit)
qed

lemma peer_control_names: "c \<in> set (peer_controls i p) \<Longrightarrow> \<exists>b. ctl_name c = peer_name i b"
  by (auto simp: peer_controls_def)

lemma posted_peer:
  assumes "i < MAX_PEERS"
  shows "posted (peers_page ps) (peer_name i a) = posted (peer_controls i (ps ! i)) (peer_name i a)"
  unfolding peers_page_def
proof (rule posted_section)
  show "\<forall>j \<in> set [0..<MAX_PEERS]. j \<noteq> i \<longrightarrow> (\<forall>c \<in> set (peer_controls j (ps ! j)). ctl_name c \<noteq> peer_name i a)"
    using assms peer_name_eq by (fastforce dest: peer_control_names simp: MAX_PEERS_def)
qed (use assms in simp_all)

lemma peer_fields:
  shows "posted (peer_controls i p) (peer_name i ''en'') = (if pr_inUse p \<noteq> 0 then str ''1'' else [])"
    and "posted (peer_controls i p) (peer_name i ''id'') = (if pr_inUse p \<noteq> 0 \<and> pr_peerId p \<noteq> 0 then fmt_08lx (pr_peerId p) else [])"
    and "posted (peer_controls i p) (peer_name i ''key'') = []"
    and "posted (peer_controls i p) (peer_name i ''pri'') = (if pr_flags p AND FLAG_PRIMARY_MASTER \<noteq> 0 then str ''1'' else [])"
  by (simp_all add: peer_controls_def posted_Cons peer_name_def str_def fmt_08lx_def plain_values)

text \<open>A slot as the form stores it: no other flag, an id.\<close>

definition peer_storable :: "c2_peer \<Rightarrow> bool" where
  "peer_storable p \<longleftrightarrow> pr_inUse p = 1 \<and> pr_peerId p \<noteq> 0 \<and> (pr_flags p = 0 \<or> pr_flags p = FLAG_PRIMARY_MASTER)"

lemma peer_read_back:
  assumes laws: "string_laws pf" and p: "peer_storable p"
    and f: "\<And>a. peer_field rq i a = posted (peer_controls i p) (peer_name i a)"
  shows "read_peer pf rq i p = Inr p"
proof -
  have h: "list_all is_hex_char (fmt_08lx w)" for w by (simp add: fmt_08lx_def hex_of_chars_ok)
  have "length (fmt_08lx w) = 8" for w by (simp add: fmt_08lx_def length_hex_of)
  moreover have "pf_trim pf [] = []" using laws by (simp add: string_laws_def)
  moreover have "(if peer_field rq i ''pri'' = str ''1'' then FLAG_PRIMARY_MASTER else 0) = pr_flags p"
    using p by (auto simp: f peer_fields(4) peer_storable_def FLAG_PRIMARY_MASTER_def str_def)
  ultimately show ?thesis
    using p by (simp add: read_peer_def f peer_fields(2,3) peer_storable_def trim_hex [OF laws h] strip_hex [OF h] strtoul16_08lx Let_def)
qed

lemma apply_peers_kept:
  assumes "distinct ns" and "\<forall>i \<in> set ns. i < MAX_PEERS" and "length (cc_peer c) = MAX_PEERS"
    and "\<forall>i \<in> set ns. if peer_field rq i ''en'' = str ''1'' then read_peer (we_pf e) rq i (cc_peer c ! i) = Inr (cc_peer c ! i) else True"
  shows "\<exists>c2. apply_peers e rq ns c = (c2, None) \<and> length (cc_peer c2) = MAX_PEERS \<and>
    (\<forall>i < MAX_PEERS. cc_peer c2 ! i = (if i \<in> set ns \<and> peer_field rq i ''en'' \<noteq> str ''1'' then zero_peer else cc_peer c ! i))"
  using assms
proof (induction ns arbitrary: c)
  case (Cons i ns)
  have i: "i < MAX_PEERS" using Cons.prems(2) by simp
  define d where "d = (if peer_field rq i ''en'' = str ''1'' then c else clearPeer (int i) c)"
  have same: "setPeer b (int i) (cc_peer c ! i) c = c" for b using i by (simp add: setPeer_def)
  have run: "apply_peers e rq (i # ns) c = apply_peers e rq ns d"
    using Cons.prems(4) i by (simp add: d_def same cc_peerAt_def)
  have d: "length (cc_peer d) = MAX_PEERS"
    "cc_peer d ! j = (if j = i \<and> peer_field rq i ''en'' \<noteq> str ''1'' then zero_peer else cc_peer c ! j)" for j
    using i Cons.prems(3) by (auto simp: d_def clearPeer_def)
  have "\<exists>c2. apply_peers e rq ns d = (c2, None) \<and> length (cc_peer c2) = MAX_PEERS \<and>
    (\<forall>j < MAX_PEERS. cc_peer c2 ! j = (if j \<in> set ns \<and> peer_field rq j ''en'' \<noteq> str ''1'' then zero_peer else cc_peer d ! j))"
    using Cons.prems d by (intro Cons.IH) auto
  then show ?case using Cons.prems(1) by (auto simp: run d(2) simp del: apply_peers.simps)
qed auto

text \<open>
  C19: Opening the pairing page and pressing Save, without an edit, keeps the whitelist: the posted
  page is accepted and every enabled slot keeps its id, its key, its flag and its replay floor,
  although the page shows no key; a disabled slot is cleared.
\<close>

theorem pairing_page_round_trip:
  assumes "string_laws (we_pf e)" and "snd (currentSession e rq w) \<noteq> None" and "cc_wf (c2_cfg (ws_c2 w))"
    and "\<forall>i < MAX_PEERS. pr_inUse (cc_peer (c2_cfg (ws_c2 w)) ! i) = 0 \<or> peer_storable (cc_peer (c2_cfg (ws_c2 w)) ! i)"
    and "rq_arg rq = posted (peers_page (cc_peer (c2_cfg (ws_c2 w))))"
  shows "\<exists>w2. handlePeersPost e rq w = (w2, Page (Pg_peers_saved None)) \<and>
    (\<forall>i < MAX_PEERS. cc_peer (c2_cfg (ws_c2 w2)) ! i =
      (if pr_inUse (cc_peer (c2_cfg (ws_c2 w)) ! i) = 0 then zero_peer else cc_peer (c2_cfg (ws_c2 w)) ! i))"
proof -
  let ?c = "c2_cfg (ws_c2 w)"
  obtain w1 k where s: "currentSession e rq w = (w1, Some k)" using assms(2) by (cases "currentSession e rq w") auto
  have w1: "ws_c2 w1 = ws_c2 w" using s by (auto simp: currentSession_def Let_def split: if_splits prod.splits)
  have f: "peer_field rq i a = posted (peer_controls i (cc_peer ?c ! i)) (peer_name i a)" if "i < MAX_PEERS" for i a
    using posted_peer [OF that] by (simp add: peer_field_def assms(5) flip: peer_name_def)
  have en: "peer_field rq i ''en'' = str ''1'' \<longleftrightarrow> pr_inUse (cc_peer ?c ! i) \<noteq> 0" if "i < MAX_PEERS" for i
    using f [OF that] by (simp add: peer_fields(1) str_def)
  have rd: "read_peer (we_pf e) rq i (cc_peer ?c ! i) = Inr (cc_peer ?c ! i)" if "i < MAX_PEERS" "pr_inUse (cc_peer ?c ! i) \<noteq> 0" for i
    using assms(4) that by (intro peer_read_back [OF assms(1) _ f [OF that(1)]]) auto
  have "\<exists>c2. apply_peers e rq [0..<MAX_PEERS] ?c = (c2, None) \<and> length (cc_peer c2) = MAX_PEERS \<and>
    (\<forall>i < MAX_PEERS. cc_peer c2 ! i = (if i \<in> set [0..<MAX_PEERS] \<and> peer_field rq i ''en'' \<noteq> str ''1'' then zero_peer else cc_peer ?c ! i))"
    using assms(3) en rd by (intro apply_peers_kept) (auto simp: cc_wf_def)
  then obtain c2 where c2: "apply_peers e rq [0..<MAX_PEERS] ?c = (c2, None)"
    "\<forall>i < MAX_PEERS. cc_peer c2 ! i = (if pr_inUse (cc_peer ?c ! i) = 0 then zero_peer else cc_peer ?c ! i)"
    using en by auto
  have "cc_peer (cc_saveTable x c2) = cc_peer c2" for x by (simp add: cc_saveTable_def)
  then show ?thesis using c2 by (simp add: handlePeersPost_def requireAuth_def s w1)
qed

definition pair_env :: web_env where
  "pair_env = (web_env_at 5000)\<lparr>we_pf := CamPortalSafety.plain_platform\<lparr>pf_toInt := decimal_value\<rparr>\<rparr>"

definition pair_request :: request where
  "pair_request = \<lparr>rq_cookie = str ''sid='' @ bytesToHex (replicate 16 7), rq_arg = posted (peers_page (cc_peer sample_cc))\<rparr>"

lemma pair_session: "snd (currentSession pair_env pair_request sample_web) \<noteq> None"
proof -
  have k: "cookieSid (we_pf pair_env) pair_request = bytesToHex (replicate 16 7)"
    by (rule cookieSid_sid) (simp_all add: pair_request_def pair_env_def CamPortalSafety.plain_platform_def)
  have m: "we_millis pair_env = 5000" by (simp add: pair_env_def web_env_at_def)
  have "opens 5000 (bytesToHex (replicate 16 7)) (ws_sess sample_web)"
    by (simp add: opens_def bytesToHex_back sample_web_def session_live_def nowSec_def)
  then show ?thesis
    using findSession_opens(1) [of 5000 "bytesToHex (replicate 16 7)" "ws_sess sample_web"]
    by (auto simp: currentSession_def k m bytesToHex_def length_hex_of Let_def split: prod.splits)
qed

lemma pairing_page_witness:
  "\<exists>w2. handlePeersPost pair_env pair_request sample_web = (w2, Page (Pg_peers_saved None)) \<and>
    cc_peer (c2_cfg (ws_c2 w2)) ! 0 = sample_peer 9"
proof -
  have c: "c2_cfg (ws_c2 sample_web) = sample_cc" by (simp add: sample_web_def web_c2_def)
  have l: "string_laws (we_pf pair_env)"
    by (simp add: string_laws_def pair_env_def CamPortalSafety.plain_platform_def decimal_value_fmt_d)
  have w: "cc_wf (c2_cfg (ws_c2 sample_web))" by (simp add: c cc_wf_def sample_cc_def MAX_PEERS_def)
  have p: "peer_storable (sample_peer 9)" "pr_inUse zero_peer = 0" by (simp_all add: sample_peer_def zero_peer_def peer_storable_def)
  have "pr_inUse (cc_peer sample_cc ! i) = 0 \<or> peer_storable (cc_peer sample_cc ! i)" if lt: "i < MAX_PEERS" for i
  proof -
    consider "i = 0" | "i = 1" | "i = 2" | "i = 3" using lt unfolding MAX_PEERS_def by linarith
    then show ?thesis by cases (simp_all add: sample_cc_def p)
  qed
  then have "\<forall>i < MAX_PEERS. pr_inUse (cc_peer sample_cc ! i) = 0 \<or> peer_storable (cc_peer sample_cc ! i)" by blast
  from pairing_page_round_trip [OF l pair_session w this [folded c]]
  obtain w2 where "handlePeersPost pair_env pair_request sample_web = (w2, Page (Pg_peers_saved None))"
    "\<forall>i < MAX_PEERS. cc_peer (c2_cfg (ws_c2 w2)) ! i = (if pr_inUse (cc_peer sample_cc ! i) = 0 then zero_peer else cc_peer sample_cc ! i)"
    by (auto simp: c pair_request_def)
  then show ?thesis by (auto simp: MAX_PEERS_def sample_cc_def sample_peer_def dest: spec [of _ 0])
qed

end
