(* ===== verification/PacketDump.thy ===== *)
theory PacketDump
  imports ConsoleLog DecoderSafety Bridge
begin

text \<open>
  The decoder's console dump (\<open>print\<close> and the \<open>print*\<close> functions of \<open>src/src/MeshDecoderDebug.h\<close>),
  which \<open>radioTask\<close> runs on every packet off air, under the console lock, before the bridge looks at
  it. A dump is the list of its prints; \<open>None\<close> when the code has no defined behaviour, because the
  walk of a crafted plaintext does not return or the text to print lies outside the plaintext. The
  clock is read anew for every line.
\<close>

section \<open>Lines\<close>

definition fmt_8lu :: "u32 \<Rightarrow> bytes" where
  "fmt_8lu x = (let d = fmt_u (unat x) in replicate (8 - length d) 32 @ d)"

definition dump_head :: "u32 \<Rightarrow> bytes \<Rightarrow> bytes" where
  "dump_head now tag = str ''['' @ fmt_8lu now @ str '' ms]['' @ tag @ str '' decoded] ''"

definition printable :: "u8 \<Rightarrow> u8" where
  "printable c = (if 0x20 \<le> c \<and> c < 0x7F then c else of_char CHR ''?'')"

text \<open>A text between quotation marks, written byte by byte; \<open>println\<close> ends a line with CR and LF.\<close>

definition quoted :: "u32 \<Rightarrow> bytes \<Rightarrow> string \<Rightarrow> bytes \<Rightarrow> bytes list" where
  "quoted now tag label body =
     [dump_head now tag @ str label @ [34]] @ map (\<lambda>c. [printable c]) body @ [[34, 13, 10]]"

section \<open>MeshCore\<close>

definition mc_line :: "crypto \<Rightarrow> u32 \<Rightarrow> bytes \<Rightarrow> bytes \<Rightarrow> radio_channel \<Rightarrow> nat \<Rightarrow> bytes \<Rightarrow> bytes" where
  "mc_line c now tag buf ch off pt =
     (let hmac = hmac_sha256 c (take 16 (ch_key ch)) (drop (off + 3) buf); flags = pt ! 4;
          route = buf ! 0 AND 0x03; pathLen = buf ! (if route = 0 \<or> route = 3 then 5 else 1) in
      dump_head now tag @ str ''MeshCore GRP_TXT ch=0x'' @ fmt_02X (buf ! off) @ str '' hops='' @ fmt_u (unat pathLen) @
      str '' mac='' @ fmt_02X (buf ! (off + 1)) @ fmt_02X (buf ! (off + 2)) @ str ''('' @
      (if hmac ! 0 = buf ! (off + 1) \<and> hmac ! 1 = buf ! (off + 2) then str ''ok'' else str ''BAD'') @ str '') ts='' @
      fmt_u (unat (get32 pt 0)) @ str '' flags=0x'' @ fmt_02X flags @ str ''(att='' @ fmt_u (unat (flags AND 0x03)) @
      str '',sub='' @ fmt_u (unat (drop_bit 2 flags)) @ str '')'' @ [10])"

definition printMeshCore :: "crypto \<Rightarrow> (nat \<Rightarrow> u32) \<Rightarrow> bytes \<Rightarrow> bytes \<Rightarrow> radio_channel \<Rightarrow> bytes list" where
  "printMeshCore c now tag buf ch =
     (case mc_payload_off buf of None \<Rightarrow> []
      | Some off \<Rightarrow>
         (let ct = drop (off + 3) buf; ctLen = length ct in
          if buf ! off \<noteq> ch_channelHash ch then []
          else if ctLen = 0 \<or> ctLen mod 16 \<noteq> 0 then []
          else if ctLen > 224 then []
          else (let pt = ecb_blocks (aes_dec c (take 16 (ch_key ch))) ct in
            [mc_line c (now 0) tag buf ch off pt] @ quoted (now 1) tag ''body: '' (takeWhile (\<lambda>b. b \<noteq> 0) (drop 5 pt)))))"

section \<open>Meshtastic\<close>

definition meshtasticPortName :: "u32 \<Rightarrow> bytes" where
  "meshtasticPortName n =
     (if n = 1 then str ''TEXT_MESSAGE_APP'' else if n = 3 then str ''POSITION_APP'' else if n = 4 then str ''NODEINFO_APP''
      else if n = 5 then str ''ROUTING_APP'' else if n = 6 then str ''ADMIN_APP'' else if n = 67 then str ''TELEMETRY_APP''
      else if n = 70 then str ''AUDIO_APP'' else if n = 71 then str ''TRACEROUTE_APP'' else str ''?'')"

text \<open>The walk of the Data message, with the mark that a port number was read.\<close>

definition print_step :: "bytes \<Rightarrow> u32 \<Rightarrow> nat \<Rightarrow> nat \<Rightarrow> data_msg \<times> bool \<Rightarrow> (nat \<times> data_msg \<times> bool) option option" where
  "print_step b f w p s =
     (case data_step b f w p (fst s) of
        None \<Rightarrow> None
      | Some None \<Rightarrow> Some None
      | Some (Some (q, m)) \<Rightarrow> Some (Some (q, m, snd s \<or> f = 1 \<and> w = 0)))"

definition mt_line :: "u32 \<Rightarrow> bytes \<Rightarrow> bytes \<Rightarrow> bytes" where
  "mt_line now tag buf =
     dump_head now tag @ str ''Meshtastic src=0x'' @ fmt_08lX (get32 buf 4) @ str '' dest=0x'' @ fmt_08lX (get32 buf 0) @
     str '' id=0x'' @ fmt_08lX (get32 buf 8) @ str '' flags=0x'' @ fmt_02X (buf ! 12) @ str '' ch=0x'' @ fmt_02X (buf ! 13) @
     str '' next=0x'' @ fmt_02X (buf ! 14) @ str '' relay=0x'' @ fmt_02X (buf ! 15) @ str '' ct='' @
     fmt_u (length buf - 16) @ str '' B'' @ [10]"

text \<open>The dash of a message is three bytes of UTF-8.\<close>

definition undecodable_line :: "u32 \<Rightarrow> bytes \<Rightarrow> bytes" where
  "undecodable_line now tag =
     dump_head now tag @ str ''(no decodable protobuf '' @ [0xE2, 0x80, 0x94] @ str '' wrong key/channel?)'' @ [10]"

definition port_line :: "u32 \<Rightarrow> bytes \<Rightarrow> data_msg \<Rightarrow> bytes" where
  "port_line now tag m =
     dump_head now tag @ str ''portnum='' @ fmt_u (unat (dm_portnum m)) @ str ''('' @ meshtasticPortName (dm_portnum m) @
     str '') payload='' @ fmt_u (case dm_payload m of None \<Rightarrow> 0 | Some (off, n) \<Rightarrow> n) @ str '' B'' @ [10]"

text \<open>The channel hash of the packet is printed, and not compared.\<close>

definition printMeshtastic :: "crypto \<Rightarrow> (nat \<Rightarrow> u32) \<Rightarrow> bytes \<Rightarrow> bytes \<Rightarrow> radio_channel \<Rightarrow> bytes list option" where
  "printMeshtastic c now tag buf ch =
     (if length buf < 17 then Some []
      else (let ct = drop 16 buf; out = [mt_line (now 0) tag buf] in
        if length ct > 240 then Some (out @ [dump_head (now 1) tag @ str ''ciphertext too long, skip'' @ [10]])
        else (let pt = aes_ctr c (take (ch_keyLen ch) (ch_key ch)) (mt_nonce (get32 buf 8) (get32 buf 4)) ct in
          case pb_walk print_step pt 0 (data_init, False) of
            None \<Rightarrow> None
          | Some ((m, got), ok) \<Rightarrow>
              if \<not> ok \<and> \<not> got then Some (out @ [undecodable_line (now 1) tag])
              else (case dm_slice pt m 1 of
                  None \<Rightarrow> None
                | Some None \<Rightarrow> Some (out @ [port_line (now 1) tag m])
                | Some (Some text_bytes) \<Rightarrow> Some (out @ [port_line (now 1) tag m] @ quoted (now 2) tag ''text: '' text_bytes)))))"

section \<open>Reticulum and LoRaWAN\<close>

text \<open>
  The encoder reports the length it needs also when the 1024 bytes do not suffice; the loop then
  reads that many.
\<close>

definition printReticulum :: "crypto \<Rightarrow> (nat \<Rightarrow> u32) \<Rightarrow> bytes \<Rightarrow> bytes \<Rightarrow> bytes list option" where
  "printReticulum c now tag buf =
     (if buf = [] then Some []
      else (let e = base64_encode c buf in
        if 1024 < length e + 1 then None
        else Some ([dump_head (now 0) tag @ str ''Reticulum/RNode raw '' @ fmt_u (length buf) @ str '' B (b64='' @ fmt_u (length e) @ str ''): ''] @
          map (\<lambda>x. [x]) e @ [[13, 10]])))"

definition printLoRaWAN :: "(nat \<Rightarrow> u32) \<Rightarrow> bytes \<Rightarrow> bytes \<Rightarrow> bytes list" where
  "printLoRaWAN now tag buf =
     (case extractLoRaWANMeta buf of (m, ok) \<Rightarrow>
        if \<not> ok then [dump_head (now 0) tag @ str ''LoRaWAN (sync 0x34) unparseable len='' @ fmt_u (length buf) @ [10]]
        else if lm_isJoinReq m then
          [dump_head (now 0) tag @ str ''LoRaWAN '' @ loraWanMtypeName (lm_mtype m) @ str '' JoinEUI='' @
           fmt_08lx (ucast (drop_bit 32 (lm_joinEui m))) @ fmt_08lx (ucast (lm_joinEui m AND 0xFFFFFFFF)) @ str '' DevEUI='' @
           fmt_08lx (ucast (drop_bit 32 (lm_devEui m))) @ fmt_08lx (ucast (lm_devEui m AND 0xFFFFFFFF)) @ str '' len='' @
           fmt_u (length buf) @ [10]]
        else if lm_isData m then
          [dump_head (now 0) tag @ str ''LoRaWAN '' @ loraWanMtypeName (lm_mtype m) @ str '' DevAddr=0x'' @ fmt_08lx (lm_devAddr m) @
           str '' FCtrl=0x'' @ fmt_02X (lm_fctrl m) @ str '' FCnt='' @ fmt_u (unat (lm_fcnt m)) @ str '' FPort='' @
           fmt_d (if lm_hasFport m then uint (lm_fport m) else -1) @ str '' FRMlen='' @ fmt_u (unat (lm_frmPayloadLen m)) @
           str '' len='' @ fmt_u (length buf) @ [10]]
        else [dump_head (now 0) tag @ str ''LoRaWAN '' @ loraWanMtypeName (lm_mtype m) @ str '' (encrypted/opaque) len='' @
           fmt_u (length buf) @ [10]])"

definition print_packet :: "crypto \<Rightarrow> (nat \<Rightarrow> u32) \<Rightarrow> bytes \<Rightarrow> bytes \<Rightarrow> radio_channel \<Rightarrow> bytes list option" where
  "print_packet c now tag buf ch =
     (if ch_protocol ch = SYNC_WORD_MESHCORE then Some (printMeshCore c now tag buf ch)
      else if ch_protocol ch = SYNC_WORD_MESHTASTIC then printMeshtastic c now tag buf ch
      else if ch_protocol ch = SYNC_WORD_RETICULUM then printReticulum c now tag buf
      else if ch_protocol ch = SYNC_WORD_LORAWAN then Some (printLoRaWAN now tag buf)
      else Some [])"

section \<open>A packet cannot write lines of its own\<close>

text \<open>Neither a control character nor DEL; the bytes of UTF-8 text count as visible.\<close>

definition visible :: "u8 \<Rightarrow> bool" where
  "visible b \<longleftrightarrow> 32 \<le> b \<and> b \<noteq> 127"

abbreviation all_visible :: "bytes \<Rightarrow> bool" where
  "all_visible s \<equiv> list_all visible s"

lemma visible_digits: "\<forall>n \<in> {0..<16 :: nat}. visible (HEX_digit (of_nat n)) \<and> visible (hex_digit (of_nat n))"
  by (simp add: visible_def HEX_digit_def hex_digit_def atLeastLessThan_nat_numeral)

lemma visible_digit: "d < 16 \<Longrightarrow> visible (HEX_digit d) \<and> visible (hex_digit d)"
proof -
  assume "d < 16"
  then have "unat d \<in> {0..<16}" by (simp add: word_less_nat_alt)
  with visible_digits have "visible (HEX_digit (of_nat (unat d))) \<and> visible (hex_digit (of_nat (unat d)))" by blast
  then show ?thesis by simp
qed

lemma visible_hex: "all_visible (HEX_of bs)" "all_visible (hex_of bs)"
  by (induction bs) (simp_all add: HEX_of_def hex_of_def visible_digit nibbles)

lemma visible_fmt_u: "all_visible (fmt_u n)"
proof (induction n rule: fmt_u.induct)
  case (1 n)
  have "visible (of_char CHR ''0'' + of_nat k)" if "k < 10" for k :: nat
    using that by (simp add: visible_def word_le_nat_alt unat_word_ariths unat_of_nat word_unat_eq_iff)
  then show ?case using 1 by (cases "n < 10") (simp_all add: fmt_u.simps [of n])
qed

lemma visible_numbers:
  "all_visible (fmt_08lX w)" "all_visible (fmt_08lx w)" "all_visible (fmt_02X b)" "all_visible (fmt_8lu w)" "all_visible (fmt_d i)"
  by (simp_all add: fmt_08lX_def fmt_08lx_def fmt_02X_def fmt_8lu_def fmt_d_def visible_hex visible_fmt_u Let_def)
    (simp_all add: visible_def list_all_iff)

lemma visible_str: "all_visible (str s) = list_all (\<lambda>c. visible (of_char c)) s"
  by (simp add: str_def list_all_iff)

lemma visible_printable: "visible (printable c)"
  by (simp add: printable_def visible_def word_less_nat_alt word_unat_eq_iff)

lemma visible_names: "all_visible (loraWanMtypeName m)" "all_visible (meshtasticPortName n)"
  by (simp_all add: loraWanMtypeName_def meshtasticPortName_def visible_str visible_def)

lemmas visibles = visible_fmt_u visible_numbers visible_str visible_names

text \<open>What a dump may hold: lines of visible bytes, and single visible bytes.\<close>

definition dump_ok :: "nat \<Rightarrow> bytes list \<Rightarrow> bool" where
  "dump_ok n out \<longleftrightarrow> (\<forall>p \<in> set out. \<forall>b \<in> set p. visible b \<or> b = 10 \<or> b = 13) \<and> length (filter ((=) 10) (concat out)) = n"

lemma no_lf: "all_visible s \<Longrightarrow> filter ((=) 10) s = []"
  by (auto simp: filter_empty_conv list_all_iff visible_def)

lemma dump_ok_app: "dump_ok n a \<Longrightarrow> dump_ok m b \<Longrightarrow> dump_ok (n + m) (a @ b)"
  by (auto simp: dump_ok_def)

lemma dump_ok_line: "all_visible s \<Longrightarrow> dump_ok 1 [s @ [10]]"
  by (auto simp: dump_ok_def no_lf list_all_iff)

lemma dump_ok_nil: "dump_ok 0 []"
  by (simp add: dump_ok_def)

lemma dump_ok_bytes: "all_visible s \<Longrightarrow> dump_ok 0 (map (\<lambda>c. [c]) s)"
  by (induction s) (auto simp: dump_ok_def visible_def)

lemma dump_ok_part: "all_visible s \<Longrightarrow> dump_ok 0 [s]"
  by (auto simp: dump_ok_def no_lf list_all_iff)

lemma dump_ok_close: "all_visible s \<Longrightarrow> dump_ok 1 [s @ [13, 10]]"
  by (auto simp: dump_ok_def no_lf list_all_iff)

lemma visible_head: "all_visible tag \<Longrightarrow> all_visible (dump_head now tag)"
  by (simp add: dump_head_def visibles) (simp add: visible_def)

lemma quoted_ok:
  assumes "all_visible tag" and "all_visible (str label)"
  shows "dump_ok 1 (quoted now tag label body)"
proof -
  have "all_visible (map printable body)" by (simp add: list_all_iff visible_printable)
  then have b: "dump_ok 0 (map (\<lambda>c. [printable c]) body)" using dump_ok_bytes [of "map printable body"] by (simp add: comp_def)
  have h: "dump_ok 0 [dump_head now tag @ str label @ [34]]"
    by (rule dump_ok_part) (use assms visible_head in \<open>simp add: visible_def [of 34]\<close>)
  have e: "dump_ok 1 [[34, 13, 10]]" using dump_ok_close [of "[34]"] by (simp add: visible_def)
  show ?thesis using dump_ok_app [OF dump_ok_app [OF h b] e] by (simp add: quoted_def)
qed

lemma line_ok:
  "all_visible tag \<Longrightarrow> dump_ok 1 [mc_line c now tag buf ch off pt]"
  "all_visible tag \<Longrightarrow> dump_ok 1 [mt_line now tag buf]"
  "all_visible tag \<Longrightarrow> dump_ok 1 [undecodable_line now tag]"
  "all_visible tag \<Longrightarrow> dump_ok 1 [port_line now tag m]"
  unfolding mc_line_def mt_line_def undecodable_line_def port_line_def Let_def append_assoc [symmetric]
  by (rule dump_ok_line; simp add: visible_head visibles; simp add: visible_def)+

lemma dump_ok_text: "all_visible tag \<Longrightarrow> dump_ok 1 [dump_head now tag @ str ''ciphertext too long, skip'' @ [10]]"
  using dump_ok_line [of "dump_head now tag @ str ''ciphertext too long, skip''"] by (simp add: visible_head visibles) (simp add: visible_def)

lemma meshcore_dump_ok: "all_visible tag \<Longrightarrow> \<exists>n \<le> 2. dump_ok n (printMeshCore c now tag buf ch)"
proof -
  assume t: "all_visible tag"
  have "all_visible (str ''body: '')" by (simp add: visibles visible_def)
  note full = dump_ok_app [OF line_ok(1) [OF t] quoted_ok [OF t this]]
  have "printMeshCore c now tag buf ch = [] \<or>
      (\<exists>off pt body. printMeshCore c now tag buf ch = [mc_line c (now 0) tag buf ch off pt] @ quoted (now 1) tag ''body: '' body)"
    by (auto simp: printMeshCore_def Let_def split: option.splits)
  then show ?thesis
  proof
    assume "printMeshCore c now tag buf ch = []"
    then show ?thesis using dump_ok_nil by auto
  next
    assume "\<exists>off pt body. printMeshCore c now tag buf ch = [mc_line c (now 0) tag buf ch off pt] @ quoted (now 1) tag ''body: '' body"
    then show ?thesis using full by (metis le_refl one_add_one)
  qed
qed

lemma meshtastic_dump_ok:
  assumes t: "all_visible tag" and "printMeshtastic c now tag buf ch = Some out"
  shows "\<exists>n \<le> 3. dump_ok n out"
proof -
  have l: "all_visible (str ''text: '')" by (simp add: visibles visible_def)
  have h: "dump_ok 1 [mt_line (now 0) tag buf]" "dump_ok 1 [port_line (now 1) tag m]" for m by (rule line_ok [OF t])+
  note two = dump_ok_app [OF h(1) h(2)] dump_ok_app [OF h(1) line_ok(3) [OF t]] dump_ok_app [OF h(1) dump_ok_text [OF t]]
  note three = dump_ok_app [OF two(1) quoted_ok [OF t l]]
  consider "dump_ok 0 out" | "dump_ok (1 + 1) out" | "dump_ok (1 + 1 + 1) out"
    using assms(2) two three dump_ok_nil
    by (auto simp: printMeshtastic_def Let_def simp del: One_nat_def split: if_splits option.splits prod.splits)
  then show ?thesis by cases (auto intro: exI [of _ 0] exI [of _ 2] exI [of _ 3] simp: eval_nat_numeral)
qed

lemma reticulum_dump_ok:
  assumes "all_visible tag" and "all_visible (base64_encode c buf)" and "printReticulum c now tag buf = Some out"
  shows "\<exists>n \<le> 1. dump_ok n out"
proof -
  have h: "dump_ok 0 [dump_head n tag @ str ''Reticulum/RNode raw '' @ fmt_u a @ str '' B (b64='' @ fmt_u b @ str ''): '']" for n a b
    by (rule dump_ok_part) (simp add: visible_head assms(1) visibles, simp add: visible_def)
  have e: "dump_ok 1 [[13, 10]]" using dump_ok_close [of "[]"] by simp
  note all = dump_ok_app [OF dump_ok_app [OF h dump_ok_bytes [OF assms(2)]] e]
  show ?thesis using assms(3) all
    by (auto simp: printReticulum_def Let_def intro: dump_ok_nil split: if_splits)
qed

lemma lorawan_dump_ok:
  assumes "all_visible tag"
  shows "dump_ok 1 (printLoRaWAN now tag buf)"
proof -
  obtain m ok where e: "extractLoRaWANMeta buf = (m, ok)" by fastforce
  show ?thesis
    unfolding printLoRaWAN_def e prod.case append_assoc [symmetric]
    by (simp only: split: if_split)
      (intro conjI impI dump_ok_line; simp add: assms visible_head visibles; simp add: visible_def)
qed


text \<open>A Meshtastic text with a line break and a forged event: the break is printed as a question mark.\<close>

definition dump_crypto :: crypto where
  "dump_crypto = toy_crypto\<lparr>base64_encode := hex_of\<rparr>"

definition forging_packet :: bytes where
  "forging_packet = replicate 13 0xFF @ [8, 0, 0] @ map (\<lambda>b. b XOR 0x33) [0x08, 1, 0x12, 3, 10, 101, 118]"

lemma forging_plain: "aes_ctr dump_crypto k n (drop 16 forging_packet) = [0x08, 1, 0x12, 3, 10, 101, 118]"
  by (simp add: forging_packet_def dump_crypto_def toy_crypto_def)

lemma forging_walk:
  "pb_walk print_step [0x08, 1, 0x12, 3, 10, 101, 118] 0 (data_init, False) =
     Some ((\<lparr>dm_portnum = 1, dm_payload = Some (4, 3)\<rparr>, True), True)"
proof -
  let ?b = "[0x08, 1, 0x12, 3, 10, 101, 118] :: bytes"
  have v: "pbVarint ?b 0 = Some (8, 1)" "pbVarint ?b 1 = Some (1, 2)" "pbVarint ?b 2 = Some (0x12, 3)" "pbVarint ?b 3 = Some (3, 4)"
    by code_simp+
  have t: "pb_field 8 = 1" "pb_wire 8 = 0" "pb_field 0x12 = 2" "pb_wire 0x12 = 2" by code_simp+
  have e: "\<not> len_overruns 4 3 (length ?b)" "advance 4 3 = 7" "unat (ucast (3 :: u64) :: u32) = 3"
    by (simp_all add: len_overruns_def advance_def)
  have a: "print_step ?b 1 0 1 (data_init, False) = Some (Some (2, data_init\<lparr>dm_portnum := 1\<rparr>, True))"
    by (simp add: print_step_def data_step_def v del: One_nat_def)
  have b: "print_step ?b 2 2 3 (m, g) = Some (Some (7, m\<lparr>dm_payload := Some (4, 3)\<rparr>, g))" for m g
    using e by (simp add: print_step_def data_step_def v del: list.size)
  show ?thesis
    by (subst pb_walk.simps, simp add: v t a del: One_nat_def, subst pb_walk.simps, simp add: v t b, subst pb_walk.simps)
      (simp add: data_init_def)
qed

lemma forging_dump:
  "printMeshtastic dump_crypto (\<lambda>k. 0) (str ''R1'') forging_packet sample_channel =
     Some ([mt_line 0 (str ''R1'') forging_packet] @
       [port_line 0 (str ''R1'') \<lparr>dm_portnum = 1, dm_payload = Some (4, 3)\<rparr>] @ quoted 0 (str ''R1'') ''text: '' [10, 101, 118])"
  unfolding printMeshtastic_def forging_plain Let_def
  by (simp add: forging_walk dm_slice_def) (simp add: forging_packet_def)


section \<open>When the dump returns\<close>

interpretation print_loop: pb_step print_step sane_buf "\<lambda>b s. dm_inside b (fst s)"
proof unfold_locales
  fix b :: bytes and p :: nat and s s2 :: "data_msg \<times> bool" and f w p2
  assume a: "sane_buf b" "p \<le> length b" "dm_inside b (fst s)"
  show "print_step b f w p s \<noteq> None"
    using data_loop.step_returns [OF a] by (auto simp: print_step_def split: option.splits prod.splits)
  show "p \<le> p2 \<and> p2 \<le> length b \<and> dm_inside b (fst s2)" if "print_step b f w p s = Some (Some (p2, s2))"
    using data_loop.step_forward [OF a, of f w] that by (auto simp: print_step_def split: option.splits prod.splits)
qed

text \<open>On a plaintext without an overlong varint, and a packet of the radio's size, the dump returns.\<close>

theorem dump_returns:
  assumes "sane_buf (aes_ctr c (take (ch_keyLen ch) (ch_key ch)) (mt_nonce (get32 buf 8) (get32 buf 4)) (drop 16 buf))"
    and "length (base64_encode c buf) \<le> 4 * ((length buf + 2) div 3)" and "length buf \<le> 256"
  shows "print_packet c now tag buf ch \<noteq> None"
proof -
  let ?pt = "aes_ctr c (take (ch_keyLen ch) (ch_key ch)) (mt_nonce (get32 buf 8) (get32 buf 4)) (drop 16 buf)"
  have "dm_inside ?pt (fst (data_init, False))" by (simp add: dm_inside_def data_init_def)
  from print_loop.walk_returns [OF assms(1) _ this, of 0] obtain m got ok
    where m: "pb_walk print_step ?pt 0 (data_init, False) = Some ((m, got), ok)" "dm_inside ?pt m" by auto
  have "dm_slice ?pt m 1 \<noteq> None" using m(2) by (auto simp: dm_slice_def dm_inside_def split: option.splits)
  then have mt: "printMeshtastic c now tag buf ch \<noteq> None"
    by (auto simp: printMeshtastic_def Let_def m(1) split: option.splits)
  have "(length buf + 2) div 3 \<le> 86" using assms(3) by linarith
  then have "printReticulum c now tag buf \<noteq> None" using assms(2) by (simp add: printReticulum_def Let_def)
  with mt show ?thesis by (simp add: print_packet_def)
qed

text \<open>
  The walk of the dump and the walk of the extractors go the same way, so the plaintext that sends
  one back for ever does so with the other; but the dump does not compare the channel hash, and it
  holds the console lock.
\<close>

lemma print_walk_follows: "pb_walk print_step b p s = Some r \<Longrightarrow> pb_walk data_step b p (fst s) = Some (fst (fst r), snd r)"
proof -
  have "st = print_step \<longrightarrow> pb_walk data_step b p (fst s) = Some (fst (fst r), snd r)" if "pb_walk st b p s = Some r" for st b p s r
    using that
  proof (rule pb_walk.raw_induct [where P = "\<lambda>st b p s r. st = print_step \<longrightarrow> pb_walk data_step b p (fst s) = Some (fst (fst r), snd r)", rotated])
    fix walk st b p s r
    assume hyp: "\<And>st b p s r. walk st b p s = Some r \<Longrightarrow> st = print_step \<longrightarrow> pb_walk data_step b p (fst s) = Some (fst (fst r), snd r)"
      and eq: "(if p \<ge> length b then Some (s, True)
        else case pbVarint b p of None \<Rightarrow> Some (s, False)
        | Some (tagv, p1) \<Rightarrow> (case st b (pb_field tagv) (pb_wire tagv) p1 s of None \<Rightarrow> None
           | Some None \<Rightarrow> Some (s, False) | Some (Some (p2, s2)) \<Rightarrow> walk st b p2 s2)) = Some r"
    show "st = print_step \<longrightarrow> pb_walk data_step b p (fst s) = Some (fst (fst r), snd r)"
    proof
      assume st: "st = print_step"
      show "pb_walk data_step b p (fst s) = Some (fst (fst r), snd r)"
        using eq st
        by (subst pb_walk.simps)
          (auto simp: print_step_def dest: hyp [where st = print_step, simplified] split: option.splits prod.splits if_splits)
    qed
  qed
  then show "pb_walk print_step b p s = Some r \<Longrightarrow> pb_walk data_step b p (fst s) = Some (fst (fst r), snd r)" by blast
qed

lemma print_walk_marks:
  assumes "pb_walk print_step b p s = Some r" and "dm_portnum (fst s) = 0 \<or> snd s"
  shows "dm_portnum (fst (fst r)) = 0 \<or> snd (fst r)"
proof -
  have "st = print_step \<longrightarrow> dm_portnum (fst s) = 0 \<or> snd s \<longrightarrow> dm_portnum (fst (fst r)) = 0 \<or> snd (fst r)"
    if "pb_walk st b p s = Some r" for st b p s r
    using that
  proof (rule pb_walk.raw_induct [where P = "\<lambda>st b p s r. st = print_step \<longrightarrow> dm_portnum (fst s) = 0 \<or> snd s \<longrightarrow>
        dm_portnum (fst (fst r)) = 0 \<or> snd (fst r)", rotated])
    fix walk st b p s r
    assume hyp: "\<And>st b p s r. walk st b p s = Some r \<Longrightarrow>
        st = print_step \<longrightarrow> dm_portnum (fst s) = 0 \<or> snd s \<longrightarrow> dm_portnum (fst (fst r)) = 0 \<or> snd (fst r)"
      and eq: "(if p \<ge> length b then Some (s, True)
        else case pbVarint b p of None \<Rightarrow> Some (s, False)
        | Some (tagv, p1) \<Rightarrow> (case st b (pb_field tagv) (pb_wire tagv) p1 s of None \<Rightarrow> None
           | Some None \<Rightarrow> Some (s, False) | Some (Some (p2, s2)) \<Rightarrow> walk st b p2 s2)) = Some r"
    have keep: "dm_portnum m2 = 0 \<or> g2" if "print_step b f w q (m, g) = Some (Some (q2, m2, g2))" "dm_portnum m = 0 \<or> g" for f w q m g q2 m2 g2
      using that by (auto simp: print_step_def data_step_def Let_def split: option.splits prod.splits if_splits)
    show "st = print_step \<longrightarrow> dm_portnum (fst s) = 0 \<or> snd s \<longrightarrow> dm_portnum (fst (fst r)) = 0 \<or> snd (fst r)"
    proof (intro impI)
      assume st: "st = print_step" and m: "dm_portnum (fst s) = 0 \<or> snd s"
      consider "fst r = s" | p2 s2 tagv p1 where "print_step b (pb_field tagv) (pb_wire tagv) p1 s = Some (Some (p2, s2))"
          "walk print_step b p2 s2 = Some r"
        using eq st by (auto split: option.splits prod.splits if_splits)
      then show "dm_portnum (fst (fst r)) = 0 \<or> snd (fst r)"
      proof cases
        case 2
        then have "dm_portnum (fst s2) = 0 \<or> snd s2" using keep m by (metis prod.collapse)
        then show ?thesis using hyp [OF 2(2)] by blast
      qed (use m in simp)
    qed
  qed
  then show ?thesis using assms by blast
qed

lemma dump_never_returns:
  assumes "aes_ctr c (take (ch_keyLen ch) (ch_key ch)) (mt_nonce (get32 buf 8) (get32 buf 4)) (drop 16 buf) = looping_plaintext"
    and "length buf = 27"
  shows "printMeshtastic c now tag buf ch = None"
proof -
  have "pb_walk print_step looping_plaintext 0 (data_init, False) = None"
    using print_walk_follows [of looping_plaintext 0 "(data_init, False)"] looping_walk by (cases "pb_walk print_step looping_plaintext 0 (data_init, False)") auto
  then show ?thesis using assms by (simp add: printMeshtastic_def Let_def)
qed

text \<open>What the bridge forwards is what the dump shows, with the bytes outside ASCII as question marks.\<close>

lemma dump_shows_meshcore_text:
  assumes "extractMeshCoreBody c buf ch cap = Some (body, ts)"
  shows "\<exists>line full. printMeshCore c now tag buf ch = line # quoted (now 1) tag ''body: '' full \<and> body = take (cap - 1) full"
  using assms by (auto simp: extractMeshCoreBody_def printMeshCore_def Let_def min_def split: option.splits if_splits)

lemma dump_shows_meshtastic_text:
  assumes "extractMeshtasticBody c buf ch cap = Some (Some body)" and "printMeshtastic c now tag buf ch = Some out"
  shows "\<exists>head payload. out = head @ quoted (now 2) tag ''text: '' payload \<and> body = cstr_of (take (cap - 1) payload)"
proof -
  let ?pt = "aes_ctr c (take (ch_keyLen ch) (ch_key ch)) (mt_nonce (get32 buf 8) (get32 buf 4)) (drop 16 buf)"
  obtain pl where pl: "mt_payload c ch buf 1 = Some (Some pl)" "body = cstr_of (take (min (length pl) (cap - 1)) pl)"
    using assms(1) by (auto simp: extractMeshtasticBody_def split: if_splits option.splits)
  have len: "\<not> length buf < 17" "\<not> 240 < length (drop 16 buf)" and mt: "mt_plaintext c ch buf = Some ?pt"
    using pl(1) by (auto simp: mt_payload_def mt_plaintext_def Let_def split: if_splits)
  obtain m ok where d: "data_walk ?pt = Some (m, ok)" "dm_slice ?pt m 1 = Some (Some pl)"
    using pl(1) mt by (auto simp: mt_payload_def split: option.splits)
  obtain n got ok2 where w: "pb_walk print_step ?pt 0 (data_init, False) = Some ((n, got), ok2)"
    using assms(2) len by (auto simp: printMeshtastic_def Let_def split: option.splits)
  have same: "n = m" "ok2 = ok" using print_walk_follows [OF w] d(1) by (simp_all add: data_walk_def)
  have "body = cstr_of (take (cap - 1) pl)" unfolding pl(2) by (simp add: min_def)
  moreover have "ok \<or> got"
    using print_walk_marks [OF w] same d(2) by (auto simp: dm_slice_def data_init_def split: if_splits)
  moreover from this have "out = [mt_line (now 0) tag buf, port_line (now 1) tag m] @ quoted (now 2) tag ''text: '' pl"
    using assms(2) len d(2) w same by (auto simp: printMeshtastic_def Let_def)
  ultimately show ?thesis by blast
qed

end
