(* ===== verification/HostStart.thy ===== *)
theory HostStart
  imports BootSafety BridgeTunnel CameraNode
begin

text \<open>
  The whole of \<open>setup\<close> of \<open>src/src/main.cpp\<close>: the self test, the stored states, the boot path, the
  routing state, the radios and their tasks, and the camera, composed in the order of the code; and
  the state the radio tasks start from. Pins are in \<open>SetupPins\<close>, the camera's portal, which
  starts last, in \<open>CamPortal\<close>; console lines are left out.
\<close>

section \<open>Setup\<close>

text \<open>
  The build (its flags, defaults, roles and the self-test switch), and what the start meets: the
  storage, the ciphers, the arrays of the queues, the chips of the radios, the camera and its card.
\<close>

record 'c start_env =
  st_flags :: build_flags
  st_defaults :: config_flags
  st_selftest :: bool
  st_commander :: bool
  st_crypto :: crypto
  st_opens :: bool
  st_write :: nvs_write
  st_readable :: bool
  st_seed :: c2_seed
  st_boot :: boot_env
  st_ring :: "nat \<Rightarrow> rq_entry list option"
  st_chips :: "'c \<times> 'c"
  st_camInit :: bool
  st_card :: "bool \<times> bool \<times> sd_dir \<times> sd_usage"

datatype 'c start_result =
    In_portal config_state
  | Halted
  | Running config_state bridge "'c station" cam_node

text \<open>The first part: the latch of the self test, the command channel, the device table.\<close>

definition setup_stores :: "'c start_env \<Rightarrow> bridge \<Rightarrow> bridge" where
  "setup_stores e s =
     (let aes = aes_enc (st_crypto e); fl = st_flags e;
          s = (if st_selftest e \<and> bf_lw_encode fl then s\<lparr>br_lwCryptoOk := lw_selfTest aes\<rparr> else s);
          s = (if bf_camera fl \<or> st_commander e
               then s\<lparr>br_c2 := c2_begin aes (st_seed e) (st_readable e) True (br_c2 s)\<rparr> else s)
      in if bf_lw_encode fl then s\<lparr>br_lw := lw_begin (st_readable e) (br_lw s)\<rparr> else s)"

definition host_setup ::
  "'c sx1262 \<Rightarrow> (bytes \<Rightarrow> nat) \<Rightarrow> uart_link \<Rightarrow> 'c start_env \<Rightarrow> cam_node \<Rightarrow> config_state \<Rightarrow> bridge \<Rightarrow> 'c start_result" where
  "host_setup X uw l e cam cs0 s0 =
     (let s = setup_stores e s0;
          cam = (if bf_camera (st_flags e) then cam_begin (st_camInit e) cam else cam) in
      case boot_config (st_defaults e) (st_opens e) (st_write e) (st_boot e) cs0 of
        (cs, Captive_portal) \<Rightarrow> In_portal cs
      | (cs, Bridge_mode) \<Rightarrow>
          (case bring_up X uw (construct_radios (fst (st_chips e)) (snd (st_chips e)) (cs_cfg cs) l) of
             None \<Rightarrow> Halted
           | Some st \<Rightarrow>
               (let r2ok = (sn_enabled st ! 1 \<or> rs_protocol (bc_slot (cs_cfg cs) 1) = PROTO_NONE);
                    s = bridge_setup (st_flags e) (st_crypto e) (st_opens e) (st_ring e) r2ok (s\<lparr>br_cfg := cs_cfg cs\<rparr>);
                    cam = (case st_card e of (bus, mount, dir, u) \<Rightarrow>
                      if bf_camera (st_flags e) then beginStorage bus mount dir u cam else cam)
                in Running cs s st cam)))"

section \<open>What the tasks start from\<close>

lemma bring_up_enabled:
  assumes "bring_up X uw s = Some st"
  shows "sn_enabled st = sn_enabled s \<or> sn_enabled s ! 1 \<and> sn_enabled st = (sn_enabled s)[1 := False]"
proof -
  have f: "sn_enabled (foldl (\<lambda>s i. listen_on X uw i s) u is) = sn_enabled u" for u "is"
    by (induction "is" arbitrary: u) simp_all
  have l: "sn_enabled (fst (on_local g i u)) = sn_enabled u" for g i u
    by (simp add: on_local_def split: option.splits prod.splits)
  obtain s1 where s1: "(if sn_enabled s ! 0 then on_local (wio_begin X) 0 s else (s, True)) = (s1, True)"
    using assms by (auto simp: bring_up_def split: prod.splits bool.splits)
  have e1: "sn_enabled s1 = sn_enabled s" using s1 l [of "wio_begin X" 0 s] by (auto split: if_splits)
  obtain s2 k where k: "on_local (wio_begin X) 1 s1 = (s2, k)" by fastforce
  have e2: "sn_enabled s2 = sn_enabled s" using l [of "wio_begin X" 1 s1] k e1 by simp
  show ?thesis using assms k e1 e2
    by (cases k) (auto simp: bring_up_def s1 Let_def f simp del: One_nat_def split: if_splits)
qed

text \<open>
  The bridge the tasks share agrees with the radios that came up: the same slots are enabled, the
  configuration is the one that was loaded, every slot has the channel and the routes of its
  configuration, every queue that got memory is empty, and nothing counts as a duplicate.
\<close>

theorem host_starts_consistent:
  assumes "host_setup X uw l e cam cs0 s0 = Running cs s st cam2"
  shows "br_cfg s = cs_cfg cs \<and> br_enabled s = sn_enabled st \<and>
    (\<forall>i < NR. br_enabled s ! i \<longrightarrow> br_present s ! i \<and>
       br_chan s ! i = (let r = bc_slot (cs_cfg cs) (int i) in
         resolveRadioChannel (st_crypto e) (rs_syncWord r) (rs_channelName r) (rs_channelKey r)) \<and>
       (case br_queue s ! i of None \<Rightarrow> st_ring e i = None | Some q \<Rightarrow> rq_list q = [])) \<and>
    (\<forall>i < NR. br_route s ! i = rs_routeMask (bc_slot (cs_cfg cs) (int i))) \<and>
    (\<forall>h now. \<not> dedup_isSeen (br_dedup s) h now)"
proof -
  let ?u = "(setup_stores e s0)\<lparr>br_cfg := cs_cfg cs\<rparr>"
  let ?s0 = "construct_radios (fst (st_chips e)) (snd (st_chips e)) (cs_cfg cs) l"
  define on where "on = map (\<lambda>i. rs_protocol (bc_slot (cs_cfg cs) (int i)) \<noteq> PROTO_NONE) [0..<NR]"
  have up: "bring_up X uw ?s0 = Some st"
    and s: "s = bridge_setup (st_flags e) (st_crypto e) (st_opens e) (st_ring e)
        (sn_enabled st ! 1 \<or> rs_protocol (bc_slot (cs_cfg cs) 1) = PROTO_NONE) ?u"
    using assms by (auto simp: host_setup_def Let_def split: prod.splits boot_path.splits option.splits)
  have on0: "sn_enabled ?s0 = on" by (simp add: construct_radios_def Let_def on_def)
  have len: "length on = 4" "on ! 1 \<longleftrightarrow> rs_protocol (bc_slot (cs_cfg cs) 1) \<noteq> PROTO_NONE"
    by (simp_all add: on_def NR_def upt_rec)
  have en: "br_enabled s = (if sn_enabled st ! 1 \<or> \<not> on ! 1 then on else on[1 := False])"
    using len(2) by (simp add: s bridge_setup_def Let_def del: One_nat_def flip: on_def)
  have same: "br_enabled s = sn_enabled st"
    using bring_up_enabled [OF up] len(1) unfolding on0 en by auto
  have sub: "br_enabled s ! i \<Longrightarrow> on ! i" if "i < NR" for i
    using that len(1) unfolding en by (auto simp: nth_list_update NR_def split: if_splits)
  have q: "case rq_begin r BRIDGE_ROUTE_QUEUE_DEPTH m of None \<Rightarrow> r = None | Some q \<Rightarrow> rq_list q = []" for r m
    by (simp add: rq_begin_def BRIDGE_ROUTE_QUEUE_DEPTH_def rq_list_def split: option.splits)
  have "\<not> dedup_isSeen (dedup_begin tab) h now" for tab h now
    by (simp add: dedup_isSeen_def dedup_begin_def list_ex_iff)
  moreover have "br_cfg s = cs_cfg cs" "br_present s = on" "br_dedup s = dedup_begin (br_dedup ?u)"
    by (simp_all add: s bridge_setup_def Let_def on_def)
  moreover have "br_route s ! i = rs_routeMask (bc_slot (cs_cfg cs) (int i))" if "i < NR" for i
    using that by (simp add: s bridge_setup_def Let_def)
  moreover have "br_chan s ! i = (let r = bc_slot (cs_cfg cs) (int i) in
         resolveRadioChannel (st_crypto e) (rs_syncWord r) (rs_channelName r) (rs_channelKey r)) \<and>
       (case br_queue s ! i of None \<Rightarrow> st_ring e i = None | Some q \<Rightarrow> rq_list q = [])" if "i < NR" "on ! i" for i
    using that q by (simp add: s bridge_setup_def Let_def flip: on_def)
  ultimately show ?thesis using same sub by metis
qed

text \<open>A failed self test keeps the uplink encoder silent: no queue ever gets a frame from it.\<close>

lemma failed_selftest_latched:
  assumes "st_selftest e" and "bf_lw_encode (st_flags e)" and "\<not> lw_selfTest (aes_enc (st_crypto e))"
    and "host_setup X uw l e cam cs0 s0 = Running cs s st cam2"
  shows "\<not> br_lwCryptoOk s"
proof -
  have "\<not> br_lwCryptoOk (setup_stores e s0)" using assms(1-3) by (simp add: setup_stores_def Let_def)
  then show ?thesis using assms(4)
    by (auto simp: host_setup_def Let_def bridge_setup_def split: prod.splits boot_path.splits option.splits)
qed

theorem failed_selftest_silences_uplinks:
  assumes "st_selftest e" and "bf_lw_encode (st_flags e)" and "\<not> lw_selfTest (aes_enc (st_crypto e))"
    and "host_setup X uw l e cam cs0 s0 = Running cs s st cam2"
  shows "br_queue (fst (enqueueAbpUplink fl b src srcId j payload s)) = br_queue s"
  using failed_selftest_latched [OF assms] by (auto simp: enqueueAbpUplink_def Let_def split: prod.splits option.splits)

section \<open>A start\<close>

text \<open>A camera that starts for the first time, whose two chips answer and which gets memory for one queue.\<close>

definition sample_start :: "nat start_env" where
  "sample_start = \<lparr>st_flags = stock_flags\<lparr>bf_camera := True\<rparr>, st_defaults = sample_flags, st_selftest = False, st_commander = False,
     st_crypto = toy_crypto, st_opens = True, st_write = Write_ok, st_readable = True, st_seed = None,
     st_boot = \<lparr>bt_camera = True, bt_autosave = False, bt_mac = [1, 2, 3, 4, 5, 6], bt_start = 0, bt_polls = []\<rparr>,
     st_ring = (\<lambda>i. if i = 0 then Some [] else None), st_chips = (0, 0), st_camInit = True, st_card = (True, False, [], (0, 0))\<rparr>"

definition blank_camera :: cam_node where
  "blank_camera = \<lparr>cn_ok = False, cn_sdOk = False, cn_dir = [], cn_nextIdx = 1, cn_nextVid = 1, cn_sdFreePct = 0,
     cn_recActive = False, cn_recStop = False, cn_recSecs = 0, cn_recIdx = 0, cn_rd = None\<rparr>"

lemma answering_chip_comes_up:
  assumes "chip_starts X"
  shows "bring_up X uw s \<noteq> None"
proof -
  have "snd (on_local (wio_begin X) 0 s)"
    using begin_starts(1) [OF assms] by (simp add: on_local_def split: option.splits prod.splits) (metis snd_conv)
  then show ?thesis by (auto simp: bring_up_def Let_def split: prod.splits bool.splits)
qed

lemma host_start_witness:
  "\<exists>cs s st cam. host_setup sample_chip length ul_init sample_start blank_camera \<lparr>cs_cfg = loadDefaults sample_flags, cs_blob = NoBlob\<rparr>
      sample_bridge = Running cs s st cam \<and> br_enabled s = sn_enabled st"
proof -
  let ?b = "boot_config (st_defaults sample_start) (st_opens sample_start) (st_write sample_start) (st_boot sample_start)
    \<lparr>cs_cfg = loadDefaults sample_flags, cs_blob = NoBlob\<rparr>"
  have "snd ?b = Bridge_mode" using camera_never_opens_portal by (simp add: sample_start_def)
  then obtain cs where b: "?b = (cs, Bridge_mode)" by (cases ?b) auto
  obtain st where "bring_up sample_chip length (construct_radios (fst (st_chips sample_start)) (snd (st_chips sample_start)) (cs_cfg cs) ul_init) = Some st"
    using answering_chip_comes_up [OF sample_chip_starts] by blast
  then obtain s cam where "host_setup sample_chip length ul_init sample_start blank_camera \<lparr>cs_cfg = loadDefaults sample_flags, cs_blob = NoBlob\<rparr>
      sample_bridge = Running cs s st cam"
    using b by (simp add: host_setup_def Let_def split: prod.split)
  then show ?thesis using host_starts_consistent by blast
qed

end
