(* ===== verification/Spec2Isabelle.thy ===== *)
theory Spec2Isabelle
  imports Prelude LinkProtocol UartLink DedupCache RouteQueue LoRaWANCrypto NodeDB VirtualNodeMap
    RadioChannel Protobuf MeshDecoder DecoderSafety MeshEncoder EncoderRoundTrips Format Counters LoRaWANConfig
    CamC2Config CamC2 CamC2Safety CamPortalConfig CameraNode CameraSafety CameraMedia CamPortal CamPortalSafety BridgeConfig Floats FloatFacts RegionPreset Portal PortalSafety PortalSamples Bridge BridgeRouting BridgeDelivery BridgeTunnel Radios Scheduler
    SchedulerSafety SchedulerRadio SchedulerSamples CoProc CoProcSafety Handshake Boot BootSafety
    BuildFlags BenchFrames PortalForm PortalResave PortalScript PortalReload PageSamples SetupPins ConsoleLog PairingPage PacketDump HostStart
begin

text \<open>
  A verification development beside the firmware of the multi-protocol LoRa bridge: an ESP32-S3
  board (the \<^emph>\<open>host\<close>, \<open>src/src\<close>) with two SX1262 radios on its own SPI bus and, over a UART, a second
  board (the \<^emph>\<open>co-processor\<close>, \<open>src/coproc-xiao-sx1262\<close>) with two more. A packet received on one radio
  is decoded, checked against loops, translated for the protocol of every radio it is routed to
  (Meshtastic, MeshCore, Reticulum, LoRaWAN, raw) and queued there; each radio's task sends its queue.
  A build may also be a camera (media card, web portal, radio command channel) or its commander.

  \<^bold>\<open>How the parts interact.\<close> \<open>radioTask\<close> (\<open>Scheduler\<close>) drives one radio through the interface
  \<open>LoraRadio\<close> (\<open>Radios\<close>), either a chip on the bus or the co-processor's radio behind \<open>UartLink\<close>.
  A received packet is dumped to the console (\<open>PacketDump\<close>, under the lock of \<open>ConsoleLog\<close>) and goes
  to \<open>ingestAndFanout\<close> (\<open>Bridge\<close>), which uses the decoders (\<open>MeshDecoder\<close>), the duplicate cache
  (\<open>DedupCache\<close>), the names (\<open>NodeDB\<close>, \<open>VirtualNodeMap\<close>), the encoders (\<open>MeshEncoder\<close>,
  \<open>LoRaWANCrypto\<close> with the devices of \<open>LoRaWANConfig\<close>) and pushes into a \<open>RouteQueue\<close> per
  destination, which the scheduler of that radio pops. On a camera, packets on its Custom radio go
  to \<open>CamC2\<close> first. Everything is set up by \<open>setup\<close> (\<open>HostStart\<close>, from \<open>Boot\<close> and \<open>SetupPins\<close>) from the
  configuration (\<open>BridgeConfig\<close>), which the web form (\<open>Portal\<close>, its page in \<open>PortalForm\<close> and
  \<open>PortalScript\<close>) writes. On the other board \<open>CoProc\<close> answers the link.

  \<^bold>\<open>Theories and sources\<close> (under \<open>src/src\<close> unless said otherwise; a function keeps its name, with a
  prefix where names clash, and a class's state is a record with a prefix of its own):
  \<^item> \<open>Prelude\<close>: machine types, byte layouts, C strings, lemmas shared by all. \<open>Format\<close>, \<open>Floats\<close>,
    \<open>FloatFacts\<close>: \<open>printf\<close> conversions, IEEE single precision, its exactness. \<open>Counters\<close>: storage whose
    writes may be lost, and the interface \<open>monotone_issuer\<close> of the counters that survive reboots.
  \<^item> \<open>LinkProtocol\<close> (\<open>LinkProtocol.h\<close>), \<open>UartLink\<close> (\<open>UartLink.cpp\<close>), \<open>CoProc\<close>, \<open>CoProcSafety\<close>
    (\<open>coproc_main.cpp\<close>), \<open>Handshake\<close>: frames and CRC, both receivers as instances of the interface
    \<open>frame_link\<close>, the transmit gate, the co-processor's queue and loop, and the handshake across the link.
  \<^item> \<open>RadioChannel\<close> (\<open>RadioChannel.h\<close>, \<open>MeshtasticConfig.cpp\<close>, \<open>MeshCoreConfig.cpp\<close>), \<open>Protobuf\<close>,
    \<open>MeshDecoder\<close>, \<open>DecoderSafety\<close>, \<open>PacketDump\<close> (\<open>MeshDecoderDebug.h\<close>), \<open>MeshEncoder\<close>, \<open>EncoderRoundTrips\<close>
    (\<open>MeshEncoderDebug.h\<close>), \<open>LoRaWANCrypto\<close> (\<open>LoRaWANCrypto.h\<close>): channels, field walks over \<open>pb_step\<close>,
    extractors, the console dump, encoders with their round trips, AES-CMAC and the uplink frame.
  \<^item> \<open>DedupCache\<close>, \<open>RouteQueue\<close>, \<open>NodeDB\<close>, \<open>VirtualNodeMap\<close>, \<open>LoRaWANConfig\<close>, \<open>CamC2Config\<close>: the
    files of these names; tables, the ring refined to a bounded list (\<open>bounded_fifo\<close>), counters.
  \<^item> \<open>Bridge\<close>, \<open>BridgeRouting\<close>, \<open>BridgeDelivery\<close>, \<open>BridgeTunnel\<close>, \<open>Scheduler\<close>, \<open>SchedulerSafety\<close>,
    \<open>SchedulerRadio\<close>, \<open>SchedulerSamples\<close>, \<open>Boot\<close>, \<open>BootSafety\<close>, \<open>HostStart\<close>, \<open>SetupPins\<close> (\<open>main.cpp\<close>),
    \<open>Radios\<close> (\<open>LoraRadio.h\<close>, \<open>WioSX1262.cpp\<close>, \<open>RemoteRadio.cpp\<close>), \<open>ConsoleLog\<close> (\<open>SerialLog.cpp\<close>).
  \<^item> \<open>BridgeConfig\<close>, \<open>BuildFlags\<close> (\<open>BridgeConfig.cpp\<close>, \<open>LoraConfigCheck.h\<close>), \<open>RegionPreset\<close>
    (\<open>RegionPreset.h\<close>), \<open>Portal\<close>, \<open>PortalSafety\<close>, \<open>PortalSamples\<close>, \<open>PortalForm\<close>, \<open>PortalResave\<close>,
    \<open>PortalScript\<close>, \<open>PortalReload\<close>, \<open>PageSamples\<close> (\<open>CaptivePortal.cpp\<close>): the stored layouts with their
    migrations, the form's validation and commit, and the page itself with its script.
  \<^item> \<open>CamC2\<close>, \<open>CamC2Safety\<close> (\<open>CamC2.cpp\<close>), \<open>CameraNode\<close>, \<open>CameraSafety\<close>, \<open>CameraMedia\<close>
    (\<open>CameraNode.cpp\<close>), \<open>CamPortalConfig\<close>, \<open>CamPortal\<close>, \<open>CamPortalSafety\<close>, \<open>PairingPage\<close>
    (\<open>CamPortalConfig.cpp\<close>, \<open>CamPortal.cpp\<close>, \<open>CamStream.cpp\<close>): the command channel, the card and the
    recorder, the web portal with sessions, routes and the pairing page.
  \<^item> \<open>BenchFrames\<close> (\<open>src/tools/lw-frame-gen\<close>): the frame generator of the bench, and what the bridge
    makes of each of its frames.

  \<^bold>\<open>What the lemmas show.\<close> \<^emph>\<open>Routing and delivery\<close>: a packet touches only the queues its routes allow;
  a text crosses between the two meshes with its sender; fragments and uplinks decode at the other
  end; the duplicate cache is a trace specification. \<^emph>\<open>Sending\<close>: a task transmits only through its
  gate, spaced by airtime and duty, in queue order, recovers from a lost interrupt and leaves the
  radio listening; every request to the co-processor is answered once. \<^emph>\<open>Input\<close>: both link receivers
  parse alike and resynchronise; the extractors and the dump return and stay in bounds on sane
  plaintexts, and no packet can forge a log line; whole blocks of the log never interleave.
  \<^emph>\<open>Configuration\<close>: what the form accepts is legal for chip and region; a refused form stores
  nothing; saving and loading, and showing and posting a page, are inverse where stated. \<^emph>\<open>Security\<close>:
  counters never repeat across reboots and lost writes; a command acts only when authentic, fresh
  and whitelisted; without a session the portal changes nothing. \<^emph>\<open>Start\<close>: no chip disturbs another's
  detection, enabled radios listen, tasks and bridge agree, a restarted co-processor is served again.
  Several theories end with lemmas on where the code falls short of its own comments; the manifest
  lists them as findings.

  \<^bold>\<open>Conventions and bounds.\<close> A \<open>w\<close>-bit integer is a word, so it wraps; \<open>millis()\<close> is an argument of
  each operation (or a function of the number of readings). Code that is not in the repository
  (mbedTLS, RadioLib, the web server, FreeRTOS queues, the string class, storage) is a parameter; laws
  used of it are named (\<open>crypto_laws\<close>, \<open>chip_laws\<close>, \<open>string_laws\<close>) and hold of a concrete instance in
  the witnesses. Loops are recursive functions with a termination proof; the field walk of the
  decoders may not return in the source and is a \<open>partial_function\<close>, with theorems for when it does.
  The drains of a serial port take the list of the bytes that wait, which is all the loop can read; no
  definition runs on fuel. A task's pass, a link frame and a call under a lock are single steps; \<open>ConsoleLog\<close> interleaves
  the steps of the tasks.

  \<^bold>\<open>Not modelled.\<close> Console lines other than those of \<open>ConsoleLog\<close> and \<open>PacketDump\<close>, the \<open>debugDump\<close>
  functions, headings, hints and styles of the pages and the home page's script (no state); starting
  the access points, the servers, the name server and the FreeRTOS tasks, the camera sensor's pin
  table (calls into the platform); priorities and preemption of tasks within a pass; data races on
  single variables shared by two tasks; the radio medium.
\<close>

end
